(* ===== verification/Prelude.thy ===== *)
theory Prelude
  imports Main "HOL-Library.Word" "HOL-Library.Code_Target_Nat" "HOL-Library.AList"
begin

text \<open>
  Shared vocabulary of the development: what the modelled Rust code uses of the
  language and its standard library. A Rust \<open>String\<close>, \<open>&str\<close> or \<open>&[u8]\<close> is a \<open>string\<close>
  of Isabelle, whose characters are exactly the 256 bytes; a \<open>str\<close> is the UTF-8
  encoding, so \<open>len()\<close> is \<open>length\<close> and \<open>bytes()\<close> is the list itself. Code points
  (\<open>chars()\<close>) are obtained with \<open>utf8_decode\<close>. Durations and instants are counted in
  nanoseconds as \<open>nat\<close>.
\<close>

named_theorems rust_simps
named_theorems inv_intros

type_synonym bytes = string

abbreviation code :: "char \<Rightarrow> nat" where
  "code c \<equiv> of_char c"

section \<open>ASCII classification (core::ascii, u8 and char methods)\<close>

definition is_ascii_digit :: "char \<Rightarrow> bool" where
  "is_ascii_digit c \<longleftrightarrow> 48 \<le> code c \<and> code c \<le> 57"

definition is_ascii_upper :: "char \<Rightarrow> bool" where
  "is_ascii_upper c \<longleftrightarrow> 65 \<le> code c \<and> code c \<le> 90"

definition is_ascii_lower :: "char \<Rightarrow> bool" where
  "is_ascii_lower c \<longleftrightarrow> 97 \<le> code c \<and> code c \<le> 122"

definition is_ascii_alphanumeric :: "char \<Rightarrow> bool" where
  "is_ascii_alphanumeric c \<longleftrightarrow> is_ascii_digit c \<or> is_ascii_upper c \<or> is_ascii_lower c"

definition is_ascii_hexdigit :: "char \<Rightarrow> bool" where
  "is_ascii_hexdigit c \<longleftrightarrow>
     is_ascii_digit c \<or> (65 \<le> code c \<and> code c \<le> 70) \<or> (97 \<le> code c \<and> code c \<le> 102)"

definition to_lower :: "char \<Rightarrow> char" where
  "to_lower c = (if is_ascii_upper c then char_of (code c + 32) else c)"

definition to_ascii_lowercase :: "string \<Rightarrow> string" where
  "to_ascii_lowercase s = map to_lower s"

definition eq_ignore_ascii_case :: "string \<Rightarrow> string \<Rightarrow> bool" where
  "eq_ignore_ascii_case a b \<longleftrightarrow> to_ascii_lowercase a = to_ascii_lowercase b"

definition digit_val :: "char \<Rightarrow> nat" where
  "digit_val c = code c - 48"

definition hex_val :: "char \<Rightarrow> nat" where
  "hex_val c =
     (if is_ascii_digit c then code c - 48
      else if 65 \<le> code c \<and> code c \<le> 70 then code c - 55 else code c - 87)"

section \<open>String slicing (core::str)\<close>

fun strip_prefix :: "string \<Rightarrow> string \<Rightarrow> string option" where
  "strip_prefix [] s = Some s"
| "strip_prefix (p # ps) [] = None"
| "strip_prefix (p # ps) (c # s) = (if p = c then strip_prefix ps s else None)"

definition starts_with :: "string \<Rightarrow> string \<Rightarrow> bool" where
  "starts_with p s \<longleftrightarrow> take (length p) s = p"

definition ends_with :: "string \<Rightarrow> string \<Rightarrow> bool" where
  "ends_with p s \<longleftrightarrow> length p \<le> length s \<and> drop (length s - length p) s = p"

fun split_char :: "char \<Rightarrow> string \<Rightarrow> string list" where
  "split_char c [] = [[]]"
| "split_char c (x # xs) =
     (if x = c then [] # split_char c xs
      else (case split_char c xs of [] \<Rightarrow> [[x]] | w # ws \<Rightarrow> (x # w) # ws))"

fun join :: "string \<Rightarrow> string list \<Rightarrow> string" where
  "join sep [] = []"
| "join sep [w] = w"
| "join sep (w # v # ws) = w @ sep @ join sep (v # ws)"

fun split_once :: "char \<Rightarrow> string \<Rightarrow> (string \<times> string) option" where
  "split_once c [] = None"
| "split_once c (x # xs) =
     (if x = c then Some ([], xs)
      else map_option (\<lambda>(a, b). (x # a, b)) (split_once c xs))"

definition rsplit_once :: "char \<Rightarrow> string \<Rightarrow> (string \<times> string) option" where
  "rsplit_once c s = map_option (\<lambda>(a, b). (rev b, rev a)) (split_once c (rev s))"

section \<open>UTF-8 (core::str::from_utf8 and chars)\<close>

definition cont_byte :: "char \<Rightarrow> bool" where
  "cont_byte c \<longleftrightarrow> 128 \<le> code c \<and> code c \<le> 191"

text \<open>The second byte allowed after each lead byte (the table of \<open>core::str::validations\<close>).\<close>

definition second_ok :: "char \<Rightarrow> char \<Rightarrow> bool" where
  "second_ok b0 b1 \<longleftrightarrow>
     (if code b0 = 224 then 160 \<le> code b1 \<and> code b1 \<le> 191
      else if code b0 = 237 then 128 \<le> code b1 \<and> code b1 \<le> 159
      else if code b0 = 240 then 144 \<le> code b1 \<and> code b1 \<le> 191
      else if code b0 = 244 then 128 \<le> code b1 \<and> code b1 \<le> 143
      else cont_byte b1)"

text \<open>The first code point of a byte string and the bytes after it.\<close>

definition utf8_next :: "string \<Rightarrow> (nat \<times> string) option" where
  "utf8_next s =
     (case s of [] \<Rightarrow> None | b0 # r0 \<Rightarrow>
      if code b0 < 128 then Some (code b0, r0)
      else (case r0 of [] \<Rightarrow> None | b1 # r1 \<Rightarrow>
      if \<not> second_ok b0 b1 then None
      else if 194 \<le> code b0 \<and> code b0 \<le> 223 then
        Some ((code b0 - 192) * 64 + (code b1 - 128), r1)
      else (case r1 of [] \<Rightarrow> None | b2 # r2 \<Rightarrow>
      if \<not> cont_byte b2 then None
      else if 224 \<le> code b0 \<and> code b0 \<le> 239 then
        Some ((code b0 - 224) * 4096 + (code b1 - 128) * 64 + (code b2 - 128), r2)
      else (case r2 of [] \<Rightarrow> None | b3 # r3 \<Rightarrow>
      if 240 \<le> code b0 \<and> code b0 \<le> 244 \<and> cont_byte b3 then
        Some ((code b0 - 240) * 262144 + (code b1 - 128) * 4096
                + (code b2 - 128) * 64 + (code b3 - 128), r3)
      else None))))"

lemma utf8_next_shorter: "utf8_next s = Some (cp, r) \<Longrightarrow> length r < length s"
  by (auto simp: utf8_next_def split: list.splits if_splits)

function utf8_decode :: "string \<Rightarrow> nat list option" where
  "utf8_decode s =
     (if s = [] then Some []
      else (case utf8_next s of
              None \<Rightarrow> None
            | Some (cp, r) \<Rightarrow> map_option ((#) cp) (utf8_decode r)))"
  by pat_completeness auto
termination
  by (relation "measure length") (auto simp: utf8_next_shorter)

declare utf8_decode.simps [simp del]

definition is_str :: "string \<Rightarrow> bool" where
  "is_str s \<longleftrightarrow> utf8_decode s \<noteq> None"

definition is_control :: "nat \<Rightarrow> bool" where
  "is_control cp \<longleftrightarrow> cp < 32 \<or> (127 \<le> cp \<and> cp \<le> 159)"

text \<open>\<open>char::is_whitespace\<close>: the code points with the Unicode property White_Space.\<close>

definition is_whitespace :: "nat \<Rightarrow> bool" where
  "is_whitespace cp \<longleftrightarrow>
     (9 \<le> cp \<and> cp \<le> 13) \<or> cp = 32 \<or> cp = 133 \<or> cp = 160 \<or> cp = 5760 \<or>
     (8192 \<le> cp \<and> cp \<le> 8202) \<or> cp = 8232 \<or> cp = 8233 \<or> cp = 8239 \<or> cp = 8287 \<or> cp = 12288"

definition has_control :: "string \<Rightarrow> bool" where
  "has_control s \<longleftrightarrow> (case utf8_decode s of None \<Rightarrow> False | Some cs \<Rightarrow> list_ex is_control cs)"

text \<open>\<open>str::trim\<close>: length in bytes of a white-space character at the front (at the back).\<close>

definition ws_len :: "string \<Rightarrow> nat" where
  "ws_len s = (case s of [] \<Rightarrow> 0 | a # r \<Rightarrow>
     if (9 \<le> code a \<and> code a \<le> 13) \<or> code a = 32 then 1
     else (case r of [] \<Rightarrow> 0 | b # r' \<Rightarrow>
       if code a = 194 \<and> (code b = 133 \<or> code b = 160) then 2
       else (case r' of [] \<Rightarrow> 0 | c # _ \<Rightarrow>
         if (code a = 225 \<and> code b = 154 \<and> code c = 128)
          \<or> (code a = 226 \<and> code b = 128 \<and>
              ((128 \<le> code c \<and> code c \<le> 138) \<or> code c = 168 \<or> code c = 169 \<or> code c = 175))
          \<or> (code a = 226 \<and> code b = 129 \<and> code c = 159)
          \<or> (code a = 227 \<and> code b = 128 \<and> code c = 128) then 3 else 0)))"

definition ws_len_back :: "string \<Rightarrow> nat" where
  "ws_len_back r =
     (if ws_len (take 1 r) = 1 then 1
      else if ws_len (rev (take 2 r)) = 2 then 2
      else if ws_len (rev (take 3 r)) = 3 then 3 else 0)"

function trim_start :: "string \<Rightarrow> string" where
  "trim_start s = (if ws_len s = 0 \<or> s = [] then s else trim_start (drop (ws_len s) s))"
  by pat_completeness auto
termination
  by (relation "measure length") (auto simp: length_greater_0_conv)

function trim_back :: "string \<Rightarrow> string" where
  "trim_back r = (if ws_len_back r = 0 \<or> r = [] then r else trim_back (drop (ws_len_back r) r))"
  by pat_completeness auto
termination
  by (relation "measure length") (auto simp: length_greater_0_conv)

declare trim_start.simps [simp del] trim_back.simps [simp del]

definition trim_end :: "string \<Rightarrow> string" where
  "trim_end s = rev (trim_back (rev s))"

definition trim :: "string \<Rightarrow> string" where
  "trim s = trim_end (trim_start s)"

section \<open>Integers (core::num)\<close>

definition u64_max :: nat where
  "u64_max = 18446744073709551615"

definition usize_checked_add :: "nat \<Rightarrow> nat \<Rightarrow> nat option" where
  "usize_checked_add a b = (if a + b \<le> u64_max then Some (a + b) else None)"

definition usize_checked_sub :: "nat \<Rightarrow> nat \<Rightarrow> nat option" where
  "usize_checked_sub a b = (if b \<le> a then Some (a - b) else None)"

definition checked_add :: "'a::len word \<Rightarrow> 'a word \<Rightarrow> 'a word option" where
  "checked_add a b = (if unat a + unat b < 2 ^ LENGTH('a) then Some (a + b) else None)"

definition checked_mul :: "'a::len word \<Rightarrow> 'a word \<Rightarrow> 'a word option" where
  "checked_mul a b = (if unat a * unat b < 2 ^ LENGTH('a) then Some (a * b) else None)"

definition saturating_add :: "'a::len word \<Rightarrow> 'a word \<Rightarrow> 'a word" where
  "saturating_add a b = (if unat a + unat b < 2 ^ LENGTH('a) then a + b else - 1)"

definition dec_val :: "string \<Rightarrow> nat" where
  "dec_val s = foldl (\<lambda>n c. 10 * n + digit_val c) 0 s"

text \<open>\<open>str::parse::<u64>\<close>: an optional leading plus sign, at least one digit, no overflow.\<close>

definition parse_u64 :: "string \<Rightarrow> nat option" where
  "parse_u64 s =
     (let d = (case s of c # r \<Rightarrow> if c = CHR ''+'' then r else s | [] \<Rightarrow> [])
      in if d = [] \<or> \<not> list_all is_ascii_digit d then None
         else if dec_val d \<le> u64_max then Some (dec_val d) else None)"

fun show_nat :: "nat \<Rightarrow> string" where
  "show_nat n = (if n < 10 then [char_of (48 + n)] else show_nat (n div 10) @ [char_of (48 + n mod 10)])"

declare show_nat.simps [simp del]

text \<open>
  \<open>AtomicUsize::fetch_add\<close> and \<open>fetch_sub\<close> wrap around. An \<open>Instant\<close> is its distance in
  nanoseconds from the start of the clock; \<open>instant_max\<close> is the last one the platform can represent.
\<close>

definition fetch_add :: "nat \<Rightarrow> nat \<Rightarrow> nat" where
  "fetch_add n k = (n + k) mod (u64_max + 1)"

definition fetch_sub :: "nat \<Rightarrow> nat \<Rightarrow> nat" where
  "fetch_sub n k = (n + (u64_max + 1) - k) mod (u64_max + 1)"

definition instant_checked_add :: "nat \<Rightarrow> nat \<Rightarrow> nat \<Rightarrow> nat option" where
  "instant_checked_add instant_max now d = (if now + d \<le> instant_max then Some (now + d) else None)"

section \<open>Results\<close>

text \<open>\<open>Iterator::collect\<close> into a \<open>Result\<close> of a vector: the first error wins.\<close>

fun collect_results :: "('e + 'a) list \<Rightarrow> 'e + 'a list" where
  "collect_results [] = Inr []"
| "collect_results (Inl e # rs) = Inl e"
| "collect_results (Inr x # rs) =
     (case collect_results rs of Inl e \<Rightarrow> Inl e | Inr xs \<Rightarrow> Inr (x # xs))"

text \<open>A computation that may panic, for instance by indexing a vector out of range.\<close>

datatype 'a outcome = Panic | Val 'a

definition vec_get :: "'a list \<Rightarrow> nat \<Rightarrow> 'a outcome" where
  "vec_get xs i = (if i < length xs then Val (xs ! i) else Panic)"

text \<open>\<open>Ord\<close> of \<open>Vec<u8>\<close>: lexicographic, a proper prefix is smaller.\<close>

fun vec_less :: "nat list \<Rightarrow> nat list \<Rightarrow> bool" where
  "vec_less xs [] = False"
| "vec_less [] (y # ys) = True"
| "vec_less (x # xs) (y # ys) = (x < y \<or> x = y \<and> vec_less xs ys)"

section \<open>Operations that keep an invariant\<close>

text \<open>
  The contract every stateful component of the development offers: each operation,
  given as an event applied to the state, keeps the component's invariant. Whole
  sequences of operations then keep it.
\<close>

locale invariant_system =
  fixes step :: "'s \<Rightarrow> 'e \<Rightarrow> 's"
    and inv :: "'s \<Rightarrow> bool"
  assumes step_inv: "inv s \<Longrightarrow> inv (step s e)"
begin

lemma run_inv: "inv s \<Longrightarrow> inv (foldl step s es)"
  by (induction es arbitrary: s) (auto intro: step_inv)

end

section \<open>Lemmas on the vocabulary\<close>

lemma code_less [simp]: "code c < 256"
  using of_char_mod_256 [of c] by (metis mod_less_divisor zero_less_numeral)

lemma char_of_code: "n < 256 \<Longrightarrow> code (char_of n) = n"
  by simp

lemma strip_prefix_Some: "strip_prefix p s = Some r \<longleftrightarrow> s = p @ r"
  by (induction p s rule: strip_prefix.induct) auto

lemma split_char_not_Nil [simp]: "split_char c s \<noteq> []"
  by (induction s) (auto split: list.splits)

lemma split_char_none: "c \<notin> set w \<Longrightarrow> split_char c w = [w]"
  by (induction w) auto

lemma split_char_app: "c \<notin> set w \<Longrightarrow> split_char c (w @ c # s) = w # split_char c s"
  by (induction w) auto

lemma split_char_no_sep: "w \<in> set (split_char c s) \<Longrightarrow> c \<notin> set w"
  by (induction s arbitrary: w) (auto split: list.splits if_splits)

lemma join_Cons_char: "join sep ((x # w) # ws) = x # join sep (w # ws)"
  by (cases ws) auto

lemma join_Cons: "ws \<noteq> [] \<Longrightarrow> join sep (w # ws) = w @ sep @ join sep ws"
  by (cases ws) auto

lemma join_split_char: "join [c] (split_char c s) = s"
proof (induction s)
  case (Cons x s)
  obtain w ws where "split_char c s = w # ws"
    using split_char_not_Nil [of c s] by (cases "split_char c s") auto
  with Cons show ?case by (auto simp: join_Cons_char)
qed simp

lemma split_char_append:
  "split_char c (a @ c # b) = split_char c a @ split_char c b"
  by (induction a) (auto split: list.splits)

lemma split_once_Some: "split_once c s = Some (a, b) \<longleftrightarrow> s = a @ c # b \<and> c \<notin> set a"
proof (induction s arbitrary: a)
  case (Cons x s)
  then show ?case by (cases a) auto
qed simp

lemma split_once_None: "split_once c s = None \<longleftrightarrow> c \<notin> set s"
  by (induction s) auto

lemma rsplit_once_Some: "rsplit_once c s = Some (a, b) \<longleftrightarrow> s = a @ c # b \<and> c \<notin> set b"
proof -
  have "rsplit_once c s = Some (a, b) \<longleftrightarrow> split_once c (rev s) = Some (rev b, rev a)"
    by (auto simp: rsplit_once_def)
  also have "\<dots> \<longleftrightarrow> rev s = rev b @ c # rev a \<and> c \<notin> set b"
    by (simp add: split_once_Some)
  also have "rev s = rev b @ c # rev a \<longleftrightarrow> s = a @ c # b"
    by (metis append.assoc append_Cons append_Nil rev.simps(2) rev_append rev_rev_ident)
  finally show ?thesis .
qed

lemma rsplit_once_None: "rsplit_once c s = None \<longleftrightarrow> c \<notin> set s"
  by (simp add: rsplit_once_def split_once_None)

lemma eq_ignore_ascii_case_refl [simp]: "eq_ignore_ascii_case s s"
  by (simp add: eq_ignore_ascii_case_def)

lemma collect_results_map_Inr:
  "(\<And>x. x \<in> set xs \<Longrightarrow> f x = Inr (g x)) \<Longrightarrow> collect_results (map f xs) = Inr (map g xs)"
  by (induction xs) auto

lemma collect_results_Inr_iff:
  "collect_results rs = Inr xs \<longleftrightarrow> rs = map Inr xs"
proof
  show "collect_results rs = Inr xs \<Longrightarrow> rs = map Inr xs"
    by (induction rs arbitrary: xs rule: collect_results.induct) (auto split: sum.splits)
  show "rs = map Inr xs \<Longrightarrow> collect_results rs = Inr xs"
    using collect_results_map_Inr [of xs Inr "\<lambda>x. x"] by simp
qed

section \<open>UTF-8 lemmas\<close>

lemma ascii_not_cont: "code c < 128 \<Longrightarrow> \<not> cont_byte c"
  by (simp add: cont_byte_def)

lemma ascii_not_second: "code c < 128 \<Longrightarrow> \<not> second_ok b c"
  by (simp add: second_ok_def cont_byte_def)

lemma utf8_next_append: "utf8_next a = Some (cp, r) \<Longrightarrow> utf8_next (a @ t) = Some (cp, r @ t)"
  unfolding utf8_next_def
  by (cases a; simp; cases "tl a"; simp split: if_splits; cases "tl (tl a)"; simp split: if_splits;
      cases "tl (tl (tl a))"; simp split: if_splits)

lemma utf8_next_truncated:
  assumes "code c < 128" "a \<noteq> []" "utf8_next a = None"
  shows "utf8_next (a @ c # b) = None"
  using assms unfolding utf8_next_def
  by (cases a; simp; cases "tl a"; simp add: ascii_not_second split: if_splits;
      cases "tl (tl a)"; simp add: ascii_not_cont split: if_splits;
      cases "tl (tl (tl a))"; simp add: ascii_not_cont split: if_splits)

lemma utf8_decode_Nil [simp]: "utf8_decode [] = Some []"
  by (simp add: utf8_decode.simps)

lemma utf8_decode_ascii_Cons:
  "code c < 128 \<Longrightarrow> utf8_decode (c # s) = map_option ((#) (code c)) (utf8_decode s)"
  by (subst utf8_decode.simps) (simp add: utf8_next_def)

lemma utf8_decode_append_ascii:
  assumes c: "code c < 128"
  shows "utf8_decode (a @ c # b) =
    (case utf8_decode a of None \<Rightarrow> None
     | Some xs \<Rightarrow> map_option (\<lambda>ys. xs @ code c # ys) (utf8_decode b))"
proof (induction a rule: utf8_decode.induct)
  case (1 s)
  show ?case
  proof (cases "s = []")
    case True
    then show ?thesis by (simp add: utf8_decode_ascii_Cons [OF c])
  next
    case ne: False
    show ?thesis
    proof (cases "utf8_next s")
      case None
      with ne c show ?thesis
        by (simp add: utf8_decode.simps [of s] utf8_decode.simps [of "s @ c # b"] utf8_next_truncated)
    next
      case (Some x)
      obtain cp r where x: "x = (cp, r)" by (cases x)
      with Some have "utf8_next (s @ c # b) = Some (cp, r @ c # b)"
        by (simp add: utf8_next_append)
      with 1 [OF ne Some] x Some ne show ?thesis
        by (simp add: utf8_decode.simps [of s] utf8_decode.simps [of "s @ c # b"] option.map_comp
            comp_def split: option.split)
    qed
  qed
qed

lemma is_str_append_ascii:
  "code c < 128 \<Longrightarrow> is_str (a @ c # b) \<longleftrightarrow> is_str a \<and> is_str b"
  by (auto simp: is_str_def utf8_decode_append_ascii split: option.splits)

lemma has_control_append_ascii:
  assumes "code c < 128" "is_str a" "is_str b"
  shows "has_control (a @ c # b) \<longleftrightarrow> has_control a \<or> is_control (code c) \<or> has_control b"
  using assms by (auto simp: is_str_def has_control_def utf8_decode_append_ascii)

lemma is_str_split_char:
  assumes "code c < 128"
  shows "is_str s \<Longrightarrow> w \<in> set (split_char c s) \<Longrightarrow> is_str w"
    and "is_str s \<Longrightarrow> \<not> has_control s \<Longrightarrow> w \<in> set (split_char c s) \<Longrightarrow> \<not> has_control w"
proof -
  have *: "is_str s \<longrightarrow> is_str w \<and> (\<not> has_control s \<longrightarrow> \<not> has_control w)"
    if "w \<in> set (split_char c s)" for s
    using that
  proof (induction "length s" arbitrary: s rule: less_induct)
    case less
    show ?case
    proof (cases "c \<in> set s")
      case False
      with less.prems show ?thesis by (simp add: split_char_none)
    next
      case True
      then obtain a b where s: "s = a @ c # b" and a: "c \<notin> set a"
        by (meson split_list_first)
      with less.prems consider "w = a" | "w \<in> set (split_char c b)"
        by (auto simp: split_char_app)
      then show ?thesis
        using less.hyps [of b] s assms
        by cases (auto simp: is_str_append_ascii has_control_append_ascii)
    qed
  qed
  then show "is_str s \<Longrightarrow> w \<in> set (split_char c s) \<Longrightarrow> is_str w"
    and "is_str s \<Longrightarrow> \<not> has_control s \<Longrightarrow> w \<in> set (split_char c s) \<Longrightarrow> \<not> has_control w"
    by auto
qed

section \<open>Checked arithmetic\<close>

lemma checked_add_Some:
  "checked_add a b = Some (c :: 'a::len word) \<longleftrightarrow>
     unat a + unat b < 2 ^ LENGTH('a) \<and> unat c = unat a + unat b"
  by (auto simp: checked_add_def unat_word_ariths word_unat_eq_iff)

lemma checked_mul_Some:
  "checked_mul a b = Some (c :: 'a::len word) \<longleftrightarrow>
     unat a * unat b < 2 ^ LENGTH('a) \<and> unat c = unat a * unat b"
  by (auto simp: checked_mul_def unat_word_ariths word_unat_eq_iff)

lemma digit_val_less: "is_ascii_digit c \<Longrightarrow> digit_val c < 10"
  by (auto simp: is_ascii_digit_def digit_val_def)

lemma unat_of_nat_len: "n < 2 ^ LENGTH('a) \<Longrightarrow> unat (of_nat n :: 'a::len word) = n"
  by (simp add: unsigned_of_nat take_bit_nat_eq_self)

lemma dec_foldl_mono: "n \<le> foldl (\<lambda>n c. 10 * n + digit_val c) n s"
proof (induction s arbitrary: n)
  case (Cons c s)
  from Cons.IH [of "10 * n + digit_val c"] show ?case by simp
qed simp

lemma show_nat_digits: "list_all is_ascii_digit (show_nat n)"
proof (induction n rule: show_nat.induct)
  case (1 n)
  have digit: "is_ascii_digit (char_of (48 + k))" if "k < 10" for k :: nat
    using that by (simp add: is_ascii_digit_def)
  show ?case using 1 digit [of n] digit [of "n mod 10"] by (subst show_nat.simps) simp
qed

section \<open>Association lists\<close>

lemma length_update:
  "distinct (map fst es) \<Longrightarrow>
     length (AList.update k v es) = (if map_of es k = None then Suc (length es) else length es)"
  by (induction es) auto

lemma length_delete:
  "distinct (map fst es) \<Longrightarrow> map_of es k = Some v \<Longrightarrow> Suc (length (AList.delete k es)) = length es"
proof (induction es)
  case (Cons p es)
  show ?case
  proof (cases "fst p = k")
    case True
    with Cons.prems(1) have "k \<notin> fst ` set es" by auto
    then have "AList.delete k es = es" by (simp add: delete_id)
    with True show ?thesis by simp
  next
    case False
    with Cons show ?thesis by auto
  qed
qed simp

end
