(* ===== verification/Route_Pattern.thy ===== *)
theory Route_Pattern
  imports Prelude
begin

text \<open>
  Route patterns (\<open>src/app/router.rs\<close>): parsing and validating a pattern such as
  \<open>/users/:id\<close>, rendering it back, joining a mount prefix, decoding and matching a
  request path, and building a URL from a pattern. Percent decoding is the
  third-party crate \<open>percent_encoding\<close>: the definitions that call it take the decoder
  \<open>pd\<close> as an argument, and \<open>percent_decoder pd\<close> states its documented behaviour. An error
  is modelled by its kind; the message text is display only.
\<close>

section \<open>Data\<close>

datatype Segment =
    is_Static: Static string
  | is_Param: Param string
  | is_Wildcard: Wildcard string

datatype ConflictSegment = CStatic string | CParam | CWildcard

record RoutePattern =
  rendered :: string
  segments :: "Segment list"
  parameter_names :: "string list"
  conflict_key :: "ConflictSegment list"

datatype RouteErrorKind =
    MissingLeadingSlash | EmptyParameter | InvalidParameter | DuplicateParameter
  | NonTerminalWildcard | TooManySegments | DuplicateRoute | ConflictingPattern
  | DuplicateName | InvalidHostPattern | MissingUrlParameter | UnexpectedUrlParameter
  | InvalidPercentEncoding | InvalidStaticRoot | InvalidStaticOptions | UnsupportedMethod

datatype RouteMatchErrorKind = MatchInvalidPathEncoding | MatchTooManySegments

definition MAX_PATH_SEGMENTS :: nat where
  "MAX_PATH_SEGMENTS = 256"

section \<open>Percent coding\<close>

definition percent_decoder :: "(string \<Rightarrow> string) \<Rightarrow> bool" where
  "percent_decoder pd \<longleftrightarrow>
     pd [] = [] \<and>
     (\<forall>c s. c \<noteq> CHR ''%'' \<longrightarrow> pd (c # s) = c # pd s) \<and>
     (\<forall>a b s. is_ascii_hexdigit a \<longrightarrow> is_ascii_hexdigit b \<longrightarrow>
        pd (CHR ''%'' # a # b # s) = char_of (16 * hex_val a + hex_val b) # pd s)"

fun percent_triplets_ok :: "string \<Rightarrow> bool" where
  "percent_triplets_ok [] = True"
| "percent_triplets_ok (c # s) =
     (if c = CHR ''%'' then
        (case s of
           a # b # r \<Rightarrow> is_ascii_hexdigit a \<and> is_ascii_hexdigit b \<and> percent_triplets_ok r
         | _ \<Rightarrow> False)
      else percent_triplets_ok s)"

definition validate_percent_triplets :: "string \<Rightarrow> RouteMatchErrorKind + unit" where
  "validate_percent_triplets s =
     (if percent_triplets_ok s then Inr () else Inl MatchInvalidPathEncoding)"

definition decode_route_static_segment ::
  "(string \<Rightarrow> string) \<Rightarrow> string \<Rightarrow> RouteErrorKind + string" where
  "decode_route_static_segment pd raw =
     (if \<not> percent_triplets_ok raw then Inl InvalidPercentEncoding
      else if \<not> is_str (pd raw) then Inl InvalidPercentEncoding
      else if has_control (pd raw) then Inl InvalidPercentEncoding
      else Inr (pd raw))"

definition hex_upper :: "nat \<Rightarrow> char" where
  "hex_upper n = (if n < 10 then char_of (48 + n) else char_of (55 + n))"

definition unreserved :: "char \<Rightarrow> bool" where
  "unreserved c \<longleftrightarrow> is_ascii_alphanumeric c \<or> c \<in> {CHR ''-'', CHR ''.'', CHR ''_'', CHR ''~''}"

fun encode_path_segment :: "string \<Rightarrow> string" where
  "encode_path_segment [] = []"
| "encode_path_segment (c # s) =
     (if unreserved c then c # encode_path_segment s
      else CHR ''%'' # hex_upper (code c div 16) # hex_upper (code c mod 16)
             # encode_path_segment s)"

section \<open>Parsing, validating and rendering patterns\<close>

definition path_segments :: "string \<Rightarrow> string list" where
  "path_segments path = filter (\<lambda>s. s \<noteq> []) (split_char (CHR ''/'') path)"

definition param_char :: "char \<Rightarrow> bool" where
  "param_char c \<longleftrightarrow> is_ascii_alphanumeric c \<or> c = CHR ''_'' \<or> c = CHR ''-''"

text \<open>The state threaded by \<open>validate_parameter_name\<close> is the set \<open>seen\<close> and the names so far.\<close>

definition validate_parameter_name ::
  "string \<Rightarrow> string set \<times> string list \<Rightarrow> RouteErrorKind + (string set \<times> string list)" where
  "validate_parameter_name name st =
     (if name = [] then Inl EmptyParameter
      else if \<not> list_all param_char name then Inl InvalidParameter
      else if name \<in> fst st then Inl DuplicateParameter
      else Inr (insert name (fst st), snd st @ [name]))"

fun render_segment :: "Segment \<Rightarrow> string" where
  "render_segment (Static s) = encode_path_segment s"
| "render_segment (Param n) = CHR '':'' # n"
| "render_segment (Wildcard n) = CHR ''*'' # n"

definition render_pattern :: "Segment list \<Rightarrow> string" where
  "render_pattern segs =
     (if segs = [] then ''/'' else concat (map (\<lambda>s. CHR ''/'' # render_segment s) segs))"

fun conflict_segment :: "Segment \<Rightarrow> ConflictSegment" where
  "conflict_segment (Static s) = CStatic s"
| "conflict_segment (Param n) = CParam"
| "conflict_segment (Wildcard n) = CWildcard"

definition from_validated_segments :: "Segment list \<Rightarrow> string list \<Rightarrow> RoutePattern" where
  "from_validated_segments segs names =
     \<lparr>rendered = render_pattern segs, segments = segs, parameter_names = names,
      conflict_key = map conflict_segment segs\<rparr>"

text \<open>The loop of \<open>RoutePattern::parse\<close>; a non-final index is a non-empty rest.\<close>

fun parse_segments ::
  "(string \<Rightarrow> string) \<Rightarrow> string list \<Rightarrow> string set \<times> string list \<Rightarrow> Segment list \<Rightarrow>
     RouteErrorKind + (Segment list \<times> string list)" where
  "parse_segments pd [] st segs = Inr (segs, snd st)"
| "parse_segments pd (raw # rest) st segs =
     (case strip_prefix '':'' raw of
        Some name \<Rightarrow>
          (case validate_parameter_name name st of
             Inl e \<Rightarrow> Inl e
           | Inr st' \<Rightarrow> parse_segments pd rest st' (segs @ [Param name]))
      | None \<Rightarrow>
          (case strip_prefix ''*'' raw of
             Some name \<Rightarrow>
               if rest \<noteq> [] then Inl NonTerminalWildcard
               else (case validate_parameter_name name st of
                       Inl e \<Rightarrow> Inl e
                     | Inr st' \<Rightarrow> parse_segments pd rest st' (segs @ [Wildcard name]))
           | None \<Rightarrow>
               (case decode_route_static_segment pd raw of
                  Inl e \<Rightarrow> Inl e
                | Inr s \<Rightarrow> parse_segments pd rest st (segs @ [Static s]))))"

definition parse :: "(string \<Rightarrow> string) \<Rightarrow> string \<Rightarrow> RouteErrorKind + RoutePattern" where
  "parse pd path =
     (if \<not> starts_with ''/'' path then Inl MissingLeadingSlash
      else let raw_segments = path_segments path in
        if length raw_segments > MAX_PATH_SEGMENTS then Inl TooManySegments
        else (case parse_segments pd raw_segments ({}, []) [] of
                Inl e \<Rightarrow> Inl e
              | Inr (segs, names) \<Rightarrow> Inr (from_validated_segments segs names)))"

fun validate_loop ::
  "Segment list \<Rightarrow> string set \<times> string list \<Rightarrow> RouteErrorKind + string list" where
  "validate_loop [] st = Inr (snd st)"
| "validate_loop (Param name # rest) st =
     (case validate_parameter_name name st of
        Inl e \<Rightarrow> Inl e | Inr st' \<Rightarrow> validate_loop rest st')"
| "validate_loop (Wildcard name # rest) st =
     (if rest \<noteq> [] then Inl NonTerminalWildcard
      else (case validate_parameter_name name st of
              Inl e \<Rightarrow> Inl e | Inr st' \<Rightarrow> validate_loop rest st'))"
| "validate_loop (Static s # rest) st = validate_loop rest st"

definition validate_segments :: "Segment list \<Rightarrow> RouteErrorKind + RoutePattern" where
  "validate_segments segs =
     (if length segs > MAX_PATH_SEGMENTS then Inl TooManySegments
      else (case validate_loop segs ({}, []) of
              Inl e \<Rightarrow> Inl e
            | Inr names \<Rightarrow> Inr (from_validated_segments segs names)))"

definition pattern_join :: "RoutePattern \<Rightarrow> RoutePattern \<Rightarrow> RouteErrorKind + RoutePattern" where
  "pattern_join prefix suffix = validate_segments (segments prefix @ segments suffix)"

section \<open>Decoding and matching a request path\<close>

definition decode_path_segment ::
  "(string \<Rightarrow> string) \<Rightarrow> string \<Rightarrow> RouteMatchErrorKind + string" where
  "decode_path_segment pd seg =
     (case validate_percent_triplets seg of
        Inl e \<Rightarrow> Inl e
      | Inr _ \<Rightarrow>
          if \<not> is_str (pd seg) then Inl MatchInvalidPathEncoding
          else if has_control (pd seg) then Inl MatchInvalidPathEncoding
          else Inr (pd seg))"

definition decode_path_segments ::
  "(string \<Rightarrow> string) \<Rightarrow> string \<Rightarrow> RouteMatchErrorKind + string list" where
  "decode_path_segments pd path =
     (let segs = path_segments path in
        if length segs > MAX_PATH_SEGMENTS then Inl MatchTooManySegments
        else collect_results (map (decode_path_segment pd) segs))"

fun match_loop ::
  "Segment list \<Rightarrow> string list \<Rightarrow> (string \<rightharpoonup> string) \<Rightarrow> (string \<rightharpoonup> string) option" where
  "match_loop [] segs params = (if segs \<noteq> [] then None else Some params)"
| "match_loop (Wildcard name # rest) segs params =
     (if rest \<noteq> [] then None else Some (params(name \<mapsto> join ''/'' segs)))"
| "match_loop (Static s # rest) segs params =
     (case segs of
        [] \<Rightarrow> None
      | actual # segs' \<Rightarrow> if s = actual then match_loop rest segs' params else None)"
| "match_loop (Param name # rest) segs params =
     (case segs of
        [] \<Rightarrow> None
      | actual # segs' \<Rightarrow> match_loop rest segs' (params(name \<mapsto> actual)))"

definition match_decoded_pattern ::
  "Segment list \<Rightarrow> string list \<Rightarrow> (string \<rightharpoonup> string) option" where
  "match_decoded_pattern pattern segs = match_loop pattern segs Map.empty"

section \<open>URL generation\<close>

fun build_loop ::
  "(string \<rightharpoonup> string) \<Rightarrow> Segment list \<Rightarrow> string \<Rightarrow> RouteErrorKind + string" where
  "build_loop params [] out = Inr out"
| "build_loop params (Static value # rest) out =
     build_loop params rest (out @ ''/'' @ encode_path_segment value)"
| "build_loop params (Param name # rest) out =
     (let value = the (params name) in
        if value = [] then Inl MissingUrlParameter
        else build_loop params rest (out @ ''/'' @ encode_path_segment value))"
| "build_loop params (Wildcard name # rest) out =
     (let value = the (params name) in
        build_loop params rest
          (out @ ''/'' @ join ''/'' (map encode_path_segment
                                     (filter (\<lambda>s. s \<noteq> []) (split_char (CHR ''/'') value)))))"

text \<open>
  \<open>params\<close> is the caller's iterator of pairs; collecting it into a \<open>HashMap\<close> keeps the last
  value of a repeated key. The two checks before the loop make every \<open>the\<close> of the loop defined.
\<close>

definition build_url :: "RoutePattern \<Rightarrow> (string \<times> string) list \<Rightarrow> RouteErrorKind + string" where
  "build_url pattern kvs =
     (let params = map_of (rev kvs);
          expected = set (parameter_names pattern)
      in if \<not> (\<forall>n \<in> expected. params n \<noteq> None) then Inl MissingUrlParameter
         else if \<not> (\<forall>k \<in> set (map fst kvs). k \<in> expected) then Inl UnexpectedUrlParameter
         else if segments pattern = [] then Inr ''/''
         else build_loop params (segments pattern) [])"

section \<open>Well-formed patterns\<close>

fun seg_name :: "Segment \<Rightarrow> string list" where
  "seg_name (Static s) = []"
| "seg_name (Param n) = [n]"
| "seg_name (Wildcard n) = [n]"

definition seg_names :: "Segment list \<Rightarrow> string list" where
  "seg_names segs = concat (map seg_name segs)"

definition name_ok :: "string \<Rightarrow> bool" where
  "name_ok n \<longleftrightarrow> n \<noteq> [] \<and> list_all param_char n"

definition static_ok :: "string \<Rightarrow> bool" where
  "static_ok s \<longleftrightarrow> s \<noteq> [] \<and> is_str s \<and> \<not> has_control s"

fun seg_ok :: "Segment \<Rightarrow> bool" where
  "seg_ok (Static s) = static_ok s"
| "seg_ok (Param n) = name_ok n"
| "seg_ok (Wildcard n) = name_ok n"

fun wild_last :: "Segment list \<Rightarrow> bool" where
  "wild_last [] = True"
| "wild_last (s # rest) = ((is_Wildcard s \<longrightarrow> rest = []) \<and> wild_last rest)"

definition wf_segments :: "Segment list \<Rightarrow> bool" where
  "wf_segments segs \<longleftrightarrow>
     length segs \<le> MAX_PATH_SEGMENTS \<and> list_all seg_ok segs \<and>
     distinct (seg_names segs) \<and> wild_last segs"

definition wf_pattern :: "RoutePattern \<Rightarrow> bool" where
  "wf_pattern p \<longleftrightarrow>
     wf_segments (segments p) \<and>
     p = from_validated_segments (segments p) (seg_names (segments p))"

lemma seg_names_simps [simp]:
  "seg_names [] = []"
  "seg_names (s # segs) = seg_name s @ seg_names segs"
  "seg_names (segs @ segs') = seg_names segs @ seg_names segs'"
  by (auto simp: seg_names_def)

lemma from_validated_segments_sel [simp]:
  "segments (from_validated_segments segs names) = segs"
  "parameter_names (from_validated_segments segs names) = names"
  "rendered (from_validated_segments segs names) = render_pattern segs"
  "conflict_key (from_validated_segments segs names) = map conflict_segment segs"
  by (simp_all add: from_validated_segments_def)

lemma wf_patternD:
  assumes "wf_pattern p"
  shows "parameter_names p = seg_names (segments p)"
    and "rendered p = render_pattern (segments p)"
    and "conflict_key p = map conflict_segment (segments p)"
    and "wf_segments (segments p)"
  using assms unfolding wf_pattern_def by (metis from_validated_segments_sel)+

lemma validate_parameter_name_Inr:
  "validate_parameter_name name (set ns, ns) = Inr st \<longleftrightarrow>
     name_ok name \<and> name \<notin> set ns \<and> st = (set (ns @ [name]), ns @ [name])"
  by (auto simp: validate_parameter_name_def name_ok_def)

lemma validate_loop_Inr:
  "distinct ns \<Longrightarrow>
   validate_loop segs (set ns, ns) = Inr names \<longleftrightarrow>
     list_all (\<lambda>s. case s of Static _ \<Rightarrow> True | _ \<Rightarrow> seg_ok s) segs \<and>
     distinct (ns @ seg_names segs) \<and> wild_last segs \<and> names = ns @ seg_names segs"
proof (induction segs arbitrary: ns)
  case (Cons s segs)
  show ?case
  proof (cases s)
    case (Static x)
    with Cons show ?thesis by simp
  next
    case (Param n)
    show ?thesis
    proof (cases "name_ok n \<and> n \<notin> set ns")
      case True
      then have "validate_parameter_name n (set ns, ns) = Inr (set (ns @ [n]), ns @ [n])"
        by (simp add: validate_parameter_name_Inr)
      with True Param Cons.IH [of "ns @ [n]"] Cons.prems show ?thesis by auto
    next
      case False
      then obtain e where "validate_parameter_name n (set ns, ns) = Inl e"
        by (cases "validate_parameter_name n (set ns, ns)") (auto simp: validate_parameter_name_Inr)
      with False Param show ?thesis by auto
    qed
  next
    case (Wildcard n)
    show ?thesis
    proof (cases "name_ok n \<and> n \<notin> set ns \<and> segs = []")
      case True
      then have "validate_parameter_name n (set ns, ns) = Inr (set (ns @ [n]), ns @ [n])"
        by (simp add: validate_parameter_name_Inr)
      with True Wildcard Cons.prems show ?thesis by auto
    next
      case False
      then show ?thesis
        using Wildcard
        by (cases "validate_parameter_name n (set ns, ns)") (auto simp: validate_parameter_name_Inr)
    qed
  qed
qed auto

lemma validate_segments_Inr:
  assumes "list_all seg_ok segs"
  shows "validate_segments segs = Inr p \<longleftrightarrow>
     wf_segments segs \<and> p = from_validated_segments segs (seg_names segs)"
proof -
  have "list_all (\<lambda>s. case s of Static _ \<Rightarrow> True | _ \<Rightarrow> seg_ok s) segs"
    using assms by (auto simp: list_all_iff split: Segment.split)
  then have loop: "validate_loop segs ({}, []) = Inr names \<longleftrightarrow>
      distinct (seg_names segs) \<and> wild_last segs \<and> names = seg_names segs" for names
    using validate_loop_Inr [of "[]" segs names] by simp
  show ?thesis
  proof (cases "validate_loop segs ({}, [])")
    case (Inl e)
    with loop show ?thesis by (auto simp: validate_segments_def wf_segments_def)
  next
    case (Inr names)
    with loop [of names] assms show ?thesis by (auto simp: validate_segments_def wf_segments_def)
  qed
qed

section \<open>Percent coding round trip\<close>

lemma percent_decoderD:
  assumes "percent_decoder pd"
  shows "pd [] = []"
    and "c \<noteq> CHR ''%'' \<Longrightarrow> pd (c # s) = c # pd s"
    and "is_ascii_hexdigit a \<Longrightarrow> is_ascii_hexdigit b \<Longrightarrow>
           pd (CHR ''%'' # a # b # s) = char_of (16 * hex_val a + hex_val b) # pd s"
  using assms by (auto simp: percent_decoder_def)

lemma hex_upper_code: "n < 16 \<Longrightarrow> code (hex_upper n) = (if n < 10 then 48 + n else 55 + n)"
  by (simp add: hex_upper_def)

lemma hex_upper_hexdigit: "n < 16 \<Longrightarrow> is_ascii_hexdigit (hex_upper n)"
  by (simp add: hex_upper_code is_ascii_hexdigit_def is_ascii_digit_def)

lemma hex_val_hex_upper: "n < 16 \<Longrightarrow> hex_val (hex_upper n) = n"
  by (simp add: hex_upper_code hex_val_def is_ascii_digit_def)

lemma hexdigit_not_slash: "is_ascii_hexdigit c \<Longrightarrow> c \<noteq> CHR ''/''"
  by (rule notI) (simp add: is_ascii_hexdigit_def is_ascii_digit_def)

lemma unreserved_not_special:
  "unreserved c \<Longrightarrow> c \<notin> {CHR ''%'', CHR ''/'', CHR '':'', CHR ''*''}"
  by (rule notI) (elim insertE emptyE;
    simp add: unreserved_def is_ascii_alphanumeric_def is_ascii_digit_def is_ascii_upper_def
      is_ascii_lower_def)

lemma code_div_mod: "code c div 16 < 16" "code c mod 16 < 16"
  using code_less [of c] by (auto simp: less_mult_imp_div_less simp del: code_less)

lemma char_of_div_mod: "char_of (16 * (code c div 16) + code c mod 16) = c"
  by simp

lemma pd_encode:
  assumes "percent_decoder pd"
  shows "pd (encode_path_segment s @ t) = s @ pd t"
proof (induction s)
  case (Cons c s)
  show ?case
  proof (cases "unreserved c")
    case True
    then have "c \<noteq> CHR ''%''" using unreserved_not_special by blast
    with True Cons show ?thesis by (simp add: percent_decoderD(2) [OF assms])
  next
    case False
    have "pd (encode_path_segment (c # s) @ t) =
        char_of (16 * (code c div 16) + code c mod 16) # pd (encode_path_segment s @ t)"
      using False
      by (simp only: encode_path_segment.simps append_Cons if_False percent_decoderD(3) [OF assms]
          hex_upper_hexdigit code_div_mod hex_val_hex_upper)
    with Cons show ?thesis by (simp only: char_of_div_mod append_Cons)
  qed
qed simp

lemma triplets_encode: "percent_triplets_ok (encode_path_segment s)"
proof (induction s)
  case (Cons c s)
  then show ?case
    using unreserved_not_special [of c] by (simp add: hex_upper_hexdigit code_div_mod)
qed simp

lemma encode_chars:
  "x \<in> set (encode_path_segment s) \<Longrightarrow> unreserved x \<or> x = CHR ''%'' \<or> is_ascii_hexdigit x"
proof (induction s)
  case (Cons c s)
  let ?h = "hex_upper (code c div 16)" and ?l = "hex_upper (code c mod 16)"
  have hl: "is_ascii_hexdigit ?h" "is_ascii_hexdigit ?l"
    by (rule hex_upper_hexdigit, rule code_div_mod)+
  consider "x = c" "unreserved c" | "x = CHR ''%''" | "x = ?h" | "x = ?l"
    | "x \<in> set (encode_path_segment s)"
    using Cons.prems by (cases "unreserved c") (simp_all only: encode_path_segment.simps if_True
        if_False list.set insert_iff; elim disjE; simp only:)+
  then show ?case
    by cases (use hl Cons.IH in \<open>simp_all only:\<close>, iprover+)
qed simp

lemma slash_notin_encode: "CHR ''/'' \<notin> set (encode_path_segment s)"
proof
  assume "CHR ''/'' \<in> set (encode_path_segment s)"
  from encode_chars [OF this] consider "unreserved (CHR ''/'')" | "CHR ''/'' = CHR ''%''"
    | "is_ascii_hexdigit (CHR ''/'')" by blast
  then show False
  proof cases
    case 1
    from unreserved_not_special [OF this] show False by blast
  next
    case 2
    then show False by simp
  next
    case 3
    from hexdigit_not_slash [OF this] show False by blast
  qed
qed

lemma encode_eq_Nil [simp]: "encode_path_segment s = [] \<longleftrightarrow> s = []"
  by (cases s) auto

lemma pd_nonempty:
  assumes pd: "percent_decoder pd" and ok: "percent_triplets_ok s" and "s \<noteq> []"
  shows "pd s \<noteq> []"
proof -
  from \<open>s \<noteq> []\<close> obtain c r where s: "s = c # r" by (cases s) auto
  show ?thesis
  proof (cases "c = CHR ''%''")
    case True
    with ok s obtain a b t where "r = a # b # t" "is_ascii_hexdigit a" "is_ascii_hexdigit b"
      by (simp split: list.splits)
    with s True percent_decoderD(3) [OF pd] show ?thesis by simp
  next
    case False
    with s percent_decoderD(2) [OF pd] show ?thesis by simp
  qed
qed

section \<open>Parsing yields, and rendering restores, well-formed patterns\<close>

lemma decode_route_static_segment_Inr:
  "decode_route_static_segment pd raw = Inr s \<longleftrightarrow>
     percent_triplets_ok raw \<and> s = pd raw \<and> is_str s \<and> \<not> has_control s"
  by (auto simp: decode_route_static_segment_def)

lemma parse_segments_sound:
  assumes pd: "percent_decoder pd"
    and "parse_segments pd raws (set ns, ns) acc = Inr (segs, names)"
    and "distinct ns" and "\<forall>r \<in> set raws. r \<noteq> []"
  shows "\<exists>segs'. segs = acc @ segs' \<and> length segs' = length raws \<and> list_all seg_ok segs' \<and>
    distinct (ns @ seg_names segs') \<and> wild_last segs' \<and> names = ns @ seg_names segs'"
  using assms(2-)
proof (induction raws arbitrary: ns acc)
  case Nil
  then show ?case by simp
next
  case (Cons raw raws)
  have step: ?case
    if "parse_segments pd raws (set ns', ns') (acc @ [s]) = Inr (segs, names)"
      and "distinct ns'" and "seg_ok s" and "ns' = ns @ seg_name s"
      and "is_Wildcard s \<longrightarrow> raws = []" for s ns'
  proof -
    from Cons.IH [OF that(1) that(2)] Cons.prems(3) obtain segs' where
      "segs = acc @ [s] @ segs'" "length segs' = length raws" "list_all seg_ok segs'"
      "distinct (ns' @ seg_names segs')" "wild_last segs'" "names = ns' @ seg_names segs'"
      by auto
    with that(3-) show ?thesis by (intro exI [of _ "s # segs'"]) auto
  qed
  show ?case
  proof (cases "strip_prefix '':'' raw")
    case (Some name)
    with Cons.prems(1) obtain st' where v: "validate_parameter_name name (set ns, ns) = Inr st'"
      and p: "parse_segments pd raws st' (acc @ [Param name]) = Inr (segs, names)"
      by (auto split: sum.splits)
    from v have "st' = (set (ns @ [name]), ns @ [name])" "name_ok name" "name \<notin> set ns"
      by (auto simp: validate_parameter_name_Inr)
    with p Cons.prems(2) show ?thesis by (intro step [of "ns @ [name]" "Param name"]) auto
  next
    case no_colon: None
    show ?thesis
    proof (cases "strip_prefix ''*'' raw")
      case (Some name)
      with no_colon Cons.prems(1) obtain st' where "raws = []"
        and v: "validate_parameter_name name (set ns, ns) = Inr st'"
        and p: "parse_segments pd raws st' (acc @ [Wildcard name]) = Inr (segs, names)"
        by (auto split: sum.splits if_splits)
      from v have "st' = (set (ns @ [name]), ns @ [name])" "name_ok name" "name \<notin> set ns"
        by (auto simp: validate_parameter_name_Inr)
      with p \<open>raws = []\<close> Cons.prems(2) show ?thesis
        by (intro step [of "ns @ [name]" "Wildcard name"]) auto
    next
      case None
      with no_colon Cons.prems(1) obtain s where
        d: "decode_route_static_segment pd raw = Inr s"
        and p: "parse_segments pd raws (set ns, ns) (acc @ [Static s]) = Inr (segs, names)"
        by (auto split: sum.splits)
      from d Cons.prems(3) pd_nonempty [OF pd, of raw] have "static_ok s"
        by (auto simp: decode_route_static_segment_Inr static_ok_def)
      with p Cons.prems(2) show ?thesis by (intro step [of ns "Static s"]) auto
    qed
  qed
qed

lemma encode_no_marker:
  "strip_prefix '':'' (encode_path_segment s) = None"
  "strip_prefix ''*'' (encode_path_segment s) = None"
proof -
  have "x \<notin> {CHR '':'', CHR ''*''}" if "encode_path_segment s = x # r" for x r
    using that unreserved_not_special by (cases s) (auto split: if_splits)
  then show "strip_prefix '':'' (encode_path_segment s) = None"
    "strip_prefix ''*'' (encode_path_segment s) = None"
    by (cases "encode_path_segment s"; auto)+
qed

lemma parse_segments_render:
  assumes pd: "percent_decoder pd"
  shows "list_all seg_ok segs \<Longrightarrow> distinct (ns @ seg_names segs) \<Longrightarrow> wild_last segs \<Longrightarrow>
    parse_segments pd (map render_segment segs) (set ns, ns) acc =
      Inr (acc @ segs, ns @ seg_names segs)"
proof (induction segs arbitrary: ns acc)
  case (Cons s segs)
  show ?case
  proof (cases s)
    case (Static x)
    with Cons.prems(1) have "decode_route_static_segment pd (encode_path_segment x) = Inr x"
      using pd_encode [OF pd, of x "[]"] percent_decoderD(1) [OF pd]
      by (auto simp: decode_route_static_segment_Inr triplets_encode static_ok_def)
    with Static Cons show ?thesis by (simp add: encode_no_marker)
  next
    case (Param n)
    with Cons.prems have "validate_parameter_name n (set ns, ns) = Inr (set (ns @ [n]), ns @ [n])"
      by (simp add: validate_parameter_name_Inr)
    with Param Cons.prems Cons.IH [of "ns @ [n]"] show ?thesis by simp
  next
    case (Wildcard n)
    with Cons.prems have "validate_parameter_name n (set ns, ns) = Inr (set (ns @ [n]), ns @ [n])"
      by (simp add: validate_parameter_name_Inr)
    with Wildcard Cons.prems show ?thesis by simp
  qed
qed simp

lemma path_segments_slash [simp]: "path_segments (CHR ''/'' # s) = path_segments s"
  by (simp add: path_segments_def)

lemma path_segments_Nil [simp]: "path_segments [] = []"
  by (simp add: path_segments_def)

lemma path_segments_append:
  "path_segments (a @ CHR ''/'' # b) = path_segments a @ path_segments b"
  by (simp add: path_segments_def split_char_append)

lemma path_segments_word: "CHR ''/'' \<notin> set w \<Longrightarrow> path_segments w = (if w = [] then [] else [w])"
  by (simp add: path_segments_def split_char_none)

lemma path_segments_concat:
  "\<forall>w \<in> set ws. w \<noteq> [] \<and> CHR ''/'' \<notin> set w \<Longrightarrow>
     path_segments (concat (map (\<lambda>w. CHR ''/'' # w) ws)) = ws"
proof (induction ws)
  case (Cons w ws)
  have "path_segments (w @ concat (map ((#) (CHR ''/'')) ws)) = w # ws"
    using Cons
    by (cases ws) (auto simp: path_segments_word path_segments_append)
  then show ?case by simp
qed simp

lemma param_char_not_slash: "param_char c \<Longrightarrow> c \<noteq> CHR ''/''"
  by (rule notI) (simp add: param_char_def is_ascii_alphanumeric_def is_ascii_digit_def
      is_ascii_upper_def is_ascii_lower_def)

lemma render_segment_word:
  "seg_ok s \<Longrightarrow> render_segment s \<noteq> [] \<and> CHR ''/'' \<notin> set (render_segment s)"
  by (cases s)
    (auto simp: slash_notin_encode static_ok_def name_ok_def list_all_iff dest: param_char_not_slash)

lemma path_segments_render:
  "list_all seg_ok segs \<Longrightarrow> path_segments (render_pattern segs) = map render_segment segs"
  using path_segments_concat [of "map render_segment segs"] render_segment_word
  by (auto simp: render_pattern_def list_all_iff comp_def)

lemma parse_wf_pattern:
  assumes "percent_decoder pd" and "parse pd path = Inr p"
  shows "wf_pattern p"
proof -
  from assms(2) obtain segs names where len: "length (path_segments path) \<le> MAX_PATH_SEGMENTS"
    and ps: "parse_segments pd (path_segments path) ({}, []) [] = Inr (segs, names)"
    and p: "p = from_validated_segments segs names"
    by (auto simp: parse_def Let_def split: if_splits sum.splits)
  have "\<forall>r \<in> set (path_segments path). r \<noteq> []" by (simp add: path_segments_def)
  with parse_segments_sound [OF assms(1), of "path_segments path" "[]" "[]" segs names] ps len p
  show ?thesis by (auto simp: wf_pattern_def wf_segments_def)
qed

text \<open>
  Whatever \<open>RoutePattern::parse\<close> accepts is well formed: at most 256 segments, valid
  and pairwise different parameter names, a wildcard only at the end, non-empty decoded
  literals without control characters, and a rendering, name list and conflict key that
  agree with the segments.
\<close>

theorem parse_yields_wf_pattern:
  assumes "percent_decoder pd" and "parse pd path = Inr p"
  shows "wf_pattern p"
  using assms by (rule parse_wf_pattern)

text \<open>
  Rendering and parsing are inverse on well-formed patterns: parsing the canonical
  text of a pattern gives back the same pattern, so literals that contain a slash, a colon
  or an asterisk survive the round trip through their percent encoding.
\<close>

theorem parse_rendered_roundtrip:
  assumes "percent_decoder pd" and "wf_pattern p"
  shows "parse pd (rendered p) = Inr p"
proof -
  let ?segs = "segments p"
  from assms(2) have wf: "wf_segments ?segs" and p: "p = from_validated_segments ?segs (seg_names ?segs)"
    by (auto simp: wf_pattern_def)
  from wf have "path_segments (render_pattern ?segs) = map render_segment ?segs"
    by (simp add: wf_segments_def path_segments_render)
  moreover have "starts_with ''/'' (render_pattern ?segs)"
    by (cases ?segs) (auto simp: render_pattern_def starts_with_def)
  moreover from wf have "parse_segments pd (map render_segment ?segs) ({}, []) [] =
      Inr (?segs, seg_names ?segs)"
    using parse_segments_render [OF assms(1), of ?segs "[]" "[]"] by (simp add: wf_segments_def)
  ultimately have "parse pd (render_pattern ?segs) = Inr (from_validated_segments ?segs (seg_names ?segs))"
    using wf by (simp add: parse_def wf_segments_def)
  with p wf_patternD(2) [OF assms(2)] show ?thesis by simp
qed

lemma pattern_join_Inr:
  assumes "wf_pattern p" "wf_pattern q"
  shows "pattern_join p q = Inr r \<longleftrightarrow>
    wf_segments (segments p @ segments q) \<and>
    r = from_validated_segments (segments p @ segments q) (seg_names (segments p @ segments q))"
  using assms validate_segments_Inr [of "segments p @ segments q" r]
  by (simp add: pattern_join_def wf_pattern_def wf_segments_def)

lemma pattern_join_wf:
  "wf_pattern p \<Longrightarrow> wf_pattern q \<Longrightarrow> pattern_join p q = Inr r \<Longrightarrow> wf_pattern r"
  by (auto simp: pattern_join_Inr wf_pattern_def)

section \<open>URL generation is inverted by matching\<close>

text \<open>The decoded path segments that a pattern segment contributes to a generated URL.\<close>

fun seg_values :: "(string \<rightharpoonup> string) \<Rightarrow> Segment \<Rightarrow> string list" where
  "seg_values params (Static s) = [s]"
| "seg_values params (Param n) = [the (params n)]"
| "seg_values params (Wildcard n) = path_segments (the (params n))"

text \<open>What a request for that URL captures: a wildcard value loses its empty segments.\<close>

fun seg_capture :: "(string \<rightharpoonup> string) \<Rightarrow> Segment \<Rightarrow> (string \<rightharpoonup> string)" where
  "seg_capture params (Static s) = Map.empty"
| "seg_capture params (Param n) = [n \<mapsto> the (params n)]"
| "seg_capture params (Wildcard n) = [n \<mapsto> join ''/'' (path_segments (the (params n)))]"

fun url_captures :: "(string \<rightharpoonup> string) \<Rightarrow> Segment list \<Rightarrow> (string \<rightharpoonup> string)" where
  "url_captures params [] = Map.empty"
| "url_captures params (s # segs) = seg_capture params s ++ url_captures params segs"

lemma build_loop_Inr:
  "build_loop params segs out = Inr url \<longleftrightarrow>
     (\<forall>n. Param n \<in> set segs \<longrightarrow> the (params n) \<noteq> []) \<and>
     url = out @ concat (map (\<lambda>s. CHR ''/'' # join ''/'' (map encode_path_segment (seg_values params s))) segs)"
  by (induction params segs out rule: build_loop.induct)
    (auto simp: Let_def path_segments_def split: if_splits)

lemma path_segments_join:
  "\<forall>w \<in> set ws. w \<noteq> [] \<and> CHR ''/'' \<notin> set w \<Longrightarrow> path_segments (join ''/'' ws) = ws"
  by (induction "''/''" ws rule: join.induct)
    (auto simp: path_segments_word path_segments_append)

lemma path_segments_concat_slash:
  "path_segments (concat (map (\<lambda>s. CHR ''/'' # f s) ss)) = concat (map (\<lambda>s. path_segments (f s)) ss)"
proof (induction ss)
  case (Cons a ss)
  have "path_segments (f a @ concat (map (\<lambda>s. CHR ''/'' # f s) ss)) =
      path_segments (f a) @ path_segments (concat (map (\<lambda>s. CHR ''/'' # f s) ss))"
    by (cases ss) (auto simp: path_segments_append)
  with Cons show ?case by simp
qed simp

lemma path_segments_nonempty: "w \<in> set (path_segments s) \<Longrightarrow> w \<noteq> []"
  by (simp add: path_segments_def)

lemma match_loop_values:
  "wild_last segs \<Longrightarrow>
   match_loop segs (concat (map (seg_values params) segs)) m = Some (m ++ url_captures params segs)"
proof (induction segs arbitrary: m)
  case (Cons s segs)
  then show ?case by (cases s) (auto simp: map_add_def fun_eq_iff split: option.split)
qed simp

lemma decode_encoded:
  assumes "percent_decoder pd" "is_str v" "\<not> has_control v"
  shows "decode_path_segment pd (encode_path_segment v) = Inr v"
  using assms pd_encode [OF assms(1), of v "[]"] percent_decoderD(1) [OF assms(1)]
  by (simp add: decode_path_segment_def validate_percent_triplets_def triplets_encode)

lemma slash_ascii: "code (CHR ''/'') < 128"
  by simp

lemma path_segments_clean:
  assumes "is_str v" "\<not> has_control v" "w \<in> set (path_segments v)"
  shows "is_str w \<and> \<not> has_control w"
  using assms is_str_split_char [OF slash_ascii] by (auto simp: path_segments_def)

lemma seg_values_clean:
  assumes "seg_ok s" and "\<forall>n \<in> set (seg_name s). is_str (the (params n)) \<and> \<not> has_control (the (params n))"
    and "\<forall>n. s = Param n \<longrightarrow> the (params n) \<noteq> []"
    and "v \<in> set (seg_values params s)"
  shows "v \<noteq> [] \<and> is_str v \<and> \<not> has_control v"
proof (cases s)
  case (Wildcard n)
  with assms path_segments_clean [of "the (params n)" v] path_segments_nonempty [of v]
  show ?thesis by simp
qed (use assms in \<open>simp_all add: static_ok_def\<close>)

lemma built_url_segments:
  assumes clean: "\<And>v. v \<in> set (concat (map (seg_values params) segs)) \<Longrightarrow> v \<noteq> []"
  shows "path_segments (concat (map (\<lambda>s. CHR ''/'' # join ''/''
      (map encode_path_segment (seg_values params s))) segs)) =
    map encode_path_segment (concat (map (seg_values params) segs))"
proof -
  have "path_segments (join ''/'' (map encode_path_segment (seg_values params s))) =
      map encode_path_segment (seg_values params s)" if "s \<in> set segs" for s
    using that clean by (intro path_segments_join) (auto simp: slash_notin_encode)
  then show ?thesis by (simp add: path_segments_concat_slash map_concat comp_def cong: map_cong)
qed

text \<open>
  Claim C3: a URL built for a route leads back to that route with the parameters it was built
  from. If \<open>build_url\<close> succeeds for UTF-8 values without control characters, and the URL stays
  within the segment limit, then decoding the URL succeeds and matching it against the
  pattern captures every parameter with its value (a wildcard value without its empty
  segments).
\<close>

theorem build_url_match_roundtrip:
  assumes "percent_decoder pd" and "wf_pattern p"
    and "\<forall>(k, v) \<in> set kvs. is_str v \<and> \<not> has_control v"
    and "build_url p kvs = Inr url"
    and "length (path_segments url) \<le> MAX_PATH_SEGMENTS"
  shows "\<exists>segs. decode_path_segments pd url = Inr segs \<and>
    match_decoded_pattern (segments p) segs =
      Some (url_captures (map_of (rev kvs)) (segments p))"
proof -
  let ?params = "map_of (rev kvs)" and ?segs = "segments p"
  let ?vals = "concat (map (seg_values ?params) ?segs)"
  from wf_patternD [OF assms(2)] have ok: "list_all seg_ok ?segs" and wl: "wild_last ?segs"
    and names: "parameter_names p = seg_names ?segs"
    by (simp_all add: wf_segments_def)
  from assms(4) have dom: "n \<in> set (seg_names ?segs) \<Longrightarrow> \<exists>v. ?params n = Some v" for n
    by (auto simp: build_url_def Let_def names split: if_splits)
  from assms(4) have par: "\<forall>n. Param n \<in> set ?segs \<longrightarrow> the (?params n) \<noteq> []"
    and url: "url = (if ?segs = [] then ''/'' else
       concat (map (\<lambda>s. CHR ''/'' # join ''/'' (map encode_path_segment (seg_values ?params s))) ?segs))"
    by (auto simp: build_url_def Let_def build_loop_Inr split: if_splits)
  have val: "is_str (the (?params n)) \<and> \<not> has_control (the (?params n))"
    if n: "n \<in> set (seg_names ?segs)" for n
  proof -
    from dom [OF n] obtain v where v: "?params n = Some v" by blast
    then have "(n, v) \<in> set kvs" by (auto dest: map_of_SomeD)
    with v assms(3) show ?thesis by auto
  qed
  have clean: "v \<noteq> [] \<and> is_str v \<and> \<not> has_control v" if v: "v \<in> set ?vals" for v
  proof -
    from v obtain s where s: "s \<in> set ?segs" "v \<in> set (seg_values ?params s)" by auto
    with ok val par show ?thesis
      by (intro seg_values_clean [of s ?params v]) (auto simp: list_all_iff seg_names_def)
  qed
  then have "path_segments url = map encode_path_segment ?vals"
    using built_url_segments [of ?params ?segs] url by (cases "?segs = []") auto
  with clean assms(1,5) have "decode_path_segments pd url = Inr ?vals"
    using collect_results_map_Inr [of ?vals "decode_path_segment pd \<circ> encode_path_segment" "\<lambda>v. v"]
    by (simp add: decode_path_segments_def decode_encoded)
  moreover have "match_decoded_pattern ?segs ?vals = Some (url_captures ?params ?segs)"
    using match_loop_values [OF wl, of ?params Map.empty] by (simp add: match_decoded_pattern_def)
  ultimately show ?thesis by blast
qed

section \<open>A decoder for the witnesses\<close>

fun percent_decode :: "string \<Rightarrow> string" where
  "percent_decode [] = []"
| "percent_decode (c # s) =
     (if c = CHR ''%'' then
        (case s of
           a # b # r \<Rightarrow>
             if is_ascii_hexdigit a \<and> is_ascii_hexdigit b
             then char_of (16 * hex_val a + hex_val b) # percent_decode r
             else c # percent_decode s
         | _ \<Rightarrow> c # percent_decode s)
      else c # percent_decode s)"

lemma percent_decoder_percent_decode: "percent_decoder percent_decode"
  by (simp add: percent_decoder_def)

theorem parse_yields_wf_pattern_witness:
  "parse percent_decode ''/a%2F/:id'' = Inr (from_validated_segments [Static ''a/'', Param ''id''] [''id'']) \<and>
   wf_pattern (from_validated_segments [Static ''a/'', Param ''id''] [''id''])"
proof -
  have h: "parse percent_decode ''/a%2F/:id'' =
      Inr (from_validated_segments [Static ''a/'', Param ''id''] [''id''])"
    by code_simp
  from h parse_yields_wf_pattern [OF percent_decoder_percent_decode h] show ?thesis ..
qed

theorem parse_rendered_roundtrip_witness:
  "parse percent_decode ''/%3Aa/*p'' = Inr (from_validated_segments [Static '':a'', Wildcard ''p''] [''p''])"
proof -
  have wf: "wf_pattern (from_validated_segments [Static '':a'', Wildcard ''p''] [''p''])"
    by code_simp
  have r: "rendered (from_validated_segments [Static '':a'', Wildcard ''p''] [''p'']) = ''/%3Aa/*p''"
    by code_simp
  from parse_rendered_roundtrip [OF percent_decoder_percent_decode wf] r show ?thesis by simp
qed

theorem build_url_match_roundtrip_witness:
  "\<exists>segs. decode_path_segments percent_decode ''/x%20y/p/q'' = Inr segs \<and>
    match_decoded_pattern [Param ''i'', Wildcard ''r''] segs =
      Some (url_captures (map_of (rev [(''i'', ''x y''), (''r'', ''/p//q'')])) [Param ''i'', Wildcard ''r''])"
proof -
  let ?p = "from_validated_segments [Param ''i'', Wildcard ''r''] [''i'', ''r'']"
  let ?kvs = "[(''i'', ''x y''), (''r'', ''/p//q'')]"
  have wf: "wf_pattern ?p" by code_simp
  have clean: "\<forall>(k, v) \<in> set ?kvs. is_str v \<and> \<not> has_control v" by code_simp
  have url: "build_url ?p ?kvs = Inr ''/x%20y/p/q''" by code_simp
  have len: "length (path_segments ''/x%20y/p/q'') \<le> MAX_PATH_SEGMENTS" by code_simp
  from build_url_match_roundtrip [OF percent_decoder_percent_decode wf clean url len]
  show ?thesis by simp
qed

end
