(* ===== verification/Trie.thy ===== *)
theory Trie
  imports Route_Pattern "HOL-Library.Multiset"
begin

text \<open>
  The route index (\<open>src/app/trie.rs\<close>): a trie over pattern segments whose nodes hold the
  routes that end there and the trailing-wildcard routes anchored there. The lookups are
  iterative with an explicit work stack; the model keeps the stack (its top is the head of
  the list) and represents the cursor \<open>index\<close> by the segments that are still to come.
\<close>

section \<open>Model\<close>

type_synonym entry = "string \<times> nat"

datatype Node =
  Node (statics: "string \<Rightarrow> Node option")
       (param_child: "Node option")
       (terminals: "entry list")
       (wildcards: "entry list")

definition Node_default :: Node where
  "Node_default = Node (\<lambda>_. None) None [] []"

record RouteIndex =
  root :: Node

definition METHOD_ALL :: string where
  "METHOD_ALL = ''*''"

definition or_default :: "Node option \<Rightarrow> Node" where
  "or_default n = (case n of None \<Rightarrow> Node_default | Some n \<Rightarrow> n)"

text \<open>The body of the loop of \<open>RouteIndex::build\<close>: walk down, creating children, and file the route.\<close>

fun insert_route :: "Segment list \<Rightarrow> string \<Rightarrow> nat \<Rightarrow> Node \<Rightarrow> Node" where
  "insert_route [] method index (Node st pa te wi) = Node st pa (te @ [(method, index)]) wi"
| "insert_route (Static s # rest) method index (Node st pa te wi) =
     Node (st(s \<mapsto> insert_route rest method index (or_default (st s)))) pa te wi"
| "insert_route (Param n # rest) method index (Node st pa te wi) =
     Node st (Some (insert_route rest method index (or_default pa))) te wi"
| "insert_route (Wildcard n # rest) method index (Node st pa te wi) =
     (if rest = [] then Node st pa te (wi @ [(method, index)]) else Node st pa te wi)"

fun insert_routes :: "nat \<Rightarrow> (string \<times> Segment list) list \<Rightarrow> Node \<Rightarrow> Node" where
  "insert_routes index [] node = node"
| "insert_routes index ((method, pattern) # rest) node =
     insert_routes (Suc index) rest (insert_route pattern method index node)"

definition build :: "(string \<times> Segment list) list \<Rightarrow> RouteIndex" where
  "build patterns = \<lparr>root = insert_routes 0 patterns Node_default\<rparr>"

definition push_matching :: "entry list \<Rightarrow> string \<Rightarrow> nat list \<Rightarrow> nat list" where
  "push_matching entries method found =
     found @ map snd (filter (\<lambda>e. fst e = method) entries)
       @ (if method = ''HEAD'' then map snd (filter (\<lambda>e. fst e = ''GET'') entries) else [])
       @ map snd (filter (\<lambda>e. fst e = METHOD_ALL) entries)"

datatype Work = Visit Node "string list" | Wildcards Node

function collect_candidates :: "string \<Rightarrow> Work list \<Rightarrow> nat list \<Rightarrow> nat list" where
  "collect_candidates method [] found = found"
| "collect_candidates method (Wildcards node # work) found =
     collect_candidates method work (push_matching (wildcards node) method found)"
| "collect_candidates method (Visit node [] # work) found =
     collect_candidates method work
       (push_matching (wildcards node) method (push_matching (terminals node) method found))"
| "collect_candidates method (Visit node (s # rest) # work) found =
     collect_candidates method
       ((case statics node s of Some child \<Rightarrow> [Visit child rest] | None \<Rightarrow> [])
        @ (case param_child node of Some child \<Rightarrow> [Visit child rest] | None \<Rightarrow> [])
        @ Wildcards node # work) found"
  by pat_completeness auto

fun work_weight :: "Work \<Rightarrow> nat" where
  "work_weight (Wildcards node) = 1"
| "work_weight (Visit node segs) = 3 ^ Suc (length segs)"

lemma work_weight_branch: "2 \<le> k \<Longrightarrow> Suc 0 < k * (3::nat) ^ n"
  using mult_le_mono [of 2 k 1 "3 ^ n"] by simp

termination collect_candidates
  by (relation "measure (\<lambda>(method, work, found). sum_list (map work_weight work))")
    (auto split: option.split simp: work_weight_branch)

definition find_candidates :: "RouteIndex \<Rightarrow> string \<Rightarrow> string list \<Rightarrow> nat list" where
  "find_candidates ix method segs = collect_candidates method [Visit (root ix) segs] []"

function collect_methods :: "(Node \<times> string list) list \<Rightarrow> (nat \<times> string) list \<Rightarrow> (nat \<times> string) list" where
  "collect_methods [] found = found"
| "collect_methods ((node, []) # work) found =
     collect_methods work
       (found @ map (\<lambda>(m, i). (i, m)) (wildcards node) @ map (\<lambda>(m, i). (i, m)) (terminals node))"
| "collect_methods ((node, s # rest) # work) found =
     collect_methods
       ((case statics node s of Some child \<Rightarrow> [(child, rest)] | None \<Rightarrow> [])
        @ (case param_child node of Some child \<Rightarrow> [(child, rest)] | None \<Rightarrow> [])
        @ work)
       (found @ map (\<lambda>(m, i). (i, m)) (wildcards node))"
  by pat_completeness auto

termination collect_methods
  by (relation "measure (\<lambda>(work, found). sum_list (map (\<lambda>(n, segs). 3 ^ Suc (length segs)) work))")
    (auto split: option.split simp: work_weight_branch)

definition matching_methods :: "RouteIndex \<Rightarrow> string list \<Rightarrow> (nat \<times> string) list" where
  "matching_methods ix segs = sort_key fst (collect_methods [(root ix, segs)] [])"

section \<open>Slots: where a pattern is filed\<close>

text \<open>
  A slot is a path of trie edges and a flag: \<open>True\<close> for the wildcard list of the node at
  its end, \<open>False\<close> for the terminal list. Every pattern that can match has one slot.
\<close>

datatype edge = StaticEdge string | ParamEdge

type_synonym slot = "edge list \<times> bool"

fun node_at :: "Node \<Rightarrow> edge list \<Rightarrow> Node option" where
  "node_at n [] = Some n"
| "node_at n (StaticEdge s # p) = Option.bind (statics n s) (\<lambda>c. node_at c p)"
| "node_at n (ParamEdge # p) = Option.bind (param_child n) (\<lambda>c. node_at c p)"

definition entries_at :: "Node \<Rightarrow> slot \<Rightarrow> entry list" where
  "entries_at n sl = (case node_at n (fst sl) of None \<Rightarrow> []
     | Some c \<Rightarrow> if snd sl then wildcards c else terminals c)"

fun slot_of :: "Segment list \<Rightarrow> slot option" where
  "slot_of [] = Some ([], False)"
| "slot_of (Static s # r) = map_option (apfst ((#) (StaticEdge s))) (slot_of r)"
| "slot_of (Param n # r) = map_option (apfst ((#) ParamEdge)) (slot_of r)"
| "slot_of (Wildcard n # r) = (if r = [] then Some ([], True) else None)"

definition slot_entries :: "nat \<Rightarrow> (string \<times> Segment list) list \<Rightarrow> slot \<Rightarrow> entry list" where
  "slot_entries k rs sl =
     map (\<lambda>(i, r). (fst r, i)) (filter (\<lambda>(i, r). slot_of (snd r) = Some sl) (enumerate k rs))"

text \<open>The order in which a lookup of a path visits the slots that can match it.\<close>

fun visit_order :: "string list \<Rightarrow> slot list" where
  "visit_order [] = [([], False), ([], True)]"
| "visit_order (s # rest) =
     map (apfst ((#) (StaticEdge s))) (visit_order rest)
     @ map (apfst ((#) ParamEdge)) (visit_order rest) @ [([], True)]"

lemma Node_default_sel [simp]:
  "statics Node_default s = None" "param_child Node_default = None"
  "terminals Node_default = []" "wildcards Node_default = []"
  by (simp_all add: Node_default_def)

lemma node_at_default: "node_at Node_default p = (if p = [] then Some Node_default else None)"
proof (cases p)
  case (Cons e q)
  then show ?thesis by (cases e) auto
qed simp

lemma entries_at_default [simp]: "entries_at Node_default sl = []"
  by (simp add: entries_at_def node_at_default)

lemma entries_at_Nil [simp]:
  "entries_at n ([], w) = (if w then wildcards n else terminals n)"
  by (simp add: entries_at_def)

lemma entries_at_StaticEdge [simp]:
  "entries_at n (StaticEdge s # p, w) = entries_at (or_default (statics n s)) (p, w)"
  by (cases "statics n s") (simp_all add: entries_at_def or_default_def node_at_default split: option.split)

lemma entries_at_ParamEdge [simp]:
  "entries_at n (ParamEdge # p, w) = entries_at (or_default (param_child n)) (p, w)"
  by (cases "param_child n") (simp_all add: entries_at_def or_default_def node_at_default split: option.split)

lemma or_default_simps [simp]: "or_default (Some n) = n" "or_default None = Node_default"
  by (simp_all add: or_default_def)

lemma slot_of_edges:
  "slot_of (Static s # r) = Some (e # p, w) \<longleftrightarrow> e = StaticEdge s \<and> slot_of r = Some (p, w)"
  "slot_of (Param n # r) = Some (e # p, w) \<longleftrightarrow> e = ParamEdge \<and> slot_of r = Some (p, w)"
  "slot_of (Static s # r) \<noteq> Some ([], w)"
  "slot_of (Param n # r) \<noteq> Some ([], w)"
  by (auto simp: apfst_def)

lemma entries_at_insert_route:
  "entries_at (insert_route pat m i n) sl =
     entries_at n sl @ (if slot_of pat = Some sl then [(m, i)] else [])"
proof (induction pat m i n arbitrary: sl rule: insert_route.induct)
  case (1 m i st pa te wi)
  show ?case by (cases sl; cases "fst sl" rule: list.exhaust; cases "hd (fst sl)") auto
next
  case (2 s rest m i st pa te wi)
  obtain p w where sl: "sl = (p, w)" by (cases sl)
  show ?case
  proof (cases p)
    case (Cons e q)
    with 2 sl show ?thesis by (cases e) (auto simp: slot_of_edges simp del: slot_of.simps)
  qed (use sl in \<open>simp add: slot_of_edges del: slot_of.simps\<close>)
next
  case (3 n rest m i st pa te wi)
  obtain p w where sl: "sl = (p, w)" by (cases sl)
  show ?case
  proof (cases p)
    case (Cons e q)
    with 3 sl show ?thesis by (cases e) (auto simp: slot_of_edges simp del: slot_of.simps)
  qed (use sl in \<open>simp add: slot_of_edges del: slot_of.simps\<close>)
next
  case (4 n rest m i st pa te wi)
  show ?case by (cases sl; cases "fst sl" rule: list.exhaust; cases "hd (fst sl)") auto
qed

lemma entries_at_insert_routes:
  "entries_at (insert_routes k rs n) sl = entries_at n sl @ slot_entries k rs sl"
  by (induction k rs n rule: insert_routes.induct)
    (auto simp: slot_entries_def entries_at_insert_route)

lemma entries_at_build: "entries_at (root (build rs)) sl = slot_entries 0 rs sl"
  by (simp add: build_def entries_at_insert_routes)

lemma set_slot_entries:
  "(m, i) \<in> set (slot_entries 0 rs sl) \<longleftrightarrow>
     i < length rs \<and> fst (rs ! i) = m \<and> slot_of (snd (rs ! i)) = Some sl"
  by (auto simp: slot_entries_def in_set_enumerate_eq)

lemma sorted_slot_entries: "sorted_wrt (<) (map snd (slot_entries k rs sl))"
proof -
  have "map snd (slot_entries k rs sl) = map fst (filter (\<lambda>(i, r). slot_of (snd r) = Some sl) (enumerate k rs))"
    by (auto simp: slot_entries_def)
  moreover have "sorted_wrt (<) (map fst (filter P (enumerate k rs)))" for P
    using sorted_wrt_filter [of "\<lambda>x y. fst x < fst y" "enumerate k rs" P]
    by (simp add: sorted_wrt_map enumerate_eq_zip sorted_wrt_iff_nth_less)
  ultimately show ?thesis by simp
qed

lemma visit_order_mem:
  "([], w) \<in> set (visit_order segs) \<longleftrightarrow> w \<or> segs = []"
  "(e # p, w) \<in> set (visit_order segs) \<longleftrightarrow>
     (\<exists>s rest. segs = s # rest \<and> e \<in> {StaticEdge s, ParamEdge} \<and> (p, w) \<in> set (visit_order rest))"
  by (cases segs; force)+

lemma match_iff_slot:
  "match_loop p segs params \<noteq> None \<longleftrightarrow> (\<exists>sl. slot_of p = Some sl \<and> sl \<in> set (visit_order segs))"
proof (induction p arbitrary: segs params)
  case Nil
  show ?case by (auto simp: visit_order_mem)
next
  case (Cons x p)
  show ?case
  proof (cases x)
    case (Wildcard n)
    then show ?thesis by (auto simp: visit_order_mem)
  next
    case (Static s)
    with Cons.IH [of "tl segs" params] show ?thesis
      by (cases segs) (auto simp: visit_order_mem simp del: visit_order.simps)
  next
    case (Param n)
    with Cons.IH [of "tl segs" "params(n \<mapsto> hd segs)"] show ?thesis
      by (cases segs) (auto simp: visit_order_mem simp del: visit_order.simps fun_upd_apply)
  qed
qed

lemma match_pattern_iff_slot:
  "match_decoded_pattern p segs \<noteq> None \<longleftrightarrow>
     (\<exists>sl. slot_of p = Some sl \<and> sl \<in> set (visit_order segs))"
  by (simp only: match_decoded_pattern_def match_iff_slot)

lemma inj_apfst_Cons: "inj_on (apfst ((#) e) :: slot \<Rightarrow> slot) A"
  by (rule inj_onI) (auto simp: apfst_def)

lemma distinct_visit_order: "distinct (visit_order segs)"
  by (induction segs) (auto simp: distinct_map inj_apfst_Cons)

section \<open>The iterative lookups follow the slot order\<close>

definition select_entries :: "string \<Rightarrow> entry list \<Rightarrow> nat list" where
  "select_entries method entries = push_matching entries method []"

lemma push_matching_eq: "push_matching entries method found = found @ select_entries method entries"
  by (simp add: push_matching_def select_entries_def)

lemma select_entries_Nil [simp]: "select_entries method [] = []"
  by (simp add: select_entries_def push_matching_def)

definition slots_found :: "string \<Rightarrow> Node \<Rightarrow> string list \<Rightarrow> nat list" where
  "slots_found method n segs =
     concat (map (\<lambda>sl. select_entries method (entries_at n sl)) (visit_order segs))"

lemma slots_found_default [simp]: "slots_found method Node_default segs = []"
  by (simp add: slots_found_def)

lemma entries_at_apfst [simp]:
  "entries_at n (apfst ((#) (StaticEdge s)) sl) = entries_at (or_default (statics n s)) sl"
  "entries_at n (apfst ((#) ParamEdge) sl) = entries_at (or_default (param_child n)) sl"
  by (cases sl; simp)+

lemma slots_found_Nil:
  "slots_found method n [] = select_entries method (terminals n) @ select_entries method (wildcards n)"
  by (simp add: slots_found_def)

lemma slots_found_Cons:
  "slots_found method n (s # rest) =
     slots_found method (or_default (statics n s)) rest
     @ slots_found method (or_default (param_child n)) rest @ select_entries method (wildcards n)"
  by (simp add: slots_found_def comp_def)

fun work_found :: "string \<Rightarrow> Work \<Rightarrow> nat list" where
  "work_found method (Visit n segs) = slots_found method n segs"
| "work_found method (Wildcards n) = select_entries method (wildcards n)"

lemma collect_candidates_eq:
  "collect_candidates method work found = found @ concat (map (work_found method) work)"
  by (induction "method" work found rule: collect_candidates.induct)
    (auto simp: push_matching_eq slots_found_Nil slots_found_Cons split: option.split)

lemma find_candidates_slots: "find_candidates ix method segs = slots_found method (root ix) segs"
  by (simp add: find_candidates_def collect_candidates_eq)

definition swapped :: "entry list \<Rightarrow> (nat \<times> string) list" where
  "swapped entries = map (\<lambda>(m, i). (i, m)) entries"

lemma set_swapped [simp]: "(i, m) \<in> set (swapped es) \<longleftrightarrow> (m, i) \<in> set es"
  by (force simp: swapped_def)

lemma mset_collect_methods:
  "mset (collect_methods work found) = mset found +
     (\<Sum>(n, segs) \<leftarrow> work. \<Sum>sl \<leftarrow> visit_order segs. mset (swapped (entries_at n sl)))"
  by (induction work found rule: collect_methods.induct)
    (auto simp: swapped_def comp_def ac_simps split: option.split)

section \<open>What the lookups return\<close>

text \<open>Which registered methods answer a request method: itself, GET for HEAD, and all().\<close>

definition answers :: "string \<Rightarrow> string \<Rightarrow> bool" where
  "answers method registered \<longleftrightarrow>
     registered = method \<or> method = ''HEAD'' \<and> registered = ''GET'' \<or> registered = METHOD_ALL"

definition method_rank :: "string \<Rightarrow> string \<Rightarrow> nat" where
  "method_rank method registered =
     (if registered = method then 0 else if registered = METHOD_ALL then 2 else 1)"

text \<open>
  Precedence of patterns that match the same path: literal before parameter before
  trailing wildcard, decided at the first segment where the kinds differ.
\<close>

fun more_specific :: "Segment list \<Rightarrow> Segment list \<Rightarrow> bool" where
  "more_specific (Static _ # p) (Static _ # q) = more_specific p q"
| "more_specific (Static _ # p) (Param _ # q) = True"
| "more_specific (Static _ # p) (Wildcard _ # q) = True"
| "more_specific (Param _ # p) (Param _ # q) = more_specific p q"
| "more_specific (Param _ # p) (Wildcard _ # q) = True"
| "more_specific [] (Wildcard _ # q) = True"
| "more_specific _ _ = False"

definition route_precedes :: "(string \<times> Segment list) list \<Rightarrow> string \<Rightarrow> nat \<Rightarrow> nat \<Rightarrow> bool" where
  "route_precedes rs method i j \<longleftrightarrow>
     more_specific (snd (rs ! i)) (snd (rs ! j)) \<or>
     map conflict_segment (snd (rs ! i)) = map conflict_segment (snd (rs ! j)) \<and>
     (method_rank method (fst (rs ! i)) < method_rank method (fst (rs ! j)) \<or>
      method_rank method (fst (rs ! i)) = method_rank method (fst (rs ! j)) \<and> i < j)"

lemma set_select_entries:
  "i \<in> set (select_entries method es) \<longleftrightarrow> (\<exists>m. (m, i) \<in> set es \<and> answers method m)"
  by (auto simp: select_entries_def push_matching_def answers_def; force)

lemma set_slots_found_build:
  "i \<in> set (slots_found method (root (build rs)) segs) \<longleftrightarrow>
     i < length rs \<and> answers method (fst (rs ! i)) \<and>
     match_decoded_pattern (snd (rs ! i)) segs \<noteq> None"
  unfolding slots_found_def match_pattern_iff_slot
  by (auto simp: set_select_entries entries_at_build set_slot_entries)

fun slot_more :: "edge list \<Rightarrow> bool \<Rightarrow> edge list \<Rightarrow> bool \<Rightarrow> bool" where
  "slot_more [] False [] True = True"
| "slot_more (e # p) w [] True = True"
| "slot_more (StaticEdge _ # p) w (StaticEdge _ # q) v = slot_more p w q v"
| "slot_more (StaticEdge _ # p) w (ParamEdge # q) v = True"
| "slot_more (ParamEdge # p) w (ParamEdge # q) v = slot_more p w q v"
| "slot_more _ _ _ _ = False"

lemma slot_of_shape:
  "slot_of p = Some ([], True) \<longleftrightarrow> (\<exists>n. p = [Wildcard n])"
  "slot_of p = Some ([], False) \<longleftrightarrow> p = []"
  "slot_of p = Some (StaticEdge s # a, w) \<longleftrightarrow> (\<exists>r. p = Static s # r \<and> slot_of r = Some (a, w))"
  "slot_of p = Some (ParamEdge # a, w) \<longleftrightarrow> (\<exists>n r. p = Param n # r \<and> slot_of r = Some (a, w))"
  by (cases p rule: slot_of.cases; auto)+

lemma slot_more_specific:
  "slot_more a w b v \<Longrightarrow> slot_of p = Some (a, w) \<Longrightarrow> slot_of q = Some (b, v) \<Longrightarrow> more_specific p q"
proof (induction a w b v arbitrary: p q rule: slot_more.induct)
  case (2 e a w)
  then show ?case by (cases e) (auto simp: slot_of_shape)
qed (auto simp: slot_of_shape)

lemma slot_of_eq_conflict:
  "slot_of p = Some (a, w) \<Longrightarrow> slot_of q = Some (a, w) \<Longrightarrow>
     map conflict_segment p = map conflict_segment q"
proof (induction a arbitrary: p q)
  case Nil
  then show ?case by (cases w) (auto simp: slot_of_shape)
next
  case (Cons e a)
  show ?case
  proof (cases e)
    case (StaticEdge s)
    with Cons.prems obtain p' q' where "p = Static s # p'" "slot_of p' = Some (a, w)"
      "q = Static s # q'" "slot_of q' = Some (a, w)" by (auto simp only: slot_of_shape)
    with Cons.IH [of p' q'] show ?thesis by simp
  next
    case ParamEdge
    with Cons.prems obtain m p' n q' where "p = Param m # p'" "slot_of p' = Some (a, w)"
      "q = Param n # q'" "slot_of q' = Some (a, w)" by (auto simp only: slot_of_shape)
    with Cons.IH [of p' q'] show ?thesis by simp
  qed
qed

lemma sorted_visit_order:
  "sorted_wrt (\<lambda>a b. slot_more (fst a) (snd a) (fst b) (snd b)) (visit_order segs)"
proof (induction segs)
  case (Cons s segs)
  then show ?case by (auto simp: sorted_wrt_append sorted_wrt_map)
qed simp

lemma sorted_wrt_concat_map:
  assumes "sorted_wrt (\<lambda>a b. \<forall>x \<in> set (f a). \<forall>y \<in> set (f b). P x y) xs"
    and "\<And>a. a \<in> set xs \<Longrightarrow> sorted_wrt P (f a)"
  shows "sorted_wrt P (concat (map f xs))"
  using assms by (induction xs) (auto simp: sorted_wrt_append)

definition entry_precedes :: "string \<Rightarrow> entry \<Rightarrow> entry \<Rightarrow> bool" where
  "entry_precedes method e f \<longleftrightarrow>
     method_rank method (fst e) < method_rank method (fst f) \<or>
     method_rank method (fst e) = method_rank method (fst f) \<and> snd e < snd f"

definition selected :: "string \<Rightarrow> entry list \<Rightarrow> entry list" where
  "selected method es =
     filter (\<lambda>e. fst e = method) es
     @ (if method = ''HEAD'' then filter (\<lambda>e. fst e = ''GET'') es else [])
     @ filter (\<lambda>e. fst e = METHOD_ALL) es"

lemma set_selected: "set (selected method es) \<subseteq> set es"
  by (auto simp: selected_def)

lemma select_entries_selected: "select_entries method es = map snd (selected method es)"
  by (simp add: select_entries_def push_matching_def selected_def)

lemma sorted_filter_entries:
  assumes "sorted_wrt (\<lambda>e f. snd e < snd f) es" and "\<And>e. P e \<Longrightarrow> fst e = m"
  shows "sorted_wrt (entry_precedes method) (filter P es)"
proof -
  have "sorted_wrt (\<lambda>e f. snd e < snd f) (filter P es)"
    by (rule sorted_wrt_filter) (rule assms)
  then show ?thesis
    by (rule sorted_wrt_mono_rel [rotated]) (simp add: entry_precedes_def assms(2))
qed

lemma sorted_selected:
  assumes "sorted_wrt (\<lambda>e f. snd e < snd f) es" and "method \<noteq> METHOD_ALL"
  shows "sorted_wrt (entry_precedes method) (selected method es)"
  unfolding selected_def
  using assms(2) sorted_filter_entries [OF assms(1), of "\<lambda>e. fst e = method" "method"]
    sorted_filter_entries [OF assms(1), of "\<lambda>e. fst e = ''GET''" "''GET''"]
    sorted_filter_entries [OF assms(1), of "\<lambda>e. fst e = METHOD_ALL" METHOD_ALL]
  by (auto simp: sorted_wrt_append entry_precedes_def method_rank_def METHOD_ALL_def)

lemma sorted_candidates:
  assumes "method \<noteq> METHOD_ALL"
  shows "sorted_wrt (route_precedes rs method) (slots_found method (root (build rs)) segs)"
  unfolding slots_found_def entries_at_build
proof (rule sorted_wrt_concat_map)
  show "sorted_wrt (\<lambda>a b. \<forall>x \<in> set (select_entries method (slot_entries 0 rs a)).
      \<forall>y \<in> set (select_entries method (slot_entries 0 rs b)). route_precedes rs method x y)
    (visit_order segs)"
    by (rule sorted_wrt_mono_rel [OF _ sorted_visit_order])
      (auto simp: set_select_entries set_slot_entries route_precedes_def dest: slot_more_specific)
next
  fix sl
  assume "sl \<in> set (visit_order segs)"
  let ?es = "slot_entries 0 rs sl"
  have "sorted_wrt (entry_precedes method) (selected method ?es)"
    using sorted_slot_entries [of 0 rs sl] assms by (intro sorted_selected) (simp add: sorted_wrt_map)
  then show "sorted_wrt (route_precedes rs method) (select_entries method ?es)"
    unfolding select_entries_selected sorted_wrt_map
  proof (rule sorted_wrt_mono_rel [rotated])
    fix e f
    assume ef: "e \<in> set (selected method ?es)" "f \<in> set (selected method ?es)"
      and prec: "entry_precedes method e f"
    have "fst (rs ! snd x) = fst x \<and> slot_of (snd (rs ! snd x)) = Some (fst sl, snd sl)"
      if "x \<in> set (selected method ?es)" for x
      using that set_slot_entries [of "fst x" "snd x" rs sl] set_selected [of "method" ?es] by auto
    from this [OF ef(1)] this [OF ef(2)] prec
    show "route_precedes rs method (snd e) (snd f)"
      using slot_of_eq_conflict [of "snd (rs ! snd e)" "fst sl" "snd sl" "snd (rs ! snd f)"]
      by (simp add: route_precedes_def entry_precedes_def)
  qed
qed

lemma route_precedes_irrefl: "\<not> route_precedes rs method i i"
proof -
  have "\<not> more_specific p p" for p
  proof (induction p)
    case (Cons x p)
    then show ?case by (cases x) auto
  qed simp
  then show ?thesis by (simp add: route_precedes_def)
qed

lemma sorted_wrt_irrefl_distinct:
  "sorted_wrt P xs \<Longrightarrow> (\<And>x. \<not> P x x) \<Longrightarrow> distinct xs"
  by (induction xs) auto


text \<open>
  The candidates come in routing precedence, each once. An earlier candidate has a
  more specific pattern (literal before parameter before wildcard at the first difference),
  or the same pattern shape and a better method (the exact one, then GET for HEAD, then
  \<open>all()\<close>), or both and the earlier registration.
\<close>

theorem find_candidates_precedence:
  assumes "method \<noteq> METHOD_ALL"
  shows "sorted_wrt (route_precedes rs method) (find_candidates (build rs) method segs) \<and>
     distinct (find_candidates (build rs) method segs)"
  using sorted_candidates [OF assms, of rs segs] route_precedes_irrefl
  by (simp add: find_candidates_slots sorted_wrt_irrefl_distinct)

theorem find_candidates_precedence_witness:
  "sorted_wrt (route_precedes [(''*'', [Wildcard ''p'']), (''GET'', [Param ''i'']), (''GET'', [Static ''a''])] ''HEAD'')
     (find_candidates (build [(''*'', [Wildcard ''p'']), (''GET'', [Param ''i'']), (''GET'', [Static ''a''])])
        ''HEAD'' [''a'']) \<and>
   find_candidates (build [(''*'', [Wildcard ''p'']), (''GET'', [Param ''i'']), (''GET'', [Static ''a''])])
        ''HEAD'' [''a''] = [2, 1, 0]"
proof -
  let ?rs = "[(''*'', [Wildcard ''p'']), (''GET'', [Param ''i'']), (''GET'', [Static ''a''])]"
  have h: "''HEAD'' \<noteq> METHOD_ALL" by (simp add: METHOD_ALL_def)
  have "find_candidates (build ?rs) ''HEAD'' [''a''] = [2, 1, 0]" by code_simp
  with find_candidates_precedence [OF h, of ?rs "[''a'']"] show ?thesis by blast
qed

section \<open>The methods registered for a path\<close>

definition slots_methods :: "(string \<times> Segment list) list \<Rightarrow> slot list \<Rightarrow> (nat \<times> string) list" where
  "slots_methods rs sls = concat (map (\<lambda>sl. swapped (slot_entries 0 rs sl)) sls)"

lemma set_slots_methods:
  "(i, m) \<in> set (slots_methods rs sls) \<longleftrightarrow>
     i < length rs \<and> m = fst (rs ! i) \<and> (\<exists>sl \<in> set sls. slot_of (snd (rs ! i)) = Some sl)"
  by (auto simp: slots_methods_def set_slot_entries)

lemma distinct_slots_methods: "distinct sls \<Longrightarrow> distinct (map fst (slots_methods rs sls))"
proof (induction sls)
  case (Cons sl sls)
  have sw: "map fst (swapped (slot_entries 0 rs sl)) = map snd (slot_entries 0 rs sl)"
    by (auto simp: swapped_def)
  have "distinct (map fst (swapped (slot_entries 0 rs sl)))"
    unfolding sw by (rule sorted_wrt_irrefl_distinct [OF sorted_slot_entries]) simp
  moreover have "fst ` set (swapped (slot_entries 0 rs sl)) \<inter> fst ` set (slots_methods rs sls) = {}"
    using Cons.prems by (auto simp: set_slots_methods set_slot_entries)
  ultimately show ?case using Cons by (simp add: slots_methods_def)
qed (simp add: slots_methods_def)

lemma mset_collect_build:
  "mset (collect_methods [(root (build rs), segs)] []) = mset (slots_methods rs (visit_order segs))"
  by (simp add: mset_collect_methods slots_methods_def mset_concat entries_at_build comp_def)

definition registered_methods ::
  "(string \<times> Segment list) list \<Rightarrow> string list \<Rightarrow> (nat \<times> string) list" where
  "registered_methods rs segs =
     map (\<lambda>i. (i, fst (rs ! i)))
       (filter (\<lambda>i. match_decoded_pattern (snd (rs ! i)) segs \<noteq> None) [0..<length rs])"

lemma matching_methods_build: "matching_methods (build rs) segs = registered_methods rs segs"
proof -
  let ?found = "collect_methods [(root (build rs), segs)] []"
  let ?slots = "slots_methods rs (visit_order segs)"
  have dist: "distinct (map fst ?found)"
  proof -
    have "mset (map fst ?found) = mset (map fst ?slots)"
      by (simp only: mset_map mset_collect_build)
    then show ?thesis
      using distinct_slots_methods [OF distinct_visit_order] mset_eq_imp_distinct_iff by blast
  qed
  have set: "set ?found = set (registered_methods rs segs)"
  proof -
    have "set ?found = set ?slots" using mset_collect_build mset_eq_setD by blast
    also have "\<dots> = set (registered_methods rs segs)"
      by (auto simp: set_slots_methods registered_methods_def match_pattern_iff_slot simp del: not_None_eq)
    finally show ?thesis .
  qed
  have fst_reg: "map fst (registered_methods rs segs) =
      filter (\<lambda>i. match_decoded_pattern (snd (rs ! i)) segs \<noteq> None) [0..<length rs]"
    by (simp add: registered_methods_def comp_def)
  have reg: "sorted (map fst (registered_methods rs segs))" "distinct (map fst (registered_methods rs segs))"
    unfolding fst_reg by (simp_all add: sorted_wrt_filter)
  have dist': "distinct (map fst (sort_key fst ?found))"
    using dist mset_eq_imp_distinct_iff [of "map fst (sort_key fst ?found)" "map fst ?found"]
    by simp
  have inj: "inj_on fst (set (sort_key fst ?found) \<union> set (registered_methods rs segs))"
    using dist set by (simp add: distinct_map)
  show ?thesis
    unfolding matching_methods_def
    by (rule map_sorted_distinct_set_unique [OF inj sorted_sort_key dist' reg]) (simp add: set)
qed

text \<open>
  \<open>matching_methods\<close> lists, in registration order and without repetition, every
  registered route whose pattern matches the path, whatever its method.
\<close>

theorem matching_methods_exact:
  "matching_methods (build rs) segs =
     map (\<lambda>i. (i, fst (rs ! i)))
       (filter (\<lambda>i. match_decoded_pattern (snd (rs ! i)) segs \<noteq> None) [0..<length rs])"
  using matching_methods_build by (simp add: registered_methods_def)

section \<open>The interface the router relies on\<close>

text \<open>
  What \<open>Router\<close> needs of its index: the candidates of a lookup are exactly the matching
  registrations, in precedence order, and the method listing is complete. The trie
  provides it.
\<close>

locale route_index =
  fixes build_index :: "(string \<times> Segment list) list \<Rightarrow> 'ix"
    and candidates :: "'ix \<Rightarrow> string \<Rightarrow> string list \<Rightarrow> nat list"
    and methods_at :: "'ix \<Rightarrow> string list \<Rightarrow> (nat \<times> string) list"
  assumes candidates_iff: "i \<in> set (candidates (build_index rs) method segs) \<longleftrightarrow>
      i < length rs \<and> answers method (fst (rs ! i)) \<and>
      match_decoded_pattern (snd (rs ! i)) segs \<noteq> None"
    and candidates_sorted: "method \<noteq> METHOD_ALL \<Longrightarrow>
      sorted_wrt (route_precedes rs method) (candidates (build_index rs) method segs)"
    and methods_at_eq: "methods_at (build_index rs) segs = registered_methods rs segs"
begin

text \<open>Searching the candidates for an admissible one finds the first in precedence.\<close>

lemma first_candidate_None:
  "find ok (candidates (build_index rs) method segs) = None \<longleftrightarrow>
     (\<forall>i < length rs. answers method (fst (rs ! i)) \<longrightarrow>
        match_decoded_pattern (snd (rs ! i)) segs \<noteq> None \<longrightarrow> \<not> ok i)"
  by (auto simp: find_None_iff candidates_iff)

lemma first_candidate_Some:
  assumes "find ok (candidates (build_index rs) method segs) = Some i"
  shows "i < length rs" "ok i" "answers method (fst (rs ! i))"
    "match_decoded_pattern (snd (rs ! i)) segs \<noteq> None"
  using assms candidates_iff [of i rs "method" segs] by (auto simp: find_Some_iff)

lemma first_candidate_best:
  assumes "find ok (candidates (build_index rs) method segs) = Some i" and "method \<noteq> METHOD_ALL"
    and "j < length rs" "ok j" "answers method (fst (rs ! j))"
    and "match_decoded_pattern (snd (rs ! j)) segs \<noteq> None"
  shows "j = i \<or> route_precedes rs method i j"
proof -
  let ?cs = "candidates (build_index rs) method segs"
  from assms(1) obtain k where k: "k < length ?cs" "?cs ! k = i" "\<forall>l < k. \<not> ok (?cs ! l)"
    by (auto simp: find_Some_iff)
  from assms(3-) have "j \<in> set ?cs" by (simp add: candidates_iff)
  then obtain l where l: "l < length ?cs" "?cs ! l = j" by (auto simp: in_set_conv_nth)
  with k assms(4) have "k \<le> l" by (meson not_le)
  with k l candidates_sorted [OF assms(2), of rs segs] show ?thesis
    by (cases "k = l") (auto simp: sorted_wrt_iff_nth_less)
qed

end

interpretation trie: route_index build find_candidates matching_methods
  by unfold_locales
    (simp_all add: find_candidates_slots set_slots_found_build sorted_candidates matching_methods_build)

end
