(* ===== verification/Host_Pattern.thy ===== *)
theory Host_Pattern
  imports Route_Pattern
begin

text \<open>
  Host constraints of routes (\<open>src/app/router.rs\<close>): normalising a host, parsing a host
  pattern, matching, and the overlap test used to refuse ambiguous registrations.
\<close>

section \<open>Model\<close>

datatype HostPattern = Exact string | WildcardSubdomain string

definition dot :: char where
  "dot = CHR ''.''"

definition strip_valid_port :: "string \<Rightarrow> string option" where
  "strip_valid_port host =
     (if starts_with ''['' host then
        (case split_once (CHR '']'') host of
           None \<Rightarrow> None
         | Some (before, after) \<Rightarrow>
             if after = [] then Some host
             else (case strip_prefix '':'' after of
                     None \<Rightarrow> None
                   | Some port \<Rightarrow>
                       if port = [] \<or> \<not> list_all is_ascii_digit port then None
                       else Some (before @ '']'')))
      else
        (case rsplit_once (CHR '':'') host of
           Some (name, port) \<Rightarrow>
             if port \<noteq> [] \<and> list_all is_ascii_digit port then Some name
             else if count_list host (CHR '':'') = 1 then None
             else Some host
         | None \<Rightarrow> Some host))"

definition any_code_point :: "(nat \<Rightarrow> bool) \<Rightarrow> string \<Rightarrow> bool" where
  "any_code_point P s = (case utf8_decode s of None \<Rightarrow> False | Some cs \<Rightarrow> list_ex P cs)"

definition normalize_host :: "string \<Rightarrow> string option" where
  "normalize_host raw =
     (let trimmed = trim raw in
        if trimmed = [] \<or> CHR ''@'' \<in> set trimmed \<or> CHR ''/'' \<in> set trimmed
           \<or> CHR 0x5C \<in> set trimmed
           \<or> any_code_point (\<lambda>ch. is_control ch \<or> is_whitespace ch) trimmed
        then None
        else (case strip_valid_port trimmed of
                None \<Rightarrow> None
              | Some without_port \<Rightarrow>
                  if without_port = [] then None else Some (to_ascii_lowercase without_port)))"

definition host_parse :: "string \<Rightarrow> RouteErrorKind + HostPattern" where
  "host_parse pattern =
     (case normalize_host pattern of
        None \<Rightarrow> Inl InvalidHostPattern
      | Some host \<Rightarrow>
          (case strip_prefix ''*.'' host of
             Some suffix \<Rightarrow>
               if suffix = [] \<or> CHR ''*'' \<in> set suffix then Inl InvalidHostPattern
               else Inr (WildcardSubdomain suffix)
           | None \<Rightarrow>
               if CHR ''*'' \<in> set host then Inl InvalidHostPattern else Inr (Exact host)))"

fun matches_normalized :: "HostPattern \<Rightarrow> string \<Rightarrow> bool" where
  "matches_normalized (Exact expected) host \<longleftrightarrow> expected = host"
| "matches_normalized (WildcardSubdomain suffix) host \<longleftrightarrow>
     length host > length suffix + 1 \<and> ends_with suffix host
     \<and> host ! (length host - length suffix - 1) = dot"

definition matches_request :: "HostPattern \<Rightarrow> string option \<Rightarrow> bool" where
  "matches_request p host =
     (case Option.bind host normalize_host of
        None \<Rightarrow> False
      | Some h \<Rightarrow> matches_normalized p h)"

definition host_matches :: "HostPattern option \<Rightarrow> string option \<Rightarrow> bool" where
  "host_matches pattern host =
     (case pattern of Some p \<Rightarrow> matches_request p host | None \<Rightarrow> True)"

definition suffix_overlaps :: "string \<Rightarrow> string \<Rightarrow> bool" where
  "suffix_overlaps more_specific broader \<longleftrightarrow>
     length more_specific > length broader \<and> ends_with broader more_specific
     \<and> more_specific ! (length more_specific - length broader - 1) = dot"

fun hosts_overlap :: "HostPattern option \<Rightarrow> HostPattern option \<Rightarrow> bool" where
  "hosts_overlap None None = True"
| "hosts_overlap None (Some _) = True"
| "hosts_overlap (Some _) None = True"
| "hosts_overlap (Some (Exact left)) (Some (Exact right)) = (left = right)"
| "hosts_overlap (Some (Exact host)) (Some pattern) = matches_normalized pattern host"
| "hosts_overlap (Some pattern) (Some (Exact host)) = matches_normalized pattern host"
| "hosts_overlap (Some (WildcardSubdomain left)) (Some (WildcardSubdomain right)) =
     (left = right \<or> suffix_overlaps left right \<or> suffix_overlaps right left)"

section \<open>Overlap is exactly the existence of a common host\<close>

definition admits :: "HostPattern option \<Rightarrow> string \<Rightarrow> bool" where
  "admits p h = (case p of None \<Rightarrow> True | Some q \<Rightarrow> matches_normalized q h)"

lemma ends_with_iff: "ends_with p s \<longleftrightarrow> (\<exists>x. s = x @ p)"
  by (metis append_eq_conv_conj append_take_drop_id diff_le_self ends_with_def length_append
      le_add2 length_drop diff_diff_cancel add_diff_cancel_right' length_take min_def)

lemma dotted_suffix_iff:
  "length s > length p \<and> ends_with p s \<and> s ! (length s - length p - 1) = dot \<longleftrightarrow>
     (\<exists>x. s = x @ dot # p)"
proof
  assume *: "length s > length p \<and> ends_with p s \<and> s ! (length s - length p - 1) = dot"
  then obtain x where s: "s = x @ p" by (auto simp: ends_with_iff)
  with * have "x \<noteq> []" "last x = dot" by (auto simp: nth_append last_conv_nth)
  then have "x = butlast x @ [dot]" by (metis append_butlast_last_id)
  with s show "\<exists>x. s = x @ dot # p" by (metis append.assoc append_Cons append_Nil)
next
  assume "\<exists>x. s = x @ dot # p"
  then obtain x where s: "s = x @ dot # p" ..
  then have "ends_with p s" unfolding ends_with_iff by (metis append.assoc append_Cons append_Nil)
  with s show "length s > length p \<and> ends_with p s \<and> s ! (length s - length p - 1) = dot"
    by simp
qed

lemma matches_wildcard_iff:
  "matches_normalized (WildcardSubdomain p) h \<longleftrightarrow> (\<exists>x. x \<noteq> [] \<and> h = x @ dot # p)"
proof -
  have "matches_normalized (WildcardSubdomain p) h \<longleftrightarrow>
      length h > length p + 1 \<and> (\<exists>x. h = x @ dot # p)"
    using dotted_suffix_iff [of p h] by auto
  then show ?thesis by (auto simp: Suc_le_eq)
qed

lemma suffix_overlaps_iff: "suffix_overlaps s p \<longleftrightarrow> (\<exists>x. s = x @ dot # p)"
  using dotted_suffix_iff [of p s] by (simp add: suffix_overlaps_def)

lemma common_dotted_suffix:
  assumes "x @ dot # p = y @ dot # q"
  shows "p = q \<or> (\<exists>z. p = z @ dot # q) \<or> (\<exists>z. q = z @ dot # p)"
  using assms by (auto simp: append_eq_append_conv2 append_eq_Cons_conv Cons_eq_append_conv)

lemma hosts_overlap_if_common:
  assumes "admits a h" "admits b h"
  shows "hosts_overlap a b"
proof (cases "(a, b)" rule: hosts_overlap.cases)
  case (7 left right)
  with assms have "matches_normalized (WildcardSubdomain left) h"
    "matches_normalized (WildcardSubdomain right) h" by (auto simp: admits_def)
  then obtain x y where "h = x @ dot # left" "h = y @ dot # right"
    unfolding matches_wildcard_iff by blast
  then have "left = right \<or> (\<exists>z. left = z @ dot # right) \<or> (\<exists>z. right = z @ dot # left)"
    by (intro common_dotted_suffix [of x left y right]) simp
  with 7 show ?thesis by (simp add: suffix_overlaps_iff)
qed (use assms in \<open>auto simp: admits_def\<close>)

lemma common_if_hosts_overlap:
  assumes "hosts_overlap a b"
  shows "\<exists>h. admits a h \<and> admits b h"
proof -
  have admits_any: "\<exists>h. admits p h" for p
  proof (cases p)
    case (Some q)
    then show ?thesis
    proof (cases q)
      case (WildcardSubdomain s)
      then have "matches_normalized q (''x'' @ dot # s)"
        by (auto simp only: matches_wildcard_iff)
      with Some show ?thesis by (auto simp: admits_def)
    qed (auto simp: admits_def)
  qed (simp add: admits_def)
  show ?thesis
  proof (cases "(a, b)" rule: hosts_overlap.cases)
    case (7 left right)
    let ?long = "if suffix_overlaps left right then left else right"
    have "admits a (''x'' @ dot # ?long) \<and> admits b (''x'' @ dot # ?long)"
      using 7 assms
      by (auto simp: admits_def matches_wildcard_iff suffix_overlaps_iff
          simp del: matches_normalized.simps)
    then show ?thesis by blast
  next
    case (2 q)
    with admits_any [of b] show ?thesis by (simp add: admits_def)
  next
    case (3 q)
    with admits_any [of a] show ?thesis by (simp add: admits_def)
  qed (use assms in \<open>auto simp: admits_def\<close>)
qed

text \<open>
  The overlap test behind ambiguity detection is exact: two host constraints overlap
  iff some host satisfies both, whether they are exact hosts, wildcard subdomains or absent.
\<close>

theorem hosts_overlap_exact: "hosts_overlap a b \<longleftrightarrow> (\<exists>h. admits a h \<and> admits b h)"
  using hosts_overlap_if_common common_if_hosts_overlap by blast

lemma host_matches_admits:
  assumes "host_matches p (Some raw)"
  shows "p = None \<or> (\<exists>h. normalize_host raw = Some h \<and> admits p h)"
  using assms by (auto simp: host_matches_def matches_request_def admits_def split: option.splits)

lemma host_matches_overlap:
  assumes "host_matches p host" "host_matches q host"
  shows "hosts_overlap p q"
proof (cases "p = None \<or> q = None")
  case True
  then show ?thesis by (cases p; cases q) auto
next
  case False
  with assms obtain raw where "host = Some raw"
    by (auto simp: host_matches_def matches_request_def split: option.splits bind_splits)
  with assms False host_matches_admits [of p raw] host_matches_admits [of q raw] show ?thesis
    by (auto intro: hosts_overlap_if_common)
qed

end
