(* ===== verification/Static_Files.thy ===== *)
theory Static_Files
  imports Route_Pattern
begin

text \<open>
  Static files (\<open>src/app/router.rs\<close>): options, the sanitising of the requested path, byte
  ranges and content types. The model follows \<open>std::path\<close> on Unix, where a path has no
  prefix component. A \<open>PathBuf\<close> built by pushing plain components is the list of them.
\<close>

section \<open>Model\<close>

datatype Dotfiles = Deny | Allow

record StaticFilesOptions =
  dotfiles :: Dotfiles
  stream_start_timeout :: "nat option"
  stream_stall_timeout :: "nat option"
  stream_max_duration :: "nat option"

definition StaticFilesOptions_new :: StaticFilesOptions where
  "StaticFilesOptions_new =
     \<lparr>dotfiles = Deny, stream_start_timeout = Some (60 * 1000000000),
      stream_stall_timeout = Some (15 * 1000000000),
      stream_max_duration = Some (5 * 60 * 1000000000)\<rparr>"

definition validate_static_options ::
  "nat \<Rightarrow> nat \<Rightarrow> StaticFilesOptions \<Rightarrow> RouteErrorKind + unit" where
  "validate_static_options instant_max now options =
     (let bad = (\<lambda>t. case t of None \<Rightarrow> False
                   | Some d \<Rightarrow> d = 0 \<or> instant_checked_add instant_max now d = None)
      in if bad (stream_start_timeout options) \<or> bad (stream_stall_timeout options)
            \<or> bad (stream_max_duration options)
         then Inl InvalidStaticOptions else Inr ())"

fun trim_end_char :: "char \<Rightarrow> string \<Rightarrow> string" where
  "trim_end_char c s = rev (dropWhile (\<lambda>x. x = c) (rev s))"

fun trim_start_char :: "char \<Rightarrow> string \<Rightarrow> string" where
  "trim_start_char c s = dropWhile (\<lambda>x. x = c) s"

definition join_paths :: "string \<Rightarrow> string \<Rightarrow> string" where
  "join_paths prefix suffix =
     (let prefix = trim_end_char (CHR ''/'') prefix; suffix = trim_start_char (CHR ''/'') suffix
      in if prefix = [] \<and> suffix = [] then ''/''
         else if prefix = [] then ''/'' @ suffix
         else if suffix = [] then prefix
         else prefix @ ''/'' @ suffix)"

datatype Component = RootDir | CurDir | ParentDir | Normal string

definition components :: "string \<Rightarrow> Component list" where
  "components s =
     (if starts_with ''/'' s then [RootDir]
      else if hd (split_char (CHR ''/'') s) = ''.'' then [CurDir] else [])
     @ map (\<lambda>p. if p = ''..'' then ParentDir else Normal p)
         (filter (\<lambda>p. p \<noteq> [] \<and> p \<noteq> ''.'') (split_char (CHR ''/'') s))"

datatype StaticPathRejection = Hidden | Invalid

fun safe_components ::
  "Dotfiles \<Rightarrow> Component list \<Rightarrow> string list \<Rightarrow> StaticPathRejection + string list" where
  "safe_components policy [] path = Inr path"
| "safe_components policy (Normal part # rest) path =
     (if policy = Deny \<and> starts_with ''.'' part then Inl Hidden
      else safe_components policy rest (path @ [part]))"
| "safe_components policy (CurDir # rest) path =
     (if policy = Deny then Inl Hidden else safe_components policy rest path)"
| "safe_components policy (RootDir # rest) path = Inl Invalid"
| "safe_components policy (ParentDir # rest) path = Inl Invalid"

definition safe_static_relative :: "string \<Rightarrow> Dotfiles \<Rightarrow> StaticPathRejection + string list" where
  "safe_static_relative requested policy =
     (let relative = (if requested = [] then ''index.html'' else requested)
      in safe_components policy (components relative) [])"

datatype RangeParse = Satisfiable nat nat | Unsatisfiable | Ignored

definition parse_byte_range :: "string \<Rightarrow> nat \<Rightarrow> RangeParse" where
  "parse_byte_range raw total_len =
     (case split_once (CHR ''='') (trim raw) of
        None \<Rightarrow> Ignored
      | Some (unit, spec0) \<Rightarrow>
          if \<not> eq_ignore_ascii_case (trim unit) ''bytes'' then Ignored
          else let spec = trim spec0 in
            if CHR '','' \<in> set spec then Ignored
            else (case split_once (CHR ''-'') spec of
                    None \<Rightarrow> Ignored
                  | Some (start_raw0, end_raw0) \<Rightarrow>
                      let start_raw = trim start_raw0; end_raw = trim end_raw0 in
                      if start_raw = [] then
                        (case parse_u64 end_raw of
                           None \<Rightarrow> Ignored
                         | Some suffix \<Rightarrow>
                             if suffix = 0 \<or> total_len = 0 then Unsatisfiable
                             else Satisfiable (total_len - suffix) (total_len - 1))
                      else
                        (case parse_u64 start_raw of
                           None \<Rightarrow> Ignored
                         | Some start \<Rightarrow>
                             if start \<ge> total_len then Unsatisfiable
                             else (case (if end_raw = [] then Some (total_len - 1)
                                         else map_option (\<lambda>e. min e (total_len - 1)) (parse_u64 end_raw)) of
                                     None \<Rightarrow> Ignored
                                   | Some end_ \<Rightarrow>
                                       if end_ < start then Ignored else Satisfiable start end_))))"

definition file_extension :: "string list \<Rightarrow> string" where
  "file_extension path =
     (if path = [] then []
      else (case rsplit_once (CHR ''.'') (last path) of
              None \<Rightarrow> []
            | Some (stem, ext) \<Rightarrow> if stem = [] then [] else ext))"

definition content_type_for_path :: "string list \<Rightarrow> string" where
  "content_type_for_path path =
     (let ext = file_extension path in
        if ext \<in> {''html'', ''htm''} then ''text/html; charset=utf-8''
        else if ext = ''css'' then ''text/css; charset=utf-8''
        else if ext \<in> {''js'', ''mjs''} then ''text/javascript; charset=utf-8''
        else if ext = ''json'' then ''application/json''
        else if ext = ''txt'' then ''text/plain; charset=utf-8''
        else if ext = ''csv'' then ''text/csv; charset=utf-8''
        else if ext = ''svg'' then ''image/svg+xml''
        else if ext = ''png'' then ''image/png''
        else if ext \<in> {''jpg'', ''jpeg''} then ''image/jpeg''
        else if ext = ''gif'' then ''image/gif''
        else if ext = ''webp'' then ''image/webp''
        else if ext = ''ico'' then ''image/x-icon''
        else if ext = ''wasm'' then ''application/wasm''
        else if ext = ''pdf'' then ''application/pdf''
        else ''application/octet-stream'')"

section \<open>Requested paths stay inside the root\<close>

definition plain_part :: "string \<Rightarrow> bool" where
  "plain_part p \<longleftrightarrow> p \<noteq> [] \<and> p \<noteq> ''.'' \<and> p \<noteq> ''..'' \<and> CHR ''/'' \<notin> set p"

lemma safe_components_Inr:
  "safe_components policy cs path = Inr parts \<Longrightarrow>
     RootDir \<notin> set cs \<and> ParentDir \<notin> set cs \<and>
     (\<forall>p \<in> set parts. p \<in> set path \<or> Normal p \<in> set cs \<and> (policy = Deny \<longrightarrow> \<not> starts_with ''.'' p))"
  by (induction policy cs path rule: safe_components.induct) (auto split: if_splits)

lemma Normal_components: "Normal p \<in> set (components s) \<Longrightarrow> plain_part p"
  by (auto simp: components_def plain_part_def split: if_splits dest: split_char_no_sep)

text \<open>
  Claim C5: a requested path that static file serving accepts cannot leave the served
  directory: it becomes a sequence of plain names, none of them empty, \<open>.\<close>, \<open>..\<close> or
  containing a slash, and under the default policy none starts with a dot. In particular
  an absolute path and any path with a parent component is refused.
\<close>

theorem safe_static_relative_confined:
  assumes "safe_static_relative requested policy = Inr parts"
  shows "(\<forall>p \<in> set parts. plain_part p \<and> (policy = Deny \<longrightarrow> \<not> starts_with ''.'' p)) \<and>
    \<not> starts_with ''/'' requested \<and> ''..'' \<notin> set (split_char (CHR ''/'') requested)"
proof -
  let ?rel = "if requested = [] then ''index.html'' else requested"
  from assms have "safe_components policy (components ?rel) [] = Inr parts"
    by (simp add: safe_static_relative_def)
  note safe_components_Inr [OF this]
  moreover have "RootDir \<in> set (components ?rel)" if "starts_with ''/'' requested"
    using that by (auto simp: components_def starts_with_def)
  moreover have "ParentDir \<in> set (components ?rel)" if "''..'' \<in> set (split_char (CHR ''/'') requested)"
    using that by (cases "requested = []") (auto simp: components_def image_iff)
  ultimately show ?thesis using Normal_components by fastforce
qed

theorem safe_static_relative_confined_witness:
  "safe_static_relative ''a/./b.txt'' Deny = Inr [''a'', ''b.txt''] \<and>
   plain_part ''b.txt'' \<and> \<not> starts_with ''.'' ''b.txt''"
proof -
  have h: "safe_static_relative ''a/./b.txt'' Deny = Inr [''a'', ''b.txt'']" by code_simp
  from h safe_static_relative_confined [OF h] show ?thesis by simp
qed

section \<open>Byte ranges\<close>

text \<open>
  A satisfiable range lies inside the file: it starts no later than it ends and ends
  before the length, so the number of bytes served (\<open>end - start + 1\<close>) is positive and the
  range never reaches past the end, whatever the header says.
\<close>

theorem parse_byte_range_bounds:
  assumes "parse_byte_range raw total_len = Satisfiable s e"
  shows "s \<le> e \<and> e < total_len \<and> s + (e - s + 1) \<le> total_len"
  using assms
  by (auto simp: parse_byte_range_def Let_def split: option.splits prod.splits if_splits)

theorem parse_byte_range_bounds_witness:
  "parse_byte_range ''bytes=2-99'' 10 = Satisfiable 2 9 \<and> (9::nat) < 10"
proof -
  have h: "parse_byte_range ''bytes=2-99'' 10 = Satisfiable 2 9" by code_simp
  from h parse_byte_range_bounds [OF h] show ?thesis by simp
qed

end
