(* ===== verification/Router.thy ===== *)
theory Router
  imports Trie Host_Pattern Static_Files
begin

text \<open>
  The router (\<open>src/app/router.rs\<close>): registration, mounting, route handles, lookup and URL
  generation. Handlers, middleware and WebSocket settings are opaque values of types
  \<open>'h\<close>, \<open>'m\<close> and \<open>'c\<close>. The lazily built index is kept in the state as a cache, so that a
  lookup reads what the code reads. A vector access out of range is the outcome \<open>Panic\<close>.
\<close>

section \<open>State\<close>

datatype 'c RouteKind = Http | WebSocket 'c

record RouteMeta =
  summary :: "string option"
  description :: "string option"
  tags :: "string list"
  body_limit :: "nat option"

definition RouteMeta_default :: RouteMeta where
  "RouteMeta_default = \<lparr>summary = None, description = None, tags = [], body_limit = None\<rparr>"

record ('h, 'm, 'c) Route =
  rt_method :: string
  rt_pattern :: RoutePattern
  rt_handler :: 'h
  rt_middlewares :: "'m list"
  rt_route_layers :: nat
  rt_kind :: "'c RouteKind"
  rt_meta :: RouteMeta
  rt_name :: "string option"
  rt_host :: "HostPattern option"

record ('h, 'm, 'c) Router =
  routes :: "('h, 'm, 'c) Route list"
  middlewares :: "'m list"
  index_cache :: "RouteIndex option"

record ('h, 'm, 'c) MatchedRoute =
  mr_handler :: 'h
  mr_middlewares :: "'m list"
  mr_params :: "string \<rightharpoonup> string"
  mr_pattern :: string
  mr_kind :: "'c RouteKind"
  mr_body_limit :: "nat option"

record RouteInfo =
  ri_method :: string
  ri_path :: string
  ri_summary :: "string option"
  ri_description :: "string option"
  ri_tags :: "string list"

definition Router_new :: "('h, 'm, 'c) Router" where
  "Router_new = \<lparr>routes = [], middlewares = [], index_cache = None\<rparr>"

section \<open>The index cache\<close>

definition index_entries :: "('h, 'm, 'c) Router \<Rightarrow> (string \<times> Segment list) list" where
  "index_entries r = map (\<lambda>rt. (rt_method rt, segments (rt_pattern rt))) (routes r)"

text \<open>\<open>Router::index\<close>: the cached index, built and stored on first use.\<close>

definition router_index :: "('h, 'm, 'c) Router \<Rightarrow> RouteIndex \<times> ('h, 'm, 'c) Router" where
  "router_index r =
     (case index_cache r of
        Some ix \<Rightarrow> (ix, r)
      | None \<Rightarrow> let ix = build (index_entries r) in (ix, r\<lparr>index_cache := Some ix\<rparr>))"

section \<open>Registration\<close>

definition same_shape ::
  "string \<Rightarrow> RoutePattern \<Rightarrow> HostPattern option \<Rightarrow> ('h, 'm, 'c) Route \<Rightarrow> bool" where
  "same_shape method pattern host rt \<longleftrightarrow>
     rt_method rt = method \<and> conflict_key (rt_pattern rt) = conflict_key pattern
     \<and> hosts_overlap (rt_host rt) host"

definition conflict_kind :: "RoutePattern \<Rightarrow> ('h, 'm, 'c) Route \<Rightarrow> RouteErrorKind" where
  "conflict_kind pattern rt =
     (if rendered (rt_pattern rt) = rendered pattern then DuplicateRoute else ConflictingPattern)"

definition validate_against ::
  "('h, 'm, 'c) Route list \<Rightarrow> string \<Rightarrow> RoutePattern \<Rightarrow> HostPattern option \<Rightarrow> string option \<Rightarrow>
     RouteErrorKind + unit" where
  "validate_against rts method pattern host name =
     (if name \<noteq> None \<and> (\<exists>rt \<in> set rts. rt_name rt = name) then Inl DuplicateName
      else (case find (same_shape method pattern host) rts of
              Some rt \<Rightarrow> Inl (conflict_kind pattern rt)
            | None \<Rightarrow> Inr ()))"

definition validate_route_insert ::
  "('h, 'm, 'c) Router \<Rightarrow> string \<Rightarrow> RoutePattern \<Rightarrow> HostPattern option \<Rightarrow> string option \<Rightarrow>
     RouteErrorKind + unit" where
  "validate_route_insert r = validate_against (routes r)"

definition validate_route_batch_insert ::
  "('h, 'm, 'c) Route list \<Rightarrow> string \<Rightarrow> RoutePattern \<Rightarrow> HostPattern option \<Rightarrow> string option \<Rightarrow>
     RouteErrorKind + unit" where
  "validate_route_batch_insert = validate_against"

definition add_with_kind ::
  "(string \<Rightarrow> string) \<Rightarrow> ('h, 'm, 'c) Router \<Rightarrow> string \<Rightarrow> string \<Rightarrow> 'h \<Rightarrow> 'c RouteKind \<Rightarrow>
     RouteErrorKind + (('h, 'm, 'c) Router \<times> nat)" where
  "add_with_kind pd r method path handler kind =
     (if eq_ignore_ascii_case method ''CONNECT'' then Inl UnsupportedMethod
      else (case parse pd path of
              Inl e \<Rightarrow> Inl e
            | Inr pattern \<Rightarrow>
                (case validate_route_insert r method pattern None None of
                   Inl e \<Rightarrow> Inl e
                 | Inr _ \<Rightarrow>
                     Inr (r\<lparr>routes := routes r @
                              [\<lparr>rt_method = method, rt_pattern = pattern, rt_handler = handler,
                                rt_middlewares = [], rt_route_layers = 0, rt_kind = kind,
                                rt_meta = RouteMeta_default, rt_name = None, rt_host = None\<rparr>],
                            index_cache := None\<rparr>,
                          length (routes r)))))"

definition add ::
  "(string \<Rightarrow> string) \<Rightarrow> ('h, 'm, 'c) Router \<Rightarrow> string \<Rightarrow> string \<Rightarrow> 'h \<Rightarrow>
     RouteErrorKind + (('h, 'm, 'c) Router \<times> nat)" where
  "add pd r method path handler = add_with_kind pd r method path handler Http"

text \<open>\<open>ws_handler config h\<close> stands for the closure that runs the upgrade with this configuration.\<close>

definition websocket_with ::
  "(string \<Rightarrow> string) \<Rightarrow> ('c \<Rightarrow> 'w \<Rightarrow> 'h) \<Rightarrow> ('h, 'm, 'c) Router \<Rightarrow> string \<Rightarrow> 'c \<Rightarrow> 'w \<Rightarrow>
     RouteErrorKind + (('h, 'm, 'c) Router \<times> nat)" where
  "websocket_with pd ws_handler r path config handler =
     add_with_kind pd r ''GET'' path (ws_handler config handler) (WebSocket config)"

definition router_layer :: "('h, 'm, 'c) Router \<Rightarrow> 'm \<Rightarrow> ('h, 'm, 'c) Router" where
  "router_layer r mw = r\<lparr>middlewares := middlewares r @ [mw]\<rparr>"

definition fallback ::
  "(string \<Rightarrow> string) \<Rightarrow> ('h, 'm, 'c) Router \<Rightarrow> 'h \<Rightarrow>
     RouteErrorKind + (('h, 'm, 'c) Router \<times> nat)" where
  "fallback pd r handler = add pd r METHOD_ALL ''/*path'' handler"

definition static_route ::
  "string \<Rightarrow> RoutePattern \<Rightarrow> 'h \<Rightarrow> ('h, 'm, 'c) Route" where
  "static_route method pattern handler =
     \<lparr>rt_method = method, rt_pattern = pattern, rt_handler = handler, rt_middlewares = [],
      rt_route_layers = 0, rt_kind = Http, rt_meta = RouteMeta_default, rt_name = None,
      rt_host = None\<rparr>"

text \<open>
  \<open>open_dir\<close> is the capability-based opening of the root directory (crate \<open>cap_std\<close>) and
  \<open>static_handler\<close> the closure that serves a file below it.
\<close>

definition static_files_with_options ::
  "(string \<Rightarrow> string) \<Rightarrow> nat \<Rightarrow> (string \<Rightarrow> 'd option) \<Rightarrow> ('d \<Rightarrow> StaticFilesOptions \<Rightarrow> 'h) \<Rightarrow>
     nat \<Rightarrow> ('h, 'm, 'c) Router \<Rightarrow> string \<Rightarrow> string \<Rightarrow> StaticFilesOptions \<Rightarrow>
     RouteErrorKind + ('h, 'm, 'c) Router" where
  "static_files_with_options pd instant_max open_dir static_handler now r prefix root_path options =
     (case validate_static_options instant_max now options of
        Inl e \<Rightarrow> Inl e
      | Inr _ \<Rightarrow>
        (case open_dir root_path of
           None \<Rightarrow> Inl InvalidStaticRoot
         | Some dir \<Rightarrow>
           (case parse pd (join_paths prefix ''/*path'') of
              Inl e \<Rightarrow> Inl e
            | Inr pattern \<Rightarrow>
              (case validate_route_insert r ''GET'' pattern None None of
                 Inl e \<Rightarrow> Inl e
               | Inr _ \<Rightarrow>
                 (case validate_route_insert r ''HEAD'' pattern None None of
                    Inl e \<Rightarrow> Inl e
                  | Inr _ \<Rightarrow>
                    Inr (r\<lparr>routes := routes r
                             @ [static_route ''GET'' pattern (static_handler dir options)]
                             @ [static_route ''HEAD'' pattern (static_handler dir options)],
                           index_cache := None\<rparr>))))))"

fun mount_loop ::
  "('h, 'm, 'c) Router \<Rightarrow> RoutePattern \<Rightarrow> 'm list \<Rightarrow> ('h, 'm, 'c) Route list \<Rightarrow>
     ('h, 'm, 'c) Route list \<Rightarrow> RouteErrorKind + ('h, 'm, 'c) Route list" where
  "mount_loop r prefix scoped [] mounted = Inr mounted"
| "mount_loop r prefix scoped (rt # rest) mounted =
     (case pattern_join prefix (rt_pattern rt) of
        Inl e \<Rightarrow> Inl e
      | Inr pattern \<Rightarrow>
        (case validate_route_insert r (rt_method rt) pattern (rt_host rt) (rt_name rt) of
           Inl e \<Rightarrow> Inl e
         | Inr _ \<Rightarrow>
           (case validate_route_batch_insert mounted (rt_method rt) pattern (rt_host rt) (rt_name rt) of
              Inl e \<Rightarrow> Inl e
            | Inr _ \<Rightarrow>
              mount_loop r prefix scoped rest
                (mounted @ [rt\<lparr>rt_pattern := pattern, rt_middlewares := scoped @ rt_middlewares rt\<rparr>]))))"

definition mount ::
  "(string \<Rightarrow> string) \<Rightarrow> ('h, 'm, 'c) Router \<Rightarrow> string \<Rightarrow> ('h, 'm, 'c) Router \<Rightarrow>
     RouteErrorKind + ('h, 'm, 'c) Router" where
  "mount pd r prefix other =
     (case parse pd prefix of
        Inl e \<Rightarrow> Inl e
      | Inr prefix_pattern \<Rightarrow>
        (case mount_loop r prefix_pattern (middlewares other) (routes other) [] of
           Inl e \<Rightarrow> Inl e
         | Inr mounted \<Rightarrow> Inr (r\<lparr>routes := routes r @ mounted, index_cache := None\<rparr>)))"

section \<open>Route handles\<close>

text \<open>
  A handle is the router it borrows mutably and the position of the route just added. A
  failing \<open>name\<close> or \<open>host\<close> takes the route out again and returns the error with the router.
\<close>

definition update_route ::
  "(('h, 'm, 'c) Route \<Rightarrow> ('h, 'm, 'c) Route) \<Rightarrow> ('h, 'm, 'c) Router \<Rightarrow> nat \<Rightarrow> ('h, 'm, 'c) Router" where
  "update_route f r i = r\<lparr>routes := (routes r)[i := f (routes r ! i)]\<rparr>"

definition fail_and_remove :: "('h, 'm, 'c) Router \<Rightarrow> nat \<Rightarrow> ('h, 'm, 'c) Router" where
  "fail_and_remove r i =
     r\<lparr>routes := take i (routes r) @ drop (Suc i) (routes r), index_cache := None\<rparr>"

definition handle_layer :: "'m \<Rightarrow> ('h, 'm, 'c) Router \<Rightarrow> nat \<Rightarrow> ('h, 'm, 'c) Router" where
  "handle_layer mw =
     update_route (\<lambda>rt. rt\<lparr>rt_middlewares := rt_middlewares rt @ [mw],
                           rt_route_layers := rt_route_layers rt + 1\<rparr>)"

definition handle_body_limit :: "nat \<Rightarrow> ('h, 'm, 'c) Router \<Rightarrow> nat \<Rightarrow> ('h, 'm, 'c) Router" where
  "handle_body_limit n =
     update_route (\<lambda>rt. rt\<lparr>rt_meta := (rt_meta rt)\<lparr>body_limit := Some n\<rparr>\<rparr>)"

definition handle_name ::
  "string \<Rightarrow> ('h, 'm, 'c) Router \<Rightarrow> nat \<Rightarrow> (RouteErrorKind \<times> ('h, 'm, 'c) Router) + ('h, 'm, 'c) Router" where
  "handle_name name r i =
     (if \<exists>j < length (routes r). j \<noteq> i \<and> rt_name (routes r ! j) = Some name
      then Inl (DuplicateName, fail_and_remove r i)
      else Inr (update_route (\<lambda>rt. rt\<lparr>rt_name := Some name\<rparr>) r i))"

definition validate_route_host_update ::
  "('h, 'm, 'c) Router \<Rightarrow> nat \<Rightarrow> HostPattern \<Rightarrow> RouteErrorKind + unit" where
  "validate_route_host_update r i host =
     (let rt = routes r ! i in
        (case find (\<lambda>j. j \<noteq> i \<and> same_shape (rt_method rt) (rt_pattern rt) (Some host) (routes r ! j))
                [0..<length (routes r)] of
           Some j \<Rightarrow> Inl (conflict_kind (rt_pattern rt) (routes r ! j))
         | None \<Rightarrow> Inr ()))"

definition handle_host ::
  "string \<Rightarrow> ('h, 'm, 'c) Router \<Rightarrow> nat \<Rightarrow> (RouteErrorKind \<times> ('h, 'm, 'c) Router) + ('h, 'm, 'c) Router" where
  "handle_host host r i =
     (case host_parse host of
        Inl e \<Rightarrow> Inl (e, fail_and_remove r i)
      | Inr hp \<Rightarrow>
        (case validate_route_host_update r i hp of
           Inl e \<Rightarrow> Inl (e, fail_and_remove r i)
         | Inr _ \<Rightarrow>
             Inr ((update_route (\<lambda>rt. rt\<lparr>rt_host := Some hp\<rparr>) r i)\<lparr>index_cache := None\<rparr>)))"

text \<open>\<open>timeout_mw d\<close> is the middleware built by \<open>middleware::timeout\<close>.\<close>

definition handle_timeout ::
  "(nat \<Rightarrow> 'm) \<Rightarrow> nat \<Rightarrow> ('h, 'm, 'c) Router \<Rightarrow> nat \<Rightarrow> ('h, 'm, 'c) Router" where
  "handle_timeout timeout_mw d =
     update_route (\<lambda>rt. rt\<lparr>rt_middlewares := rt_middlewares rt @ [timeout_mw d]\<rparr>)"

definition handle_summary :: "string \<Rightarrow> ('h, 'm, 'c) Router \<Rightarrow> nat \<Rightarrow> ('h, 'm, 'c) Router" where
  "handle_summary s = update_route (\<lambda>rt. rt\<lparr>rt_meta := (rt_meta rt)\<lparr>summary := Some s\<rparr>\<rparr>)"

definition handle_description :: "string \<Rightarrow> ('h, 'm, 'c) Router \<Rightarrow> nat \<Rightarrow> ('h, 'm, 'c) Router" where
  "handle_description s = update_route (\<lambda>rt. rt\<lparr>rt_meta := (rt_meta rt)\<lparr>description := Some s\<rparr>\<rparr>)"

definition handle_tag :: "string \<Rightarrow> ('h, 'm, 'c) Router \<Rightarrow> nat \<Rightarrow> ('h, 'm, 'c) Router" where
  "handle_tag t = update_route (\<lambda>rt. rt\<lparr>rt_meta := (rt_meta rt)\<lparr>tags := tags (rt_meta rt) @ [t]\<rparr>\<rparr>)"

section \<open>Lookup\<close>

definition matched :: "('h, 'm, 'c) Route \<Rightarrow> (string \<rightharpoonup> string) \<Rightarrow> ('h, 'm, 'c) MatchedRoute" where
  "matched rt params =
     \<lparr>mr_handler = rt_handler rt, mr_middlewares = rt_middlewares rt, mr_params = params,
      mr_pattern = rendered (rt_pattern rt), mr_kind = rt_kind rt,
      mr_body_limit = body_limit (rt_meta rt)\<rparr>"

definition is_websocket :: "'c RouteKind \<Rightarrow> bool" where
  "is_websocket k = (case k of WebSocket _ \<Rightarrow> True | Http \<Rightarrow> False)"

text \<open>The loop over the candidates; \<open>skip\<close> collects the \<open>continue\<close> guards of the caller.\<close>

fun resolve_loop ::
  "(('h, 'm, 'c) Route \<Rightarrow> bool) \<Rightarrow> ('h, 'm, 'c) Route list \<Rightarrow> string list \<Rightarrow> nat list \<Rightarrow>
     ('h, 'm, 'c) MatchedRoute option outcome" where
  "resolve_loop skip rts segs [] = Val None"
| "resolve_loop skip rts segs (i # is) =
     (case vec_get rts i of
        Panic \<Rightarrow> Panic
      | Val rt \<Rightarrow>
          if skip rt then resolve_loop skip rts segs is
          else (case match_decoded_pattern (segments (rt_pattern rt)) segs of
                  None \<Rightarrow> resolve_loop skip rts segs is
                | Some params \<Rightarrow> Val (Some (matched rt params))))"

definition skip_method :: "string \<Rightarrow> string option \<Rightarrow> ('h, 'm, 'c) Route \<Rightarrow> bool" where
  "skip_method method host rt \<longleftrightarrow>
     \<not> host_matches (rt_host rt) host
     \<or> method = ''HEAD'' \<and> rt_method rt \<noteq> method \<and> is_websocket (rt_kind rt)"

definition skip_http :: "string option \<Rightarrow> ('h, 'm, 'c) Route \<Rightarrow> bool" where
  "skip_http host rt \<longleftrightarrow> is_websocket (rt_kind rt) \<or> \<not> host_matches (rt_host rt) host"

definition resolve_with ::
  "(string \<Rightarrow> string) \<Rightarrow> (('h, 'm, 'c) Route \<Rightarrow> bool) \<Rightarrow> ('h, 'm, 'c) Router \<Rightarrow> string \<Rightarrow> string \<Rightarrow>
     (RouteMatchErrorKind + ('h, 'm, 'c) MatchedRoute option) outcome \<times> ('h, 'm, 'c) Router" where
  "resolve_with pd skip r method path =
     (case decode_path_segments pd path of
        Inl e \<Rightarrow> (Val (Inl e), r)
      | Inr segs \<Rightarrow>
          let (ix, r') = router_index r in
          (case resolve_loop skip (routes r) segs (find_candidates ix method segs) of
             Panic \<Rightarrow> (Panic, r')
           | Val m \<Rightarrow> (Val (Inr m), r')))"

definition resolve_method ::
  "(string \<Rightarrow> string) \<Rightarrow> ('h, 'm, 'c) Router \<Rightarrow> string \<Rightarrow> string \<Rightarrow> string option \<Rightarrow>
     (RouteMatchErrorKind + ('h, 'm, 'c) MatchedRoute option) outcome \<times> ('h, 'm, 'c) Router" where
  "resolve_method pd r method path host = resolve_with pd (skip_method method host) r method path"

definition resolve_http_method ::
  "(string \<Rightarrow> string) \<Rightarrow> ('h, 'm, 'c) Router \<Rightarrow> string \<Rightarrow> string \<Rightarrow> string option \<Rightarrow>
     (RouteMatchErrorKind + ('h, 'm, 'c) MatchedRoute option) outcome \<times> ('h, 'm, 'c) Router" where
  "resolve_http_method pd r method path host = resolve_with pd (skip_http host) r method path"

definition router_routes :: "('h, 'm, 'c) Router \<Rightarrow> RouteInfo list" where
  "router_routes r =
     map (\<lambda>rt. \<lparr>ri_method = rt_method rt, ri_path = rendered (rt_pattern rt),
                ri_summary = summary (rt_meta rt), ri_description = description (rt_meta rt),
                ri_tags = tags (rt_meta rt)\<rparr>) (routes r)"

fun pattern_specificity :: "Segment list \<Rightarrow> nat list" where
  "pattern_specificity [] = []"
| "pattern_specificity (Static _ # r) = 2 # pattern_specificity r"
| "pattern_specificity (Param _ # r) = 1 # pattern_specificity r"
| "pattern_specificity (Wildcard _ # r) = 0 # pattern_specificity r"

definition better_scope :: "nat list \<times> nat \<Rightarrow> (nat list \<times> nat) option \<Rightarrow> bool" where
  "better_scope new best =
     (case best of
        None \<Rightarrow> True
      | Some (current, current_index) \<Rightarrow>
          vec_less current (fst new) \<or> fst new = current \<and> snd new < current_index)"

fun scope_loop ::
  "('h, 'm, 'c) Route list \<Rightarrow> string list \<Rightarrow> string option \<Rightarrow> (nat \<times> string) list \<Rightarrow>
     (nat list \<times> nat) option \<Rightarrow> (nat list \<times> nat) option outcome" where
  "scope_loop rts segs host [] best = Val best"
| "scope_loop rts segs host ((i, method) # ms) best =
     (case vec_get rts i of
        Panic \<Rightarrow> Panic
      | Val rt \<Rightarrow>
          if method = METHOD_ALL \<or> \<not> host_matches (rt_host rt) host
             \<or> match_decoded_pattern (segments (rt_pattern rt)) segs = None
          then scope_loop rts segs host ms best
          else let new = (pattern_specificity (segments (rt_pattern rt)), i) in
            scope_loop rts segs host ms (if better_scope new best then Some new else best))"

definition scoped_middlewares ::
  "(string \<Rightarrow> string) \<Rightarrow> ('h, 'm, 'c) Router \<Rightarrow> string \<Rightarrow> string option \<Rightarrow>
     (RouteMatchErrorKind + 'm list) outcome \<times> ('h, 'm, 'c) Router" where
  "scoped_middlewares pd r path host =
     (case decode_path_segments pd path of
        Inl e \<Rightarrow> (Val (Inl e), r)
      | Inr segs \<Rightarrow>
          let (ix, r') = router_index r in
          (case scope_loop (routes r) segs host (matching_methods ix segs) None of
             Panic \<Rightarrow> (Panic, r')
           | Val None \<Rightarrow> (Val (Inr []), r')
           | Val (Some (_, i)) \<Rightarrow>
               let rt = routes r ! i in
               (if rt_route_layers rt > length (rt_middlewares rt) then Panic
                else Val (Inr (take (length (rt_middlewares rt) - rt_route_layers rt) (rt_middlewares rt))),
                r')))"

fun allowed_loop ::
  "('h, 'm, 'c) Route list \<Rightarrow> string list \<Rightarrow> string option \<Rightarrow> (nat \<times> string) list \<Rightarrow>
     string list \<Rightarrow> string list outcome" where
  "allowed_loop rts segs host [] methods = Val methods"
| "allowed_loop rts segs host ((i, method) # ms) methods =
     (case vec_get rts i of
        Panic \<Rightarrow> Panic
      | Val rt \<Rightarrow>
          if \<not> host_matches (rt_host rt) host then allowed_loop rts segs host ms methods
          else if match_decoded_pattern (segments (rt_pattern rt)) segs = None
          then allowed_loop rts segs host ms methods
          else if method \<noteq> METHOD_ALL \<and> method \<notin> set methods
          then allowed_loop rts segs host ms (methods @ [method])
          else allowed_loop rts segs host ms methods)"

definition allowed_methods ::
  "(string \<Rightarrow> string) \<Rightarrow> ('h, 'm, 'c) Router \<Rightarrow> string \<Rightarrow> string option \<Rightarrow>
     (RouteMatchErrorKind + string list) outcome \<times> ('h, 'm, 'c) Router" where
  "allowed_methods pd r path host =
     (case decode_path_segments pd path of
        Inl e \<Rightarrow> (Val (Inl e), r)
      | Inr segs \<Rightarrow>
          let (ix, r') = router_index r in
          (case allowed_loop (routes r) segs host (matching_methods ix segs) [] of
             Panic \<Rightarrow> (Panic, r')
           | Val ms \<Rightarrow> (Val (Inr ms), r')))"

definition allow_header_value :: "string list \<Rightarrow> bool \<Rightarrow> string" where
  "allow_header_value allowed implicit_head =
     (let m1 = (if implicit_head \<and> ''HEAD'' \<notin> set allowed then allowed @ [''HEAD''] else allowed);
          m2 = (if ''OPTIONS'' \<notin> set m1 then m1 @ [''OPTIONS''] else m1)
      in join '', '' m2)"

definition url_for ::
  "('h, 'm, 'c) Router \<Rightarrow> string \<Rightarrow> (string \<times> string) list \<Rightarrow> RouteErrorKind + string" where
  "url_for r name params =
     (case find (\<lambda>rt. rt_name rt = Some name) (routes r) of
        None \<Rightarrow> Inl MissingUrlParameter
      | Some rt \<Rightarrow> build_url (rt_pattern rt) params)"

end
