(* ===== verification/Router_Invariant.thy ===== *)
theory Router_Invariant
  imports Router
begin

text \<open>
  The invariant of the router: every pattern is well formed, no two routes are
  ambiguous (same method, same pattern shape, overlapping hosts), names are unique, the
  layer count fits the middleware list, and a cached index is the index of the present
  routes. Every way to build a router keeps it, failing handle operations included.
\<close>

section \<open>The invariant\<close>

type_synonym route_key = "string \<times> ConflictSegment list \<times> HostPattern option"

definition route_key :: "('h, 'm, 'c) Route \<Rightarrow> route_key" where
  "route_key rt = (rt_method rt, conflict_key (rt_pattern rt), rt_host rt)"

fun key_clash :: "route_key \<Rightarrow> route_key \<Rightarrow> bool" where
  "key_clash (m, k, h) (m', k', h') \<longleftrightarrow> m = m' \<and> k = k' \<and> hosts_overlap h h'"

definition no_clash :: "('h, 'm, 'c) Route list \<Rightarrow> bool" where
  "no_clash rts = sorted_wrt (\<lambda>a b. \<not> key_clash a b) (map route_key rts)"

definition unique_names :: "('h, 'm, 'c) Route list \<Rightarrow> bool" where
  "unique_names rts = sorted_wrt (\<lambda>a b. a = None \<or> a \<noteq> b) (map rt_name rts)"

definition wf_route :: "('h, 'm, 'c) Route \<Rightarrow> bool" where
  "wf_route rt \<longleftrightarrow> wf_pattern (rt_pattern rt) \<and> rt_route_layers rt \<le> length (rt_middlewares rt)"

definition wf_routes :: "('h, 'm, 'c) Route list \<Rightarrow> bool" where
  "wf_routes rts \<longleftrightarrow> list_all wf_route rts \<and> no_clash rts \<and> unique_names rts"

definition cache_ok :: "('h, 'm, 'c) Router \<Rightarrow> bool" where
  "cache_ok r \<longleftrightarrow> index_cache r = None \<or> index_cache r = Some (build (index_entries r))"

definition wf_router :: "('h, 'm, 'c) Router \<Rightarrow> bool" where
  "wf_router r \<longleftrightarrow> wf_routes (routes r) \<and> cache_ok r"

section \<open>Shared lemmas\<close>

lemma hosts_overlap_sym: "hosts_overlap a b = hosts_overlap b a"
  by (cases "(a, b)" rule: hosts_overlap.cases) auto

lemma key_clash_sym: "key_clash a b = key_clash b a"
  using hosts_overlap_sym by (cases a; cases b) auto

lemma wf_routes_Nil [simp]: "wf_routes []"
  by (simp add: wf_routes_def no_clash_def unique_names_def)

lemma wf_routes_append:
  "wf_routes (xs @ ys) \<longleftrightarrow> wf_routes xs \<and> wf_routes ys \<and>
     (\<forall>x \<in> set xs. \<forall>y \<in> set ys. \<not> key_clash (route_key x) (route_key y)) \<and>
     (\<forall>x \<in> set xs. \<forall>y \<in> set ys. rt_name x = None \<or> rt_name x \<noteq> rt_name y)"
  by (auto simp: wf_routes_def no_clash_def unique_names_def sorted_wrt_append)

lemma wf_routes_single [simp]: "wf_routes [rt] = wf_route rt"
  by (simp add: wf_routes_def no_clash_def unique_names_def)

lemma validate_against_Inr:
  "validate_against rts method pattern host name = Inr () \<longleftrightarrow>
     (\<forall>rt \<in> set rts. \<not> key_clash (route_key rt) (method, conflict_key pattern, host)) \<and>
     (\<forall>rt \<in> set rts. rt_name rt = None \<or> rt_name rt \<noteq> name)"
proof -
  have "same_shape method pattern host rt \<longleftrightarrow>
      key_clash (route_key rt) (method, conflict_key pattern, host)" for rt :: "('h, 'm, 'c) Route"
    by (auto simp: same_shape_def route_key_def)
  then have shape: "find (same_shape method pattern host) rts = None \<longleftrightarrow>
      (\<forall>rt \<in> set rts. \<not> key_clash (route_key rt) (method, conflict_key pattern, host))"
    by (auto simp: find_None_iff)
  then show ?thesis
    by (cases "find (same_shape method pattern host) rts") (auto simp: validate_against_def)
qed

lemmas validate_insert_Inr = validate_against_Inr [folded validate_route_insert_def]

lemma wf_routes_snoc:
  assumes "wf_routes rts" and "wf_route rt"
    and "validate_against rts (rt_method rt) (rt_pattern rt) (rt_host rt) (rt_name rt) = Inr ()"
  shows "wf_routes (rts @ [rt])"
  using assms by (auto simp: wf_routes_append validate_against_Inr route_key_def)

lemma wf_routes_Cons_D: "wf_routes (rt # rts) \<Longrightarrow> wf_routes rts"
  using wf_routes_append [of "[rt]" rts] by simp

lemma wf_routes_remove: "wf_routes rts \<Longrightarrow> wf_routes (take i rts @ drop (Suc i) rts)"
proof (cases "i < length rts")
  case True
  assume wf: "wf_routes rts"
  have "rts = take i rts @ [rts ! i] @ drop (Suc i) rts" using True by (simp add: id_take_nth_drop)
  with wf have "wf_routes (take i rts @ [rts ! i] @ drop (Suc i) rts)" by simp
  then show ?thesis by (auto simp: wf_routes_append dest: wf_routes_Cons_D)
qed simp

lemma map_update_same:
  assumes "f x = f (xs ! i)"
  shows "map f (xs[i := x]) = map f xs"
proof (cases "i < length xs")
  case True
  then have "(map f xs)[i := f (xs ! i)] = map f xs" by (metis list_update_id nth_map)
  with assms show ?thesis by (simp add: map_update)
qed (simp add: list_update_beyond)

text \<open>An update that keeps a route's key and name keeps the whole list well formed.\<close>

lemma wf_routes_update:
  assumes "wf_routes rts" and "i < length rts"
    and "route_key rt = route_key (rts ! i)" and "rt_name rt = rt_name (rts ! i)" and "wf_route rt"
  shows "wf_routes (rts[i := rt])"
proof -
  have "map route_key (rts[i := rt]) = map route_key rts" "map rt_name (rts[i := rt]) = map rt_name rts"
    using assms(3,4) by (simp_all add: map_update_same del: map_update)
  moreover have "list_all wf_route (rts[i := rt])"
    using assms(1,5) set_update_subset_insert [of rts i rt] by (auto simp: wf_routes_def list_all_iff)
  ultimately show ?thesis using assms(1) by (simp add: wf_routes_def no_clash_def unique_names_def)
qed

lemma sorted_wrt_update:
  assumes "sorted_wrt P xs" and "i < length xs" and "\<And>a b. P a b \<Longrightarrow> P b a"
    and "\<And>j. j < length xs \<Longrightarrow> j \<noteq> i \<Longrightarrow> P (xs ! j) x"
  shows "sorted_wrt P (xs[i := x])"
  using assms by (auto simp: sorted_wrt_iff_nth_less nth_list_update)

lemma index_entries_update:
  assumes "rt_method rt = rt_method (routes r ! i)" "rt_pattern rt = rt_pattern (routes r ! i)"
  shows "index_entries (r\<lparr>routes := (routes r)[i := rt]\<rparr>) = index_entries r"
  unfolding index_entries_def using assms by (simp add: map_update_same)

lemma wf_router_update_route:
  assumes "wf_router r" and "i < length (routes r)"
    and "\<And>rt. rt_method (f rt) = rt_method rt" "\<And>rt. rt_pattern (f rt) = rt_pattern rt"
    and "\<And>rt. rt_host (f rt) = rt_host rt" "\<And>rt. rt_name (f rt) = rt_name rt"
    and "\<And>rt. wf_route rt \<Longrightarrow> wf_route (f rt)"
  shows "wf_router (update_route f r i)"
proof -
  let ?rt = "f (routes r ! i)"
  from assms(1,2) have "wf_route (routes r ! i)"
    by (simp add: wf_router_def wf_routes_def list_all_length)
  with assms have "wf_routes ((routes r)[i := ?rt])"
    by (intro wf_routes_update) (auto simp: wf_router_def route_key_def)
  moreover have "index_entries (update_route f r i) = index_entries r"
    unfolding update_route_def using assms(3,4) by (intro index_entries_update)
  ultimately show ?thesis
    using assms(1) by (auto simp: wf_router_def cache_ok_def update_route_def)
qed

lemma wf_router_dropped_cache: "wf_routes rts \<Longrightarrow> wf_router (r\<lparr>routes := rts, index_cache := None\<rparr>)"
  by (simp add: wf_router_def cache_ok_def)

lemma wf_router_routes: "wf_router r \<Longrightarrow> wf_routes (routes r)"
  by (simp add: wf_router_def)

section \<open>Every operation keeps the invariant\<close>

lemma wf_Router_new: "wf_router Router_new"
  by (simp add: wf_router_def cache_ok_def Router_new_def)

lemma wf_add_with_kind:
  assumes "percent_decoder pd" "wf_router r" "add_with_kind pd r method path handler kind = Inr (r', i)"
  shows "wf_router r' \<and> i < length (routes r') \<and> length (routes r') = Suc (length (routes r))"
proof -
  from assms(3) obtain p where p: "parse pd path = Inr p"
    and v: "validate_route_insert r method p None None = Inr ()"
    and r': "r' = r\<lparr>routes := routes r @
       [\<lparr>rt_method = method, rt_pattern = p, rt_handler = handler, rt_middlewares = [],
         rt_route_layers = 0, rt_kind = kind, rt_meta = RouteMeta_default, rt_name = None,
         rt_host = None\<rparr>], index_cache := None\<rparr>" and i: "i = length (routes r)"
    by (auto simp: add_with_kind_def split: if_splits sum.splits)
  have "wf_router r'"
    unfolding r' using parse_wf_pattern [OF assms(1) p] v wf_router_routes [OF assms(2)]
    by (intro wf_router_dropped_cache wf_routes_snoc)
      (auto simp: wf_route_def validate_route_insert_def)
  then show ?thesis unfolding r' i by simp
qed

lemma wf_mount_loop:
  assumes "wf_routes (routes r @ mounted)" and "list_all wf_route rts"
    and "wf_pattern prefix"
    and "mount_loop r prefix scoped rts mounted = Inr out"
  shows "wf_routes (routes r @ out)"
  using assms
proof (induction rts arbitrary: mounted)
  case (Cons rt rts)
  from Cons.prems(4) obtain p where p: "pattern_join prefix (rt_pattern rt) = Inr p"
    and v: "validate_route_insert r (rt_method rt) p (rt_host rt) (rt_name rt) = Inr ()"
    and b: "validate_route_batch_insert mounted (rt_method rt) p (rt_host rt) (rt_name rt) = Inr ()"
    and rest: "mount_loop r prefix scoped rts
       (mounted @ [rt\<lparr>rt_pattern := p, rt_middlewares := scoped @ rt_middlewares rt\<rparr>]) = Inr out"
    by (auto split: sum.splits)
  let ?rt = "rt\<lparr>rt_pattern := p, rt_middlewares := scoped @ rt_middlewares rt\<rparr>"
  from Cons.prems(2,3) p have "wf_pattern p"
    by (auto simp: wf_route_def intro: pattern_join_wf)
  with Cons.prems(2) have "wf_route ?rt" by (auto simp: wf_route_def)
  moreover have "validate_against (routes r @ mounted) (rt_method ?rt) (rt_pattern ?rt)
      (rt_host ?rt) (rt_name ?rt) = Inr ()"
    using v b unfolding validate_route_insert_def validate_route_batch_insert_def validate_against_Inr
    by auto
  ultimately have "wf_routes ((routes r @ mounted) @ [?rt])"
    using Cons.prems(1) by (intro wf_routes_snoc)
  then show ?case using Cons.prems(2,3) rest by (intro Cons.IH [of "mounted @ [?rt]"]) auto
qed simp

lemma wf_mount:
  assumes "percent_decoder pd" "wf_router r" "wf_router other" "mount pd r prefix other = Inr r'"
  shows "wf_router r'"
proof -
  from assms(4) obtain p mounted where p: "parse pd prefix = Inr p"
    and m: "mount_loop r p (middlewares other) (routes other) [] = Inr mounted"
    and r': "r' = r\<lparr>routes := routes r @ mounted, index_cache := None\<rparr>"
    by (auto simp: mount_def split: sum.splits)
  from wf_mount_loop [of r "[]" "routes other" p, OF _ _ parse_wf_pattern [OF assms(1) p] m] assms(2,3)
  show ?thesis unfolding r' by (intro wf_router_dropped_cache) (simp add: wf_router_def wf_routes_def)
qed

lemma wf_static_files:
  assumes "percent_decoder pd" "wf_router r"
    and "static_files_with_options pd imax od sh now r prefix path options = Inr r'"
  shows "wf_router r'"
proof -
  from assms(3) obtain p dir where p: "parse pd (join_paths prefix ''/*path'') = Inr p"
    and g: "validate_route_insert r ''GET'' p None None = Inr ()"
    and h: "validate_route_insert r ''HEAD'' p None None = Inr ()"
    and r': "r' = r\<lparr>routes := routes r @ [static_route ''GET'' p (sh dir options)]
        @ [static_route ''HEAD'' p (sh dir options)], index_cache := None\<rparr>"
    by (auto simp: static_files_with_options_def split: sum.splits option.splits)
  have "wf_routes (routes r @ [static_route ''GET'' p (sh dir options)])"
    using assms(2) g parse_wf_pattern [OF assms(1) p]
    by (intro wf_routes_snoc) (auto simp: static_route_def wf_route_def validate_route_insert_def wf_router_def)
  from this have "wf_routes ((routes r @ [static_route ''GET'' p (sh dir options)])
      @ [static_route ''HEAD'' p (sh dir options)])"
    by (rule wf_routes_snoc) (use h parse_wf_pattern [OF assms(1) p] in
      \<open>auto simp: static_route_def wf_route_def validate_route_insert_def validate_against_Inr route_key_def\<close>)
  then show ?thesis unfolding r' by (intro wf_router_dropped_cache) simp
qed

lemma wf_router_index: "wf_router r \<Longrightarrow> wf_router (snd (router_index r))"
  by (auto simp: router_index_def wf_router_def cache_ok_def index_entries_def Let_def
      split: option.split)

lemma wf_fail_and_remove: "wf_router r \<Longrightarrow> wf_router (fail_and_remove r i)"
  unfolding fail_and_remove_def
  by (intro wf_router_dropped_cache wf_routes_remove wf_router_routes)

lemma wf_router_layer: "wf_router r \<Longrightarrow> wf_router (router_layer r mw)"
  by (simp add: router_layer_def wf_router_def cache_ok_def index_entries_def)

lemma wf_handle_simple:
  assumes "wf_router r" "i < length (routes r)"
  shows "wf_router (handle_layer mw r i)" "wf_router (handle_body_limit n r i)"
    "wf_router (handle_timeout tm d r i)" "wf_router (handle_summary s r i)"
    "wf_router (handle_description s r i)" "wf_router (handle_tag t r i)"
  unfolding handle_layer_def handle_body_limit_def handle_timeout_def handle_summary_def
    handle_description_def handle_tag_def
  by (rule wf_router_update_route [OF assms]; simp add: wf_route_def)+

lemma wf_handle_name:
  assumes "wf_router r" "i < length (routes r)"
  shows "wf_router (case handle_name name r i of Inl (_, r') \<Rightarrow> r' | Inr r' \<Rightarrow> r')"
proof (cases "\<exists>j < length (routes r). j \<noteq> i \<and> rt_name (routes r ! j) = Some name")
  case True
  with assms(1) show ?thesis by (simp add: handle_name_def wf_fail_and_remove)
next
  case False
  let ?rt = "(routes r ! i)\<lparr>rt_name := Some name\<rparr>"
  from assms have wf: "list_all wf_route (routes r)" "no_clash (routes r)" "unique_names (routes r)"
    by (auto simp: wf_router_def wf_routes_def)
  have "unique_names ((routes r)[i := ?rt])"
    using wf(3) False assms(2) unfolding unique_names_def map_update
    by (intro sorted_wrt_update) auto
  moreover have "map route_key ((routes r)[i := ?rt]) = map route_key (routes r)"
    by (rule map_update_same) (simp add: route_key_def)
  moreover have "list_all wf_route ((routes r)[i := ?rt])"
    using wf(1) assms(2) by (auto simp: list_all_length nth_list_update wf_route_def)
  ultimately have "wf_routes ((routes r)[i := ?rt])"
    using wf by (simp add: wf_routes_def no_clash_def)
  moreover have "index_entries (r\<lparr>routes := (routes r)[i := ?rt]\<rparr>) = index_entries r"
    by (rule index_entries_update) simp_all
  ultimately show ?thesis
    using False assms(1) by (auto simp: handle_name_def update_route_def wf_router_def cache_ok_def)
qed

lemma wf_handle_host:
  assumes "wf_router r" "i < length (routes r)"
  shows "wf_router (case handle_host host r i of Inl (_, r') \<Rightarrow> r' | Inr r' \<Rightarrow> r')"
proof (cases "host_parse host")
  case (Inl e)
  with assms(1) show ?thesis by (simp add: handle_host_def wf_fail_and_remove)
next
  case hp: (Inr hp)
  show ?thesis
  proof (cases "validate_route_host_update r i hp")
    case (Inl e)
    with hp assms(1) show ?thesis by (simp add: handle_host_def wf_fail_and_remove)
  next
    case (Inr u)
    let ?rt = "(routes r ! i)\<lparr>rt_host := Some hp\<rparr>"
    have "\<not> key_clash (route_key (routes r ! j)) (route_key ?rt)"
      if "j < length (routes r)" "j \<noteq> i" for j
      using Inr that
      by (auto simp: validate_route_host_update_def Let_def find_None_iff same_shape_def route_key_def
          split: option.splits)
    then have "no_clash ((routes r)[i := ?rt])"
      using assms unfolding no_clash_def map_update
      by (intro sorted_wrt_update) (auto simp: key_clash_sym wf_router_def wf_routes_def no_clash_def)
    moreover have "map rt_name ((routes r)[i := ?rt]) = map rt_name (routes r)"
      by (rule map_update_same) simp
    moreover have "list_all wf_route ((routes r)[i := ?rt])"
      using assms by (auto simp: list_all_length nth_list_update wf_route_def wf_router_def wf_routes_def)
    ultimately have "wf_routes ((routes r)[i := ?rt])"
      using assms(1) by (simp add: wf_routes_def unique_names_def wf_router_def)
    with hp Inr show ?thesis
      by (simp add: handle_host_def update_route_def wf_router_dropped_cache)
  qed
qed

end
