(* ===== verification/Router_Lookup.thy ===== *)
theory Router_Lookup
  imports Router_Invariant
begin

text \<open>
  Programs against the router interface and what its lookups return. A program is a list
  of calls (registrations, layers, mounts of other routers, handle calls, lookups); every
  router such a program builds satisfies the invariant, so no lookup indexes out of range or
  reads a stale index, and resolution returns the admissible route of best precedence.
\<close>

section \<open>Programs\<close>

record ('h, 'm, 'd) router_env =
  env_pd :: "string \<Rightarrow> string"
  env_timeout :: "nat \<Rightarrow> 'm"
  env_instant_max :: nat
  env_now :: nat
  env_open_dir :: "string \<Rightarrow> 'd option"
  env_static_handler :: "'d \<Rightarrow> StaticFilesOptions \<Rightarrow> 'h"

datatype 'm handle_op =
  HLayer 'm | HBodyLimit nat | HName string | HHost string | HTimeout nat
| HSummary string | HDescription string | HTag string

datatype ('h, 'm, 'c) router_op =
  OpAdd string string 'h "'c RouteKind"
| OpFallback 'h
| OpLayer 'm
| OpStatic string string StaticFilesOptions
| OpMount string "('h, 'm, 'c) router_op list"
| OpHandle nat "'m handle_op"
| OpResolve string string "string option"
| OpAllowed string "string option"
| OpScoped string "string option"

definition or_keep :: "'s \<Rightarrow> 'e + 's \<Rightarrow> 's" where
  "or_keep s res = (case res of Inl _ \<Rightarrow> s | Inr s' \<Rightarrow> s')"

fun handle_step ::
  "('h, 'm, 'd) router_env \<Rightarrow> 'm handle_op \<Rightarrow> ('h, 'm, 'c) Router \<Rightarrow> nat \<Rightarrow> ('h, 'm, 'c) Router" where
  "handle_step e (HLayer mw) r i = handle_layer mw r i"
| "handle_step e (HBodyLimit n) r i = handle_body_limit n r i"
| "handle_step e (HName s) r i = (case handle_name s r i of Inl (_, r') \<Rightarrow> r' | Inr r' \<Rightarrow> r')"
| "handle_step e (HHost s) r i = (case handle_host s r i of Inl (_, r') \<Rightarrow> r' | Inr r' \<Rightarrow> r')"
| "handle_step e (HTimeout d) r i = handle_timeout (env_timeout e) d r i"
| "handle_step e (HSummary s) r i = handle_summary s r i"
| "handle_step e (HDescription s) r i = handle_description s r i"
| "handle_step e (HTag s) r i = handle_tag s r i"

fun router_step ::
  "('h, 'm, 'd) router_env \<Rightarrow> ('h, 'm, 'c) Router \<Rightarrow> ('h, 'm, 'c) router_op \<Rightarrow> ('h, 'm, 'c) Router"
and router_run ::
  "('h, 'm, 'd) router_env \<Rightarrow> ('h, 'm, 'c) Router \<Rightarrow> ('h, 'm, 'c) router_op list \<Rightarrow> ('h, 'm, 'c) Router"
where
  "router_step e r (OpAdd method path h k) =
     (case add_with_kind (env_pd e) r method path h k of Inl _ \<Rightarrow> r | Inr (r', _) \<Rightarrow> r')"
| "router_step e r (OpFallback h) =
     (case fallback (env_pd e) r h of Inl _ \<Rightarrow> r | Inr (r', _) \<Rightarrow> r')"
| "router_step e r (OpLayer mw) = router_layer r mw"
| "router_step e r (OpStatic prefix path options) =
     or_keep r (static_files_with_options (env_pd e) (env_instant_max e) (env_open_dir e)
       (env_static_handler e) (env_now e) r prefix path options)"
| "router_step e r (OpMount prefix ops) =
     or_keep r (mount (env_pd e) r prefix (router_run e Router_new ops))"
| "router_step e r (OpHandle i h) = (if i < length (routes r) then handle_step e h r i else r)"
| "router_step e r (OpResolve method path host) = snd (resolve_method (env_pd e) r method path host)"
| "router_step e r (OpAllowed path host) = snd (allowed_methods (env_pd e) r path host)"
| "router_step e r (OpScoped path host) = snd (scoped_middlewares (env_pd e) r path host)"
| "router_run e r [] = r"
| "router_run e r (op # ops) = router_run e (router_step e r op) ops"

section \<open>Every program keeps the invariant\<close>

lemma router_index_eq:
  "wf_router r \<Longrightarrow> fst (router_index r) = build (index_entries r)"
  by (auto simp: router_index_def wf_router_def cache_ok_def Let_def split: option.split)

lemma lookup_state:
  "snd (resolve_with pd skip r method path) \<in> {r, snd (router_index r)}"
  "snd (allowed_methods pd r path host) \<in> {r, snd (router_index r)}"
  "snd (scoped_middlewares pd r path host) \<in> {r, snd (router_index r)}"
  by (auto simp: resolve_with_def allowed_methods_def scoped_middlewares_def Let_def
      split: sum.split outcome.split option.split prod.split)

lemma wf_lookup_state:
  assumes "wf_router r"
  shows "wf_router (snd (resolve_with pd skip r method path))"
    "wf_router (snd (allowed_methods pd r path host))"
    "wf_router (snd (scoped_middlewares pd r path host))"
  using lookup_state(1) [of pd skip r "method" path] lookup_state(2,3) [of pd r path host]
    assms wf_router_index [OF assms] by auto

lemma wf_handle_step:
  assumes "wf_router r" "i < length (routes r)"
  shows "wf_router (handle_step e h r i)"
  by (cases h) (use wf_handle_simple [OF assms] wf_handle_name [OF assms] wf_handle_host [OF assms]
      in \<open>auto\<close>)

lemma wf_or_keep: "wf_router r \<Longrightarrow> (\<And>r'. res = Inr r' \<Longrightarrow> wf_router r') \<Longrightarrow> wf_router (or_keep r res)"
  by (auto simp: or_keep_def split: sum.split)

lemma wf_router_step_run:
  "percent_decoder (env_pd e) \<Longrightarrow> wf_router r \<Longrightarrow> wf_router (router_step e r op)"
  "percent_decoder (env_pd e) \<Longrightarrow> wf_router r \<Longrightarrow> wf_router (router_run e r ops)"
proof (induction e r op and e r ops rule: router_step_router_run.induct)
  case (1 e r m path h k)
  then show ?case by (auto split: sum.split dest: wf_add_with_kind)
next
  case (2 e r h)
  then show ?case by (auto simp: fallback_def add_def split: sum.split dest: wf_add_with_kind)
next
  case (4 e r prefix path options)
  then show ?case by (auto intro: wf_or_keep wf_static_files)
next
  case (5 e r prefix ops)
  then show ?case by (auto intro!: wf_or_keep intro: wf_mount wf_Router_new)
next
  case (6 e r i h)
  then show ?case by (simp add: wf_handle_step)
next
  case (7 e r m path host)
  then show ?case by (simp add: resolve_method_def wf_lookup_state)
qed (simp_all add: wf_router_layer wf_lookup_state)

lemma router_run_foldl: "router_run e r ops = foldl (router_step e) r ops"
  by (induction ops arbitrary: r) simp_all

interpretation router: invariant_system
  "router_step e" "\<lambda>r. percent_decoder (env_pd e) \<and> wf_router r" for e
  by unfold_locales (simp add: wf_router_step_run)

lemma wf_router_run:
  "percent_decoder (env_pd e) \<Longrightarrow> wf_router (router_run e Router_new ops)"
  using router.run_inv [of e Router_new ops] by (simp add: router_run_foldl wf_Router_new)

section \<open>Resolution\<close>

text \<open>The admissible routes: registered for the method, not skipped by the caller, and matching.\<close>

definition admissible ::
  "(('h, 'm, 'c) Route \<Rightarrow> bool) \<Rightarrow> string \<Rightarrow> string list \<Rightarrow> ('h, 'm, 'c) Route \<Rightarrow> bool" where
  "admissible skip method segs rt \<longleftrightarrow>
     answers method (rt_method rt) \<and> \<not> skip rt \<and>
     match_decoded_pattern (segments (rt_pattern rt)) segs \<noteq> None"

lemma resolve_loop_find:
  assumes "\<forall>i \<in> set is. i < length rts"
  shows "resolve_loop skip rts segs is =
    Val (map_option (\<lambda>i. matched (rts ! i)
           (the (match_decoded_pattern (segments (rt_pattern (rts ! i))) segs)))
         (find (\<lambda>i. \<not> skip (rts ! i) \<and>
              match_decoded_pattern (segments (rt_pattern (rts ! i))) segs \<noteq> None) is))"
  using assms
  by (induction skip rts segs "is" rule: resolve_loop.induct) (auto simp: vec_get_def split: option.split)

lemma candidates_in_range:
  "i \<in> set (find_candidates (build (index_entries r)) method segs) \<Longrightarrow> i < length (routes r)"
  by (simp add: trie.candidates_iff index_entries_def)

lemma matching_in_range:
  "(i, m) \<in> set (matching_methods (build (index_entries r)) segs) \<longleftrightarrow>
     i < length (routes r) \<and> m = rt_method (routes r ! i) \<and>
     match_decoded_pattern (segments (rt_pattern (routes r ! i))) segs \<noteq> None"
  by (auto simp: trie.methods_at_eq registered_methods_def index_entries_def)

definition best_route ::
  "(('h, 'm, 'c) Route \<Rightarrow> bool) \<Rightarrow> ('h, 'm, 'c) Router \<Rightarrow> string \<Rightarrow> string list \<Rightarrow> nat option" where
  "best_route skip r method segs =
     find (\<lambda>i. \<not> skip (routes r ! i) \<and>
          match_decoded_pattern (segments (rt_pattern (routes r ! i))) segs \<noteq> None)
       (find_candidates (build (index_entries r)) method segs)"

lemma resolve_with_best:
  assumes "wf_router r" "decode_path_segments pd path = Inr segs"
  shows "fst (resolve_with pd skip r method path) =
    Val (Inr (map_option (\<lambda>i. matched (routes r ! i)
      (the (match_decoded_pattern (segments (rt_pattern (routes r ! i))) segs)))
      (best_route skip r method segs)))"
  using assms router_index_eq [OF assms(1)]
  by (auto simp: resolve_with_def resolve_loop_find candidates_in_range best_route_def Let_def
      split: prod.split)

lemma best_route_None:
  "best_route skip r method segs = None \<longleftrightarrow>
     (\<forall>i < length (routes r). \<not> admissible skip method segs (routes r ! i))"
  unfolding best_route_def trie.first_candidate_None
  by (auto simp: index_entries_def admissible_def)

lemma best_route_Some:
  assumes "best_route skip r method segs = Some i"
  shows "i < length (routes r)" "admissible skip method segs (routes r ! i)"
  using trie.first_candidate_Some [OF assms [unfolded best_route_def]]
  by (auto simp: index_entries_def admissible_def)

lemma best_route_best:
  assumes "best_route skip r method segs = Some i" "method \<noteq> METHOD_ALL"
    and "j < length (routes r)" "j \<noteq> i" "admissible skip method segs (routes r ! j)"
  shows "route_precedes (index_entries r) method i j"
  using trie.first_candidate_best [OF assms(1) [unfolded best_route_def] assms(2), of j] assms(3-)
  by (auto simp: index_entries_def admissible_def)

lemma resolve_with_malformed:
  "decode_path_segments pd path = Inl e \<Longrightarrow> fst (resolve_with pd skip r method path) = Val (Inl e)"
  by (simp add: resolve_with_def)

end
