(* ===== verification/Http1.thy ===== *)
theory Http1
  imports Prelude "HOL-Library.Multiset"
begin

text \<open>
  The HTTP/1 framing inspector (\<open>src/app/http1.rs\<close>): the verdict queue, the classification of
  one request head and the incremental inspector fed with whatever each read returns. The
  head parser is the crate \<open>httparse\<close>; it is the parameter \<open>hp\<close>, given the header limit and
  the bytes. Loops over the input are a partial function, so that a loop that does not end is
  the value \<open>None\<close>, and a slice out of range is the outcome \<open>Panic\<close>.
\<close>

section \<open>Model\<close>

abbreviation CR :: char where "CR \<equiv> CHR 0x0D"
abbreviation LF :: char where "LF \<equiv> CHR 0x0A"

type_synonym u64 = "64 word"

definition MAX_DECODABLE_LENGTH :: u64 where
  "MAX_DECODABLE_LENGTH = - 1 - 2"

definition MAX_PENDING_VERDICTS :: nat where
  "MAX_PENDING_VERDICTS = 256"

datatype HeadVerdict = Persistent | Terminal | Ambiguous | Unclassified

text \<open>The queue \<open>Http1Verdicts\<close>: \<open>push\<close> refuses beyond the cap, \<open>next\<close> fails closed.\<close>

definition verdicts_push :: "HeadVerdict list \<Rightarrow> HeadVerdict \<Rightarrow> HeadVerdict list \<times> bool" where
  "verdicts_push pending verdict =
     (if length pending \<ge> MAX_PENDING_VERDICTS then (pending, False) else (pending @ [verdict], True))"

definition verdicts_next :: "HeadVerdict list \<Rightarrow> HeadVerdict \<times> HeadVerdict list" where
  "verdicts_next pending =
     (case pending of [] \<Rightarrow> (Unclassified, []) | v # rest \<Rightarrow> (v, rest))"

datatype InspectState = Head | Body u64 | Passthrough

datatype HeadParse = Complete nat HeadVerdict u64 | Partial | Invalid

text \<open>What \<open>httparse::Request::parse\<close> reports: length of the head, method and header fields.\<close>

datatype http_parse = ParseComplete nat "string option" "(string \<times> string) list" | ParsePartial | ParseError

type_synonym http_parser = "nat \<Rightarrow> string \<Rightarrow> http_parse"

fun content_length_loop :: "string \<Rightarrow> u64 \<Rightarrow> u64 option" where
  "content_length_loop [] len = Some len"
| "content_length_loop (byte # rest) len =
     (if \<not> is_ascii_digit byte then None
      else (case checked_mul len 10 of
              None \<Rightarrow> None
            | Some l \<Rightarrow>
                (case checked_add l (of_nat (digit_val byte)) of
                   None \<Rightarrow> None
                 | Some l' \<Rightarrow> content_length_loop rest l')))"

definition parse_content_length :: "string \<Rightarrow> u64 option" where
  "parse_content_length value =
     (if value = [] then None
      else (case content_length_loop value 0 of
              None \<Rightarrow> None
            | Some len \<Rightarrow> if len \<le> MAX_DECODABLE_LENGTH then Some len else None))"

text \<open>The variables of the loop over the header fields of \<open>inspect_head\<close>.\<close>

record framing =
  transfer_encoding :: bool
  content_length_present :: bool
  content_length :: "u64 option"
  invalid_content_length :: bool
  upgrade :: bool

definition framing_init :: framing where
  "framing_init = \<lparr>transfer_encoding = False, content_length_present = False,
     content_length = None, invalid_content_length = False, upgrade = False\<rparr>"

definition inspect_field :: "framing \<Rightarrow> string \<times> string \<Rightarrow> framing" where
  "inspect_field fr field =
     (let (name, value) = field in
      if eq_ignore_ascii_case name ''transfer-encoding'' then fr\<lparr>transfer_encoding := True\<rparr>
      else if eq_ignore_ascii_case name ''content-length'' then
        (let fr' = fr\<lparr>content_length_present := True\<rparr> in
         (case parse_content_length value of
            Some v \<Rightarrow>
              if (case content_length fr of None \<Rightarrow> True | Some previous \<Rightarrow> previous = v)
              then fr'\<lparr>content_length := Some v\<rparr> else fr'\<lparr>invalid_content_length := True\<rparr>
          | None \<Rightarrow> fr'\<lparr>invalid_content_length := True\<rparr>))
      else if eq_ignore_ascii_case name ''upgrade'' then fr\<lparr>upgrade := True\<rparr>
      else fr)"

definition is_connect :: "string option \<Rightarrow> bool" where
  "is_connect m = (case m of None \<Rightarrow> False | Some s \<Rightarrow> eq_ignore_ascii_case s ''CONNECT'')"

definition classify :: "string option \<Rightarrow> (string \<times> string) list \<Rightarrow> HeadVerdict \<times> u64" where
  "classify m headers =
     (let fr = foldl inspect_field framing_init headers;
          verdict = (if transfer_encoding fr \<and> content_length_present fr then Ambiguous
                     else if transfer_encoding fr \<or> upgrade fr \<or> is_connect m
                          \<or> invalid_content_length fr then Terminal
                     else Persistent)
      in (verdict, case content_length fr of None \<Rightarrow> 0 | Some v \<Rightarrow> v))"

definition inspect_head :: "http_parser \<Rightarrow> string \<Rightarrow> nat \<Rightarrow> HeadParse" where
  "inspect_head hp bytes max_headers =
     (case hp max_headers bytes of
        ParsePartial \<Rightarrow> Partial
      | ParseError \<Rightarrow> Invalid
      | ParseComplete len m headers \<Rightarrow> (let (v, b) = classify m headers in Complete len v b))"

record Http1InspectedIo =
  pending :: "HeadVerdict list"
  state :: InspectState
  head :: string
  head_scanned :: nat
  max_head_bytes :: nat
  max_headers :: nat

definition inspected_new :: "nat \<Rightarrow> nat \<Rightarrow> Http1InspectedIo" where
  "inspected_new max_head max_hdrs =
     \<lparr>pending = [], state = Head, head = [], head_scanned = 0,
      max_head_bytes = max_head, max_headers = max_hdrs\<rparr>"

fun trim_leading_empty_lines :: "string \<Rightarrow> nat \<times> string" where
  "trim_leading_empty_lines [] = (0, [])"
| "trim_leading_empty_lines (a # r) =
     (if a = LF then (let (n, s) = trim_leading_empty_lines r in (n + 1, s))
      else (case r of
              [] \<Rightarrow> (0, a # r)
            | b # r' \<Rightarrow>
                if a = CR \<and> b = LF then (let (n, s) = trim_leading_empty_lines r' in (n + 2, s))
                else (0, a # r)))"

text \<open>\<open>bytes.windows(n).any(|w| w == pat)\<close>\<close>

fun any_window :: "string \<Rightarrow> string \<Rightarrow> bool" where
  "any_window pat [] = False"
| "any_window pat (c # s) \<longleftrightarrow> take (length pat) (c # s) = pat \<or> any_window pat s"

definition contains_head_terminator :: "string \<Rightarrow> nat \<Rightarrow> bool" where
  "contains_head_terminator bytes scanned =
     (let window = drop (scanned - 2) bytes
      in any_window [LF, LF] window \<or> any_window [LF, CR, LF] window)"

definition finish_head :: "Http1InspectedIo \<Rightarrow> HeadVerdict \<Rightarrow> u64 \<Rightarrow> Http1InspectedIo" where
  "finish_head io verdict body_length =
     (let (q, accepted) = verdicts_push (pending io) verdict;
          io' = io\<lparr>pending := q\<rparr>
      in if verdict = Persistent \<and> accepted \<and> body_length = 0 then io'\<lparr>state := Head\<rparr>
         else if verdict = Persistent \<and> accepted then io'\<lparr>state := Body body_length\<rparr>
         else io'\<lparr>head := [], head_scanned := 0, state := Passthrough\<rparr>)"

definition buffer_partial_head :: "Http1InspectedIo \<Rightarrow> string \<Rightarrow> Http1InspectedIo" where
  "buffer_partial_head io bytes =
     (if length bytes \<ge> max_head_bytes io then finish_head io Terminal 0
      else let h = snd (trim_leading_empty_lines (head io @ bytes))
           in io\<lparr>head := h, head_scanned := length h\<rparr>)"

definition reset_head_buffer :: "Http1InspectedIo \<Rightarrow> Http1InspectedIo" where
  "reset_head_buffer io = io\<lparr>head := [], head_scanned := 0\<rparr>"

text \<open>
  One turn of the loop of \<open>observe\<close>: \<open>Inl\<close> is a return, \<open>Inr\<close> the state and the
  input of the next turn (or of the nested call on the rest of the buffered bytes).
\<close>

definition observe_turn ::
  "http_parser \<Rightarrow> Http1InspectedIo \<Rightarrow> string \<Rightarrow> Http1InspectedIo outcome + (Http1InspectedIo \<times> string)" where
  "observe_turn hp io input =
     (case state io of
        Passthrough \<Rightarrow> Inl (Val io)
      | Body remaining \<Rightarrow>
          (let skipped = min (unat remaining) (length input);
               rest = remaining - of_nat skipped
           in Inr (io\<lparr>state := (if rest = 0 then Head else Body rest)\<rparr>, drop skipped input))
      | Head \<Rightarrow>
          if head io = [] then
            (case inspect_head hp input (max_headers io) of
               Complete len verdict body_length \<Rightarrow>
                 if len > length input then Inl Panic
                 else Inr (finish_head io verdict body_length, drop len input)
             | Partial \<Rightarrow> Inl (Val (buffer_partial_head io input))
             | Invalid \<Rightarrow> Inl (Val (finish_head io Terminal 0)))
          else
            (let (skipped, h) = trim_leading_empty_lines (head io @ input);
                 io' = io\<lparr>head := h, head_scanned := head_scanned io - skipped\<rparr>
             in if h = [] then Inl (Val io')
                else if \<not> contains_head_terminator h (head_scanned io') then
                  (let io'' = io'\<lparr>head_scanned := length h\<rparr>
                   in Inl (Val (if length h \<ge> max_head_bytes io then finish_head io'' Terminal 0 else io'')))
                else
                  (case inspect_head hp h (max_headers io) of
                     Complete len verdict body_length \<Rightarrow>
                       if len > length h then Inl Panic
                       else Inr (finish_head (reset_head_buffer io') verdict body_length, drop len h)
                   | Partial \<Rightarrow>
                       Inl (Val (if length h \<ge> max_head_bytes io then finish_head io' Terminal 0 else io'))
                   | Invalid \<Rightarrow> Inl (Val (finish_head io' Terminal 0)))))"

partial_function (option) observe ::
  "http_parser \<Rightarrow> Http1InspectedIo \<Rightarrow> string \<Rightarrow> Http1InspectedIo outcome option" where
  "observe hp io input =
     (if input = [] then Some (Val io)
      else (case observe_turn hp io input of
              Inl res \<Rightarrow> Some res
            | Inr (io', input') \<Rightarrow> observe hp io' input'))"

declare observe.simps [code]

text \<open>Successive reads, as \<open>poll_read\<close> passes them on.\<close>

fun observe_all ::
  "http_parser \<Rightarrow> Http1InspectedIo \<Rightarrow> string list \<Rightarrow> Http1InspectedIo outcome option" where
  "observe_all hp io [] = Some (Val io)"
| "observe_all hp io (c # cs) =
     (case observe hp io c of
        Some (Val io') \<Rightarrow> observe_all hp io' cs
      | res \<Rightarrow> res)"

section \<open>What is relied on of the head parser\<close>

definition shift_parse :: "nat \<Rightarrow> http_parse \<Rightarrow> http_parse" where
  "shift_parse k res = (case res of ParseComplete n m hs \<Rightarrow> ParseComplete (n + k) m hs | _ \<Rightarrow> res)"

text \<open>The empty line that ends a head.\<close>

definition has_empty_line :: "string \<Rightarrow> bool" where
  "has_empty_line s \<longleftrightarrow> any_window [LF, LF] s \<or> any_window [LF, CR, LF] s"

definition starts_blank :: "string \<Rightarrow> bool" where
  "starts_blank s \<longleftrightarrow> take 1 s = [LF] \<or> take 2 s = [CR, LF]"

text \<open>
  Documented behaviour of an incremental parser of request heads: a reported length lies
  within the input and is the end of the head, so the bytes after it do not matter; an
  error stays an error; empty lines before the request line are skipped; a head
  without an error is incomplete exactly until its empty line has arrived.
\<close>

definition incremental_parser :: "http_parser \<Rightarrow> bool" where
  "incremental_parser hp \<longleftrightarrow>
     (\<forall>k s n m hs. hp k s = ParseComplete n m hs \<longrightarrow> 0 < n \<and> n \<le> length s) \<and>
     (\<forall>k s t n m hs. hp k s = ParseComplete n m hs \<longrightarrow> hp k (take n s @ t) = ParseComplete n m hs) \<and>
     (\<forall>k s t. hp k s = ParseError \<longrightarrow> hp k (s @ t) = ParseError) \<and>
     (\<forall>k s. hp k (LF # s) = shift_parse 1 (hp k s) \<and> hp k (CR # LF # s) = shift_parse 2 (hp k s)) \<and>
     (\<forall>k s. \<not> starts_blank s \<longrightarrow> hp k s \<noteq> ParseError \<longrightarrow> (hp k s = ParsePartial \<longleftrightarrow> \<not> has_empty_line s))"

end
