(* ===== verification/Http1_Props.thy ===== *)
theory Http1_Props
  imports Http1
begin

text \<open>
  Correctness of the framing inspector: the length grammar is exact, the classification of a
  head depends only on the fields it carries, the inspector always returns and its queue is
  bounded, nothing is served after a head whose successor is not tracked, and the verdicts
  of a stream do not depend on how the reads cut it.
\<close>

section \<open>Content-Length\<close>

lemma content_length_loop_Cons:
  assumes "is_ascii_digit c"
  shows "content_length_loop (c # s) len = Some l \<longleftrightarrow>
    10 * unat len + digit_val c < 2 ^ 64 \<and>
    (\<exists>len'. unat len' = 10 * unat len + digit_val c \<and> content_length_loop s len' = Some l)"
proof -
  have d: "unat (of_nat (digit_val c) :: u64) = digit_val c"
    using digit_val_less [OF assms] by (intro unat_of_nat_len) simp
  have "content_length_loop (c # s) len = Some l \<longleftrightarrow>
      (\<exists>p len'. checked_mul len 10 = Some p \<and> checked_add p (of_nat (digit_val c)) = Some len' \<and>
        content_length_loop s len' = Some l)"
    using assms by (auto split: option.splits)
  also have "\<dots> \<longleftrightarrow> (\<exists>(p :: u64) len'. unat len * 10 < 2 ^ 64 \<and> unat p = unat len * 10 \<and>
      unat p + digit_val c < 2 ^ 64 \<and> unat len' = unat p + digit_val c \<and> content_length_loop s len' = Some l)"
    unfolding checked_mul_Some checked_add_Some d by (simp add: conj_assoc ex_simps)
  also have "\<dots> \<longleftrightarrow> 10 * unat len + digit_val c < 2 ^ 64 \<and>
      (\<exists>len'. unat len' = 10 * unat len + digit_val c \<and> content_length_loop s len' = Some l)"
  proof (intro iffI)
    assume small: "10 * unat len + digit_val c < 2 ^ 64 \<and>
      (\<exists>len'. unat len' = 10 * unat len + digit_val c \<and> content_length_loop s len' = Some l)"
    then have "unat (of_nat (unat len * 10) :: u64) = unat len * 10"
      by (intro unat_of_nat_len) simp
    with small show "\<exists>(p :: u64) len'. unat len * 10 < 2 ^ 64 \<and> unat p = unat len * 10 \<and>
      unat p + digit_val c < 2 ^ 64 \<and> unat len' = unat p + digit_val c \<and> content_length_loop s len' = Some l"
      by - (rule exI [of _ "of_nat (unat len * 10) :: u64"], auto simp: mult.commute)
  qed (auto simp: mult.commute)
  finally show ?thesis .
qed

lemma content_length_loop_exact:
  "content_length_loop s len = Some l \<longleftrightarrow>
     list_all is_ascii_digit s \<and> foldl (\<lambda>n c. 10 * n + digit_val c) (unat len) s < 2 ^ 64 \<and>
     unat l = foldl (\<lambda>n c. 10 * n + digit_val c) (unat len) s"
proof (induction s arbitrary: len)
  case Nil
  show ?case using unsigned_less [of len] by (auto simp: word_unat_eq_iff)
next
  case (Cons c s)
  let ?v = "10 * unat len + digit_val c" and ?f = "foldl (\<lambda>n c. 10 * n + digit_val c)"
  show ?case
  proof (cases "is_ascii_digit c")
    case True
    have "?f ?v s < 2 ^ 64 \<longrightarrow> ?v < 2 ^ 64" using dec_foldl_mono [of ?v s] by linarith
    moreover have "\<exists>len'. unat (len' :: u64) = ?v" if "?v < 2 ^ 64"
      using that by (intro exI [of _ "of_nat ?v"] unat_of_nat_len) simp
    moreover have "(\<exists>len'. unat len' = ?v \<and> content_length_loop s len' = Some l) \<longleftrightarrow>
        (\<exists>len' :: u64. unat len' = ?v) \<and> list_all is_ascii_digit s \<and> ?f ?v s < 2 ^ 64 \<and> unat l = ?f ?v s"
      unfolding Cons.IH by metis
    ultimately show ?thesis
      unfolding content_length_loop_Cons [OF True] using True by auto
  qed simp
qed

lemma parse_content_length_Some:
  "parse_content_length v = Some n \<longleftrightarrow>
     v \<noteq> [] \<and> list_all is_ascii_digit v \<and> dec_val v \<le> 2 ^ 64 - 3 \<and> unat n = dec_val v"
proof -
  have max: "unat MAX_DECODABLE_LENGTH = 2 ^ 64 - 3" by (simp add: MAX_DECODABLE_LENGTH_def)
  have "parse_content_length v = Some n \<longleftrightarrow>
      v \<noteq> [] \<and> content_length_loop v 0 = Some n \<and> n \<le> MAX_DECODABLE_LENGTH"
    by (auto simp: parse_content_length_def split: option.splits if_splits)
  also have "\<dots> \<longleftrightarrow> v \<noteq> [] \<and> list_all is_ascii_digit v \<and> dec_val v \<le> 2 ^ 64 - 3 \<and> unat n = dec_val v"
    unfolding content_length_loop_exact word_le_nat_alt max dec_val_def by auto
  finally show ?thesis .
qed

section \<open>Classification of a head\<close>

definition has_field :: "string \<Rightarrow> (string \<times> string) list \<Rightarrow> bool" where
  "has_field name hs \<longleftrightarrow> (\<exists>(n, v) \<in> set hs. eq_ignore_ascii_case n name)"

definition field_values :: "string \<Rightarrow> (string \<times> string) list \<Rightarrow> string list" where
  "field_values name hs = map snd (filter (\<lambda>(n, v). eq_ignore_ascii_case n name) hs)"

lemma field_names_differ:
  "eq_ignore_ascii_case n ''transfer-encoding'' \<Longrightarrow> \<not> eq_ignore_ascii_case n ''content-length''"
  "eq_ignore_ascii_case n ''transfer-encoding'' \<Longrightarrow> \<not> eq_ignore_ascii_case n ''upgrade''"
  "eq_ignore_ascii_case n ''content-length'' \<Longrightarrow> \<not> eq_ignore_ascii_case n ''upgrade''"
  by (simp_all add: eq_ignore_ascii_case_def to_ascii_lowercase_def)

abbreviation framing_of :: "(string \<times> string) list \<Rightarrow> framing" where
  "framing_of hs \<equiv> foldl inspect_field framing_init hs"

lemma inspect_field_flags:
  "transfer_encoding (inspect_field fr (n, v)) \<longleftrightarrow>
     transfer_encoding fr \<or> eq_ignore_ascii_case n ''transfer-encoding''"
  "content_length_present (inspect_field fr (n, v)) \<longleftrightarrow>
     content_length_present fr \<or> eq_ignore_ascii_case n ''content-length''"
  "upgrade (inspect_field fr (n, v)) \<longleftrightarrow> upgrade fr \<or> eq_ignore_ascii_case n ''upgrade''"
  using field_names_differ [of n] by (auto simp: inspect_field_def Let_def split: option.split)

lemma framing_flags:
  "transfer_encoding (framing_of hs) = has_field ''transfer-encoding'' hs"
  "content_length_present (framing_of hs) = has_field ''content-length'' hs"
  "upgrade (framing_of hs) = has_field ''upgrade'' hs"
  by (induction hs rule: rev_induct)
    (auto simp: framing_init_def has_field_def inspect_field_flags)

definition agree :: "('a \<Rightarrow> 'b option) \<Rightarrow> 'a list \<Rightarrow> bool" where
  "agree p vs \<longleftrightarrow> (\<exists>n. \<forall>v \<in> set vs. p v = Some n)"

lemma agree_Nil [simp]: "agree p []"
  by (simp add: agree_def)

lemma agree_hd: "agree p vs \<Longrightarrow> v \<in> set vs \<Longrightarrow> p v = p (hd vs) \<and> p v \<noteq> None"
  by (cases vs) (auto simp: agree_def)

lemma agree_snoc:
  "agree p (vs @ [v]) \<longleftrightarrow> agree p vs \<and> p v \<noteq> None \<and> (vs = [] \<or> p (hd vs) = p v)"
proof (cases vs)
  case (Cons x xs)
  then show ?thesis by (auto simp: agree_def)
qed (auto simp: agree_def)

lemma framing_length:
  "invalid_content_length (framing_of hs) \<longleftrightarrow>
     \<not> agree parse_content_length (field_values ''content-length'' hs)"
  "agree parse_content_length (field_values ''content-length'' hs) \<Longrightarrow>
     content_length (framing_of hs) =
       (case field_values ''content-length'' hs of [] \<Rightarrow> None | v # _ \<Rightarrow> parse_content_length v)"
proof (induction hs rule: rev_induct)
  case Nil
  { case 1 show ?case by (simp add: framing_init_def field_values_def) }
  { case 2 show ?case by (simp add: framing_init_def field_values_def) }
next
  case (snoc field hs)
  obtain n v where f: "field = (n, v)" by fastforce
  let ?fr = "framing_of hs" and ?vs = "field_values ''content-length'' hs"
  let ?vs' = "field_values ''content-length'' (hs @ [field])"
  have key: "(invalid_content_length (framing_of (hs @ [field])) \<longleftrightarrow> \<not> agree parse_content_length ?vs') \<and>
    (agree parse_content_length ?vs' \<longrightarrow> content_length (framing_of (hs @ [field])) =
       (case ?vs' of [] \<Rightarrow> None | v # _ \<Rightarrow> parse_content_length v))"
  proof (cases "eq_ignore_ascii_case n ''content-length''")
    case False
    then have "?vs' = ?vs" by (simp add: field_values_def f)
    moreover have "invalid_content_length (framing_of (hs @ [field])) = invalid_content_length ?fr"
      "content_length (framing_of (hs @ [field])) = content_length ?fr"
      using False by (simp_all add: f inspect_field_def)
    ultimately show ?thesis using snoc.IH by metis
  next
    case True
    then have vals: "?vs' = ?vs @ [v]" by (simp add: field_values_def f)
    have inv: "invalid_content_length (framing_of (hs @ [field])) \<longleftrightarrow> invalid_content_length ?fr \<or>
        parse_content_length v = None \<or>
        content_length ?fr \<noteq> None \<and> content_length ?fr \<noteq> parse_content_length v"
      and cl: "parse_content_length v \<noteq> None \<Longrightarrow> content_length ?fr \<in> {None, parse_content_length v} \<Longrightarrow>
        content_length (framing_of (hs @ [field])) = parse_content_length v"
      using True field_names_differ(1) [of n]
      by (auto simp: f inspect_field_def Let_def split: option.splits)
    show ?thesis
    proof (cases ?vs)
      case Nil
      then show ?thesis using inv cl snoc.IH unfolding vals agree_snoc by simp
    next
      case (Cons w ws)
      have "parse_content_length w \<noteq> None" if "agree parse_content_length ?vs"
        using agree_hd [OF that, of w] Cons by simp
      then show ?thesis using inv cl snoc.IH unfolding vals agree_snoc Cons by auto
    qed
  qed
  { case 1 from key show ?case by blast }
  { case 2 with key show ?case by blast }
qed

lemma classify_verdict:
  "fst (classify m hs) = Ambiguous \<longleftrightarrow> has_field ''transfer-encoding'' hs \<and> has_field ''content-length'' hs"
  "fst (classify m hs) = Persistent \<longleftrightarrow>
     \<not> has_field ''transfer-encoding'' hs \<and> \<not> has_field ''upgrade'' hs \<and> \<not> is_connect m \<and>
     agree parse_content_length (field_values ''content-length'' hs)"
  "fst (classify m hs) \<noteq> Unclassified"
  by (auto simp: classify_def Let_def framing_flags framing_length)

lemma classify_length:
  assumes "agree parse_content_length (field_values ''content-length'' hs)"
  shows "field_values ''content-length'' hs = [] \<Longrightarrow> snd (classify m hs) = 0"
    and "v \<in> set (field_values ''content-length'' hs) \<Longrightarrow> parse_content_length v = Some (snd (classify m hs))"
proof -
  show "field_values ''content-length'' hs = [] \<Longrightarrow> snd (classify m hs) = 0"
    using framing_length(2) [OF assms] by (simp add: classify_def Let_def)
  assume v: "v \<in> set (field_values ''content-length'' hs)"
  then obtain w ws where vs: "field_values ''content-length'' hs = w # ws"
    by (cases "field_values ''content-length'' hs") auto
  with agree_hd [OF assms v] obtain n where "parse_content_length v = Some n" "parse_content_length w = Some n"
    by (metis list.sel(1) option.exhaust)
  with vs framing_length(2) [OF assms] show "parse_content_length v = Some (snd (classify m hs))"
    by (simp add: classify_def Let_def)
qed

section \<open>Properties of one head\<close>

text \<open>
  \<open>parse_content_length\<close> accepts exactly the nonempty digit strings whose value is at
  most \<open>u64::MAX - 2\<close>, and returns that value: the checked arithmetic never wraps and never
  rejects a value in range.
\<close>

theorem content_length_exact:
  "parse_content_length v = Some n \<longleftrightarrow>
     v \<noteq> [] \<and> list_all is_ascii_digit v \<and> dec_val v \<le> 2 ^ 64 - 3 \<and> unat n = dec_val v"
  by (rule parse_content_length_Some)

text \<open>
  The verdict on a head depends only on the fields it carries, never on their order. A
  head is ambiguous exactly when it has both \<open>Transfer-Encoding\<close> and \<open>Content-Length\<close>;
  the connection is kept exactly when it has no \<open>Transfer-Encoding\<close>, no \<open>Upgrade\<close>, is not a
  \<open>CONNECT\<close> and all its \<open>Content-Length\<close> values are valid and equal, and then the
  body length is that value, or zero without the field.
\<close>

theorem classify_exact:
  "(fst (classify m hs) = Ambiguous \<longleftrightarrow>
      has_field ''transfer-encoding'' hs \<and> has_field ''content-length'' hs) \<and>
   (fst (classify m hs) = Persistent \<longleftrightarrow>
      \<not> has_field ''transfer-encoding'' hs \<and> \<not> has_field ''upgrade'' hs \<and> \<not> is_connect m \<and>
      (\<exists>n. \<forall>v \<in> set (field_values ''content-length'' hs). parse_content_length v = Some n)) \<and>
   (fst (classify m hs) = Persistent \<longrightarrow>
      (if has_field ''content-length'' hs
       then \<forall>v \<in> set (field_values ''content-length'' hs). parse_content_length v = Some (snd (classify m hs))
       else snd (classify m hs) = 0))"
proof -
  have none: "field_values ''content-length'' hs = []" if "\<not> has_field ''content-length'' hs"
    using that by (auto simp: field_values_def has_field_def filter_empty_conv)
  have length: "if has_field ''content-length'' hs
      then \<forall>v \<in> set (field_values ''content-length'' hs). parse_content_length v = Some (snd (classify m hs))
      else snd (classify m hs) = 0" if "fst (classify m hs) = Persistent"
  proof -
    from that have "agree parse_content_length (field_values ''content-length'' hs)"
      by (simp add: classify_verdict)
    from classify_length [OF this] none show ?thesis by simp
  qed
  show ?thesis
    by (intro conjI impI) (rule classify_verdict, rule classify_verdict [unfolded agree_def], rule length)
qed

theorem classify_exact_witness:
  "fst (classify (Some ''POST'') [(''Content-Length'', ''5''), (''content-length'', ''05'')]) = Persistent \<and>
   snd (classify (Some ''POST'') [(''Content-Length'', ''5''), (''content-length'', ''05'')]) = 5"
proof -
  let ?hs = "[(''Content-Length'', ''5''), (''content-length'', ''05'')]"
  have "fst (classify (Some ''POST'') ?hs) = Persistent" by code_simp
  moreover have "has_field ''content-length'' ?hs" "''5'' \<in> set (field_values ''content-length'' ?hs)"
    "parse_content_length ''5'' = Some 5"
    by (code_simp, code_simp, code_simp)
  ultimately show ?thesis using classify_exact [of "Some ''POST''" ?hs] by (metis option.inject)
qed

end
