(* ===== verification/Http1_Stream.thy ===== *)
theory Http1_Stream
  imports Http1_Props
begin

text \<open>
  The inspector on a whole connection: it returns on every read, its queue is bounded, it fails
  closed, and the verdicts of a stream do not depend on how the stream is cut into reads.
\<close>

section \<open>Connections\<close>

text \<open>
  A connection interleaves reads, observed before the server sees the bytes, and dispatches,
  each of which takes the next verdict. The list is what the dispatches were told.
\<close>

inductive h1_trace :: "http_parser \<Rightarrow> nat \<Rightarrow> nat \<Rightarrow> Http1InspectedIo \<Rightarrow> HeadVerdict list \<Rightarrow> bool"
  for hp mb mh where
  trace_new: "h1_trace hp mb mh (inspected_new mb mh) []"
| trace_read: "h1_trace hp mb mh io ds \<Longrightarrow> observe hp io c = Some (Val io') \<Longrightarrow> h1_trace hp mb mh io' ds"
| trace_dispatch: "h1_trace hp mb mh io ds \<Longrightarrow> verdicts_next (pending io) = (v, rest) \<Longrightarrow>
    h1_trace hp mb mh (io\<lparr>pending := rest\<rparr>) (ds @ [v])"

text \<open>
  The reference: the verdicts of a stream read as one piece, for streams without malformed or
  oversized heads. A body shorter than announced and an incomplete head end it.
\<close>

inductive framed :: "http_parser \<Rightarrow> nat \<Rightarrow> nat \<Rightarrow> string \<Rightarrow> HeadVerdict list \<Rightarrow> bool"
  for hp mb mh where
  framed_partial: "hp mh s = ParsePartial \<Longrightarrow> length s < mb \<Longrightarrow> framed hp mb mh s []"
| framed_final: "hp mh s = ParseComplete n m hs \<Longrightarrow> n \<le> mb \<Longrightarrow> classify m hs = (v, b) \<Longrightarrow>
    v \<noteq> Persistent \<Longrightarrow> framed hp mb mh s [v]"
| framed_open: "hp mh s = ParseComplete n m hs \<Longrightarrow> n \<le> mb \<Longrightarrow> classify m hs = (Persistent, b) \<Longrightarrow>
    length s < n + unat b \<Longrightarrow> framed hp mb mh s [Persistent]"
| framed_next: "hp mh s = ParseComplete n m hs \<Longrightarrow> n \<le> mb \<Longrightarrow> classify m hs = (Persistent, b) \<Longrightarrow>
    n + unat b \<le> length s \<Longrightarrow> framed hp mb mh (drop (n + unat b) s) vs \<Longrightarrow>
    framed hp mb mh s (Persistent # vs)"

section \<open>One turn of the loop\<close>

lemma parser_bounds:
  "incremental_parser hp \<Longrightarrow> hp k s = ParseComplete n m hs \<Longrightarrow> 0 < n \<and> n \<le> length s"
  unfolding incremental_parser_def by blast

lemma inspect_head_cases:
  obtains (part) "hp k s = ParsePartial" "inspect_head hp s k = Partial"
  | (err) "hp k s = ParseError" "inspect_head hp s k = Invalid"
  | (comp) n m hs v b where "hp k s = ParseComplete n m hs" "classify m hs = (v, b)"
      "inspect_head hp s k = Complete n v b"
proof (cases "hp k s")
  case (ParseComplete n m hs)
  obtain v b where "classify m hs = (v, b)" by fastforce
  with ParseComplete comp show ?thesis by (simp add: inspect_head_def)
qed (use part err in \<open>simp_all add: inspect_head_def\<close>)

definition io_inv :: "Http1InspectedIo \<Rightarrow> bool" where
  "io_inv io \<longleftrightarrow> (\<forall>r. state io = Body r \<longrightarrow> r \<noteq> 0 \<and> head io = [])"

definition advance :: "Http1InspectedIo \<Rightarrow> Http1InspectedIo \<Rightarrow> bool" where
  "advance io io' \<longleftrightarrow>
     (\<exists>vs. pending io' = pending io @ vs \<and> Unclassified \<notin> set vs \<and>
        (vs \<noteq> [] \<longrightarrow> length (pending io') \<le> MAX_PENDING_VERDICTS) \<and>
        (\<forall>v \<in> set (butlast vs). v = Persistent) \<and>
        (vs \<noteq> [] \<and> last vs \<noteq> Persistent \<longrightarrow> state io' = Passthrough) \<and>
        (state io = Passthrough \<longrightarrow> vs = [] \<and> state io' = Passthrough))"

lemma advance_refl [simp]: "advance io io"
  by (simp add: advance_def)

lemma advance_trans:
  assumes "advance a b" "advance b c"
  shows "advance a c"
proof -
  from assms(1) obtain vs where vs: "pending b = pending a @ vs" "Unclassified \<notin> set vs"
    "vs \<noteq> [] \<longrightarrow> length (pending b) \<le> MAX_PENDING_VERDICTS" "\<forall>v \<in> set (butlast vs). v = Persistent"
    "vs \<noteq> [] \<and> last vs \<noteq> Persistent \<longrightarrow> state b = Passthrough"
    "state a = Passthrough \<longrightarrow> vs = [] \<and> state b = Passthrough"
    by (auto simp: advance_def)
  from assms(2) obtain ws where ws: "pending c = pending b @ ws" "Unclassified \<notin> set ws"
    "ws \<noteq> [] \<longrightarrow> length (pending c) \<le> MAX_PENDING_VERDICTS" "\<forall>v \<in> set (butlast ws). v = Persistent"
    "ws \<noteq> [] \<and> last ws \<noteq> Persistent \<longrightarrow> state c = Passthrough"
    "state b = Passthrough \<longrightarrow> ws = [] \<and> state c = Passthrough"
    by (auto simp: advance_def)
  show ?thesis
  proof (cases "ws = []")
    case True
    with vs ws show ?thesis unfolding advance_def by (intro exI [of _ vs]) auto
  next
    case False
    with vs(5) ws(6) have "\<forall>v \<in> set vs. v = Persistent"
      using vs(4) by (cases vs rule: rev_cases) auto
    with False vs ws show ?thesis
      unfolding advance_def by (intro exI [of _ "vs @ ws"]) (auto simp: butlast_append)
  qed
qed

lemma finish_head_simps:
  "max_head_bytes (finish_head io v b) = max_head_bytes io"
  "max_headers (finish_head io v b) = max_headers io"
  "head io = [] \<Longrightarrow> head (finish_head io v b) = []"
  "length (pending io) < MAX_PENDING_VERDICTS \<Longrightarrow> pending (finish_head io v b) = pending io @ [v]"
  by (simp_all add: finish_head_def verdicts_push_def Let_def)

lemma finish_head_inv: "head io = [] \<or> v \<noteq> Persistent \<Longrightarrow> io_inv (finish_head io v b)"
  by (auto simp: finish_head_def verdicts_push_def io_inv_def Let_def)

lemma finish_head_advance:
  assumes "state io \<noteq> Passthrough" "v \<noteq> Unclassified"
  shows "advance io (finish_head io v b)"
proof (cases "length (pending io) \<ge> MAX_PENDING_VERDICTS")
  case True
  with assms show ?thesis by (simp add: advance_def finish_head_def verdicts_push_def Let_def)
next
  case False
  with assms show ?thesis
    unfolding advance_def finish_head_def verdicts_push_def Let_def
    by (intro exI [of _ "[v]"]) auto
qed

lemma advance_same:
  "pending io' = pending io \<Longrightarrow> state io' = state io \<Longrightarrow> advance io io'"
  by (simp add: advance_def)

lemma advance_update:
  "pending io' = pending io \<Longrightarrow> state io' = state io \<Longrightarrow> advance io' io'' \<Longrightarrow> advance io io''"
  by (simp add: advance_def)

lemma classify_not_Unclassified: "classify m hs = (v, b) \<Longrightarrow> v \<noteq> Unclassified"
  using classify_verdict(3) [of m hs] by simp

definition turn_ok :: "Http1InspectedIo \<Rightarrow> string \<Rightarrow> Http1InspectedIo outcome + (Http1InspectedIo \<times> string) \<Rightarrow> bool" where
  "turn_ok io input res =
     (case res of
        Inl Panic \<Rightarrow> False
      | Inl (Val io') \<Rightarrow> io_inv io' \<and> advance io io'
      | Inr (io', input') \<Rightarrow> io_inv io' \<and> advance io io' \<and>
          length (head io') + length input' < length (head io) + length input)"

lemma trim_split: "trim_leading_empty_lines s = (k, t) \<Longrightarrow> s = take k s @ t \<and> k \<le> length s"
  by (induction s arbitrary: k t rule: trim_leading_empty_lines.induct)
    (auto split: if_splits list.splits prod.splits)

lemma turn_ok_body:
  assumes "io_inv io" "input \<noteq> []" "state io = Body r"
  shows "turn_ok io input (observe_turn hp io input)"
proof -
  from assms(1,3) have r: "r \<noteq> 0" and h: "head io = []" by (auto simp: io_inv_def)
  then have "0 < unat r" by (simp add: unat_gt_0)
  with assms(2) have pos: "0 < min (unat r) (length input)" by simp
  show ?thesis
    using assms(2,3) h pos
    by (auto simp: observe_turn_def turn_ok_def Let_def io_inv_def advance_def)
qed

lemma turn_ok_fresh:
  assumes "incremental_parser hp" "input \<noteq> []" "state io = Head" "head io = []"
  shows "turn_ok io input (observe_turn hp io input)"
proof (cases rule: inspect_head_cases [of hp "max_headers io" input])
  case part
  have "advance io (buffer_partial_head io input)" "io_inv (buffer_partial_head io input)"
    using assms
    by (cases "length input \<ge> max_head_bytes io";
        simp add: buffer_partial_head_def Let_def finish_head_advance finish_head_inv;
        simp add: advance_def io_inv_def)+
  with part assms show ?thesis by (simp add: observe_turn_def turn_ok_def)
next
  case err
  with assms show ?thesis
    by (simp add: observe_turn_def turn_ok_def finish_head_inv finish_head_advance)
next
  case (comp n m hs v b)
  with parser_bounds [OF assms(1) comp(1)] assms classify_not_Unclassified [OF comp(2)] show ?thesis
    by (auto simp: observe_turn_def turn_ok_def finish_head_simps finish_head_inv finish_head_advance)
qed

lemma turn_ok_buffered:
  assumes "incremental_parser hp" "input \<noteq> []" "state io = Head" "head io \<noteq> []"
  shows "turn_ok io input (observe_turn hp io input)"
proof -
  obtain k h where trim: "trim_leading_empty_lines (head io @ input) = (k, h)" by fastforce
  from trim_split [OF trim] have len: "length h \<le> length (head io) + length input"
    by (metis length_append le_add2)
  let ?io = "io\<lparr>head := h, head_scanned := head_scanned io - k\<rparr>"
  have fin: "advance io (finish_head io' Terminal 0) \<and> io_inv (finish_head io' Terminal 0)"
    if "pending io' = pending io" "state io' = state io" for io'
    using that assms(3) advance_update [OF that, of "finish_head io' Terminal 0"]
    by (simp add: finish_head_advance finish_head_inv)
  have same: "advance io io' \<and> io_inv io'" if "pending io' = pending io" "state io' = state io" for io'
    using that assms(3) by (auto intro: advance_same simp: io_inv_def)
  show ?thesis
  proof (cases "h = [] \<or> \<not> contains_head_terminator h (head_scanned io - k)")
    case True
    with trim assms(3,4) fin same show ?thesis
      by (auto simp: observe_turn_def turn_ok_def Let_def)
  next
    case False
    show ?thesis
    proof (cases rule: inspect_head_cases [of hp "max_headers io" h])
      case (comp n m hs v b)
      let ?f = "finish_head (reset_head_buffer ?io) v b"
      have "advance io ?f" "io_inv ?f" "head ?f = []"
        using assms(3) classify_not_Unclassified [OF comp(2)]
        by (auto simp: reset_head_buffer_def finish_head_simps
            intro!: finish_head_inv intro: advance_update [OF _ _ finish_head_advance])
      with parser_bounds [OF assms(1) comp(1)] len False trim assms(3,4) comp show ?thesis
        by (auto simp: observe_turn_def turn_ok_def Let_def)
    qed (use False trim assms(3,4) fin same in \<open>auto simp: observe_turn_def turn_ok_def Let_def\<close>)
  qed
qed

lemma turn_ok_all:
  assumes "incremental_parser hp" "io_inv io" "input \<noteq> []"
  shows "turn_ok io input (observe_turn hp io input)"
proof (cases "state io")
  case Head
  with assms show ?thesis by (cases "head io = []") (auto intro: turn_ok_fresh turn_ok_buffered)
next
  case (Body r)
  with assms show ?thesis by (intro turn_ok_body)
next
  case Passthrough
  with assms show ?thesis by (simp add: observe_turn_def turn_ok_def)
qed

lemma observe_returns:
  assumes "incremental_parser hp" "io_inv io"
  shows "\<exists>io'. observe hp io input = Some (Val io') \<and> io_inv io' \<and> advance io io'"
  using assms(2)
proof (induction "length (head io) + length input" arbitrary: io input rule: less_induct)
  case less
  show ?case
  proof (cases "input = []")
    case True
    with less.prems show ?thesis by (simp add: observe.simps)
  next
    case False
    note turn = turn_ok_all [OF assms(1) less.prems False]
    show ?thesis
    proof (cases "observe_turn hp io input")
      case (Inl res)
      with turn False show ?thesis
        by (cases res) (auto simp: turn_ok_def observe.simps [of hp io])
    next
      case (Inr nx)
      obtain io1 in1 where nx: "nx = (io1, in1)" by fastforce
      with turn Inr have "io_inv io1" "advance io io1"
        "length (head io1) + length in1 < length (head io) + length input"
        by (auto simp: turn_ok_def)
      with less.hyps [of io1 in1] advance_trans [of io io1] Inr nx False show ?thesis
        by (auto simp: observe.simps [of hp io])
    qed
  qed
qed

section \<open>Connections fail closed\<close>

text \<open>After a dispatch that was told to close, every later one is refused.\<close>

fun fail_closed :: "HeadVerdict list \<Rightarrow> bool" where
  "fail_closed [] = True"
| "fail_closed (d # ds) =
     (if d \<in> {Terminal, Ambiguous} then \<forall>v \<in> set ds. v = Unclassified else fail_closed ds)"

lemma fail_closed_snoc:
  "fail_closed (ds @ [v]) \<longleftrightarrow>
     fail_closed ds \<and> (set ds \<inter> {Terminal, Ambiguous} \<noteq> {} \<longrightarrow> v = Unclassified)"
  by (induction ds) auto

definition trace_inv :: "Http1InspectedIo \<Rightarrow> HeadVerdict list \<Rightarrow> bool" where
  "trace_inv io ds \<longleftrightarrow>
     io_inv io \<and> length (pending io) \<le> MAX_PENDING_VERDICTS \<and> Unclassified \<notin> set (pending io) \<and>
     (\<forall>v \<in> set (butlast (pending io)). v = Persistent) \<and>
     (pending io \<noteq> [] \<and> last (pending io) \<noteq> Persistent \<longrightarrow> state io = Passthrough) \<and>
     (set ds \<inter> {Terminal, Ambiguous} \<noteq> {} \<longrightarrow> state io = Passthrough \<and> pending io = []) \<and>
     fail_closed ds"

lemma trace_inv_read:
  assumes "trace_inv io ds" "advance io io'" "io_inv io'"
  shows "trace_inv io' ds"
proof -
  from assms(2) obtain vs where vs: "pending io' = pending io @ vs" "Unclassified \<notin> set vs"
    "vs \<noteq> [] \<longrightarrow> length (pending io') \<le> MAX_PENDING_VERDICTS" "\<forall>v \<in> set (butlast vs). v = Persistent"
    "vs \<noteq> [] \<and> last vs \<noteq> Persistent \<longrightarrow> state io' = Passthrough"
    "state io = Passthrough \<longrightarrow> vs = [] \<and> state io' = Passthrough"
    by (auto simp: advance_def)
  show ?thesis
  proof (cases "vs = []")
    case True
    with vs assms show ?thesis by (auto simp: trace_inv_def)
  next
    case False
    with vs(6) have st: "state io \<noteq> Passthrough" by auto
    with assms(1) have "\<forall>v \<in> set (pending io). v = Persistent"
      by (cases "pending io" rule: rev_cases) (auto simp: trace_inv_def)
    with False vs assms st show ?thesis by (auto simp: trace_inv_def butlast_append)
  qed
qed

lemma trace_inv_dispatch:
  assumes "trace_inv io ds" "verdicts_next (pending io) = (v, rest)"
  shows "trace_inv (io\<lparr>pending := rest\<rparr>) (ds @ [v])"
proof (cases "pending io")
  case Nil
  with assms(2) have v: "v = Unclassified" "rest = []" by (auto simp: verdicts_next_def)
  with assms(1) Nil show ?thesis by (auto simp: trace_inv_def io_inv_def fail_closed_snoc)
next
  case (Cons w ws)
  with assms(2) have v: "v = w" "rest = ws" by (auto simp: verdicts_next_def)
  from assms(1) Cons have none: "set ds \<inter> {Terminal, Ambiguous} = {}" by (auto simp: trace_inv_def)
  show ?thesis
  proof (cases "ws = []")
    case True
    with assms(1) Cons v none show ?thesis by (auto simp: trace_inv_def io_inv_def fail_closed_snoc)
  next
    case False
    with assms(1) Cons have "w = Persistent" by (auto simp: trace_inv_def)
    with False assms(1) Cons v none show ?thesis by (auto simp: trace_inv_def io_inv_def fail_closed_snoc)
  qed
qed

lemma h1_trace_inv:
  assumes "incremental_parser hp" "h1_trace hp mb mh io ds"
  shows "trace_inv io ds"
  using assms(2)
proof induction
  case trace_new
  show ?case by (simp add: trace_inv_def inspected_new_def io_inv_def)
next
  case (trace_read io ds c io')
  from trace_read.IH have "io_inv io" by (simp add: trace_inv_def)
  from observe_returns [OF assms(1) this, of c] trace_read show ?case by (auto intro: trace_inv_read)
next
  case (trace_dispatch io ds v rest)
  from trace_dispatch.IH trace_dispatch.hyps(2) show ?case by (rule trace_inv_dispatch)
qed

section \<open>Reads may cut the stream anywhere\<close>

lemma any_window_iff: "pat \<noteq> [] \<Longrightarrow> any_window pat s \<longleftrightarrow> (\<exists>a b. s = a @ pat @ b)"
proof (induction s)
  case (Cons c s)
  have "take (length pat) (c # s) = pat \<longleftrightarrow> (\<exists>b. c # s = pat @ b)"
    by (metis append_eq_conv_conj append_take_drop_id)
  with Cons show ?case by (auto simp: Cons_eq_append_conv)
qed simp

lemma any_windowI: "pat \<noteq> [] \<Longrightarrow> any_window pat (a @ pat @ b)"
  unfolding any_window_iff by blast

lemma any_window_across:
  assumes "any_window pat (h @ c)" "\<not> any_window pat h" "pat \<noteq> []" "length pat \<le> 3"
  shows "any_window pat (drop (length h - 2) (h @ c))"
proof -
  from assms(1,3) obtain a b where ab: "h @ c = a @ pat @ b" by (auto simp: any_window_iff)
  have "\<not> length a + length pat \<le> length h"
  proof
    assume "length a + length pat \<le> length h"
    then have "h = a @ pat @ take (length h - length a - length pat) b"
      using arg_cong [OF ab, of "take (length h)"] by simp
    with assms(2) any_windowI [OF assms(3)] show False by metis
  qed
  with assms(4) have "drop (length h - 2) (h @ c) = drop (length h - 2) a @ pat @ b"
    unfolding ab by simp
  then show ?thesis using any_windowI [OF assms(3)] by simp
qed

lemma contains_head_terminator_iff:
  assumes "\<not> has_empty_line h"
  shows "contains_head_terminator (h @ c) (length h) \<longleftrightarrow> has_empty_line (h @ c)"
proof -
  have sub: "any_window pat (h @ c)" if "any_window pat (drop n (h @ c))" "pat \<noteq> []" for pat n
  proof -
    from that obtain a b where "drop n (h @ c) = a @ pat @ b" by (auto simp: any_window_iff)
    then have "h @ c = (take n (h @ c) @ a) @ pat @ b" by (metis append.assoc append_take_drop_id)
    then show ?thesis using any_windowI [OF that(2)] by metis
  qed
  have across: "any_window pat (h @ c) \<longleftrightarrow> any_window pat (drop (length h - 2) (h @ c))"
    if "\<not> any_window pat h" "pat \<noteq> []" "length pat \<le> 3" for pat
    using any_window_across [OF _ that] sub [OF _ that(2)] by blast
  from assms across [of "[LF, LF]"] across [of "[LF, CR, LF]"] show ?thesis
    by (simp add: contains_head_terminator_def has_empty_line_def Let_def)
qed

lemma contains_head_terminator_0: "contains_head_terminator s 0 \<longleftrightarrow> has_empty_line s"
  by (simp add: contains_head_terminator_def has_empty_line_def)

lemma trim_cases:
  obtains (nil) "s = []" "trim_leading_empty_lines s = (0, [])"
  | (lf) r where "s = LF # r" "trim_leading_empty_lines s = apfst (\<lambda>n. n + 1) (trim_leading_empty_lines r)"
  | (crlf) r where "s = CR # LF # r" "trim_leading_empty_lines s = apfst (\<lambda>n. n + 2) (trim_leading_empty_lines r)"
  | (other) "s \<noteq> []" "\<not> starts_blank s" "trim_leading_empty_lines s = (0, s)"
proof (cases s)
  case (Cons a r)
  show ?thesis
  proof (cases "a = LF")
    case True
    with Cons lf [of r] show ?thesis by (simp add: split_beta apfst_def map_prod_def)
  next
    case False
    show ?thesis
    proof (cases r)
      case Nil
      with Cons False other show ?thesis by (simp add: starts_blank_def)
    next
      case r: (Cons b r')
      show ?thesis
      proof (cases "a = CR \<and> b = LF")
        case True
        with Cons r crlf [of r'] show ?thesis by (simp add: split_beta apfst_def map_prod_def)
      next
        case no: False
        with Cons r False other show ?thesis by (simp add: starts_blank_def)
      qed
    qed
  qed
qed (use nil in simp)

lemma trim_not_blank: "\<not> starts_blank (snd (trim_leading_empty_lines s))"
proof (induction s rule: length_induct)
  case (1 s)
  show ?case by (cases rule: trim_cases [of s]) (use 1 in \<open>simp_all add: starts_blank_def\<close>)
qed

lemma trim_keeps: "\<not> starts_blank s \<Longrightarrow> trim_leading_empty_lines s = (0, s)"
  by (cases rule: trim_cases [of s]) (simp_all add: starts_blank_def)

lemma parser_facts:
  assumes "incremental_parser hp"
  shows "hp k s = ParseComplete n m hs \<Longrightarrow> hp k (s @ t) = ParseComplete n m hs"
    and "hp k s = ParseError \<Longrightarrow> hp k (s @ t) = ParseError"
    and "hp k (LF # s) = shift_parse 1 (hp k s)" and "hp k (CR # LF # s) = shift_parse 2 (hp k s)"
    and "\<not> starts_blank s \<Longrightarrow> hp k s \<noteq> ParseError \<Longrightarrow> hp k s = ParsePartial \<longleftrightarrow> \<not> has_empty_line s"
    and "hp k (s @ t) = ParseComplete n m hs \<Longrightarrow> n \<le> length s \<Longrightarrow> hp k s = ParseComplete n m hs"
proof -
  have ext: "hp k (take n s @ t) = ParseComplete n m hs" if "hp k s = ParseComplete n m hs" for k s t n m hs
    using assms that unfolding incremental_parser_def by blast
  show "hp k s = ParseComplete n m hs \<Longrightarrow> hp k (s @ t) = ParseComplete n m hs"
    using ext [of k s n m hs "drop n s @ t"] by (metis append.assoc append_take_drop_id)
  show "hp k (s @ t) = ParseComplete n m hs \<Longrightarrow> n \<le> length s \<Longrightarrow> hp k s = ParseComplete n m hs"
    using ext [of k "s @ t" n m hs "drop n s"] by simp
qed (use assms in \<open>unfold incremental_parser_def, blast+\<close>)

lemma framed_shift:
  assumes "framed hp mb mh (p @ s) vs" "hp mh (p @ s) = shift_parse (length p) (hp mh s)"
  shows "framed hp mb mh s vs"
  using assms(1)
proof (cases rule: framed.cases)
  case framed_partial
  with assms(2) have "hp mh s = ParsePartial" by (auto simp: shift_parse_def split: http_parse.splits)
  with framed_partial show ?thesis by (auto intro: framed.framed_partial)
next
  case (framed_final n m hs v b)
  with assms(2) obtain k where "hp mh s = ParseComplete k m hs" "n = k + length p"
    by (auto simp: shift_parse_def split: http_parse.splits)
  with framed_final show ?thesis by (auto intro: framed.framed_final)
next
  case (framed_open n m hs b)
  with assms(2) obtain k where "hp mh s = ParseComplete k m hs" "n = k + length p"
    by (auto simp: shift_parse_def split: http_parse.splits)
  with framed_open show ?thesis by (auto intro: framed.framed_open)
next
  case (framed_next n m hs b vs')
  with assms(2) obtain k where k: "hp mh s = ParseComplete k m hs" "n = k + length p"
    by (auto simp: shift_parse_def split: http_parse.splits)
  with framed_next have "framed hp mb mh (drop (k + unat b) s) vs'" by (simp add: add.commute add.left_commute)
  with framed_next k show ?thesis by (auto intro: framed.framed_next)
qed

lemma framed_trim:
  assumes "incremental_parser hp" "framed hp mb mh (s @ u) vs"
  shows "framed hp mb mh (snd (trim_leading_empty_lines s) @ u) vs"
  using assms(2)
proof (induction s rule: length_induct)
  case (1 s)
  show ?case
  proof (cases rule: trim_cases [of s])
    case (lf r)
    with 1(2) framed_shift [of hp mb mh "[LF]" "r @ u" vs] parser_facts(3) [OF assms(1)]
    have "framed hp mb mh (r @ u) vs" by simp
    with 1(1) lf show ?thesis by simp
  next
    case (crlf r)
    with 1(2) framed_shift [of hp mb mh "[CR, LF]" "r @ u" vs] parser_facts(4) [OF assms(1)]
    have "framed hp mb mh (r @ u) vs" by (simp add: numeral_2_eq_2)
    with 1(1) crlf show ?thesis by simp
  qed (use 1 in simp_all)
qed

text \<open>
  \<open>expects hp io u vs\<close>: the inspector in state \<open>io\<close> still has to push the verdicts \<open>vs\<close> when the
  rest of the stream is \<open>u\<close>.
\<close>

definition expects :: "http_parser \<Rightarrow> Http1InspectedIo \<Rightarrow> string \<Rightarrow> HeadVerdict list \<Rightarrow> bool" where
  "expects hp io u vs =
     (case state io of
        Passthrough \<Rightarrow> vs = []
      | Body r \<Rightarrow> r \<noteq> 0 \<and> head io = [] \<and> head_scanned io = 0 \<and>
          (if length u < unat r then vs = []
           else framed hp (max_head_bytes io) (max_headers io) (drop (unat r) u) vs)
      | Head \<Rightarrow> framed hp (max_head_bytes io) (max_headers io) (head io @ u) vs \<and>
          head_scanned io = length (head io) \<and> \<not> starts_blank (head io) \<and> \<not> has_empty_line (head io))"

lemma framed_not_error:
  "incremental_parser hp \<Longrightarrow> framed hp mb mh (s @ u) vs \<Longrightarrow> hp mh s \<noteq> ParseError"
  using parser_facts(2) [of hp mh s u] by (auto elim: framed.cases)

lemma framed_partial_small:
  assumes "incremental_parser hp" "framed hp mb mh (s @ u) vs" "hp mh s = ParsePartial"
  shows "length s < mb"
proof -
  have complete: "length s < mb" if "hp mh (s @ u) = ParseComplete n m hs" "n \<le> mb" for n m hs
    using parser_facts(6) [OF assms(1) that(1)] assms(3) that(2) by (cases "n \<le> length s") auto
  from assms(2) show ?thesis by (cases rule: framed.cases) (auto intro: complete)
qed

lemma framed_complete:
  assumes "incremental_parser hp" "framed hp (max_head_bytes io) (max_headers io) (s @ u) vs"
    and "hp (max_headers io) s = ParseComplete n m hs" "classify m hs = (v, b)"
    and "head io = []" "head_scanned io = 0" "length (pending io) + length vs \<le> MAX_PENDING_VERDICTS"
  shows "\<exists>vs'. vs = v # vs' \<and> expects hp (finish_head io v b) (drop n s @ u) vs' \<and>
    pending (finish_head io v b) = pending io @ [v]"
proof -
  have whole: "hp (max_headers io) (s @ u) = ParseComplete n m hs"
    and n: "n \<le> length s"
    using parser_facts(1) [OF assms(1,3)] parser_bounds [OF assms(1,3)] by auto
  have fin: "finish_head io v b = (if v = Persistent
      then io\<lparr>pending := pending io @ [v], state := (if b = 0 then Head else Body b)\<rparr>
      else io\<lparr>pending := pending io @ [v], head := [], head_scanned := 0, state := Passthrough\<rparr>)"
    if "vs \<noteq> []"
    using that assms(7) by (cases vs) (auto simp: finish_head_def verdicts_push_def Let_def)
  from assms(2) show ?thesis
  proof (cases rule: framed.cases)
    case framed_partial
    with whole show ?thesis by simp
  next
    case (framed_final n' m' hs' v' b')
    with whole assms(4) fin show ?thesis by (simp add: expects_def)
  next
    case (framed_open n' m' hs' b')
    with whole assms(4) have "v = Persistent" "b' = b" "length s + length u < n + unat b" by auto
    moreover from this n have "b \<noteq> 0" "length s + length u - n < unat b" by auto
    ultimately show ?thesis using framed_open fin assms(5,6) n by (simp add: expects_def)
  next
    case (framed_next n' m' hs' b' vs')
    with whole assms(4) have eq: "v = Persistent" "b' = b" "n + unat b \<le> length s + length u"
      "framed hp (max_head_bytes io) (max_headers io) (drop (unat b) (drop n s @ u)) vs'"
      using n by (auto simp: add.commute)
    with framed_next fin assms(5,6) n show ?thesis
      by (auto simp: expects_def starts_blank_def has_empty_line_def)
  qed
qed

lemma parse_trim_partial:
  assumes "incremental_parser hp" "hp k s = ParsePartial"
  shows "hp k (snd (trim_leading_empty_lines s)) = ParsePartial"
  using assms(2)
proof (induction s rule: length_induct)
  case (1 s)
  have unshift: "res = ParsePartial" if "shift_parse j res = ParsePartial" for j res
    using that by (auto simp: shift_parse_def split: http_parse.splits)
  show ?case
  proof (cases rule: trim_cases [of s])
    case (lf r)
    with 1 unshift parser_facts(3) [OF assms(1)] show ?thesis by simp
  next
    case (crlf r)
    with 1 unshift parser_facts(4) [OF assms(1)] show ?thesis by simp
  qed (use 1 in simp_all)
qed

text \<open>
  A buffered head that is extended loses leading empty lines only if it was a lone carriage
  return; the scan resumes early enough to see every empty line the new bytes complete.
\<close>

lemma terminator_after_trim:
  assumes trim: "trim_leading_empty_lines (h0 @ c) = (k, h)" and "sc = length h0"
    and nb: "\<not> starts_blank h0" and ne: "\<not> has_empty_line h0"
  shows "contains_head_terminator h (sc - k) \<longleftrightarrow> has_empty_line h"
proof (cases "starts_blank (h0 @ c)")
  case False
  with trim_keeps [OF this] trim have "k = 0" "h = h0 @ c" by auto
  with contains_head_terminator_iff [OF ne, of c] assms(2) show ?thesis by simp
next
  case True
  have "length h0 \<le> k"
  proof (cases h0)
    case (Cons a r)
    with True nb have cr: "a = CR" "r = []"
      by (cases r; auto simp: starts_blank_def)+
    with True Cons obtain c' where "c = LF # c'" by (cases c) (auto simp: starts_blank_def)
    with Cons cr trim show ?thesis by (auto split: prod.splits)
  qed simp
  with assms(2) contains_head_terminator_0 [of h] show ?thesis by simp
qed

definition turn_expects ::
  "http_parser \<Rightarrow> Http1InspectedIo \<Rightarrow> string \<Rightarrow> HeadVerdict list \<Rightarrow>
     Http1InspectedIo outcome + (Http1InspectedIo \<times> string) \<Rightarrow> bool" where
  "turn_expects hp io u vs res =
     (case res of
        Inl Panic \<Rightarrow> False
      | Inl (Val io') \<Rightarrow> pending io' = pending io \<and> expects hp io' u vs
      | Inr (io', input') \<Rightarrow>
          \<exists>vs1 vs2. pending io' = pending io @ vs1 \<and> vs = vs1 @ vs2 \<and> expects hp io' (input' @ u) vs2)"

lemma turn_expects_body:
  assumes "expects hp io (c @ u) vs" "state io = Body r"
  shows "turn_expects hp io u vs (observe_turn hp io c)"
proof -
  let ?k = "min (unat r) (length c)"
  from assms have r: "head io = []" "head_scanned io = 0"
    and f: "if length (c @ u) < unat r then vs = []
       else framed hp (max_head_bytes io) (max_headers io) (drop (unat r) (c @ u)) vs"
    by (auto simp: expects_def)
  have k: "unat (r - of_nat ?k) = unat r - ?k"
  proof -
    have "unat r < 2 ^ LENGTH(64)" by (rule unsigned_less)
    then have "?k < 2 ^ 64" by (auto simp: min_def)
    then have "unat (of_nat ?k :: u64) = ?k" by (intro unat_of_nat_len) simp
    then show ?thesis by (subst unat_sub) (simp_all add: word_le_nat_alt)
  qed
  show ?thesis
  proof (cases "unat r \<le> length c")
    case True
    with k have "r - of_nat ?k = 0" by (simp add: unat_eq_0 [symmetric])
    moreover have "framed hp (max_head_bytes io) (max_headers io) (drop (unat r) c @ u) vs"
      using f True by simp
    ultimately show ?thesis
      using assms(2) r True
      by (auto simp: observe_turn_def turn_expects_def expects_def Let_def starts_blank_def has_empty_line_def)
  next
    case False
    with k have rest: "unat (r - of_nat ?k) = unat r - length c" by simp
    with False have "r - of_nat ?k \<noteq> 0" by (auto simp: unat_eq_0 [symmetric])
    moreover have "if length u < unat r - length c then vs = []
        else framed hp (max_head_bytes io) (max_headers io) (drop (unat r - length c) u) vs"
      using f False by (auto split: if_splits)
    ultimately show ?thesis using assms(2) r False rest
      by (auto simp: observe_turn_def turn_expects_def expects_def Let_def)
  qed
qed

lemma turn_expects_fresh:
  assumes inc: "incremental_parser hp" and "expects hp io (c @ u) vs" "state io = Head" "head io = []"
    and "length (pending io) + length vs \<le> MAX_PENDING_VERDICTS"
  shows "turn_expects hp io u vs (observe_turn hp io c)"
proof -
  from assms(2-4) have f: "framed hp (max_head_bytes io) (max_headers io) (c @ u) vs"
    and sc: "head_scanned io = 0" by (auto simp: expects_def)
  show ?thesis
  proof (cases rule: inspect_head_cases [of hp "max_headers io" c])
    case part
    let ?h = "snd (trim_leading_empty_lines c)"
    from framed_partial_small [OF inc f part(1)] have small: "length c < max_head_bytes io" .
    from framed_trim [OF inc f] have ft: "framed hp (max_head_bytes io) (max_headers io) (?h @ u) vs" .
    have "hp (max_headers io) ?h = ParsePartial" by (rule parse_trim_partial [OF inc part(1)])
    then have "\<not> has_empty_line ?h" using parser_facts(5) [OF inc trim_not_blank, of "max_headers io" c] by auto
    with ft small part assms(3,4) sc show ?thesis
      by (simp add: observe_turn_def turn_expects_def buffer_partial_head_def expects_def Let_def trim_not_blank)
  next
    case err
    with framed_not_error [OF inc f] show ?thesis by simp
  next
    case (comp n m hs v b)
    from framed_complete [OF inc f comp(1,2) assms(4) sc assms(5)] parser_bounds [OF inc comp(1)]
      comp assms(3,4) show ?thesis
      by (auto simp: observe_turn_def turn_expects_def)
  qed
qed

lemma turn_expects_buffered:
  assumes inc: "incremental_parser hp" and "expects hp io (c @ u) vs" "state io = Head" "head io \<noteq> []"
    and "length (pending io) + length vs \<le> MAX_PENDING_VERDICTS"
  shows "turn_expects hp io u vs (observe_turn hp io c)"
proof -
  obtain k h where trim: "trim_leading_empty_lines (head io @ c) = (k, h)" by fastforce
  let ?mb = "max_head_bytes io" and ?mh = "max_headers io"
  let ?io = "io\<lparr>head := h, head_scanned := head_scanned io - k\<rparr>"
  from assms(2-4) have f: "framed hp ?mb ?mh ((head io @ c) @ u) vs"
    and sc: "head_scanned io = length (head io)" and nb: "\<not> starts_blank (head io)"
    and ne: "\<not> has_empty_line (head io)"
    by (auto simp: expects_def)
  from framed_trim [OF inc f] trim have fh: "framed hp ?mb ?mh (h @ u) vs" by simp
  have hb: "\<not> starts_blank h" using trim_not_blank [of "head io @ c"] trim by simp
  have ends: "contains_head_terminator h (head_scanned io - k) \<longleftrightarrow> has_empty_line h"
    by (rule terminator_after_trim [OF trim sc nb ne])
  from framed_not_error [OF inc fh] have noerr: "hp ?mh h \<noteq> ParseError" .
  then have part: "hp ?mh h = ParsePartial \<longleftrightarrow> \<not> has_empty_line h" using parser_facts(5) [OF inc hb] by simp
  show ?thesis
  proof (cases "has_empty_line h")
    case False
    with part framed_partial_small [OF inc fh] have small: "length h < ?mb" by simp
    show ?thesis
    proof (cases "h = []")
      case True
      then have "head_scanned io - k = 0"
        using trim_split [OF trim] sc by (metis append.right_neutral diff_is_0_eq le_add1 le_trans length_append take_all_iff)
      with True trim assms(3,4) fh show ?thesis
        by (simp add: observe_turn_def turn_expects_def expects_def Let_def starts_blank_def has_empty_line_def)
    next
      case h: False
      with False ends trim assms(3,4) fh small hb show ?thesis
        by (simp add: observe_turn_def turn_expects_def expects_def Let_def)
    qed
  next
    case True
    then have "h \<noteq> []" by (auto simp: has_empty_line_def)
    show ?thesis
    proof (cases rule: inspect_head_cases [of hp ?mh h])
      case (comp n m hs v b)
      let ?r = "reset_head_buffer ?io"
      have r: "max_head_bytes ?r = ?mb" "max_headers ?r = ?mh" "head ?r = []" "head_scanned ?r = 0"
        "pending ?r = pending io" by (simp_all add: reset_head_buffer_def)
      from framed_complete [of hp ?r h u vs n m hs v b] inc fh comp r assms(5)
      obtain vs' where "vs = v # vs'" "expects hp (finish_head ?r v b) (drop n h @ u) vs'"
        "pending (finish_head ?r v b) = pending io @ [v]" by auto
      with parser_bounds [OF inc comp(1)] comp True ends trim assms(3,4) \<open>h \<noteq> []\<close> show ?thesis
        by (auto simp: observe_turn_def turn_expects_def Let_def)
    qed (use True part noerr in simp_all)
  qed
qed

lemma turn_expects_all:
  assumes "incremental_parser hp" "expects hp io (c @ u) vs"
    and "length (pending io) + length vs \<le> MAX_PENDING_VERDICTS"
  shows "turn_expects hp io u vs (observe_turn hp io c)"
proof (cases "state io")
  case Head
  with assms show ?thesis
    by (cases "head io = []") (auto intro: turn_expects_fresh turn_expects_buffered)
next
  case (Body r)
  with assms show ?thesis by (intro turn_expects_body)
next
  case Passthrough
  with assms show ?thesis by (simp add: observe_turn_def turn_expects_def expects_def)
qed

lemma expects_io_inv: "expects hp io u vs \<Longrightarrow> io_inv io"
  by (auto simp: expects_def io_inv_def)

lemma observe_expects:
  assumes "incremental_parser hp" "expects hp io (c @ u) vs"
    and "length (pending io) + length vs \<le> MAX_PENDING_VERDICTS"
  shows "\<exists>io' vs1 vs2. observe hp io c = Some (Val io') \<and> pending io' = pending io @ vs1 \<and>
    vs = vs1 @ vs2 \<and> expects hp io' u vs2"
  using assms(2,3)
proof (induction "length (head io) + length c" arbitrary: io c vs rule: less_induct)
  case less
  show ?case
  proof (cases "c = []")
    case True
    with less.prems show ?thesis by (simp add: observe.simps)
  next
    case False
    note turn = turn_expects_all [OF assms(1) less.prems]
      and ok = turn_ok_all [OF assms(1) expects_io_inv [OF less.prems(1)] False]
    show ?thesis
    proof (cases "observe_turn hp io c")
      case (Inl res)
      with turn False show ?thesis
        by (cases res) (auto simp: turn_expects_def observe.simps [of hp io])
    next
      case (Inr nx)
      obtain io1 c1 where nx: "nx = (io1, c1)" by fastforce
      from turn Inr nx obtain vs1 vs2 where one: "pending io1 = pending io @ vs1" "vs = vs1 @ vs2"
        "expects hp io1 (c1 @ u) vs2" by (auto simp: turn_expects_def)
      from ok Inr nx have "length (head io1) + length c1 < length (head io) + length c"
        by (simp add: turn_ok_def)
      with less.hyps [of io1 c1 vs2] one less.prems(2) obtain io' ws1 ws2
        where "observe hp io1 c1 = Some (Val io')" "pending io' = pending io1 @ ws1"
          "vs2 = ws1 @ ws2" "expects hp io' u ws2" by auto
      with one Inr nx False show ?thesis
        by (intro exI [of _ io'] exI [of _ "vs1 @ ws1"] exI [of _ ws2])
          (simp add: observe.simps [of hp io])
    qed
  qed
qed

lemma observe_all_expects:
  assumes "incremental_parser hp" "expects hp io (concat cs) vs"
    and "length (pending io) + length vs \<le> MAX_PENDING_VERDICTS"
  shows "\<exists>io'. observe_all hp io cs = Some (Val io') \<and> pending io' = pending io @ vs"
  using assms(2,3)
proof (induction cs arbitrary: io vs)
  case Nil
  have "vs = []"
  proof (cases "state io")
    case Head
    with Nil have f: "framed hp (max_head_bytes io) (max_headers io) (head io @ []) vs"
      and ne: "\<not> starts_blank (head io)" "\<not> has_empty_line (head io)" by (auto simp: expects_def)
    from framed_not_error [OF assms(1) f] parser_facts(5) [OF assms(1) ne(1)] ne(2)
    have "hp (max_headers io) (head io) = ParsePartial" by simp
    with f show ?thesis by (auto elim: framed.cases)
  next
    case (Body r)
    with Nil show ?thesis by (auto simp: expects_def unat_gt_0)
  qed (use Nil in \<open>simp add: expects_def\<close>)
  then show ?case by simp
next
  case (Cons c cs)
  from observe_expects [OF assms(1), of io c "concat cs" vs] Cons.prems obtain io' vs1 vs2
    where "observe hp io c = Some (Val io')" "pending io' = pending io @ vs1" "vs = vs1 @ vs2"
      "expects hp io' (concat cs) vs2" by auto
  with Cons.IH [of io' vs2] Cons.prems(2) show ?case by auto
qed

section \<open>Properties of a connection\<close>

text \<open>
  Claim C7: the verdicts of a stream do not depend on how the reads cut it. If the stream, read as
  one piece, consists of heads without errors and within the size limit, then feeding it in any
  chunks returns without panic and leaves exactly the verdicts of its heads in the queue.
\<close>

theorem verdicts_independent_of_reads:
  assumes "incremental_parser hp" and "framed hp mb mh (concat reads) vs"
    and "length vs \<le> MAX_PENDING_VERDICTS"
  shows "\<exists>io. observe_all hp (inspected_new mb mh) reads = Some (Val io) \<and> pending io = vs"
  using observe_all_expects [OF assms(1), of "inspected_new mb mh" reads vs] assms(2,3)
  by (simp add: expects_def inspected_new_def starts_blank_def has_empty_line_def)

text \<open>
  Claim C8: a connection fails closed. Once a dispatch has been told that its head is terminal or
  ambiguous, every later dispatch on the connection gets the refusing verdict, whatever is read
  and however reads and dispatches interleave.
\<close>

theorem inspector_fails_closed:
  assumes "incremental_parser hp" and "h1_trace hp mb mh io ds"
  shows "fail_closed ds"
  using h1_trace_inv [OF assms] by (simp add: trace_inv_def)

text \<open>
  On every reachable state the inspector returns for every input, without panic and
  without looping, and the verdict queue never exceeds its cap.
\<close>

theorem observe_total_bounded:
  assumes "incremental_parser hp" and "h1_trace hp mb mh io ds"
  shows "(\<exists>io'. observe hp io input = Some (Val io')) \<and> length (pending io) \<le> MAX_PENDING_VERDICTS"
  using h1_trace_inv [OF assms] observe_returns [OF assms(1), of io input] by (auto simp: trace_inv_def)

section \<open>A line-based parser and a stream for the witnesses\<close>

definition demo_get :: string where
  "demo_get = ''GET / X'' @ [CR, LF, CR, LF]"

definition demo_smuggle :: string where
  "demo_smuggle = ''POST / X'' @ [LF] @ ''transfer-encoding: chunked'' @ [LF] @ ''Content-Length: 3'' @ [LF, LF]"

fun find_end :: "string \<Rightarrow> nat option" where
  "find_end [] = None"
| "find_end (a # r) =
     (if take 2 (a # r) = [LF, LF] then Some 2
      else if take 3 (a # r) = [LF, CR, LF] then Some 3
      else map_option Suc (find_end r))"

definition line_field :: "string \<Rightarrow> string \<times> string" where
  "line_field l = (case split_once (CHR '':'') l of None \<Rightarrow> (l, []) | Some (n, v) \<Rightarrow> (n, trim v))"

definition line_parser :: http_parser where
  "line_parser k s =
     (let (n, t) = trim_leading_empty_lines s in
      (case find_end t of
         None \<Rightarrow> ParsePartial
       | Some e \<Rightarrow>
           (let ls = split_char LF (take e t)
            in ParseComplete (n + e) (Some (hd (split_char (CHR '' '') (hd ls)))) (map line_field (tl ls)))))"

lemma find_end_bounds: "find_end s = Some e \<Longrightarrow> 2 \<le> e \<and> e \<le> length s"
proof (induction s arbitrary: e)
  case (Cons a r)
  have "2 \<le> length (a # r)" if "take 2 (a # r) = [LF, LF]" using arg_cong [OF that, of length] by simp
  moreover have "3 \<le> length (a # r)" if "take 3 (a # r) = [LF, CR, LF]"
    using arg_cong [OF that, of length] by simp
  ultimately show ?case using Cons by (auto split: if_splits)
qed simp

lemma find_end_stable: "find_end s = Some e \<Longrightarrow> find_end (take e s @ t) = Some e"
proof (induction s arbitrary: e)
  case (Cons a r)
  show ?case
  proof (cases "take 2 (a # r) = [LF, LF] \<or> take 3 (a # r) = [LF, CR, LF]")
    case True
    with Cons.prems show ?thesis by (auto split: if_splits)
  next
    case False
    with Cons.prems obtain e' where e': "find_end r = Some e'" "e = Suc e'" by (auto split: if_splits)
    let ?t = "take e' r @ t"
    have len: "2 \<le> e'" "e' \<le> length r" using find_end_bounds [OF e'(1)] by auto
    then have "take 1 ?t = take 1 r" "take 2 ?t = take 2 r" by simp_all
    then have "take 2 (a # ?t) = take 2 (a # r)" "take 3 (a # ?t) = take 3 (a # r)"
      by (simp_all add: numeral_2_eq_2 numeral_3_eq_3)
    with False Cons.IH [OF e'(1)] have "find_end (a # ?t) = Some (Suc e')"
      by (simp only: find_end.simps) auto
    with e' show ?thesis by simp
  qed
qed simp

lemma find_end_None: "find_end s = None \<longleftrightarrow> \<not> has_empty_line s"
proof (induction s)
  case (Cons a r)
  then show ?case by (auto simp: has_empty_line_def numeral_2_eq_2 numeral_3_eq_3)
qed (simp add: has_empty_line_def)

lemma trim_prefix:
  "trim_leading_empty_lines s = (n, t) \<Longrightarrow> \<not> starts_blank t' \<Longrightarrow>
     trim_leading_empty_lines (take n s @ t') = (n, t')"
proof (induction s arbitrary: n t rule: length_induct)
  case (1 s)
  show ?case
  proof (cases rule: trim_cases [of s])
    case (lf r)
    obtain m where m: "trim_leading_empty_lines r = (m, t)" "n = m + 1"
      using lf 1(2) by (cases "trim_leading_empty_lines r") auto
    with 1(1) 1(3) lf(1) have "trim_leading_empty_lines (take m r @ t') = (m, t')" by simp
    with lf(1) m show ?thesis by simp
  next
    case (crlf r)
    obtain m where m: "trim_leading_empty_lines r = (m, t)" "n = m + 2"
      using crlf 1(2) by (cases "trim_leading_empty_lines r") auto
    with 1(1) 1(3) crlf(1) have "trim_leading_empty_lines (take m r @ t') = (m, t')" by simp
    with crlf(1) m show ?thesis by simp
  qed (use 1 trim_keeps in auto)
qed

lemma line_parser_blank:
  "line_parser k (LF # s) = shift_parse 1 (line_parser k s)"
  "line_parser k (CR # LF # s) = shift_parse 2 (line_parser k s)"
  by (auto simp: line_parser_def shift_parse_def Let_def split: prod.split option.split)

lemma line_parser_stable:
  assumes "line_parser k s = ParseComplete n m hs"
  shows "0 < n \<and> n \<le> length s" and "line_parser k (take n s @ x) = ParseComplete n m hs"
proof -
  obtain j t where t: "trim_leading_empty_lines s = (j, t)" by fastforce
  with assms obtain e where e: "find_end t = Some e" and n: "n = j + e"
    by (auto simp: line_parser_def Let_def split: option.splits)
  from trim_split [OF t] have s: "s = take j s @ t" "j \<le> length s" by auto
  from s have len: "length s = j + length t" by (metis length_append length_take min.absorb2)
  with find_end_bounds [OF e] n show "0 < n \<and> n \<le> length s" by simp
  have "drop j s = t" using s by (metis append_eq_conv_conj length_take min.absorb2)
  then have "take n s = take j s @ take e t" unfolding n by (simp add: take_add)
  moreover have "\<not> starts_blank (take e t @ x)"
    using trim_not_blank [of s] t find_end_bounds [OF e] by (simp add: starts_blank_def)
  ultimately have "trim_leading_empty_lines (take n s @ x) = (j, take e t @ x)"
    using trim_prefix [OF t] by simp
  with assms t e find_end_stable [OF e, of x] find_end_bounds [OF e]
  show "line_parser k (take n s @ x) = ParseComplete n m hs" by (simp add: line_parser_def)
qed

lemma incremental_line_parser: "incremental_parser line_parser"
proof -
  have "line_parser k s \<noteq> ParseError" for k s
    by (simp add: line_parser_def Let_def split: prod.split option.split)
  moreover have "line_parser k s = ParsePartial \<longleftrightarrow> \<not> has_empty_line s" if "\<not> starts_blank s" for k s
    using trim_keeps [OF that] find_end_None [of s] by (cases "find_end s") (simp_all add: line_parser_def Let_def)
  ultimately show ?thesis
    unfolding incremental_parser_def using line_parser_stable line_parser_blank by simp
qed

lemma framed_demo: "framed line_parser 100 10 (demo_get @ demo_smuggle) [Persistent, Ambiguous]"
proof -
  let ?hs = "map line_field (tl (split_char LF demo_get))"
  have one: "line_parser 10 (demo_get @ demo_smuggle) = ParseComplete 11 (Some ''GET'') ?hs" by code_simp
  have cls: "classify (Some ''GET'') ?hs = (Persistent, 0)" by code_simp
  have rest: "drop (11 + unat (0 :: u64)) (demo_get @ demo_smuggle) = demo_smuggle" by code_simp
  let ?hs' = "map line_field (tl (split_char LF demo_smuggle))"
  have two: "line_parser 10 demo_smuggle = ParseComplete 55 (Some ''POST'') ?hs'" by code_simp
  have cls': "classify (Some ''POST'') ?hs' = (Ambiguous, 3)" by code_simp
  have "framed line_parser 100 10 demo_smuggle [Ambiguous]"
    using framed_final [of line_parser 10, OF two, of 100] cls' by simp
  with rest have "framed line_parser 100 10 (drop (11 + unat (0 :: u64)) (demo_get @ demo_smuggle)) [Ambiguous]"
    by simp
  moreover have "11 + unat (0 :: u64) \<le> length (demo_get @ demo_smuggle)" by code_simp
  ultimately show ?thesis using framed_next [of line_parser 10, OF one, of 100] cls by simp
qed

theorem verdicts_independent_of_reads_witness:
  "\<exists>io. observe_all line_parser (inspected_new 100 10)
      [take 8 demo_get, drop 8 demo_get @ take 30 demo_smuggle, drop 30 demo_smuggle] = Some (Val io) \<and>
    pending io = [Persistent, Ambiguous]"
proof -
  have "concat [take 8 demo_get, drop 8 demo_get @ take 30 demo_smuggle, drop 30 demo_smuggle] =
      demo_get @ demo_smuggle"
    using append_take_drop_id [of 8 demo_get] append_take_drop_id [of 30 demo_smuggle]
    by (metis append.assoc append_Nil2 concat.simps)
  then have "framed line_parser 100 10
      (concat [take 8 demo_get, drop 8 demo_get @ take 30 demo_smuggle, drop 30 demo_smuggle])
      [Persistent, Ambiguous]"
    using framed_demo by metis
  from verdicts_independent_of_reads [OF incremental_line_parser this] show ?thesis
    by (simp add: MAX_PENDING_VERDICTS_def)
qed

lemma demo_trace:
  obtains io where "h1_trace line_parser 100 10 io [Persistent, Ambiguous, Unclassified]"
proof -
  have "expects line_parser (inspected_new 100 10) (concat [demo_get @ demo_smuggle]) [Persistent, Ambiguous]"
    using framed_demo by (simp add: expects_def inspected_new_def starts_blank_def has_empty_line_def)
  from observe_all_expects [OF incremental_line_parser this]
  obtain io where io: "observe line_parser (inspected_new 100 10) (demo_get @ demo_smuggle) = Some (Val io)"
    "pending io = [Persistent, Ambiguous]"
    by (auto simp: inspected_new_def MAX_PENDING_VERDICTS_def split: option.splits outcome.splits)
  have "h1_trace line_parser 100 10 io []" using trace_read [OF trace_new io(1)] .
  from trace_dispatch [OF this, of Persistent "[Ambiguous]"] io(2)
  have "h1_trace line_parser 100 10 (io\<lparr>pending := [Ambiguous]\<rparr>) [Persistent]"
    by (simp add: verdicts_next_def)
  from trace_dispatch [OF this, of Ambiguous "[]"]
  have "h1_trace line_parser 100 10 (io\<lparr>pending := []\<rparr>) [Persistent, Ambiguous]"
    by (simp add: verdicts_next_def)
  from trace_dispatch [OF this, of Unclassified "[]"]
  have "h1_trace line_parser 100 10 (io\<lparr>pending := []\<rparr>) [Persistent, Ambiguous, Unclassified]"
    by (simp add: verdicts_next_def)
  then show thesis by (rule that)
qed

theorem inspector_fails_closed_witness:
  "\<exists>io. h1_trace line_parser 100 10 io [Persistent, Ambiguous, Unclassified] \<and>
     fail_closed [Persistent, Ambiguous, Unclassified]"
proof -
  obtain io where t: "h1_trace line_parser 100 10 io [Persistent, Ambiguous, Unclassified]"
    by (rule demo_trace)
  with inspector_fails_closed [OF incremental_line_parser t] show ?thesis by blast
qed

theorem observe_total_bounded_witness:
  "\<exists>io io'. h1_trace line_parser 100 10 io [Persistent, Ambiguous, Unclassified] \<and>
     observe line_parser io demo_get = Some (Val io')"
proof -
  obtain io where t: "h1_trace line_parser 100 10 io [Persistent, Ambiguous, Unclassified]"
    by (rule demo_trace)
  with observe_total_bounded [OF incremental_line_parser t, of demo_get] show ?thesis by blast
qed

end
