(* ===== verification/Cookie.thy ===== *)
theory Cookie
  imports Prelude
begin

text \<open>
  Response cookies (\<open>src/app/cookie.rs\<close>): the \<open>Set-Cookie\<close> builder with its sanitising, and
  signed values. The MAC (crates \<open>hmac\<close>, \<open>sha2\<close>) and the base64url alphabet (crate \<open>base64\<close>) are
  parameters. \<open>Max-Age\<close> is an \<open>i64\<close>, kept as an integer.
\<close>

section \<open>Model\<close>

datatype SameSite = Strict | Lax | SameSite_None

fun SameSite_as_str :: "SameSite \<Rightarrow> string" where
  "SameSite_as_str Strict = ''Strict''"
| "SameSite_as_str Lax = ''Lax''"
| "SameSite_as_str SameSite_None = ''None''"

record Cookie =
  ck_name :: string
  ck_value :: string
  ck_path :: string
  ck_domain :: "string option"
  ck_max_age :: "int option"
  ck_secure :: bool
  ck_http_only :: bool
  ck_same_site :: "SameSite option"

text \<open>The token characters of a cookie name.\<close>

definition is_token_byte :: "char \<Rightarrow> bool" where
  "is_token_byte b \<longleftrightarrow> is_ascii_alphanumeric b \<or> b \<in> set ''!#$%&*+-.^_|~'' \<or> code b = 39 \<or> code b = 96"

definition sanitize_cookie_name :: "string \<Rightarrow> string" where
  "sanitize_cookie_name value = filter is_token_byte value"

definition is_cookie_octet :: "char \<Rightarrow> bool" where
  "is_cookie_octet b \<longleftrightarrow>
     (let n = code b in n = 0x21 \<or> (0x23 \<le> n \<and> n \<le> 0x2b) \<or> (0x2d \<le> n \<and> n \<le> 0x3a)
        \<or> (0x3c \<le> n \<and> n \<le> 0x5b) \<or> (0x5d \<le> n \<and> n \<le> 0x7e))"

definition sanitize_cookie_value :: "string \<Rightarrow> string" where
  "sanitize_cookie_value value = filter is_cookie_octet value"

text \<open>\<open>str.chars().filter(P).collect()\<close>: whole code points are kept or dropped.\<close>

function filter_chars :: "(nat \<Rightarrow> bool) \<Rightarrow> string \<Rightarrow> string" where
  "filter_chars P s =
     (case utf8_next s of
        None \<Rightarrow> []
      | Some (cp, r) \<Rightarrow>
          (if P cp then take (length s - length r) s else []) @ filter_chars P r)"
  by pat_completeness auto

termination filter_chars
  by (relation "measure (\<lambda>(P, s). length s)") (auto simp: utf8_next_shorter)

definition sanitize_cookie_path :: "string \<Rightarrow> string" where
  "sanitize_cookie_path value = filter_chars (\<lambda>cp. cp \<noteq> 59 \<and> \<not> is_control cp) value"

definition is_domain_byte :: "char \<Rightarrow> bool" where
  "is_domain_byte b \<longleftrightarrow> is_ascii_alphanumeric b \<or> b \<in> set ''.-:[]''"

definition sanitize_cookie_domain :: "string \<Rightarrow> string" where
  "sanitize_cookie_domain value = filter is_domain_byte value"

definition Cookie_new :: "string \<Rightarrow> string \<Rightarrow> Cookie" where
  "Cookie_new name value =
     \<lparr>ck_name = sanitize_cookie_name name, ck_value = sanitize_cookie_value value, ck_path = ''/'',
      ck_domain = None, ck_max_age = None, ck_secure = False, ck_http_only = False,
      ck_same_site = None\<rparr>"

definition cookie_path :: "string \<Rightarrow> Cookie \<Rightarrow> Cookie" where
  "cookie_path path c =
     (let path = sanitize_cookie_path path in c\<lparr>ck_path := (if path = [] then ''/'' else path)\<rparr>)"

definition cookie_domain :: "string \<Rightarrow> Cookie \<Rightarrow> Cookie" where
  "cookie_domain domain c =
     (let domain = sanitize_cookie_domain domain
      in c\<lparr>ck_domain := (if domain \<noteq> [] then Some domain else None)\<rparr>)"

definition cookie_max_age_secs :: "int \<Rightarrow> Cookie \<Rightarrow> Cookie" where
  "cookie_max_age_secs seconds c = c\<lparr>ck_max_age := Some seconds\<rparr>"

definition cookie_secure :: "bool \<Rightarrow> Cookie \<Rightarrow> Cookie" where
  "cookie_secure b c = c\<lparr>ck_secure := b\<rparr>"

definition cookie_http_only :: "bool \<Rightarrow> Cookie \<Rightarrow> Cookie" where
  "cookie_http_only b c = c\<lparr>ck_http_only := b\<rparr>"

definition cookie_same_site :: "SameSite \<Rightarrow> Cookie \<Rightarrow> Cookie" where
  "cookie_same_site s c = c\<lparr>ck_same_site := Some s\<rparr>"

definition show_int :: "int \<Rightarrow> string" where
  "show_int i = (if i < 0 then CHR ''-'' # show_nat (nat (- i)) else show_nat (nat i))"

definition to_header_value :: "Cookie \<Rightarrow> string" where
  "to_header_value c =
     (let host_prefix = starts_with ''__Host-'' (ck_name c);
          secure_prefix = starts_with ''__Secure-'' (ck_name c);
          secure = (ck_secure c \<or> ck_same_site c = Some SameSite_None \<or> host_prefix \<or> secure_prefix);
          path = (if host_prefix then ''/'' else ck_path c);
          domain = (if host_prefix then None else ck_domain c)
      in ck_name c @ ''='' @ ck_value c @ ''; Path='' @ path
         @ (case domain of None \<Rightarrow> [] | Some d \<Rightarrow> ''; Domain='' @ d)
         @ (case ck_max_age c of None \<Rightarrow> [] | Some n \<Rightarrow> ''; Max-Age='' @ show_int n)
         @ (if secure then ''; Secure'' else [])
         @ (if ck_http_only c then ''; HttpOnly'' else [])
         @ (case ck_same_site c of None \<Rightarrow> [] | Some s \<Rightarrow> ''; SameSite='' @ SameSite_as_str s))"

text \<open>\<open>Response::clear_cookie_with\<close>, up to appending the header.\<close>

definition cleared_cookie :: "Cookie \<Rightarrow> Cookie" where
  "cleared_cookie c = c\<lparr>ck_value := [], ck_max_age := Some 0\<rparr>"

subsection \<open>Signed values\<close>

definition signature ::
  "(string \<Rightarrow> string \<Rightarrow> string) \<Rightarrow> (string \<Rightarrow> string) \<Rightarrow> string \<Rightarrow> string \<Rightarrow> string" where
  "signature hmac b64_encode secret value = b64_encode (hmac secret value)"

definition sign_value ::
  "(string \<Rightarrow> string \<Rightarrow> string) \<Rightarrow> (string \<Rightarrow> string) \<Rightarrow> string \<Rightarrow> string \<Rightarrow> string" where
  "sign_value hmac b64_encode secret value = value @ ''.'' @ signature hmac b64_encode secret value"

definition verify_value ::
  "(string \<Rightarrow> string \<Rightarrow> string) \<Rightarrow> (string \<Rightarrow> string option) \<Rightarrow> string \<Rightarrow> string \<Rightarrow> string option" where
  "verify_value hmac b64_decode secret signed_value =
     (case rsplit_once (CHR ''.'') signed_value of
        None \<Rightarrow> None
      | Some (value, signature_b64) \<Rightarrow>
          (case b64_decode signature_b64 of
             None \<Rightarrow> None
           | Some decoded \<Rightarrow> if decoded = hmac secret value then Some value else None))"

text \<open>Documented behaviour of the base64url engine without padding.\<close>

definition base64url :: "(string \<Rightarrow> string) \<Rightarrow> (string \<Rightarrow> string option) \<Rightarrow> bool" where
  "base64url enc dec \<longleftrightarrow>
     (\<forall>x. dec (enc x) = Some x) \<and> (\<forall>x. \<forall>c \<in> set (enc x). is_ascii_alphanumeric c \<or> c \<in> {CHR ''-'', CHR ''_''})"

section \<open>Cookies cannot be injected into\<close>

text \<open>What a cookie may contain: no separator and no control byte in any part.\<close>

definition clean_byte :: "char \<Rightarrow> bool" where
  "clean_byte b \<longleftrightarrow> b \<noteq> CHR '';'' \<and> 32 \<le> code b \<and> code b \<noteq> 127"

definition wf_cookie :: "Cookie \<Rightarrow> bool" where
  "wf_cookie c \<longleftrightarrow>
     list_all clean_byte (ck_name c) \<and> list_all clean_byte (ck_value c) \<and> list_all clean_byte (ck_path c) \<and>
     (\<forall>d. ck_domain c = Some d \<longrightarrow> list_all clean_byte d)"

datatype cookie_op =
  SetPath string | SetDomain string | SetMaxAge int | SetSecure bool | SetHttpOnly bool
| SetSameSite SameSite | Clear

fun cookie_step :: "Cookie \<Rightarrow> cookie_op \<Rightarrow> Cookie" where
  "cookie_step c (SetPath p) = cookie_path p c"
| "cookie_step c (SetDomain d) = cookie_domain d c"
| "cookie_step c (SetMaxAge n) = cookie_max_age_secs n c"
| "cookie_step c (SetSecure b) = cookie_secure b c"
| "cookie_step c (SetHttpOnly b) = cookie_http_only b c"
| "cookie_step c (SetSameSite s) = cookie_same_site s c"
| "cookie_step c Clear = cleared_cookie c"

text \<open>The attributes a browser should find, in order.\<close>

definition cookie_attributes :: "Cookie \<Rightarrow> string list" where
  "cookie_attributes c =
     (let host_prefix = starts_with ''__Host-'' (ck_name c);
          secure_prefix = starts_with ''__Secure-'' (ck_name c)
      in [''Path='' @ (if host_prefix then ''/'' else ck_path c)]
         @ (if host_prefix then [] else map (\<lambda>d. ''Domain='' @ d) (case ck_domain c of None \<Rightarrow> [] | Some d \<Rightarrow> [d]))
         @ map (\<lambda>n. ''Max-Age='' @ show_int n) (case ck_max_age c of None \<Rightarrow> [] | Some n \<Rightarrow> [n])
         @ (if ck_secure c \<or> ck_same_site c = Some SameSite_None \<or> host_prefix \<or> secure_prefix
            then [''Secure''] else [])
         @ (if ck_http_only c then [''HttpOnly''] else [])
         @ map (\<lambda>s. ''SameSite='' @ SameSite_as_str s) (case ck_same_site c of None \<Rightarrow> [] | Some s \<Rightarrow> [s]))"

declare filter_chars.simps [simp del]

lemma second_ok_high: "second_ok b0 b1 \<Longrightarrow> 128 \<le> code b1"
  by (auto simp: second_ok_def cont_byte_def split: if_splits)

lemma utf8_next_bytes:
  assumes "utf8_next s = Some (cp, r)"
  shows "\<exists>c. s = c @ r \<and>
    ((\<exists>k. c = [k] \<and> cp = code k \<and> code k < 128) \<or> (\<forall>b \<in> set c. 128 \<le> code b))"
  using assms unfolding utf8_next_def cont_byte_def
  by (auto split: list.splits if_splits dest!: second_ok_high)

lemma filter_chars_all:
  assumes "\<And>k. code k < 128 \<Longrightarrow> P (code k) \<Longrightarrow> Q k" and "\<And>b. 128 \<le> code b \<Longrightarrow> Q b"
  shows "list_all Q (filter_chars P s)"
  using assms(1)
proof (induction P s rule: filter_chars.induct)
  case (1 P s)
  show ?case
  proof (cases "utf8_next s")
    case None
    then show ?thesis by (subst filter_chars.simps) simp
  next
    case (Some x)
    obtain cp r where x: "x = (cp, r)" by fastforce
    from utf8_next_bytes [of s cp r] Some x obtain c where c: "s = c @ r"
      "(\<exists>k. c = [k] \<and> cp = code k \<and> code k < 128) \<or> (\<forall>b \<in> set c. 128 \<le> code b)" by auto
    then have "P cp \<Longrightarrow> list_all Q c" using assms(2) 1(2) by (auto simp: list_all_iff)
    with 1(1) [OF Some x [symmetric] 1(2)] Some x c(1) show ?thesis by (subst filter_chars.simps) simp
  qed
qed

lemma clean_token: "is_token_byte b \<Longrightarrow> clean_byte b"
  by (auto simp: is_token_byte_def clean_byte_def is_ascii_alphanumeric_def is_ascii_digit_def
      is_ascii_upper_def is_ascii_lower_def)

lemma clean_octet: "is_cookie_octet b \<Longrightarrow> clean_byte b"
  by (auto simp: is_cookie_octet_def clean_byte_def Let_def)

lemma clean_domain: "is_domain_byte b \<Longrightarrow> clean_byte b"
  by (auto simp: is_domain_byte_def clean_byte_def is_ascii_alphanumeric_def is_ascii_digit_def
      is_ascii_upper_def is_ascii_lower_def)

lemma clean_path: "list_all clean_byte (sanitize_cookie_path s)"
proof -
  have "code k = 59" if "k = CHR '';''" for k using that by simp
  then show ?thesis
    unfolding sanitize_cookie_path_def
    by (intro filter_chars_all) (auto simp: clean_byte_def is_control_def)
qed

lemma wf_Cookie_new: "wf_cookie (Cookie_new name value)"
  by (auto simp: wf_cookie_def Cookie_new_def sanitize_cookie_name_def sanitize_cookie_value_def
      list_all_iff clean_token clean_octet) (simp add: clean_byte_def)

interpretation cookie: invariant_system cookie_step wf_cookie
proof
  fix c op
  assume "wf_cookie c"
  then show "wf_cookie (cookie_step c op)"
    using clean_path
    by (cases op)
      (auto simp: wf_cookie_def cookie_path_def cookie_domain_def cookie_max_age_secs_def
        cookie_secure_def cookie_http_only_def cookie_same_site_def cleared_cookie_def
        sanitize_cookie_domain_def Let_def list_all_iff clean_domain clean_byte_def [of "CHR ''/''"]
        split: if_splits)
qed

lemma to_header_value_attributes:
  "to_header_value c =
     (ck_name c @ ''='' @ ck_value c) @ concat (map (\<lambda>a. CHR '';'' # CHR '' '' # a) (cookie_attributes c))"
  by (auto simp: to_header_value_def cookie_attributes_def Let_def split: option.split)

lemma split_char_attributes:
  "c \<notin> set w \<Longrightarrow> \<forall>a \<in> set as. c \<notin> set a \<Longrightarrow> c \<noteq> d \<Longrightarrow>
     split_char c (w @ concat (map (\<lambda>a. c # d # a) as)) = w # map (Cons d) as"
proof (induction as arbitrary: w)
  case (Cons a as)
  then have "c \<notin> set (d # a)" by auto
  with Cons.IH [of "d # a"] Cons.prems show ?case by (simp add: split_char_app)
qed (simp add: split_char_none)

lemma clean_show_int: "list_all clean_byte (show_int i)"
proof -
  have "list_all clean_byte (show_nat n)" for n
    using show_nat_digits [of n] by (auto simp: list_all_iff is_ascii_digit_def clean_byte_def)
  then show ?thesis by (simp add: show_int_def clean_byte_def)
qed

lemma clean_same_site: "list_all clean_byte (SameSite_as_str s)"
  by (cases s) (simp_all add: clean_byte_def)

lemma clean_attributes: "wf_cookie c \<Longrightarrow> \<forall>a \<in> set (cookie_attributes c). list_all clean_byte a"
  using clean_show_int clean_same_site
  by (auto simp: cookie_attributes_def wf_cookie_def Let_def clean_byte_def split: option.splits if_splits)

text \<open>
  Claim C15: nothing an application passes to the cookie builder can inject into the header.
  For every name, value, path, domain and sequence of builder calls, splitting the rendered
  \<open>Set-Cookie\<close> value at its semicolons gives the name-value pair and exactly the attributes
  that were set, and the value contains no control byte, so no line break.
\<close>

theorem cookie_no_injection:
  "split_char (CHR '';'') (to_header_value (foldl cookie_step (Cookie_new name value) ops)) =
     (let c = foldl cookie_step (Cookie_new name value) ops
      in (ck_name c @ ''='' @ ck_value c) # map (Cons (CHR '' '')) (cookie_attributes c)) \<and>
   list_all (\<lambda>b. 32 \<le> code b \<and> code b \<noteq> 127)
     (to_header_value (foldl cookie_step (Cookie_new name value) ops))"
proof -
  let ?c = "foldl cookie_step (Cookie_new name value) ops"
  have wf: "wf_cookie ?c" by (rule cookie.run_inv [OF wf_Cookie_new])
  note clean = clean_attributes [OF wf]
  have pair: "list_all clean_byte (ck_name ?c @ ''='' @ ck_value ?c)"
    using wf by (simp add: wf_cookie_def clean_byte_def)
  then have "CHR '';'' \<notin> set (ck_name ?c @ ''='' @ ck_value ?c)"
    unfolding list_all_iff clean_byte_def by blast
  moreover have "\<forall>a \<in> set (cookie_attributes ?c). CHR '';'' \<notin> set a"
    using clean unfolding list_all_iff clean_byte_def by blast
  moreover have "list_all (\<lambda>b. 32 \<le> code b \<and> code b \<noteq> 127) (to_header_value ?c)"
    using pair clean unfolding to_header_value_attributes
    by (auto simp: list_all_iff clean_byte_def)
  ultimately show ?thesis
    using split_char_attributes [of "CHR '';''" "ck_name ?c @ ''='' @ ck_value ?c" "cookie_attributes ?c"]
    by (simp only: to_header_value_attributes Let_def) simp
qed

lemma verify_value_Some:
  "verify_value hmac dec secret t = Some v \<longleftrightarrow>
     (\<exists>sig. t = v @ CHR ''.'' # sig \<and> CHR ''.'' \<notin> set sig \<and> dec sig = Some (hmac secret v))"
proof -
  have "verify_value hmac dec secret t = Some v \<longleftrightarrow>
      (\<exists>sig. rsplit_once (CHR ''.'') t = Some (v, sig) \<and> dec sig = Some (hmac secret v))"
    by (auto simp: verify_value_def split: option.splits if_splits)
  then show ?thesis by (auto simp: rsplit_once_Some)
qed

text \<open>
  Verification accepts exactly the values followed by a dot and an encoding of
  their own MAC. A signed value verifies to itself, and whatever verifies to \<open>v\<close> carries the
  MAC of \<open>v\<close> under this secret.
\<close>

theorem verify_value_exact:
  assumes "base64url enc dec"
  shows "verify_value hmac dec secret (sign_value hmac enc secret v) = Some v \<and>
    (verify_value hmac dec secret t = Some v \<longleftrightarrow>
       (\<exists>sig. t = v @ ''.'' @ sig \<and> CHR ''.'' \<notin> set sig \<and> dec sig = Some (hmac secret v)))"
proof -
  have "\<not> is_ascii_alphanumeric (CHR ''.'')" by code_simp
  then have "CHR ''.'' \<notin> set (enc (hmac secret v))" using assms unfolding base64url_def by fastforce
  with assms show ?thesis
    by (auto simp: verify_value_Some sign_value_def signature_def base64url_def)
qed

section \<open>A codec for the witness\<close>

fun nibbles_encode :: "string \<Rightarrow> string" where
  "nibbles_encode [] = []"
| "nibbles_encode (c # s) = char_of (65 + code c div 16) # char_of (65 + code c mod 16) # nibbles_encode s"

fun nibbles_decode :: "string \<Rightarrow> string option" where
  "nibbles_decode [] = Some []"
| "nibbles_decode [c] = None"
| "nibbles_decode (a # b # s) = map_option (Cons (char_of ((code a - 65) * 16 + (code b - 65)))) (nibbles_decode s)"

lemma base64url_nibbles: "base64url nibbles_encode nibbles_decode"
proof -
  have bound: "code c div 16 < 16" "code c mod 16 < 16" for c
    using less_mult_imp_div_less [of "code c" 16 16] code_less [of c] by simp_all
  have code_upper: "code (char_of (65 + k)) = 65 + k" if "k < 16" for k :: nat using that by simp
  have "nibbles_decode (nibbles_encode x) = Some x" for x
    by (induction x) (simp_all only: nibbles_encode.simps nibbles_decode.simps code_upper bound, simp_all)
  moreover have "\<forall>c \<in> set (nibbles_encode x). is_ascii_alphanumeric c" for x
  proof (induction x)
    case (Cons c x)
    have "is_ascii_alphanumeric (char_of (65 + k))" if "k < 16" for k :: nat
      using that by (simp add: is_ascii_alphanumeric_def is_ascii_upper_def)
    with Cons bound [of c] show ?case by simp
  qed simp
  ultimately show ?thesis unfolding base64url_def by blast
qed

theorem verify_value_exact_witness:
  "verify_value (\<lambda>k v. k @ v) nibbles_decode ''s'' (sign_value (\<lambda>k v. k @ v) nibbles_encode ''s'' ''id'') = Some ''id''"
  using verify_value_exact [OF base64url_nibbles] by blast

end
