(* ===== verification/Session_Store.thy ===== *)
theory Session_Store
  imports Cookie "HOL-Library.AList" "HOL-Library.Product_Lexorder" "HOL-Library.List_Lexorder"
    "HOL-Library.Char_ord"
begin

text \<open>
  The sharded session store (\<open>src/app/session.rs\<close>, \<open>SessionStore\<close>). A \<open>HashMap\<close> is an association
  list with distinct keys, whose order means nothing; a \<open>BTreeSet\<close> is its sorted list of elements.
  Each operation is one call with the instants its reads of the clock return; \<open>hash\<close> stands for
  \<open>DefaultHasher\<close>, whose algorithm is unspecified. Mutexes are held for each step and recovered
  when poisoned, so they do not appear. In a release build the failed \<open>debug_assert!\<close> of the
  expiry scan is skipped, as here; the invariant shows that it cannot fail.
\<close>

section \<open>State\<close>

abbreviation seconds :: "nat \<Rightarrow> nat" where
  "seconds n \<equiv> n * 1000000000"

definition SESSION_STORE_SHARDS :: nat where "SESSION_STORE_SHARDS = 16"
definition STORE_CLEANUP_INTERVAL :: nat where "STORE_CLEANUP_INTERVAL = seconds 60"
definition ROTATION_RECORD_TTL :: nat where "ROTATION_RECORD_TTL = seconds 60"
definition STORE_CLEANUP_BATCH :: nat where "STORE_CLEANUP_BATCH = 256"

datatype SessionDataErrorKind =
  EmptyKey | KeyTooLarge | ValueTooLarge | TooManyEntries | SessionTooLarge | SessionUnavailable

type_synonym SessionDataError = "SessionDataErrorKind \<times> nat option"

record SessionDataLimits =
  lim_entries :: nat
  lim_key_bytes :: nat
  lim_value_bytes :: nat
  lim_total_bytes :: nat

record SessionEntry =
  se_data :: "(string \<times> string) list"
  se_expires_at :: nat

record SessionShard =
  sh_entries :: "(string \<times> SessionEntry) list"
  sh_expiry :: "(nat \<times> string) list"

record StoreMaintenance =
  next_cleanup :: nat
  cleanup_shard :: nat

record SessionStore =
  shards :: "SessionShard list"
  entries :: nat
  maintenance :: StoreMaintenance
  rotations :: "(string \<times> string \<times> nat) list"

definition SessionShard_default :: SessionShard where
  "SessionShard_default = \<lparr>sh_entries = [], sh_expiry = []\<rparr>"

text \<open>\<open>Instant::now() + STORE_CLEANUP_INTERVAL\<close> panics beyond the last instant.\<close>

definition SessionStore_new :: "nat \<Rightarrow> nat \<Rightarrow> SessionStore outcome" where
  "SessionStore_new imax now =
     (case instant_checked_add imax now STORE_CLEANUP_INTERVAL of
        None \<Rightarrow> Panic
      | Some t \<Rightarrow>
          Val \<lparr>shards = replicate SESSION_STORE_SHARDS SessionShard_default, entries = 0,
               maintenance = \<lparr>next_cleanup = t, cleanup_shard = 0\<rparr>, rotations = []\<rparr>)"

section \<open>Operations on one shard\<close>

definition expiry :: "nat \<Rightarrow> nat \<Rightarrow> nat \<Rightarrow> nat" where
  "expiry imax now idle_timeout =
     (case instant_checked_add imax now idle_timeout of None \<Rightarrow> now | Some t \<Rightarrow> t)"

definition expiry_key :: "string \<Rightarrow> SessionEntry \<Rightarrow> nat \<times> string" where
  "expiry_key session_id entry = (se_expires_at entry, session_id)"

definition renew :: "nat \<Rightarrow> SessionShard \<Rightarrow> string \<Rightarrow> nat \<Rightarrow> nat \<Rightarrow> SessionShard \<times> bool" where
  "renew imax shard session_id now idle_timeout =
     (case map_of (sh_entries shard) session_id of
        None \<Rightarrow> (shard, False)
      | Some previous \<Rightarrow>
          let entry = previous\<lparr>se_expires_at := expiry imax now idle_timeout\<rparr>
          in (\<lparr>sh_entries = AList.update session_id entry (sh_entries shard),
               sh_expiry = insort_insert (expiry_key session_id entry)
                             (remove1 (expiry_key session_id previous) (sh_expiry shard))\<rparr>, True))"

definition insert_entry :: "SessionShard \<Rightarrow> string \<Rightarrow> SessionEntry \<Rightarrow> SessionShard \<times> bool" where
  "insert_entry shard session_id entry =
     (let previous = map_of (sh_entries shard) session_id;
          index = (case previous of
                     None \<Rightarrow> sh_expiry shard
                   | Some p \<Rightarrow> remove1 (expiry_key session_id p) (sh_expiry shard))
      in (\<lparr>sh_entries = AList.update session_id entry (sh_entries shard),
           sh_expiry = insort_insert (expiry_key session_id entry) index\<rparr>, previous = None))"

definition remove_entry :: "SessionShard \<Rightarrow> string \<Rightarrow> SessionShard \<times> SessionEntry option" where
  "remove_entry shard session_id =
     (case map_of (sh_entries shard) session_id of
        None \<Rightarrow> (shard, None)
      | Some entry \<Rightarrow>
          (\<lparr>sh_entries = AList.delete session_id (sh_entries shard),
            sh_expiry = remove1 (expiry_key session_id entry) (sh_expiry shard)\<rparr>, Some entry))"

fun remove_expired_loop ::
  "nat \<Rightarrow> nat \<Rightarrow> (string \<times> SessionEntry) list \<Rightarrow> (nat \<times> string) list \<Rightarrow> nat \<Rightarrow> SessionShard \<times> nat" where
  "remove_expired_loop now maximum es [] removed = (\<lparr>sh_entries = es, sh_expiry = []\<rparr>, removed)"
| "remove_expired_loop now maximum es (candidate # rest) removed =
     (if \<not> removed < maximum \<or> fst candidate > now
      then (\<lparr>sh_entries = es, sh_expiry = candidate # rest\<rparr>, removed)
      else if (case map_of es (snd candidate) of
                 None \<Rightarrow> False
               | Some entry \<Rightarrow> se_expires_at entry = fst candidate)
      then remove_expired_loop now maximum (AList.delete (snd candidate) es) rest (removed + 1)
      else remove_expired_loop now maximum es rest removed)"

definition remove_expired_entries :: "SessionShard \<Rightarrow> nat \<Rightarrow> nat \<Rightarrow> SessionShard \<times> nat" where
  "remove_expired_entries shard now maximum =
     remove_expired_loop now maximum (sh_entries shard) (sh_expiry shard) 0"

section \<open>Operations on the store\<close>

definition shard_index :: "(string \<Rightarrow> nat) \<Rightarrow> SessionStore \<Rightarrow> string \<Rightarrow> nat" where
  "shard_index hash s session_id = hash session_id mod length (shards s)"

definition shard_of :: "(string \<Rightarrow> nat) \<Rightarrow> SessionStore \<Rightarrow> string \<Rightarrow> SessionShard" where
  "shard_of hash s session_id = shards s ! shard_index hash s session_id"

definition put_shard ::
  "(string \<Rightarrow> nat) \<Rightarrow> SessionStore \<Rightarrow> string \<Rightarrow> SessionShard \<Rightarrow> SessionStore" where
  "put_shard hash s session_id shard =
     s\<lparr>shards := (shards s)[shard_index hash s session_id := shard]\<rparr>"

definition is_expired :: "SessionShard \<Rightarrow> string \<Rightarrow> nat \<Rightarrow> bool" where
  "is_expired shard session_id now =
     (case map_of (sh_entries shard) session_id of
        None \<Rightarrow> False | Some entry \<Rightarrow> se_expires_at entry \<le> now)"

text \<open>The guard every access shares: an expired entry is removed and uncounted.\<close>

definition drop_expired ::
  "(string \<Rightarrow> nat) \<Rightarrow> SessionStore \<Rightarrow> string \<Rightarrow> SessionStore" where
  "drop_expired hash s session_id =
     (put_shard hash s session_id (fst (remove_entry (shard_of hash s session_id) session_id)))
       \<lparr>entries := fetch_sub (entries s) 1\<rparr>"

definition resume ::
  "(string \<Rightarrow> nat) \<Rightarrow> nat \<Rightarrow> SessionStore \<Rightarrow> string \<Rightarrow> nat \<Rightarrow> nat \<Rightarrow> SessionStore \<times> bool" where
  "resume hash imax s session_id now idle_timeout =
     (let shard = shard_of hash s session_id in
      if is_expired shard session_id now then (drop_expired hash s session_id, False)
      else let (shard', renewed) = renew imax shard session_id now idle_timeout
           in (put_shard hash s session_id shard', renewed))"

function cleanup_loop ::
  "nat \<Rightarrow> nat \<Rightarrow> SessionShard list \<Rightarrow> nat \<Rightarrow> nat \<Rightarrow> nat \<Rightarrow>
     SessionShard list \<times> nat \<times> nat \<times> nat option" where
  "cleanup_loop now start shs visited remaining removed =
     (if remaining > 0 \<and> visited < length shs then
        let index = (start + visited) mod length shs;
            (shard, n) = remove_expired_entries (shs ! index) now remaining;
            shs' = shs[index := shard]
        in if remaining - n = 0 then (shs', 0, removed + n, Some index)
           else cleanup_loop now start shs' (visited + 1) (remaining - n) (removed + n)
      else (shs, remaining, removed, None))"
  by pat_completeness auto

termination cleanup_loop
  by (relation "measure (\<lambda>(now, start, shs, visited, remaining, removed). length shs - visited)") auto

definition cleanup_expired_batch :: "nat \<Rightarrow> SessionStore \<Rightarrow> nat \<Rightarrow> SessionStore" where
  "cleanup_expired_batch imax s now =
     (let m = maintenance s;
          (shs, remaining, removed, stopped) =
            cleanup_loop now (cleanup_shard m) (shards s) 0 STORE_CLEANUP_BATCH 0
      in s\<lparr>shards := shs,
           entries := (if removed > 0 then fetch_sub (entries s) removed else entries s),
           maintenance :=
             (if remaining = 0
              then \<lparr>next_cleanup = now,
                    cleanup_shard = (case stopped of None \<Rightarrow> cleanup_shard m | Some i \<Rightarrow> i)\<rparr>
              else \<lparr>next_cleanup = expiry imax now STORE_CLEANUP_INTERVAL,
                    cleanup_shard = (cleanup_shard m + 1) mod length (shards s)\<rparr>)\<rparr>)"

definition cleanup_if_needed :: "nat \<Rightarrow> SessionStore \<Rightarrow> nat \<Rightarrow> SessionStore \<times> bool" where
  "cleanup_if_needed imax s now =
     (if now < next_cleanup (maintenance s) then (s, False)
      else (cleanup_expired_batch imax s now, True))"

definition create ::
  "(string \<Rightarrow> nat) \<Rightarrow> nat \<Rightarrow> SessionStore \<Rightarrow> string \<Rightarrow> nat \<Rightarrow> nat \<Rightarrow> nat \<Rightarrow> SessionStore \<times> bool" where
  "create hash imax s session_id now idle_timeout max_sessions =
     (let s1 = (if is_expired (shard_of hash s session_id) session_id now
                then drop_expired hash s session_id else s);
          (shard, renewed) = renew imax (shard_of hash s1 session_id) session_id now idle_timeout
      in if renewed then (put_shard hash s1 session_id shard, True)
         else
           let (s2, attempted) = cleanup_if_needed imax s1 now;
               s3 = (if entries s2 \<ge> max_sessions \<and> \<not> attempted
                     then cleanup_expired_batch imax s2 now else s2)
           in if entries s3 \<ge> max_sessions then (s3, False)
              else
                let (shard', fresh) = insert_entry (shard_of hash s3 session_id) session_id
                       \<lparr>se_data = [], se_expires_at = expiry imax now idle_timeout\<rparr>;
                    s4 = put_shard hash s3 session_id shard'
                in (if fresh then s4\<lparr>entries := fetch_add (entries s4) 1\<rparr> else s4, True))"

definition get ::
  "(string \<Rightarrow> nat) \<Rightarrow> nat \<Rightarrow> SessionStore \<Rightarrow> string \<Rightarrow> string \<Rightarrow> nat \<Rightarrow> nat \<Rightarrow>
     SessionStore \<times> string option" where
  "get hash imax s session_id key now idle_timeout =
     (let shard = shard_of hash s session_id in
      if is_expired shard session_id now then (drop_expired hash s session_id, None)
      else let (shard', renewed) = renew imax shard session_id now idle_timeout;
               s' = put_shard hash s session_id shard'
           in if \<not> renewed then (s', None)
              else (s', case map_of (sh_entries shard') session_id of
                          None \<Rightarrow> None
                        | Some entry \<Rightarrow> map_of (se_data entry) key))"

fun sum_bytes :: "(string \<times> string) list \<Rightarrow> nat \<Rightarrow> nat option" where
  "sum_bytes [] acc = Some acc"
| "sum_bytes ((k, v) # rest) acc =
     (case usize_checked_add acc (length k) of
        None \<Rightarrow> None
      | Some t \<Rightarrow>
          (case usize_checked_add t (length v) of None \<Rightarrow> None | Some t' \<Rightarrow> sum_bytes rest t'))"

definition validate_session_value ::
  "string \<Rightarrow> string \<Rightarrow> SessionDataLimits \<Rightarrow> SessionDataError + unit" where
  "validate_session_value key value limits =
     (if key = [] then Inl (EmptyKey, None)
      else if length key > lim_key_bytes limits then Inl (KeyTooLarge, Some (lim_key_bytes limits))
      else if length value > lim_value_bytes limits then Inl (ValueTooLarge, Some (lim_value_bytes limits))
      else if (case usize_checked_add (length key) (length value) of
                 None \<Rightarrow> True | Some n \<Rightarrow> n > lim_total_bytes limits)
      then Inl (SessionTooLarge, Some (lim_total_bytes limits))
      else Inr ())"

text \<open>The new total of a session's data when \<open>key\<close> is set to \<open>value\<close>, if within the limit.\<close>

definition next_bytes ::
  "(string \<times> string) list \<Rightarrow> string \<Rightarrow> string \<Rightarrow> nat \<Rightarrow> nat option" where
  "next_bytes data key value limit =
     (case sum_bytes data 0 of
        None \<Rightarrow> None
      | Some current \<Rightarrow>
          let replaced = (case map_of data key of None \<Rightarrow> 0 | Some old \<Rightarrow> length key + length old)
          in (case usize_checked_sub current replaced of
                None \<Rightarrow> None
              | Some t \<Rightarrow>
                  (case usize_checked_add t (length key) of
                     None \<Rightarrow> None
                   | Some t' \<Rightarrow>
                       (case usize_checked_add t' (length value) of
                          None \<Rightarrow> None
                        | Some n \<Rightarrow> if n \<le> limit then Some n else None))))"

text \<open>The three clock reads are those of \<open>resume\<close>, \<open>create\<close> and the last check.\<close>

definition set_value ::
  "(string \<Rightarrow> nat) \<Rightarrow> nat \<Rightarrow> SessionStore \<Rightarrow> string \<Rightarrow> string \<Rightarrow> string \<Rightarrow> nat \<times> nat \<times> nat \<Rightarrow> nat \<Rightarrow> nat \<Rightarrow>
     SessionDataLimits \<Rightarrow> SessionStore \<times> (SessionDataError + unit)" where
  "set_value hash imax s session_id key value now3 idle_timeout max_sessions limits =
     (case validate_session_value key value limits of
        Inl e \<Rightarrow> (s, Inl e)
      | Inr _ \<Rightarrow>
          let (now1, now2, now) = now3;
              (s1, resumed) = resume hash imax s session_id now1 idle_timeout;
              (s2, available) = (if resumed then (s1, True)
                                 else create hash imax s1 session_id now2 idle_timeout max_sessions)
          in if \<not> available then (s2, Inl (SessionUnavailable, None))
             else let shard = shard_of hash s2 session_id in
               if is_expired shard session_id now
               then (drop_expired hash s2 session_id, Inl (SessionUnavailable, None))
               else
                 (case map_of (sh_entries shard) session_id of
                    None \<Rightarrow> (s2, Inl (SessionUnavailable, None))
                  | Some entry \<Rightarrow>
                      if map_of (se_data entry) key = None \<and> length (se_data entry) \<ge> lim_entries limits
                      then (s2, Inl (TooManyEntries, Some (lim_entries limits)))
                      else if next_bytes (se_data entry) key value (lim_total_bytes limits) = None
                      then (s2, Inl (SessionTooLarge, Some (lim_total_bytes limits)))
                      else
                        (put_shard hash s2 session_id
                           (shard\<lparr>sh_entries := AList.update session_id
                              (entry\<lparr>se_data := AList.update key value (se_data entry)\<rparr>)
                              (sh_entries shard)\<rparr>),
                         Inr ())))"

definition remove_value ::
  "(string \<Rightarrow> nat) \<Rightarrow> nat \<Rightarrow> SessionStore \<Rightarrow> string \<Rightarrow> string \<Rightarrow> nat \<Rightarrow> nat \<Rightarrow> SessionStore" where
  "remove_value hash imax s session_id key now idle_timeout =
     (let shard = shard_of hash s session_id in
      if is_expired shard session_id now then drop_expired hash s session_id
      else let (shard', renewed) = renew imax shard session_id now idle_timeout
           in put_shard hash s session_id
                (case map_of (sh_entries shard') session_id of
                   Some entry \<Rightarrow>
                     if renewed
                     then shard'\<lparr>sh_entries := AList.update session_id
                            (entry\<lparr>se_data := AList.delete key (se_data entry)\<rparr>) (sh_entries shard')\<rparr>
                     else shard'
                 | None \<Rightarrow> shard'))"

definition clear :: "(string \<Rightarrow> nat) \<Rightarrow> SessionStore \<Rightarrow> string \<Rightarrow> SessionStore" where
  "clear hash s session_id =
     (case remove_entry (shard_of hash s session_id) session_id of
        (shard, None) \<Rightarrow> s
      | (shard, Some _) \<Rightarrow> (put_shard hash s session_id shard)\<lparr>entries := fetch_sub (entries s) 1\<rparr>)"

definition live_len :: "SessionStore \<Rightarrow> nat \<Rightarrow> SessionStore \<times> nat" where
  "live_len s now =
     (let cleaned = map (\<lambda>shard. remove_expired_entries shard now u64_max) (shards s);
          removed = sum_list (map snd cleaned);
          n = (if removed > 0 then fetch_sub (entries s) removed else entries s)
      in (s\<lparr>shards := map fst cleaned, entries := n\<rparr>, n))"

definition rotate ::
  "(string \<Rightarrow> nat) \<Rightarrow> nat \<Rightarrow> SessionStore \<Rightarrow> string \<Rightarrow> string \<Rightarrow> nat \<Rightarrow> nat \<Rightarrow> SessionStore \<times> bool" where
  "rotate hash imax s old_id new_id now idle_timeout =
     (case remove_entry (shard_of hash s old_id) old_id of
        (shard, None) \<Rightarrow> (s, False)
      | (shard, Some entry) \<Rightarrow>
          let s1 = put_shard hash s old_id shard in
          if se_expires_at entry \<le> now then (s1\<lparr>entries := fetch_sub (entries s1) 1\<rparr>, False)
          else
            let (shard', fresh) = insert_entry (shard_of hash s1 new_id) new_id
                   \<lparr>se_data = se_data entry, se_expires_at = expiry imax now idle_timeout\<rparr>;
                s2 = put_shard hash s1 new_id shard'
            in (if fresh then s2 else s2\<lparr>entries := fetch_sub (entries s2) 1\<rparr>, True))"

definition record_rotation :: "SessionStore \<Rightarrow> string \<Rightarrow> string \<Rightarrow> nat \<Rightarrow> nat \<Rightarrow> SessionStore" where
  "record_rotation s old_id new_id max_records now =
     (let kept = filter (\<lambda>(_, _, at). now - at < ROTATION_RECORD_TTL) (rotations s)
      in s\<lparr>rotations := (if length kept < max_records then AList.update old_id (new_id, now) kept else kept)\<rparr>)"

definition take_rotation :: "SessionStore \<Rightarrow> string \<Rightarrow> SessionStore \<times> string option" where
  "take_rotation s old_id =
     (s\<lparr>rotations := AList.delete old_id (rotations s)\<rparr>, map_option fst (map_of (rotations s) old_id))"

end
