(* ===== verification/Session_Inv.thy ===== *)
theory Session_Inv
  imports Session_Store
begin

text \<open>
  The invariant of the session store: sessions sit in the shard of their sid, every expiry index
  lists exactly the entries of its shard in order, and the shared counter is the number
  of stored sessions. The lemmas give the effect of each operation on the map
  from session ids to entries that the store represents.
\<close>

section \<open>The invariant and the represented map\<close>

type_synonym session_map = "string \<rightharpoonup> SessionEntry"

definition index_exact :: "(string \<times> SessionEntry) list \<Rightarrow> (nat \<times> string) list \<Rightarrow> bool" where
  "index_exact es ex \<longleftrightarrow>
     sorted ex \<and> distinct ex \<and>
     (\<forall>t sid. (t, sid) \<in> set ex \<longleftrightarrow> (\<exists>e. map_of es sid = Some e \<and> se_expires_at e = t))"

definition shard_ok :: "(string \<Rightarrow> nat) \<Rightarrow> nat \<Rightarrow> nat \<Rightarrow> SessionShard \<Rightarrow> bool" where
  "shard_ok hash n i shard \<longleftrightarrow>
     distinct (map fst (sh_entries shard)) \<and> index_exact (sh_entries shard) (sh_expiry shard) \<and>
     (\<forall>(sid, e) \<in> set (sh_entries shard). hash sid mod n = i \<and> distinct (map fst (se_data e)))"

definition stored :: "SessionShard list \<Rightarrow> nat" where
  "stored shs = sum_list (map (\<lambda>shard. length (sh_entries shard)) shs)"

definition shards_ok :: "(string \<Rightarrow> nat) \<Rightarrow> SessionShard list \<Rightarrow> bool" where
  "shards_ok hash shs \<longleftrightarrow>
     length shs = SESSION_STORE_SHARDS \<and> (\<forall>i < length shs. shard_ok hash (length shs) i (shs ! i))"

definition store_ok :: "(string \<Rightarrow> nat) \<Rightarrow> SessionStore \<Rightarrow> bool" where
  "store_ok hash s \<longleftrightarrow>
     shards_ok hash (shards s) \<and> entries s = stored (shards s) \<and> entries s \<le> u64_max \<and>
     cleanup_shard (maintenance s) < SESSION_STORE_SHARDS"

definition look :: "(string \<Rightarrow> nat) \<Rightarrow> SessionShard list \<Rightarrow> session_map" where
  "look hash shs sid = map_of (sh_entries (shs ! (hash sid mod length shs))) sid"

definition sessions :: "(string \<Rightarrow> nat) \<Rightarrow> SessionStore \<Rightarrow> session_map" where
  "sessions hash s = look hash (shards s)"

text \<open>Expired entries may be dropped at any time; the live ones may not.\<close>

definition purged :: "nat \<Rightarrow> session_map \<Rightarrow> session_map \<Rightarrow> bool" where
  "purged now m m' \<longleftrightarrow>
     (\<forall>sid. m' sid = m sid \<or> m' sid = None \<and> (\<exists>e. m sid = Some e \<and> se_expires_at e \<le> now))"

definition live :: "nat \<Rightarrow> session_map \<Rightarrow> session_map" where
  "live now m sid =
     (case m sid of None \<Rightarrow> None | Some e \<Rightarrow> if now < se_expires_at e then Some e else None)"

lemma purged_refl [simp]: "purged now m m"
  by (simp add: purged_def)

lemma purged_trans: "purged now a b \<Longrightarrow> purged now b c \<Longrightarrow> purged now a c"
  unfolding purged_def by metis

lemma purged_live: "purged now m m' \<Longrightarrow> live now m' = live now m"
proof
  fix sid
  assume "purged now m m'"
  then have "m' sid = m sid \<or> m' sid = None \<and> (\<exists>e. m sid = Some e \<and> se_expires_at e \<le> now)"
    by (simp add: purged_def)
  then show "live now m' sid = live now m sid" by (auto simp: live_def)
qed

section \<open>Shards\<close>

lemma index_exact_insert:
  assumes "index_exact es ex" "distinct (map fst es)"
  shows "index_exact (AList.update sid e es)
    (insort_insert (se_expires_at e, sid)
       (case map_of es sid of None \<Rightarrow> ex | Some p \<Rightarrow> remove1 (se_expires_at p, sid) ex))"
proof -
  let ?ex = "case map_of es sid of None \<Rightarrow> ex | Some p \<Rightarrow> remove1 (se_expires_at p, sid) ex"
  have ex: "sorted ?ex" "distinct ?ex"
    using assms(1) by (auto simp: index_exact_def sorted_remove1 split: option.split)
  have "set ?ex = {(t, x) \<in> set ex. x \<noteq> sid}"
    using assms(1) by (cases "map_of es sid") (auto simp: index_exact_def set_remove1_eq)
  with assms(1) ex show ?thesis
    by (auto simp: index_exact_def sorted_insort_insert distinct_insort_insert set_insort_insert update_conv)
qed

lemma index_exact_delete:
  assumes "index_exact es ex" "map_of es sid = Some e"
  shows "index_exact (AList.delete sid es) (remove1 (se_expires_at e, sid) ex)"
  using assms
  by (auto simp: index_exact_def sorted_remove1 set_remove1_eq delete_conv)

lemma index_exact_data:
  assumes "index_exact es ex" "map_of es sid = Some e" "se_expires_at e' = se_expires_at e"
  shows "index_exact (AList.update sid e' es) ex"
  using assms by (auto simp: index_exact_def update_conv)

lemma set_update_subset: "set (AList.update k v es) \<subseteq> insert (k, v) (set es)"
  by (induction es) auto

lemma delete_set_subset: "set (AList.delete k es) \<subseteq> set es"
  by (auto simp: AList.delete_eq)

lemma shard_ok_put:
  assumes "shard_ok hash n i shard" "hash sid mod n = i" "distinct (map fst (se_data e))"
  shows "shard_ok hash n i \<lparr>sh_entries = AList.update sid e (sh_entries shard),
    sh_expiry = insort_insert (se_expires_at e, sid)
      (case map_of (sh_entries shard) sid of
         None \<Rightarrow> sh_expiry shard | Some p \<Rightarrow> remove1 (se_expires_at p, sid) (sh_expiry shard))\<rparr>"
  using assms set_update_subset [of sid e "sh_entries shard"] index_exact_insert
  by (auto simp: shard_ok_def distinct_update)

lemma shard_ok_remove:
  assumes "shard_ok hash n i shard" "map_of (sh_entries shard) sid = Some e"
  shows "shard_ok hash n i \<lparr>sh_entries = AList.delete sid (sh_entries shard),
    sh_expiry = remove1 (se_expires_at e, sid) (sh_expiry shard)\<rparr>"
  using assms index_exact_delete delete_set_subset [of sid "sh_entries shard"]
  by (auto simp: shard_ok_def distinct_delete)

lemma shard_ok_data:
  assumes "shard_ok hash n i shard" "map_of (sh_entries shard) sid = Some e"
    and "se_expires_at e' = se_expires_at e" "distinct (map fst (se_data e'))"
  shows "shard_ok hash n i (shard\<lparr>sh_entries := AList.update sid e' (sh_entries shard)\<rparr>)"
  using assms set_update_subset [of sid e' "sh_entries shard"] index_exact_data map_of_SomeD [OF assms(2)]
  by (auto simp: shard_ok_def distinct_update)

abbreviation shard_map :: "SessionShard \<Rightarrow> session_map" where
  "shard_map shard \<equiv> map_of (sh_entries shard)"

lemma shard_ok_entry:
  "shard_ok hash n i shard \<Longrightarrow> shard_map shard sid = Some e \<Longrightarrow>
     hash sid mod n = i \<and> distinct (map fst (se_data e))"
  by (auto simp: shard_ok_def dest!: map_of_SomeD)

lemma shard_ok_distinct: "shard_ok hash n i shard \<Longrightarrow> distinct (map fst (sh_entries shard))"
  by (simp add: shard_ok_def)

lemma renew_ok:
  assumes "shard_ok hash n i shard" "renew imax shard sid now idle = (shard', renewed)"
  shows "shard_ok hash n i shard'" "length (sh_entries shard') = length (sh_entries shard)"
    "renewed \<longleftrightarrow> shard_map shard sid \<noteq> None"
    "shard_map shard' = (case shard_map shard sid of None \<Rightarrow> shard_map shard
       | Some e \<Rightarrow> (shard_map shard)(sid \<mapsto> e\<lparr>se_expires_at := expiry imax now idle\<rparr>))"
proof -
  have "shard_ok hash n i shard' \<and> length (sh_entries shard') = length (sh_entries shard) \<and>
    (renewed \<longleftrightarrow> shard_map shard sid \<noteq> None) \<and>
    shard_map shard' = (case shard_map shard sid of None \<Rightarrow> shard_map shard
       | Some e \<Rightarrow> (shard_map shard)(sid \<mapsto> e\<lparr>se_expires_at := expiry imax now idle\<rparr>))"
  proof (cases "shard_map shard sid")
    case None
    with assms show ?thesis by (simp add: renew_def)
  next
    case (Some e)
    let ?e = "e\<lparr>se_expires_at := expiry imax now idle\<rparr>"
    have "shard_ok hash n i \<lparr>sh_entries = AList.update sid ?e (sh_entries shard),
        sh_expiry = insort_insert (se_expires_at ?e, sid) (remove1 (se_expires_at e, sid) (sh_expiry shard))\<rparr>"
      using shard_ok_put [OF assms(1), of sid ?e] Some shard_ok_entry [OF assms(1) Some] by simp
    with assms Some show ?thesis
      by (auto simp: renew_def expiry_key_def update_conv' length_update shard_ok_def)
  qed
  then show "shard_ok hash n i shard'" "length (sh_entries shard') = length (sh_entries shard)"
    "renewed \<longleftrightarrow> shard_map shard sid \<noteq> None"
    "shard_map shard' = (case shard_map shard sid of None \<Rightarrow> shard_map shard
       | Some e \<Rightarrow> (shard_map shard)(sid \<mapsto> e\<lparr>se_expires_at := expiry imax now idle\<rparr>))"
    by blast+
qed

lemma insert_entry_ok:
  assumes "shard_ok hash n i shard" "hash sid mod n = i" "distinct (map fst (se_data e))"
    and "insert_entry shard sid e = (shard', fresh)"
  shows "shard_ok hash n i shard'"
    "length (sh_entries shard') = (if fresh then Suc (length (sh_entries shard)) else length (sh_entries shard))"
    "fresh \<longleftrightarrow> shard_map shard sid = None" "shard_map shard' = (shard_map shard)(sid \<mapsto> e)"
proof -
  from assms(4) have "shard' = \<lparr>sh_entries = AList.update sid e (sh_entries shard),
      sh_expiry = insort_insert (se_expires_at e, sid)
        (case shard_map shard sid of None \<Rightarrow> sh_expiry shard
         | Some p \<Rightarrow> remove1 (se_expires_at p, sid) (sh_expiry shard))\<rparr>" "fresh \<longleftrightarrow> shard_map shard sid = None"
    by (auto simp: insert_entry_def expiry_key_def Let_def)
  with shard_ok_put [OF assms(1-3)] shard_ok_distinct [OF assms(1)]
  show "shard_ok hash n i shard'"
    "length (sh_entries shard') = (if fresh then Suc (length (sh_entries shard)) else length (sh_entries shard))"
    "fresh \<longleftrightarrow> shard_map shard sid = None" "shard_map shard' = (shard_map shard)(sid \<mapsto> e)"
    by (simp_all add: update_conv' length_update)
qed

lemma remove_entry_ok:
  assumes "shard_ok hash n i shard" "remove_entry shard sid = (shard', found)"
  shows "shard_ok hash n i shard'"
    "length (sh_entries shard) = length (sh_entries shard') + (if found = None then 0 else 1)"
    "found = shard_map shard sid" "shard_map shard' = (shard_map shard)(sid := None)"
proof -
  note d = shard_ok_distinct [OF assms(1)]
  have "shard_ok hash n i shard' \<and>
    length (sh_entries shard) = length (sh_entries shard') + (if found = None then 0 else 1) \<and>
    found = shard_map shard sid \<and> shard_map shard' = (shard_map shard)(sid := None)"
  proof (cases "shard_map shard sid")
    case None
    with assms have "shard' = shard" "found = None" by (auto simp: remove_entry_def)
    with assms(1) None show ?thesis by (auto simp: fun_upd_idem)
  next
    case (Some e)
    with assms have "shard' = \<lparr>sh_entries = AList.delete sid (sh_entries shard),
        sh_expiry = remove1 (se_expires_at e, sid) (sh_expiry shard)\<rparr>" "found = Some e"
      by (auto simp: remove_entry_def expiry_key_def)
    with shard_ok_remove [OF assms(1) Some] length_delete [OF d Some] Some show ?thesis
      by (simp add: delete_conv')
  qed
  then show "shard_ok hash n i shard'"
    "length (sh_entries shard) = length (sh_entries shard') + (if found = None then 0 else 1)"
    "found = shard_map shard sid" "shard_map shard' = (shard_map shard)(sid := None)"
    by blast+
qed

lemma remove_expired_loop_ok:
  assumes "index_exact es ex" "distinct (map fst es)" "removed \<le> maximum"
    and "remove_expired_loop now maximum es ex removed = (shard, r)"
  shows "index_exact (sh_entries shard) (sh_expiry shard) \<and> distinct (map fst (sh_entries shard)) \<and>
    set (sh_entries shard) \<subseteq> set es \<and> removed \<le> r \<and> r \<le> maximum \<and>
    length (sh_entries shard) + r = length es + removed \<and>
    purged now (map_of es) (shard_map shard) \<and>
    (r < maximum \<longrightarrow> (\<forall>sid e. shard_map shard sid = Some e \<longrightarrow> now < se_expires_at e))"
  using assms
proof (induction now maximum es ex removed rule: remove_expired_loop.induct)
  case (1 now maximum es removed)
  have "es = []"
  proof (rule ccontr)
    assume "es \<noteq> []"
    then obtain sid e rest where "es = (sid, e) # rest" by (metis list.exhaust surj_pair)
    then have "map_of es sid = Some e" by simp
    with 1(1) show False by (auto simp: index_exact_def)
  qed
  with 1 show ?case by (auto simp: index_exact_def)
next
  case (2 now maximum es candidate rest removed)
  obtain t sid where c: "candidate = (t, sid)" by fastforce
  from 2(3) c obtain e where e: "map_of es sid = Some e" "se_expires_at e = t"
    unfolding index_exact_def by (metis list.set_intros(1))
  show ?case
  proof (cases "\<not> removed < maximum \<or> t > now")
    case True
    with 2(6) c have shard: "shard = \<lparr>sh_entries = es, sh_expiry = candidate # rest\<rparr>" "r = removed" by auto
    have "now < se_expires_at e'" if "t > now" "map_of es sid' = Some e'" for sid' e'
    proof -
      from 2(3) that have "(se_expires_at e', sid') \<in> set (candidate # rest)"
        unfolding index_exact_def by metis
      moreover from 2(3) c have "\<forall>x \<in> set (candidate # rest). t \<le> fst x"
        by (auto simp: index_exact_def less_eq_prod_def)
      ultimately show ?thesis using that(1) by fastforce
    qed
    with True shard 2(3-5) show ?thesis by auto
  next
    case False
    let ?es = "AList.delete sid es"
    have "index_exact ?es rest" using index_exact_delete [OF 2(3) e(1)] e(2) c by simp
    moreover have "distinct (map fst ?es)" using 2(4) by (simp add: distinct_delete)
    moreover have "removed + 1 \<le> maximum" using False by simp
    moreover have "remove_expired_loop now maximum ?es rest (removed + 1) = (shard, r)"
      using 2(6) False c e by simp
    ultimately have IH: "index_exact (sh_entries shard) (sh_expiry shard) \<and> distinct (map fst (sh_entries shard)) \<and>
      set (sh_entries shard) \<subseteq> set ?es \<and> removed + 1 \<le> r \<and> r \<le> maximum \<and>
      length (sh_entries shard) + r = length ?es + (removed + 1) \<and>
      purged now (map_of ?es) (shard_map shard) \<and>
      (r < maximum \<longrightarrow> (\<forall>sid e. shard_map shard sid = Some e \<longrightarrow> now < se_expires_at e))"
      using 2(1) False c e by simp
    have "purged now (map_of es) (map_of ?es)"
      using e False by (auto simp: purged_def delete_conv)
    with IH purged_trans have "purged now (map_of es) (shard_map shard)" by blast
    with IH delete_set_subset [of sid es] length_delete [OF 2(4) e(1)] show ?thesis by auto
  qed
qed

lemma remove_expired_entries_ok:
  assumes "shard_ok hash n i shard" "remove_expired_entries shard now maximum = (shard', r)"
  shows "shard_ok hash n i shard'" "r \<le> maximum"
    "length (sh_entries shard) = length (sh_entries shard') + r"
    "purged now (shard_map shard) (shard_map shard')"
    "r < maximum \<Longrightarrow> shard_map shard' sid = Some e \<Longrightarrow> now < se_expires_at e"
  using remove_expired_loop_ok [of "sh_entries shard" "sh_expiry shard" 0 maximum now shard' r] assms
  by (auto simp: remove_expired_entries_def shard_ok_def)

section \<open>The store\<close>

lemma shards_positive: "shards_ok hash shs \<Longrightarrow> 0 < length shs"
  by (simp add: shards_ok_def SESSION_STORE_SHARDS_def)

lemma store_okD:
  assumes "store_ok hash s"
  shows "shards_ok hash (shards s)" "shard_index hash s sid < length (shards s)"
    "shard_ok hash (length (shards s)) (shard_index hash s sid) (shard_of hash s sid)"
    "entries s = stored (shards s)" "entries s \<le> u64_max"
  using assms shards_positive [of hash "shards s"]
  by (auto simp: store_ok_def shards_ok_def shard_index_def shard_of_def)

lemma sessions_shard: "sessions hash s sid = shard_map (shard_of hash s sid) sid"
  by (simp add: sessions_def look_def shard_of_def shard_index_def)

lemma stored_update:
  "i < length shs \<Longrightarrow> stored (shs[i := shard]) + length (sh_entries (shs ! i)) = stored shs + length (sh_entries shard)"
proof (induction shs arbitrary: i)
  case (Cons x shs)
  then show ?case by (cases i) (auto simp: stored_def)
qed simp

lemma shards_ok_update:
  "shards_ok hash shs \<Longrightarrow> i < length shs \<Longrightarrow> shard_ok hash (length shs) i shard \<Longrightarrow> shards_ok hash (shs[i := shard])"
  by (auto simp: shards_ok_def nth_list_update)

text \<open>Replacing one shard, with the counter adjusted, keeps the store consistent.\<close>

lemma store_ok_put:
  assumes "store_ok hash s" "shard_ok hash (length (shards s)) (shard_index hash s sid) shard"
    and "n + length (sh_entries (shard_of hash s sid)) = entries s + length (sh_entries shard)" "n \<le> u64_max"
  shows "store_ok hash ((put_shard hash s sid shard)\<lparr>entries := n\<rparr>)"
proof -
  note d = store_okD [OF assms(1)]
  have "n = stored ((shards s)[shard_index hash s sid := shard])"
    using stored_update [OF d(2), of sid shard] assms(3) d(4) by (simp add: shard_of_def)
  then show ?thesis
    using assms d shards_ok_update [OF d(1,2) assms(2)]
    by (simp add: store_ok_def put_shard_def)
qed

lemma sessions_put:
  assumes "store_ok hash s" "shard_ok hash (length (shards s)) (shard_index hash s sid) shard"
    and "shard_map shard = (shard_map (shard_of hash s sid))(sid := v)"
  shows "sessions hash (put_shard hash s sid shard) = (sessions hash s)(sid := v)"
proof
  fix x
  note d = store_okD [OF assms(1)]
  show "sessions hash (put_shard hash s sid shard) x = ((sessions hash s)(sid := v)) x"
  proof (cases "shard_index hash s x = shard_index hash s sid")
    case True
    with d(2) [of sid] assms(3) show ?thesis
      by (simp add: sessions_def look_def put_shard_def shard_index_def shard_of_def)
  next
    case False
    then have "x \<noteq> sid" by auto
    with False show ?thesis
      by (simp add: sessions_def look_def put_shard_def shard_index_def)
  qed
qed

lemma sessions_entries [simp]: "sessions hash (s\<lparr>entries := n\<rparr>) = sessions hash s"
  "sessions hash (s\<lparr>rotations := rs\<rparr>) = sessions hash s"
  by (simp_all add: sessions_def)

lemma store_ok_rotations [simp]: "store_ok hash (s\<lparr>rotations := rs\<rparr>) = store_ok hash s"
  by (simp add: store_ok_def)

lemma put_shard_entries: "(put_shard hash s sid shard)\<lparr>entries := entries s\<rparr> = put_shard hash s sid shard"
  by (simp add: put_shard_def)

lemma fetch_sub_exact: "k \<le> n \<Longrightarrow> n \<le> u64_max \<Longrightarrow> fetch_sub n k = n - k"
  by (simp add: fetch_sub_def u64_max_def mod_if)

lemma fetch_add_exact: "n + k \<le> u64_max \<Longrightarrow> fetch_add n k = n + k"
  by (simp add: fetch_add_def u64_max_def)

lemma stored_ge: "i < length shs \<Longrightarrow> length (sh_entries (shs ! i)) \<le> stored shs"
  unfolding stored_def by (metis elem_le_sum_list length_map nth_map)

lemma entries_ge: "store_ok hash s \<Longrightarrow> length (sh_entries (shard_of hash s sid)) \<le> entries s"
  using store_okD [of hash s] stored_ge by (simp add: shard_of_def)

lemma is_expired_sessions:
  "is_expired (shard_of hash s sid) sid now \<longleftrightarrow> (\<exists>e. sessions hash s sid = Some e \<and> se_expires_at e \<le> now)"
  by (simp add: is_expired_def sessions_shard split: option.split)

text \<open>Removing a present session, with the counter.\<close>

lemma removed_ok:
  assumes ok: "store_ok hash s" and "sessions hash s sid = Some e"
    and r: "remove_entry (shard_of hash s sid) sid = (shard, found)"
  shows "found = Some e"
    "store_ok hash ((put_shard hash s sid shard)\<lparr>entries := fetch_sub (entries s) 1\<rparr>)"
    "sessions hash (put_shard hash s sid shard) = (sessions hash s)(sid := None)"
proof -
  note d = store_okD [OF ok] and m = remove_entry_ok [OF store_okD(3) [OF ok] r]
  show found: "found = Some e" using m(3) assms(2) by (simp add: sessions_shard)
  with m(2) entries_ge [OF ok, of sid] have ge: "1 \<le> entries s" by simp
  have "store_ok hash ((put_shard hash s sid shard)\<lparr>entries := entries s - 1\<rparr>)"
    by (rule store_ok_put [OF ok m(1)]) (use m(2) found ge d(5) in auto)
  with fetch_sub_exact [OF ge d(5)]
  show "store_ok hash ((put_shard hash s sid shard)\<lparr>entries := fetch_sub (entries s) 1\<rparr>)" by simp
  show "sessions hash (put_shard hash s sid shard) = (sessions hash s)(sid := None)"
    by (rule sessions_put [OF ok m(1,4)])
qed

lemma drop_expired_ok:
  assumes "store_ok hash s" "is_expired (shard_of hash s sid) sid now"
  shows "store_ok hash (drop_expired hash s sid)"
    "sessions hash (drop_expired hash s sid) = (sessions hash s)(sid := None)"
    "maintenance (drop_expired hash s sid) = maintenance s"
proof -
  obtain shard found where r: "remove_entry (shard_of hash s sid) sid = (shard, found)" by fastforce
  from assms(2) obtain e where "sessions hash s sid = Some e" by (auto simp: is_expired_sessions)
  from removed_ok [OF assms(1) this r] r
  show "store_ok hash (drop_expired hash s sid)"
    "sessions hash (drop_expired hash s sid) = (sessions hash s)(sid := None)"
    "maintenance (drop_expired hash s sid) = maintenance s"
    by (simp_all add: drop_expired_def) (simp add: put_shard_def)
qed

lemma renewed_ok:
  assumes ok: "store_ok hash s"
    and r: "renew imax (shard_of hash s sid) sid now idle = (shard, renewed)"
  shows "store_ok hash (put_shard hash s sid shard)"
    "sessions hash (put_shard hash s sid shard) = (case sessions hash s sid of None \<Rightarrow> sessions hash s
       | Some e \<Rightarrow> (sessions hash s)(sid \<mapsto> e\<lparr>se_expires_at := expiry imax now idle\<rparr>))"
    "renewed \<longleftrightarrow> sessions hash s sid \<noteq> None"
proof -
  note d = store_okD [OF ok] and m = renew_ok [OF store_okD(3) [OF ok] r]
  have "store_ok hash ((put_shard hash s sid shard)\<lparr>entries := entries s\<rparr>)"
    by (rule store_ok_put [OF ok m(1)]) (use m(2) d(5) in auto)
  then show "store_ok hash (put_shard hash s sid shard)" by (simp add: put_shard_entries)
  show "renewed \<longleftrightarrow> sessions hash s sid \<noteq> None" using m(3) by (simp add: sessions_shard)
  show "sessions hash (put_shard hash s sid shard) = (case sessions hash s sid of None \<Rightarrow> sessions hash s
       | Some e \<Rightarrow> (sessions hash s)(sid \<mapsto> e\<lparr>se_expires_at := expiry imax now idle\<rparr>))"
  proof (cases "sessions hash s sid")
    case None
    then have "shard_map shard = (shard_map (shard_of hash s sid))(sid := None)"
      using m(4) by (auto simp: sessions_shard fun_upd_idem)
    from sessions_put [OF ok m(1) this] None show ?thesis by (auto simp: fun_upd_idem)
  next
    case (Some e)
    then have "shard_map shard = (shard_map (shard_of hash s sid))
        (sid := Some (e\<lparr>se_expires_at := expiry imax now idle\<rparr>))"
      using m(4) by (simp add: sessions_shard)
    from sessions_put [OF ok m(1) this] Some show ?thesis by simp
  qed
qed

end
