(* ===== verification/Session_Ops.thy ===== *)
theory Session_Ops
  imports Session_Inv
begin

text \<open>
  The effect of every store operation on the represented map, and that each keeps the
  invariant. Cleaning only ever removes expired sessions, and a refused admission
  means that the store holds as many live sessions as allowed.
\<close>

section \<open>The represented map\<close>

text \<open>The idle clock of a live session is restarted; a session that is not live is unchanged.\<close>

definition touch :: "nat \<Rightarrow> nat \<Rightarrow> session_map \<Rightarrow> string \<Rightarrow> session_map" where
  "touch now expires m sid =
     (case live now m sid of None \<Rightarrow> m | Some e \<Rightarrow> m(sid \<mapsto> e\<lparr>se_expires_at := expires\<rparr>))"

definition all_live :: "nat \<Rightarrow> SessionShard \<Rightarrow> bool" where
  "all_live now shard \<longleftrightarrow> (\<forall>sid e. shard_map shard sid = Some e \<longrightarrow> now < se_expires_at e)"

text \<open>The store once an expired entry of the session has been dropped.\<close>

definition settled :: "(string \<Rightarrow> nat) \<Rightarrow> SessionStore \<Rightarrow> string \<Rightarrow> nat \<Rightarrow> SessionStore" where
  "settled hash s sid now =
     (if is_expired (shard_of hash s sid) sid now then drop_expired hash s sid else s)"

text \<open>The cleaning that precedes an admission: one batch at most, and one for sure when the store is full.\<close>

definition make_room :: "nat \<Rightarrow> SessionStore \<Rightarrow> nat \<Rightarrow> nat \<Rightarrow> SessionStore" where
  "make_room imax s now max_sessions =
     (let (s2, attempted) = cleanup_if_needed imax s now
      in if entries s2 \<ge> max_sessions \<and> \<not> attempted then cleanup_expired_batch imax s2 now else s2)"

text \<open>What \<open>create\<close> leaves for its session: the live entry renewed, or an empty one.\<close>

definition created :: "nat \<Rightarrow> nat \<Rightarrow> session_map \<Rightarrow> string \<Rightarrow> SessionEntry" where
  "created now expires m sid =
     (case live now m sid of
        None \<Rightarrow> \<lparr>se_data = [], se_expires_at = expires\<rparr>
      | Some e \<Rightarrow> e\<lparr>se_expires_at := expires\<rparr>)"

section \<open>Cleaning\<close>

lemma look_update:
  assumes "shards_ok hash shs" "i < length shs" "purged now (shard_map (shs ! i)) (shard_map shard)"
  shows "purged now (look hash shs) (look hash (shs[i := shard]))"
  using assms by (auto simp: purged_def look_def nth_list_update)

declare cleanup_loop.simps [simp del]

lemma cleanup_loop_ok:
  assumes "shards_ok hash shs"
    and "cleanup_loop now start shs visited remaining removed = (shs', remaining', removed', stopped)"
  shows "shards_ok hash shs' \<and> purged now (look hash shs) (look hash shs') \<and>
    stored shs' + removed' = stored shs + removed \<and> removed \<le> removed' \<and>
    remaining' + removed' = remaining + removed \<and>
    (0 < remaining \<longrightarrow> remaining' = 0 \<longrightarrow> (\<exists>i < length shs. stopped = Some i)) \<and>
    (0 < remaining' \<longrightarrow> (\<forall>v < visited. all_live now (shs ! ((start + v) mod length shs))) \<longrightarrow>
       (\<forall>v < length shs. all_live now (shs' ! ((start + v) mod length shs))))"
  using assms
proof (induction now start shs visited remaining removed rule: cleanup_loop.induct)
  case (1 now start shs visited remaining removed)
  show ?case
  proof (cases "remaining > 0 \<and> visited < length shs")
    case False
    with 1(3) have "shs' = shs" "remaining' = remaining" "removed' = removed"
      by (auto simp: cleanup_loop.simps [of now start shs])
    with 1(2) False show ?thesis by auto
  next
    case True
    let ?i = "(start + visited) mod length shs"
    have i: "?i < length shs" using True by (intro mod_less_divisor) auto
    obtain shard n where r: "remove_expired_entries (shs ! ?i) now remaining = (shard, n)" by fastforce
    have ok: "shard_ok hash (length shs) ?i (shs ! ?i)" using 1(2) i unfolding shards_ok_def by blast
    note m = remove_expired_entries_ok [OF ok r]
    let ?shs = "shs[?i := shard]"
    have shs: "shards_ok hash ?shs" using shards_ok_update [OF 1(2) i m(1)] .
    have pur: "purged now (look hash shs) (look hash ?shs)" using look_update [OF 1(2) i m(4)] .
    have st: "stored ?shs + n = stored shs" using stored_update [OF i, of shard] m(3) by simp
    show ?thesis
    proof (cases "remaining - n = 0")
      case zero: True
      with 1(3) True r have "shs' = ?shs" "remaining' = 0" "removed' = removed + n" "stopped = Some ?i"
        by (auto simp: cleanup_loop.simps [of now start shs] Let_def)
      with shs pur st m(2) zero i show ?thesis by auto
    next
      case pos: False
      with 1(3) True r have rec: "cleanup_loop now start ?shs (visited + 1) (remaining - n) (removed + n) =
          (shs', remaining', removed', stopped)"
        by (simp add: cleanup_loop.simps [of now start shs] Let_def)
      have live: "all_live now shard" using m(5) pos m(2) by (auto simp: all_live_def)
      have "all_live now (?shs ! ((start + v) mod length shs))"
        if "\<forall>v < visited. all_live now (shs ! ((start + v) mod length shs))" "v < visited + 1" for v
        using that live i by (cases "(start + v) mod length shs = ?i") (auto simp: less_Suc_eq)
      with 1(1) [OF True refl r [symmetric] refl refl pos shs rec] pur st m(2) pos purged_trans [OF pur] True
      show ?thesis by auto
    qed
  qed
qed

lemma cleanup_batch_ok:
  assumes ok: "store_ok hash s"
  shows "store_ok hash (cleanup_expired_batch imax s now)"
    "purged now (sessions hash s) (sessions hash (cleanup_expired_batch imax s now))"
    "entries (cleanup_expired_batch imax s now) \<le> entries s"
    "entries (cleanup_expired_batch imax s now) = entries s \<Longrightarrow> i < length (shards s) \<Longrightarrow>
       all_live now (shards (cleanup_expired_batch imax s now) ! i)"
    "rotations (cleanup_expired_batch imax s now) = rotations s"
proof -
  let ?start = "cleanup_shard (maintenance s)"
  obtain shs remaining removed stopped where
    l: "cleanup_loop now ?start (shards s) 0 STORE_CLEANUP_BATCH 0 = (shs, remaining, removed, stopped)"
    by (metis prod_cases4)
  note d = store_okD [OF ok] and m = cleanup_loop_ok [OF store_okD(1) [OF ok] l]
  have batch: "0 < STORE_CLEANUP_BATCH" by (simp add: STORE_CLEANUP_BATCH_def)
  have len: "length (shards s) = SESSION_STORE_SHARDS" "length shs = SESSION_STORE_SHARDS"
    using d(1) m by (auto simp: shards_ok_def)
  have sub: "(if removed > 0 then fetch_sub (entries s) removed else entries s) = stored shs"
    using m d(4,5) fetch_sub_exact [of removed "entries s"] by auto
  have ents: "entries (cleanup_expired_batch imax s now) = stored shs"
    using l sub by (simp add: cleanup_expired_batch_def Let_def)
  show "store_ok hash (cleanup_expired_batch imax s now)"
    using m ok l sub d batch len
    by (auto simp: store_ok_def cleanup_expired_batch_def Let_def SESSION_STORE_SHARDS_def)
  show "purged now (sessions hash s) (sessions hash (cleanup_expired_batch imax s now))"
    using m l by (simp add: cleanup_expired_batch_def sessions_def Let_def)
  show "entries (cleanup_expired_batch imax s now) \<le> entries s" using ents m d(4) by simp
  show "rotations (cleanup_expired_batch imax s now) = rotations s"
    using l by (simp add: cleanup_expired_batch_def Let_def)
  assume same: "entries (cleanup_expired_batch imax s now) = entries s" and i: "i < length (shards s)"
  from same ents m d(4) have "removed = 0" by simp
  with m batch have all: "\<forall>v < length (shards s). all_live now (shs ! ((?start + v) mod length (shards s)))"
    by simp
  let ?n = "length (shards s)"
  have "?start < ?n" using ok len by (simp add: store_ok_def)
  then have "(?start + (i + ?n - ?start)) mod ?n = i" using i by simp
  moreover have "(?start + (i + ?n - ?start) mod ?n) mod ?n = (?start + (i + ?n - ?start)) mod ?n"
    by (simp add: mod_add_right_eq)
  moreover have "(i + ?n - ?start) mod ?n < ?n" using i by (intro mod_less_divisor) auto
  ultimately have "all_live now (shs ! i)" using all by metis
  with l show "all_live now (shards (cleanup_expired_batch imax s now) ! i)"
    by (simp add: cleanup_expired_batch_def Let_def)
qed

lemma all_live_sessions:
  assumes "store_ok hash s" "\<And>i. i < length (shards s) \<Longrightarrow> all_live now (shards s ! i)"
  shows "sessions hash s sid = Some e \<Longrightarrow> now < se_expires_at e"
  using assms store_okD(2) [OF assms(1), of sid] by (auto simp: sessions_shard shard_of_def all_live_def)

section \<open>Access to one session\<close>

lemma drop_expired_entries:
  assumes "store_ok hash s" "is_expired (shard_of hash s sid) sid now"
  shows "entries (drop_expired hash s sid) \<le> entries s"
proof -
  have "sh_entries (shard_of hash s sid) \<noteq> []"
    using assms(2) by (auto simp: is_expired_def split: option.splits)
  with entries_ge [OF assms(1), of sid] have "1 \<le> entries s"
    by (cases "sh_entries (shard_of hash s sid)") auto
  then show ?thesis
    using fetch_sub_exact [OF _ store_okD(5) [OF assms(1)], of 1] by (simp add: drop_expired_def)
qed

lemma purged_drop:
  "is_expired (shard_of hash s sid) sid now \<Longrightarrow> purged now (sessions hash s) ((sessions hash s)(sid := None))"
  by (auto simp: is_expired_sessions purged_def)

lemma not_expired_live:
  "\<not> is_expired (shard_of hash s sid) sid now \<Longrightarrow> live now (sessions hash s) sid = sessions hash s sid"
  by (auto simp: is_expired_sessions live_def split: option.split)

lemma expired_not_live:
  "is_expired (shard_of hash s sid) sid now \<Longrightarrow> live now (sessions hash s) sid = None"
  by (auto simp: is_expired_sessions live_def)

text \<open>Every access to a session is guarded alike: an expired entry is dropped, a live one renewed.\<close>

lemma access_ok:
  assumes ok: "store_ok hash s"
    and r: "renew imax (shard_of hash s sid) sid now idle = (shard, renewed)"
    and ne: "\<not> is_expired (shard_of hash s sid) sid now"
  shows "store_ok hash (put_shard hash s sid shard)"
    "sessions hash (put_shard hash s sid shard) = touch now (expiry imax now idle) (sessions hash s) sid"
    "renewed \<longleftrightarrow> live now (sessions hash s) sid \<noteq> None"
  using renewed_ok [OF ok r] not_expired_live [OF ne] by (simp_all add: touch_def)

lemma touch_None: "live now m sid = None \<Longrightarrow> touch now x m sid = m"
  by (simp add: touch_def)

lemma resume_ok:
  assumes ok: "store_ok hash s" and r: "resume hash imax s sid now idle = (s', found)"
  shows "store_ok hash s'"
    "purged now (touch now (expiry imax now idle) (sessions hash s) sid) (sessions hash s')"
    "found \<longleftrightarrow> live now (sessions hash s) sid \<noteq> None"
    "found \<Longrightarrow> sessions hash s' = touch now (expiry imax now idle) (sessions hash s) sid"
    "\<not> found \<Longrightarrow> sessions hash s' sid = None"
    "entries s' \<le> entries s" "maintenance s' = maintenance s" "rotations s' = rotations s"
proof -
  have "store_ok hash s' \<and>
    purged now (touch now (expiry imax now idle) (sessions hash s) sid) (sessions hash s') \<and>
    (found \<longleftrightarrow> live now (sessions hash s) sid \<noteq> None) \<and>
    (found \<longrightarrow> sessions hash s' = touch now (expiry imax now idle) (sessions hash s) sid) \<and>
    (\<not> found \<longrightarrow> sessions hash s' sid = None) \<and> entries s' \<le> entries s \<and>
    maintenance s' = maintenance s \<and> rotations s' = rotations s"
  proof (cases "is_expired (shard_of hash s sid) sid now")
    case True
    with r have s': "s' = drop_expired hash s sid" "\<not> found" by (simp_all add: resume_def Let_def)
    show ?thesis
      using drop_expired_ok [OF ok True] expired_not_live [OF True] purged_drop [OF True]
        drop_expired_entries [OF ok True] s'
      by (simp add: touch_None drop_expired_def put_shard_def)
  next
    case False
    obtain shard renewed where n: "renew imax (shard_of hash s sid) sid now idle = (shard, renewed)"
      by fastforce
    with r False have s': "s' = put_shard hash s sid shard" "found = renewed"
      by (simp_all add: resume_def Let_def)
    show ?thesis
      using access_ok [OF ok n False] s' not_expired_live [OF False]
      by (simp add: touch_None put_shard_def)
  qed
  then show "store_ok hash s'"
    "purged now (touch now (expiry imax now idle) (sessions hash s) sid) (sessions hash s')"
    "found \<longleftrightarrow> live now (sessions hash s) sid \<noteq> None"
    "found \<Longrightarrow> sessions hash s' = touch now (expiry imax now idle) (sessions hash s) sid"
    "\<not> found \<Longrightarrow> sessions hash s' sid = None"
    "entries s' \<le> entries s" "maintenance s' = maintenance s" "rotations s' = rotations s"
    by auto
qed

section \<open>Admission\<close>

lemma settled_ok:
  assumes ok: "store_ok hash s"
  shows "store_ok hash (settled hash s sid now)"
    "sessions hash (settled hash s sid now) sid = live now (sessions hash s) sid"
    "purged now (sessions hash s) (sessions hash (settled hash s sid now))"
    "entries (settled hash s sid now) \<le> entries s" "rotations (settled hash s sid now) = rotations s"
  using ok drop_expired_ok [OF ok, of sid now] expired_not_live [of hash s sid now]
    not_expired_live [of hash s sid now] purged_drop [of hash s sid now] drop_expired_entries [OF ok, of sid now]
  by (auto simp: settled_def drop_expired_def put_shard_def)

lemma make_room_cases:
  "make_room imax s now max_sessions = s \<and> entries s < max_sessions \<or>
   make_room imax s now max_sessions = cleanup_expired_batch imax s now"
  by (auto simp: make_room_def cleanup_if_needed_def)

lemma make_room_ok:
  assumes ok: "store_ok hash s"
  shows "store_ok hash (make_room imax s now max_sessions)"
    "purged now (sessions hash s) (sessions hash (make_room imax s now max_sessions))"
    "entries (make_room imax s now max_sessions) \<le> entries s"
    "rotations (make_room imax s now max_sessions) = rotations s"
  using make_room_cases [of imax s now max_sessions] ok cleanup_batch_ok [OF ok] by auto

lemma make_room_full:
  assumes ok: "store_ok hash s" and "entries s \<le> max_sessions"
    and full: "max_sessions \<le> entries (make_room imax s now max_sessions)"
    and "sessions hash (make_room imax s now max_sessions) sid = Some e"
  shows "now < se_expires_at e"
proof (rule all_live_sessions [OF make_room_ok(1) [OF ok] _ assms(4)])
  have r: "make_room imax s now max_sessions = cleanup_expired_batch imax s now"
    using make_room_cases [of imax s now max_sessions] full by auto
  have len: "length (shards (cleanup_expired_batch imax s now)) = length (shards s)"
    using store_okD(1) [OF ok] store_okD(1) [OF cleanup_batch_ok(1) [OF ok]] by (auto simp: shards_ok_def)
  fix i assume "i < length (shards (make_room imax s now max_sessions))"
  then show "all_live now (shards (make_room imax s now max_sessions) ! i)"
    using cleanup_batch_ok(3,4) [OF ok] full assms(2) r len by (simp add: le_antisym)
qed

lemma inserted_ok:
  assumes ok: "store_ok hash s" and d: "distinct (map fst (se_data e))"
    and none: "sessions hash s sid = None" and room: "entries s < u64_max"
    and r: "insert_entry (shard_of hash s sid) sid e = (shard, fresh)"
  shows "fresh" "store_ok hash ((put_shard hash s sid shard)\<lparr>entries := fetch_add (entries s) 1\<rparr>)"
    "sessions hash (put_shard hash s sid shard) = (sessions hash s)(sid \<mapsto> e)"
    "fetch_add (entries s) 1 = Suc (entries s)"
proof -
  have idx: "hash sid mod length (shards s) = shard_index hash s sid" by (simp add: shard_index_def)
  note m = insert_entry_ok [OF store_okD(3) [OF ok] idx d r]
  show fresh: fresh using m(3) none by (simp add: sessions_shard)
  show add: "fetch_add (entries s) 1 = Suc (entries s)" using room by (simp add: fetch_add_exact)
  show "store_ok hash ((put_shard hash s sid shard)\<lparr>entries := fetch_add (entries s) 1\<rparr>)"
    using store_ok_put [OF ok m(1)] m(2) fresh add room by simp
  show "sessions hash (put_shard hash s sid shard) = (sessions hash s)(sid \<mapsto> e)"
    using sessions_put [OF ok m(1) m(4)] .
qed

lemma purged_set: "purged now m m' \<Longrightarrow> purged now (m(sid \<mapsto> e)) (m'(sid \<mapsto> e))"
  by (simp add: purged_def)

lemma purged_None: "purged now m m' \<Longrightarrow> m sid = None \<Longrightarrow> m' sid = None"
  by (auto simp: purged_def dest: spec [of _ sid])

lemma create_cases:
  assumes ok: "store_ok hash s" and c: "create hash imax s sid now idle cap = (s', admitted)"
  defines "s1 \<equiv> settled hash s sid now"
  obtains (renewed) e shard where "live now (sessions hash s) sid = Some e" "admitted"
      "renew imax (shard_of hash s1 sid) sid now idle = (shard, True)" "s' = put_shard hash s1 sid shard"
  | (full) "live now (sessions hash s) sid = None" "\<not> admitted" "s' = make_room imax s1 now cap" "cap \<le> entries s'"
  | (fresh) s3 shard fresh where "live now (sessions hash s) sid = None" "admitted"
      "s3 = make_room imax s1 now cap" "entries s3 < cap"
      "insert_entry (shard_of hash s3 sid) sid \<lparr>se_data = [], se_expires_at = expiry imax now idle\<rparr> = (shard, fresh)"
      "s' = (let s4 = put_shard hash s3 sid shard in if fresh then s4\<lparr>entries := fetch_add (entries s4) 1\<rparr> else s4)"
proof -
  obtain shard renewed where r: "renew imax (shard_of hash s1 sid) sid now idle = (shard, renewed)"
    by fastforce
  note m = settled_ok [OF ok, where sid = sid and now = now, folded s1_def]
  have ren: "renewed \<longleftrightarrow> live now (sessions hash s) sid \<noteq> None"
    using renewed_ok(3) [OF m(1) r] m(2) by simp
  obtain shard' fresh where i: "insert_entry (shard_of hash (make_room imax s1 now cap) sid) sid
      \<lparr>se_data = [], se_expires_at = expiry imax now idle\<rparr> = (shard', fresh)" by fastforce
  have room: "(let (s2, attempted) = cleanup_if_needed imax s1 now;
       s3 = (if entries s2 \<ge> cap \<and> \<not> attempted then cleanup_expired_batch imax s2 now else s2) in f s3) =
     f (make_room imax s1 now cap)" for f :: "SessionStore \<Rightarrow> SessionStore \<times> bool"
    by (simp add: make_room_def split_def Let_def)
  have eq: "create hash imax s sid now idle cap =
    (if renewed then (put_shard hash s1 sid shard, True)
     else if entries (make_room imax s1 now cap) \<ge> cap then (make_room imax s1 now cap, False)
     else ((let s4 = put_shard hash (make_room imax s1 now cap) sid shard'
            in if fresh then s4\<lparr>entries := fetch_add (entries s4) 1\<rparr> else s4), True))"
    using r i unfolding create_def settled_def [symmetric] s1_def [symmetric] Let_def [of s1] room
    by (simp add: Let_def)
  show thesis
  proof (cases renewed)
    case True
    with ren eq c r show ?thesis by (auto intro: renewed)
  next
    case False
    show ?thesis
    proof (cases "cap \<le> entries (make_room imax s1 now cap)")
      case True
      with \<open>\<not> renewed\<close> ren eq c show ?thesis by (intro full) auto
    next
      case False
      with \<open>\<not> renewed\<close> ren eq c show ?thesis by (intro fresh [OF _ _ refl _ i]) auto
    qed
  qed
qed

lemma create_ok:
  assumes ok: "store_ok hash s" and c: "create hash imax s sid now idle cap = (s', admitted)"
    and cap: "cap \<le> u64_max"
  shows "store_ok hash s'"
    "admitted \<Longrightarrow> sessions hash s' sid = Some (created now (expiry imax now idle) (sessions hash s) sid)"
    "admitted \<Longrightarrow> purged now
       ((sessions hash s)(sid \<mapsto> created now (expiry imax now idle) (sessions hash s) sid)) (sessions hash s')"
    "\<not> admitted \<Longrightarrow> purged now (sessions hash s) (sessions hash s') \<and> live now (sessions hash s) sid = None \<and>
       cap \<le> entries s'"
    "entries s \<le> cap \<Longrightarrow> entries s' \<le> cap" "rotations s' = rotations s"
proof -
  let ?M = "sessions hash s" and ?x = "expiry imax now idle"
  note m = settled_ok [OF ok, where sid = sid and now = now]
  have "store_ok hash s' \<and> rotations s' = rotations s \<and> (entries s \<le> cap \<longrightarrow> entries s' \<le> cap) \<and>
    (if admitted
     then sessions hash s' sid = Some (created now ?x ?M sid) \<and>
       purged now (?M(sid \<mapsto> created now ?x ?M sid)) (sessions hash s')
     else purged now ?M (sessions hash s') \<and> live now ?M sid = None \<and> cap \<le> entries s')"
    using ok c
  proof (cases rule: create_cases)
    case (renewed e shard)
    then show ?thesis
      using renewed_ok [OF m(1) renewed(3)] m(2,4,5) purged_set [OF m(3)]
      by (simp add: created_def put_shard_def)
  next
    case full
    note r = make_room_ok [OF m(1), where imax = imax and now = now and max_sessions = cap]
    show ?thesis using full r m(4,5) purged_trans [OF m(3) r(2)] by simp
  next
    case (fresh s3 shard fresh)
    note r = make_room_ok [OF m(1), where imax = imax and now = now and max_sessions = cap, folded fresh(3)]
    have none: "sessions hash s3 sid = None" using purged_None [OF r(2)] m(2) fresh(1) by simp
    note i = inserted_ok [OF r(1) _ none _ fresh(5), simplified]
    have "entries s3 < u64_max" using fresh(4) cap by simp
    with i fresh r m show ?thesis
      using purged_set [OF purged_trans [OF m(3) r(2)]] by (simp add: created_def put_shard_def Let_def)
  qed
  then show "store_ok hash s'"
    "admitted \<Longrightarrow> sessions hash s' sid = Some (created now ?x ?M sid)"
    "admitted \<Longrightarrow> purged now (?M(sid \<mapsto> created now ?x ?M sid)) (sessions hash s')"
    "\<not> admitted \<Longrightarrow> purged now ?M (sessions hash s') \<and> live now ?M sid = None \<and> cap \<le> entries s'"
    "entries s \<le> cap \<Longrightarrow> entries s' \<le> cap" "rotations s' = rotations s"
    by auto
qed

lemma create_refused:
  assumes ok: "store_ok hash s" and "create hash imax s sid now idle cap = (s', False)"
    and "entries s \<le> cap" "sessions hash s' x = Some e"
  shows "now < se_expires_at e"
  using ok assms(2)
proof (cases rule: create_cases)
  case full
  then show ?thesis
    using make_room_full [OF settled_ok(1) [OF ok]] settled_ok(4) [OF ok, of sid now] assms(3,4)
    by (metis order_trans)
qed auto

section \<open>Reading and writing values\<close>

lemma get_ok:
  assumes ok: "store_ok hash s" and g: "get hash imax s sid key now idle = (s', result)"
  shows "store_ok hash s'"
    "purged now (touch now (expiry imax now idle) (sessions hash s) sid) (sessions hash s')"
    "result = (case live now (sessions hash s) sid of None \<Rightarrow> None | Some e \<Rightarrow> map_of (se_data e) key)"
    "entries s' \<le> entries s" "rotations s' = rotations s"
proof -
  obtain s1 found where r: "resume hash imax s sid now idle = (s1, found)" by fastforce
  have "s' = s1 \<and> result = (if found then case sessions hash s1 sid of None \<Rightarrow> None
      | Some e \<Rightarrow> map_of (se_data e) key else None)"
  proof (cases "is_expired (shard_of hash s sid) sid now")
    case True
    with r g show ?thesis by (auto simp: resume_def get_def Let_def)
  next
    case False
    obtain shard renewed where n: "renew imax (shard_of hash s sid) sid now idle = (shard, renewed)"
      by fastforce
    have "shard_of hash (put_shard hash s sid shard) sid = shard"
      using store_okD(2) [OF ok, of sid] by (simp add: shard_of_def put_shard_def shard_index_def)
    with False r g n show ?thesis by (auto simp: resume_def get_def Let_def sessions_shard)
  qed
  with resume_ok [OF ok r] show "store_ok hash s'"
    "purged now (touch now (expiry imax now idle) (sessions hash s) sid) (sessions hash s')"
    "result = (case live now (sessions hash s) sid of None \<Rightarrow> None | Some e \<Rightarrow> map_of (se_data e) key)"
    "entries s' \<le> entries s" "rotations s' = rotations s"
    by (auto simp: touch_def)
qed

lemma data_put_ok:
  assumes ok: "store_ok hash s" and e: "sessions hash s sid = Some e"
    and e': "se_expires_at e' = se_expires_at e" "distinct (map fst (se_data e'))"
  defines "shard \<equiv> (shard_of hash s sid)\<lparr>sh_entries := AList.update sid e' (sh_entries (shard_of hash s sid))\<rparr>"
  shows "store_ok hash (put_shard hash s sid shard)"
    "sessions hash (put_shard hash s sid shard) = (sessions hash s)(sid \<mapsto> e')"
proof -
  note d = store_okD(3) [OF ok, of sid]
  have so: "shard_ok hash (length (shards s)) (shard_index hash s sid) shard"
    unfolding shard_def using shard_ok_data [OF d _ e'] e by (simp add: sessions_shard)
  have "length (sh_entries shard) = length (sh_entries (shard_of hash s sid))"
    using length_update [OF shard_ok_distinct [OF d], of sid e'] e by (simp add: shard_def sessions_shard)
  then show "store_ok hash (put_shard hash s sid shard)"
    using store_ok_put [OF ok so, of "entries s"] store_okD(5) [OF ok] by (simp add: put_shard_entries)
  show "sessions hash (put_shard hash s sid shard) = (sessions hash s)(sid \<mapsto> e')"
    by (rule sessions_put [OF ok so]) (simp add: shard_def update_conv')
qed

lemma put_shard_twice: "put_shard hash (put_shard hash s sid a) sid b = put_shard hash s sid b"
  by (simp add: put_shard_def shard_index_def)

lemma shard_of_put: "store_ok hash s \<Longrightarrow> shard_of hash (put_shard hash s sid shard) sid = shard"
  using store_okD(2) [of hash s sid] by (simp add: shard_of_def put_shard_def shard_index_def)

text \<open>Removing a value restarts the idle clock of a live session and forgets the key.\<close>

lemma remove_value_ok:
  assumes ok: "store_ok hash s" and s'_def: "s' = remove_value hash imax s sid key now idle"
  shows "store_ok hash s'"
    "purged now (case live now (sessions hash s) sid of None \<Rightarrow> sessions hash s
       | Some e \<Rightarrow> (sessions hash s)(sid \<mapsto>
           e\<lparr>se_expires_at := expiry imax now idle, se_data := AList.delete key (se_data e)\<rparr>)) (sessions hash s')"
    "entries s' \<le> entries s" "rotations s' = rotations s"
proof -
  let ?M = "sessions hash s"
  have "store_ok hash s' \<and> entries s' \<le> entries s \<and> rotations s' = rotations s \<and>
    purged now (case live now ?M sid of None \<Rightarrow> ?M
       | Some e \<Rightarrow> ?M(sid \<mapsto>
           e\<lparr>se_expires_at := expiry imax now idle, se_data := AList.delete key (se_data e)\<rparr>)) (sessions hash s')"
  proof (cases "is_expired (shard_of hash s sid) sid now")
    case True
    then have "s' = drop_expired hash s sid" by (simp add: s'_def remove_value_def Let_def)
    then show ?thesis
      using drop_expired_ok [OF ok True] expired_not_live [OF True] purged_drop [OF True]
        drop_expired_entries [OF ok True] by (simp add: drop_expired_def put_shard_def)
  next
    case False
    obtain shard renewed where n: "renew imax (shard_of hash s sid) sid now idle = (shard, renewed)"
      by fastforce
    let ?s1 = "put_shard hash s sid shard"
    note a = access_ok [OF ok n False] and live = not_expired_live [OF False]
    have look: "shard_map shard sid = sessions hash ?s1 sid"
      using shard_of_put [OF ok] by (simp add: sessions_shard)
    show ?thesis
    proof (cases "?M sid")
      case None
      with n False a live look have "s' = ?s1" by (simp add: s'_def remove_value_def Let_def touch_def)
      with None a live show ?thesis by (simp add: touch_def put_shard_def)
    next
      case (Some e)
      let ?e = "e\<lparr>se_expires_at := expiry imax now idle\<rparr>"
      let ?e' = "?e\<lparr>se_data := AList.delete key (se_data e)\<rparr>"
      have e: "sessions hash ?s1 sid = Some ?e" using a live Some by (simp add: touch_def)
      have "distinct (map fst (se_data e))"
        using shard_ok_entry [OF store_okD(3) [OF ok]] Some by (simp add: sessions_shard)
      then have d: "distinct (map fst (se_data ?e'))" by (simp add: distinct_delete)
      note p = data_put_ok [OF a(1) e _ d, simplified shard_of_put [OF ok] put_shard_twice]
      have "s' = put_shard hash s sid (shard\<lparr>sh_entries := AList.update sid ?e' (sh_entries shard)\<rparr>)"
        using n False a(3) live Some look e by (simp add: s'_def remove_value_def Let_def)
      with p a(2) live Some show ?thesis by (simp add: touch_def put_shard_def)
    qed
  qed
  then show "store_ok hash s'" "entries s' \<le> entries s" "rotations s' = rotations s"
    "purged now (case live now (sessions hash s) sid of None \<Rightarrow> sessions hash s
       | Some e \<Rightarrow> (sessions hash s)(sid \<mapsto>
           e\<lparr>se_expires_at := expiry imax now idle, se_data := AList.delete key (se_data e)\<rparr>)) (sessions hash s')"
    by auto
qed

lemma entries_removed:
  assumes "store_ok hash s" "sessions hash s sid = Some e"
  shows "fetch_sub (entries s) 1 = entries s - 1" "0 < entries s"
proof -
  have "sh_entries (shard_of hash s sid) \<noteq> []" using assms(2) by (auto simp: sessions_shard)
  with entries_ge [OF assms(1), of sid] show "0 < entries s"
    by (cases "sh_entries (shard_of hash s sid)") auto
  then show "fetch_sub (entries s) 1 = entries s - 1"
    using fetch_sub_exact [OF _ store_okD(5) [OF assms(1)], of 1] by simp
qed

lemma clear_ok:
  assumes ok: "store_ok hash s"
  shows "store_ok hash (clear hash s sid)" "sessions hash (clear hash s sid) = (sessions hash s)(sid := None)"
    "entries (clear hash s sid) \<le> entries s" "rotations (clear hash s sid) = rotations s"
proof -
  obtain shard found where r: "remove_entry (shard_of hash s sid) sid = (shard, found)" by fastforce
  have found: "found = sessions hash s sid"
    using remove_entry_ok(3) [OF store_okD(3) [OF ok] r] by (simp add: sessions_shard)
  have "store_ok hash (clear hash s sid) \<and> sessions hash (clear hash s sid) = (sessions hash s)(sid := None) \<and>
    entries (clear hash s sid) \<le> entries s \<and> rotations (clear hash s sid) = rotations s"
  proof (cases "sessions hash s sid")
    case None
    with r found ok show ?thesis by (simp add: clear_def fun_upd_idem)
  next
    case (Some e)
    with r found removed_ok [OF ok Some r] entries_removed [OF ok Some] show ?thesis
      by (simp add: clear_def put_shard_def)
  qed
  then show "store_ok hash (clear hash s sid)" "sessions hash (clear hash s sid) = (sessions hash s)(sid := None)"
    "entries (clear hash s sid) \<le> entries s" "rotations (clear hash s sid) = rotations s"
    by auto
qed

section \<open>Counting and rotation\<close>

lemma card_stored:
  assumes "shards_ok hash shs"
  shows "card (dom (look hash shs)) = stored shs" "finite (dom (look hash shs))"
proof -
  let ?k = "\<lambda>i. fst ` set (sh_entries (shs ! i))"
  have ok: "shard_ok hash (length shs) i (shs ! i)" if "i < length shs" for i
    using assms that unfolding shards_ok_def by blast
  have key: "x \<in> ?k i \<Longrightarrow> i < length shs \<Longrightarrow> hash x mod length shs = i" for x i
    using ok [of i] by (auto simp: shard_ok_def)
  have dom: "dom (look hash shs) = (\<Union>i<length shs. ?k i)"
  proof (intro set_eqI iffI)
    fix x assume "x \<in> dom (look hash shs)"
    then have "x \<in> ?k (hash x mod length shs)" by (simp add: look_def dom_def map_of_eq_None_iff)
    moreover have "hash x mod length shs < length shs" using shards_positive [OF assms] by simp
    ultimately show "x \<in> (\<Union>i<length shs. ?k i)" by blast
  next
    fix x assume "x \<in> (\<Union>i<length shs. ?k i)"
    then obtain i where "i < length shs" "x \<in> ?k i" by blast
    with key [of x i] show "x \<in> dom (look hash shs)" by (auto simp: look_def dom_def map_of_eq_None_iff)
  qed
  show "finite (dom (look hash shs))" by (simp add: dom)
  have "card (dom (look hash shs)) = (\<Sum>i<length shs. card (?k i))"
    unfolding dom
  proof (rule card_UN_disjoint)
    show "\<forall>i\<in>{..<length shs}. \<forall>j\<in>{..<length shs}. i \<noteq> j \<longrightarrow> ?k i \<inter> ?k j = {}"
      using key by blast
  qed auto
  also have "\<dots> = (\<Sum>i<length shs. length (sh_entries (shs ! i)))"
  proof (rule sum.cong [OF refl])
    fix i assume "i \<in> {..<length shs}"
    then have "distinct (map fst (sh_entries (shs ! i)))" using ok [of i] by (simp add: shard_ok_def)
    from distinct_card [OF this] show "card (?k i) = length (sh_entries (shs ! i))" by simp
  qed
  also have "\<dots> = stored shs"
    by (simp add: stored_def sum_list_sum_nth atLeast0LessThan)
  finally show "card (dom (look hash shs)) = stored shs" .
qed

lemma entries_card: "store_ok hash s \<Longrightarrow> entries s = card (dom (sessions hash s))"
  using card_stored(1) store_okD(1,4) by (simp add: sessions_def)

lemma cleaned_shards:
  assumes "shards_ok hash shs"
    and cleaned_def: "cleaned = map (\<lambda>shard. remove_expired_entries shard now u64_max) shs"
  shows "shards_ok hash (map fst cleaned)" "purged now (look hash shs) (look hash (map fst cleaned))"
    "stored (map fst cleaned) + sum_list (map snd cleaned) = stored shs"
    "stored shs \<le> u64_max \<Longrightarrow> look hash (map fst cleaned) sid = Some e \<Longrightarrow> now < se_expires_at e"
proof -
  have ok: "shard_ok hash (length shs) i (shs ! i)" if "i < length shs" for i
    using assms(1) that unfolding shards_ok_def by blast
  have nth: "map fst cleaned ! i = fst (remove_expired_entries (shs ! i) now u64_max)" if "i < length shs" for i
    using that by (simp add: cleaned_def)
  have len: "length (map fst cleaned) = length shs" by (simp add: cleaned_def)
  have idx: "hash x mod length shs < length shs" for x using shards_positive [OF assms(1)] by simp
  show "shards_ok hash (map fst cleaned)"
    using assms(1) remove_expired_entries_ok(1) [OF ok surjective_pairing] nth len
    by (simp add: shards_ok_def)
  show "purged now (look hash shs) (look hash (map fst cleaned))"
    using remove_expired_entries_ok(4) [OF ok [OF idx] surjective_pairing]
    unfolding purged_def look_def len nth [OF idx] by blast
  have count: "\<forall>shard \<in> set shs. length (sh_entries (fst (remove_expired_entries shard now u64_max))) +
      snd (remove_expired_entries shard now u64_max) = length (sh_entries shard)"
    using remove_expired_entries_ok(3) [OF ok surjective_pairing] by (metis in_set_conv_nth)
  then show "stored (map fst cleaned) + sum_list (map snd cleaned) = stored shs"
    unfolding cleaned_def stored_def by (induction shs) auto
  assume small: "stored shs \<le> u64_max" and e: "look hash (map fst cleaned) sid = Some e"
  let ?r = "remove_expired_entries (shs ! (hash sid mod length shs)) now u64_max"
  have "sh_entries (fst ?r) \<noteq> []" using e unfolding look_def len nth [OF idx] by auto
  then have "0 < length (sh_entries (fst ?r))" by simp
  moreover have "length (sh_entries (fst ?r)) + snd ?r = length (sh_entries (shs ! (hash sid mod length shs)))"
    using count idx [of sid] by (metis nth_mem)
  ultimately have "snd ?r < u64_max" using stored_ge [OF idx [of sid]] small by linarith
  then show "now < se_expires_at e"
    using remove_expired_entries_ok(5) [OF ok [OF idx] surjective_pairing] e
    unfolding look_def len nth [OF idx] by blast
qed

lemma live_dom: "purged now m m' \<Longrightarrow> (\<And>sid e. m' sid = Some e \<Longrightarrow> now < se_expires_at e) \<Longrightarrow> m' = live now m"
proof
  fix sid
  assume "purged now m m'" and l: "\<And>sid e. m' sid = Some e \<Longrightarrow> now < se_expires_at e"
  then have "m' sid = m sid \<or> m' sid = None \<and> (\<exists>e. m sid = Some e \<and> se_expires_at e \<le> now)"
    by (simp add: purged_def)
  with l [of sid] show "m' sid = live now m sid" by (auto simp: live_def split: option.split)
qed

lemma subtract_removed:
  assumes "k + r = n" "n \<le> u64_max"
  shows "(if r > 0 then fetch_sub n r else n) = k"
  using assms fetch_sub_exact [of r n] by auto

text \<open>\<open>live_len\<close> leaves exactly the live sessions, and counts them.\<close>

lemma live_len_ok:
  assumes ok: "store_ok hash s" and l: "live_len s now = (s', n)"
  shows "store_ok hash s'" "sessions hash s' = live now (sessions hash s)"
    "n = card (dom (live now (sessions hash s)))" "entries s' \<le> entries s" "rotations s' = rotations s"
proof -
  define cleaned where c: "cleaned = map (\<lambda>shard. remove_expired_entries shard now u64_max) (shards s)"
  note d = store_okD [OF ok] and m = cleaned_shards [OF store_okD(1) [OF ok] c]
  have n: "n = (if sum_list (map snd cleaned) > 0 then fetch_sub (entries s) (sum_list (map snd cleaned)) else entries s)"
    and s': "s' = s\<lparr>shards := map fst cleaned, entries := n\<rparr>"
    using l unfolding live_len_def c [symmetric] Let_def by auto
  have st: "n = stored (map fst cleaned)"
    unfolding n using subtract_removed [OF m(3) [folded d(4)] d(5)] .
  show ok': "store_ok hash s'" using ok m(1,3) st d(4,5) s' by (simp add: store_ok_def)
  show M: "sessions hash s' = live now (sessions hash s)"
    using live_dom [OF m(2) m(4)] d(4,5) s' by (simp add: sessions_def)
  show "n = card (dom (live now (sessions hash s)))" using entries_card [OF ok'] M s' by simp
  show "entries s' \<le> entries s" using st m(3) d(4) s' by simp
  show "rotations s' = rotations s" using s' by simp
qed

text \<open>An insertion that replaces keeps the counter, one that adds raises it.\<close>

lemma rotate_insert:
  assumes ok: "store_ok hash s" and d: "distinct (map fst (se_data e))"
    and r: "insert_entry (shard_of hash s sid) sid e = (shard, fresh)"
  shows "\<not> fresh \<Longrightarrow> store_ok hash (put_shard hash s sid shard)"
    "fresh \<Longrightarrow> entries s < u64_max \<Longrightarrow> store_ok hash ((put_shard hash s sid shard)\<lparr>entries := Suc (entries s)\<rparr>)"
    "sessions hash (put_shard hash s sid shard) = (sessions hash s)(sid \<mapsto> e)"
proof -
  have idx: "hash sid mod length (shards s) = shard_index hash s sid" by (simp add: shard_index_def)
  note m = insert_entry_ok [OF store_okD(3) [OF ok] idx d r]
  show "\<not> fresh \<Longrightarrow> store_ok hash (put_shard hash s sid shard)"
    using store_ok_put [OF ok m(1), of "entries s"] m(2) store_okD(5) [OF ok] by (simp add: put_shard_entries)
  show "fresh \<Longrightarrow> entries s < u64_max \<Longrightarrow> store_ok hash ((put_shard hash s sid shard)\<lparr>entries := Suc (entries s)\<rparr>)"
    using store_ok_put [OF ok m(1), of "Suc (entries s)"] m(2) by simp
  show "sessions hash (put_shard hash s sid shard) = (sessions hash s)(sid \<mapsto> e)"
    using sessions_put [OF ok m(1) m(4)] .
qed

lemma put_shard_counter:
  "put_shard hash (s\<lparr>entries := n\<rparr>) sid shard = (put_shard hash s sid shard)\<lparr>entries := n\<rparr>"
  by (cases s) (simp add: put_shard_def shard_index_def)

lemma put_shard_same: "entries s = n \<Longrightarrow> (put_shard hash s sid shard)\<lparr>entries := n\<rparr> = put_shard hash s sid shard"
  "entries (put_shard hash s sid shard) = entries s"
  by (simp_all add: put_shard_def)

lemma rotate_ok:
  assumes ok: "store_ok hash s" and r: "rotate hash imax s old new now idle = (s', rotated)"
  shows "store_ok hash s'" "rotated \<longleftrightarrow> live now (sessions hash s) old \<noteq> None"
    "rotated \<Longrightarrow> sessions hash s' = (sessions hash s)(old := None, new \<mapsto>
       \<lparr>se_data = se_data (the (sessions hash s old)), se_expires_at = expiry imax now idle\<rparr>)"
    "\<not> rotated \<Longrightarrow> purged now (sessions hash s) (sessions hash s') \<and> sessions hash s' old = None"
    "entries s' \<le> entries s" "rotations s' = rotations s"
proof -
  let ?M = "sessions hash s"
  obtain shard found where m: "remove_entry (shard_of hash s old) old = (shard, found)" by fastforce
  have found: "found = ?M old"
    using remove_entry_ok(3) [OF store_okD(3) [OF ok] m] by (simp add: sessions_shard)
  have "store_ok hash s' \<and> (rotated \<longleftrightarrow> live now ?M old \<noteq> None) \<and>
    (if rotated then sessions hash s' = ?M(old := None, new \<mapsto>
       \<lparr>se_data = se_data (the (?M old)), se_expires_at = expiry imax now idle\<rparr>)
     else purged now ?M (sessions hash s') \<and> sessions hash s' old = None) \<and> entries s' \<le> entries s \<and> rotations s' = rotations s"
  proof (cases "?M old")
    case None
    with r m found ok show ?thesis by (auto simp: rotate_def live_def)
  next
    case (Some e)
    let ?s1 = "put_shard hash s old shard" and ?e = "\<lparr>se_data = se_data e, se_expires_at = expiry imax now idle\<rparr>"
    note rem = removed_ok [OF ok Some m] and cnt = entries_removed [OF ok Some]
    show ?thesis
    proof (cases "se_expires_at e \<le> now")
      case True
      with r m rem(1) have "s' = ?s1\<lparr>entries := fetch_sub (entries s) 1\<rparr>" "\<not> rotated"
        by (auto simp: rotate_def put_shard_def)
      with True rem Some cnt show ?thesis by (auto simp: purged_def live_def put_shard_def)
    next
      case False
      let ?sx = "?s1\<lparr>entries := fetch_sub (entries s) 1\<rparr>"
      obtain shard' fresh where i: "insert_entry (shard_of hash ?s1 new) new ?e = (shard', fresh)" by fastforce
      with r m rem(1) False have s': "s' = (let s2 = put_shard hash ?s1 new shard' in
          if fresh then s2 else s2\<lparr>entries := fetch_sub (entries s2) 1\<rparr>)" "rotated"
        by (auto simp: rotate_def Let_def)
      have sx: "shard_of hash ?sx new = shard_of hash ?s1 new" "shard_index hash ?sx new = shard_index hash ?s1 new"
        by (simp_all add: shard_of_def shard_index_def)
      have d: "distinct (map fst (se_data ?e))"
        using shard_ok_entry [OF store_okD(3) [OF ok]] Some by (simp add: sessions_shard)
      note p = rotate_insert [OF rem(2) d i [folded sx(1)], unfolded put_shard_counter]
      have "entries s' = (if fresh then entries s else entries s - 1)" "rotations s' = rotations s"
        using s'(1) cnt(1) by (simp_all add: Let_def put_shard_def)
      moreover have "store_ok hash s'"
        using p(1,2) s'(1) cnt store_okD(5) [OF ok] by (simp add: Let_def put_shard_same split: if_splits)
      moreover have "sessions hash s' = ?M(old := None, new \<mapsto> ?e)"
        using p(3) s'(1) rem(3) by (simp add: Let_def)
      ultimately show ?thesis using s'(2) Some False by (simp add: live_def)
    qed
  qed
  then show "store_ok hash s'" "rotated \<longleftrightarrow> live now (sessions hash s) old \<noteq> None"
    "rotated \<Longrightarrow> sessions hash s' = (sessions hash s)(old := None, new \<mapsto>
       \<lparr>se_data = se_data (the (sessions hash s old)), se_expires_at = expiry imax now idle\<rparr>)"
    "\<not> rotated \<Longrightarrow> purged now (sessions hash s) (sessions hash s') \<and> sessions hash s' old = None"
    "entries s' \<le> entries s" "rotations s' = rotations s"
    by auto
qed

end
