(* ===== verification/Session_Set.thy ===== *)
theory Session_Set
  imports Session_Ops
begin

text \<open>
  Writing a value (\<open>SessionStore::set\<close>): the byte accounting is exact, and the operation
  ends in one of six ways, each with its effect on the represented map.
\<close>

section \<open>Specification\<close>

definition data_bytes :: "(string \<times> string) list \<Rightarrow> nat" where
  "data_bytes data = sum_list (map (\<lambda>(k, v). length k + length v) data)"

text \<open>
  The entry a write works on: the session resumed at the first clock reading, or an empty
  one admitted at the second.
\<close>

definition opened :: "nat \<Rightarrow> nat \<Rightarrow> nat \<Rightarrow> nat \<Rightarrow> session_map \<Rightarrow> string \<Rightarrow> SessionEntry" where
  "opened imax idle now1 now2 m sid =
     (case live now1 m sid of
        Some e \<Rightarrow> e\<lparr>se_expires_at := expiry imax now1 idle\<rparr>
      | None \<Rightarrow> \<lparr>se_data = [], se_expires_at = expiry imax now2 idle\<rparr>)"

section \<open>Byte accounting\<close>

lemma sum_bytes_exact:
  "acc \<le> u64_max \<Longrightarrow> sum_bytes data acc = (if acc + data_bytes data \<le> u64_max then Some (acc + data_bytes data) else None)"
proof (induction data acc rule: sum_bytes.induct)
  case (2 k v rest acc)
  then show ?case by (auto simp: usize_checked_add_def data_bytes_def split: option.splits)
qed (simp add: data_bytes_def)

lemma data_bytes_update:
  "distinct (map fst data) \<Longrightarrow>
   data_bytes (AList.update k v data) + (case map_of data k of None \<Rightarrow> 0 | Some old \<Rightarrow> length k + length old) =
   data_bytes data + length k + length v"
  by (induction data) (auto simp: data_bytes_def split: option.splits)

lemma data_bytes_member: "map_of data k = Some v \<Longrightarrow> length k + length v \<le> data_bytes data"
  by (induction data) (auto simp: data_bytes_def split: if_splits)

lemma next_bytes_exact:
  assumes "distinct (map fst data)" "data_bytes data \<le> u64_max" "limit \<le> u64_max"
  shows "next_bytes data k v limit =
    (if data_bytes (AList.update k v data) \<le> limit then Some (data_bytes (AList.update k v data)) else None)"
  using assms data_bytes_update [OF assms(1), of k v] data_bytes_member [of data k]
  by (cases "map_of data k")
    (auto simp: next_bytes_def sum_bytes_exact usize_checked_add_def usize_checked_sub_def Let_def)

lemma data_bytes_delete: "data_bytes (AList.delete k data) \<le> data_bytes data"
  by (induction data) (auto simp: data_bytes_def)

lemma validate_exact:
  "lim_total_bytes limits \<le> u64_max \<Longrightarrow> validate_session_value key value limits =
    (if key = [] then Inl (EmptyKey, None)
     else if length key > lim_key_bytes limits then Inl (KeyTooLarge, Some (lim_key_bytes limits))
     else if length value > lim_value_bytes limits then Inl (ValueTooLarge, Some (lim_value_bytes limits))
     else if length key + length value > lim_total_bytes limits
     then Inl (SessionTooLarge, Some (lim_total_bytes limits))
     else Inr ())"
  by (simp add: validate_session_value_def usize_checked_add_def)

section \<open>The outcomes of a write\<close>

lemma purged_mono: "purged now m m' \<Longrightarrow> now \<le> now' \<Longrightarrow> purged now' m m'"
  by (fastforce simp: purged_def)

lemma purged_fix:
  assumes "purged now m m'"
  shows "purged now (m(sid := v)) (m'(sid := v))"
  using assms by (simp add: purged_def)

text \<open>After \<open>resume\<close> and, where needed, \<open>create\<close>.\<close>

lemma open_ok:
  assumes ok: "store_ok hash s" and cap: "cap \<le> u64_max" and le: "now1 \<le> now2"
    and r: "resume hash imax s sid now1 idle = (s1, resumed)"
    and c: "(if resumed then (s1, True) else create hash imax s1 sid now2 idle cap) = (s2, available)"
  defines "e \<equiv> opened imax idle now1 now2 (sessions hash s) sid"
  shows "store_ok hash s2" "entries s \<le> cap \<Longrightarrow> entries s2 \<le> cap" "rotations s2 = rotations s"
    "available \<Longrightarrow> sessions hash s2 sid = Some e"
    "available \<Longrightarrow> purged now2 ((sessions hash s)(sid \<mapsto> e)) (sessions hash s2)"
    "\<not> available \<Longrightarrow> purged now2 (sessions hash s) (sessions hash s2) \<and>
       live now1 (sessions hash s) sid = None \<and> cap \<le> entries s2 \<and>
       (entries s \<le> cap \<longrightarrow> (\<forall>x e. sessions hash s2 x = Some e \<longrightarrow> now2 < se_expires_at e))"
proof -
  let ?M = "sessions hash s"
  note m = resume_ok [OF ok r]
  have "store_ok hash s2 \<and> (entries s \<le> cap \<longrightarrow> entries s2 \<le> cap) \<and> rotations s2 = rotations s \<and>
    (if available then sessions hash s2 sid = Some e \<and> purged now2 (?M(sid \<mapsto> e)) (sessions hash s2)
     else purged now2 ?M (sessions hash s2) \<and> live now1 ?M sid = None \<and> cap \<le> entries s2 \<and>
       (entries s \<le> cap \<longrightarrow> (\<forall>x e. sessions hash s2 x = Some e \<longrightarrow> now2 < se_expires_at e)))"
  proof (cases resumed)
    case True
    with c have "s2 = s1" "available" by simp_all
    moreover from m(3) True obtain e0 where "live now1 ?M sid = Some e0" by auto
    ultimately show ?thesis using m(1,4,6,8) True by (auto simp: e_def opened_def touch_def)
  next
    case False
    with c have cr: "create hash imax s1 sid now2 idle cap = (s2, available)" by simp
    note n = create_ok [OF m(1) cr cap]
    have none: "live now1 ?M sid = None" using m(3) False by simp
    have gone: "sessions hash s1 sid = None" using m(5) False by simp
    have p: "purged now2 ?M (sessions hash s1)" using m(2) none le by (auto simp: touch_None intro: purged_mono)
    have e: "created now2 (expiry imax now2 idle) (sessions hash s1) sid = e"
      using gone none by (simp add: created_def e_def opened_def live_def)
    show ?thesis
    proof (cases available)
      case True
      have "purged now2 (?M(sid \<mapsto> e)) ((sessions hash s1)(sid \<mapsto> e))" using purged_fix [OF p] .
      from purged_trans [OF this] True n m(6,8) e show ?thesis by simp
    next
      case False
      then have "\<forall>x e. sessions hash s2 x = Some e \<longrightarrow> now2 < se_expires_at e" if "entries s \<le> cap"
        using create_refused [OF m(1)] cr that m(6) by (auto intro: order_trans)
      with False n m(6,8) none purged_trans [OF p] show ?thesis by simp
    qed
  qed
  then show "store_ok hash s2" "entries s \<le> cap \<Longrightarrow> entries s2 \<le> cap" "rotations s2 = rotations s"
    "available \<Longrightarrow> sessions hash s2 sid = Some e"
    "available \<Longrightarrow> purged now2 (?M(sid \<mapsto> e)) (sessions hash s2)"
    "\<not> available \<Longrightarrow> purged now2 ?M (sessions hash s2) \<and> live now1 ?M sid = None \<and> cap \<le> entries s2 \<and>
       (entries s \<le> cap \<longrightarrow> (\<forall>x e. sessions hash s2 x = Some e \<longrightarrow> now2 < se_expires_at e))"
    by auto
qed

lemma set_value_cases:
  assumes ok: "store_ok hash s" and cap: "cap \<le> u64_max" and le: "now1 \<le> now2" "now2 \<le> now"
    and w: "set_value hash imax s sid key value (now1, now2, now) idle cap limits = (s', result)"
  defines "M \<equiv> sessions hash s" and "e \<equiv> opened imax idle now1 now2 (sessions hash s) sid"
  obtains (invalid) err where "validate_session_value key value limits = Inl err" "result = Inl err" "s' = s"
  | (refused) "result = Inl (SessionUnavailable, None)" "live now1 M sid = None" "cap \<le> entries s'"
      "purged now M (sessions hash s')" "purged now2 M (sessions hash s')"
      "entries s \<le> cap \<longrightarrow> (\<forall>x e. sessions hash s' x = Some e \<longrightarrow> now2 < se_expires_at e)"
  | (lapsed) "result = Inl (SessionUnavailable, None)" "se_expires_at e \<le> now"
      "purged now (M(sid \<mapsto> e)) (sessions hash s')" "sessions hash s' sid = None"
  | (crowded) "result = Inl (TooManyEntries, Some (lim_entries limits))" "now < se_expires_at e"
      "validate_session_value key value limits = Inr ()"
      "map_of (se_data e) key = None" "lim_entries limits \<le> length (se_data e)"
      "purged now (M(sid \<mapsto> e)) (sessions hash s')" "sessions hash s' sid = Some e"
  | (oversize) "result = Inl (SessionTooLarge, Some (lim_total_bytes limits))" "now < se_expires_at e"
      "validate_session_value key value limits = Inr ()"
      "map_of (se_data e) key = None \<longrightarrow> length (se_data e) < lim_entries limits"
      "next_bytes (se_data e) key value (lim_total_bytes limits) = None"
      "purged now (M(sid \<mapsto> e)) (sessions hash s')" "sessions hash s' sid = Some e"
  | (saved) e' where "result = Inr ()" "now < se_expires_at e" "validate_session_value key value limits = Inr ()"
      "map_of (se_data e) key = None \<longrightarrow> length (se_data e) < lim_entries limits"
      "next_bytes (se_data e) key value (lim_total_bytes limits) \<noteq> None"
      "e' = e\<lparr>se_data := AList.update key value (se_data e)\<rparr>"
      "purged now (M(sid \<mapsto> e')) (sessions hash s')" "sessions hash s' sid = Some e'"
proof (cases "validate_session_value key value limits")
  case (Inl err)
  with w show thesis by (intro invalid [OF Inl]) (simp_all add: set_value_def)
next
  case (Inr u)
  obtain s1 resumed where r: "resume hash imax s sid now1 idle = (s1, resumed)" by fastforce
  obtain s2 available where
    c: "(if resumed then (s1, True) else create hash imax s1 sid now2 idle cap) = (s2, available)" by fastforce
  note o = open_ok [OF ok cap le(1) r c, folded e_def M_def]
  note w' = w [unfolded set_value_def Inr sum.case Let_def split_conv r c]
  show thesis
  proof (cases available)
    case False
    with w' have "s' = s2" "result = Inl (SessionUnavailable, None)" by auto
    with False o(6) le(2) show thesis by (intro refused) (auto intro: purged_mono)
  next
    case True
    note e = o(4) [OF True] and p = purged_mono [OF o(5) [OF True] le(2)]
    let ?shard = "shard_of hash s2 sid"
    have look: "shard_map ?shard sid = Some e" using e by (simp add: sessions_shard)
    show thesis
    proof (cases "se_expires_at e \<le> now")
      case dead: True
      then have x: "is_expired ?shard sid now" using e by (simp add: is_expired_sessions)
      with w' True have "s' = drop_expired hash s2 sid" "result = Inl (SessionUnavailable, None)" by auto
      with drop_expired_ok [OF o(1) x] purged_trans [OF p purged_drop [OF x]] dead show thesis
        by (intro lapsed) simp_all
    next
      case alive: False
      then have x: "\<not> is_expired ?shard sid now" using e by (simp add: is_expired_sessions)
      note w'' = w' [simplified True x look, simplified]
      consider (a) "map_of (se_data e) key = None \<and> lim_entries limits \<le> length (se_data e)"
        | (b) "\<not> (map_of (se_data e) key = None \<and> lim_entries limits \<le> length (se_data e))"
            "next_bytes (se_data e) key value (lim_total_bytes limits) = None"
        | (c) "\<not> (map_of (se_data e) key = None \<and> lim_entries limits \<le> length (se_data e))"
            "next_bytes (se_data e) key value (lim_total_bytes limits) \<noteq> None" by blast
      then show thesis
      proof cases
        case a
        with w'' have "s' = s2" "result = Inl (TooManyEntries, Some (lim_entries limits))" by auto
        with a p e alive Inr show thesis by (intro crowded) auto
      next
        case b
        with w'' have "s' = s2" "result = Inl (SessionTooLarge, Some (lim_total_bytes limits))" by auto
        with b p e alive Inr show thesis by (intro oversize) auto
      next
        case c
        let ?e = "e\<lparr>se_data := AList.update key value (se_data e)\<rparr>"
        have "distinct (map fst (se_data e))" using shard_ok_entry [OF store_okD(3) [OF o(1)] look] by simp
        then have d: "distinct (map fst (se_data ?e))" by (simp add: distinct_update)
        note q = data_put_ok [OF o(1) e _ d, simplified]
        from c w'' have "result = Inr ()"
          "s' = put_shard hash s2 sid (?shard\<lparr>sh_entries := AList.update sid ?e (sh_entries ?shard)\<rparr>)" by auto
        moreover have "purged now (M(sid \<mapsto> ?e)) ((sessions hash s2)(sid \<mapsto> ?e))"
          using purged_fix [OF p, of sid "Some ?e"] by simp
        ultimately show thesis using q c Inr alive by (intro saved) auto
      qed
    qed
  qed
qed

lemma set_value_ok:
  assumes ok: "store_ok hash s" and cap: "cap \<le> u64_max" and le: "now1 \<le> now2"
    and w: "set_value hash imax s sid key value (now1, now2, now) idle cap limits = (s', result)"
  shows "store_ok hash s'" "entries s \<le> cap \<Longrightarrow> entries s' \<le> cap" "rotations s' = rotations s"
proof -
  obtain s1 resumed where r: "resume hash imax s sid now1 idle = (s1, resumed)" by fastforce
  obtain s2 available where
    c: "(if resumed then (s1, True) else create hash imax s1 sid now2 idle cap) = (s2, available)" by fastforce
  note o = open_ok [OF ok cap le r c] and w' = w [unfolded set_value_def Let_def split_conv r c]
  let ?shard = "shard_of hash s2 sid"
  consider (a) "s' = s" | (b) "s' = s2" | (c) "is_expired ?shard sid now" "s' = drop_expired hash s2 sid"
    | (d) e where "sessions hash s2 sid = Some e"
        "s' = put_shard hash s2 sid (?shard\<lparr>sh_entries := AList.update sid
           (e\<lparr>se_data := AList.update key value (se_data e)\<rparr>) (sh_entries ?shard)\<rparr>)"
  proof (cases "validate_session_value key value limits")
    case (Inl e)
    with w' show thesis by (intro a) simp
  next
    case (Inr u)
    note w'' = w' [unfolded Inr sum.case split_conv]
    show thesis
    proof (cases "available \<and> \<not> is_expired ?shard sid now")
      case False
      with w'' show thesis by (cases available) (auto intro: b c)
    next
      case True
      with w'' show thesis
        by (cases "shard_map ?shard sid") (auto intro: b d simp: sessions_shard split: if_splits)
    qed
  qed
  then have "store_ok hash s' \<and> (entries s \<le> cap \<longrightarrow> entries s' \<le> cap) \<and> rotations s' = rotations s"
  proof cases
    case c
    have "rotations (drop_expired hash s2 sid) = rotations s2" by (simp add: drop_expired_def put_shard_def)
    then show ?thesis
      using drop_expired_ok(1) [OF o(1) c(1)] drop_expired_entries [OF o(1) c(1)] o(2,3) c(2)
      by (auto intro: order_trans)
  next
    case d
    have "distinct (map fst (se_data e))"
      using shard_ok_entry [OF store_okD(3) [OF o(1)]] d(1) by (simp add: sessions_shard)
    then show ?thesis
      using data_put_ok(1) [OF o(1) d(1), where e' = "e\<lparr>se_data := AList.update key value (se_data e)\<rparr>"]
        d(2) o(2,3) by (simp add: distinct_update put_shard_def)
  qed (use ok o in auto)
  then show "store_ok hash s'" "entries s \<le> cap \<Longrightarrow> entries s' \<le> cap" "rotations s' = rotations s"
    by auto
qed

end
