(* ===== verification/Sessions.thy ===== *)
theory Sessions
  imports Session_Set
begin

text \<open>
  The session handle (\<open>src/app/session.rs\<close>, \<open>Sessions\<close>): its configuration, the calls a handler
  makes on it, and what holds after every sequence of calls. The store shared by the clones of a
  handle is the state that the calls pass on, together with the process-wide counter of
  generated ids. Clock readings are arguments; those of one call follow each other.
\<close>

section \<open>Configuration\<close>

definition MIN_SECRET_BYTES :: nat where "MIN_SECRET_BYTES = 32"
definition DEFAULT_MAX_SESSIONS :: nat where "DEFAULT_MAX_SESSIONS = 10000"
definition DEFAULT_IDLE_TIMEOUT :: nat where "DEFAULT_IDLE_TIMEOUT = seconds (24 * 60 * 60)"
definition DEFAULT_MAX_ENTRIES_PER_SESSION :: nat where "DEFAULT_MAX_ENTRIES_PER_SESSION = 64"
definition DEFAULT_MAX_SESSION_KEY_BYTES :: nat where "DEFAULT_MAX_SESSION_KEY_BYTES = 256"
definition DEFAULT_MAX_SESSION_VALUE_BYTES :: nat where "DEFAULT_MAX_SESSION_VALUE_BYTES = 16 * 1024"
definition DEFAULT_MAX_SESSION_DATA_BYTES :: nat where "DEFAULT_MAX_SESSION_DATA_BYTES = 64 * 1024"

datatype SessionConfigError =
  ShortSecret | InvalidCookieName | InvalidIdleTimeout | ZeroLimit | SharedConfiguration

record Sessions =
  secret :: string
  cookie_name :: string
  same_site :: SameSite
  force_secure_cookie :: bool
  idle_timeout :: nat
  max_sessions :: nat
  max_entries_per_session :: nat
  max_session_key_bytes :: nat
  max_session_value_bytes :: nat
  max_session_data_bytes :: nat

definition is_valid_cookie_name :: "string \<Rightarrow> bool" where
  "is_valid_cookie_name name \<longleftrightarrow>
     name \<noteq> [] \<and> list_all (\<lambda>b. is_ascii_alphanumeric b \<or>
       b \<in> set ''!#$%&*+-.^_|~'' \<or> code b = 39 \<or> code b = 96) name"

text \<open>The store of a new handle is a new one, and the handle its only owner.\<close>

definition try_new :: "nat \<Rightarrow> nat \<Rightarrow> string \<Rightarrow> SessionConfigError + (Sessions \<times> SessionStore outcome)" where
  "try_new imax now sec =
     (if length sec < MIN_SECRET_BYTES then Inl ShortSecret
      else Inr (\<lparr>secret = sec, cookie_name = ''rustrest_session'', same_site = Lax,
                 force_secure_cookie = False, idle_timeout = DEFAULT_IDLE_TIMEOUT,
                 max_sessions = DEFAULT_MAX_SESSIONS,
                 max_entries_per_session = DEFAULT_MAX_ENTRIES_PER_SESSION,
                 max_session_key_bytes = DEFAULT_MAX_SESSION_KEY_BYTES,
                 max_session_value_bytes = DEFAULT_MAX_SESSION_VALUE_BYTES,
                 max_session_data_bytes = DEFAULT_MAX_SESSION_DATA_BYTES\<rparr>,
                SessionStore_new imax now))"

text \<open>\<open>owners\<close> is \<open>Arc::strong_count\<close> of the store: this handle, its clones and its middleware.\<close>

definition ensure_configurable :: "nat \<Rightarrow> SessionConfigError + unit" where
  "ensure_configurable owners = (if owners = 1 then Inr () else Inl SharedConfiguration)"

definition configured :: "nat \<Rightarrow> Sessions \<Rightarrow> SessionConfigError + Sessions" where
  "configured owners changed =
     (case ensure_configurable owners of Inl e \<Rightarrow> Inl e | Inr _ \<Rightarrow> Inr changed)"

definition try_cookie_name :: "nat \<Rightarrow> Sessions \<Rightarrow> string \<Rightarrow> SessionConfigError + Sessions" where
  "try_cookie_name owners ss name =
     (if \<not> is_valid_cookie_name name then Inl InvalidCookieName
      else configured owners (ss\<lparr>cookie_name := name\<rparr>))"

definition try_idle_timeout :: "nat \<Rightarrow> nat \<Rightarrow> nat \<Rightarrow> Sessions \<Rightarrow> nat \<Rightarrow> SessionConfigError + Sessions" where
  "try_idle_timeout imax now owners ss timeout =
     (if timeout = 0 \<or> instant_checked_add imax now timeout = None then Inl InvalidIdleTimeout
      else configured owners (ss\<lparr>idle_timeout := timeout\<rparr>))"

definition try_max_sessions :: "nat \<Rightarrow> Sessions \<Rightarrow> nat \<Rightarrow> SessionConfigError + Sessions" where
  "try_max_sessions owners ss n =
     (if n = 0 then Inl ZeroLimit else configured owners (ss\<lparr>max_sessions := n\<rparr>))"

definition try_max_entries_per_session :: "nat \<Rightarrow> Sessions \<Rightarrow> nat \<Rightarrow> SessionConfigError + Sessions" where
  "try_max_entries_per_session owners ss n =
     (if n = 0 then Inl ZeroLimit else configured owners (ss\<lparr>max_entries_per_session := n\<rparr>))"

definition try_max_session_key_bytes :: "nat \<Rightarrow> Sessions \<Rightarrow> nat \<Rightarrow> SessionConfigError + Sessions" where
  "try_max_session_key_bytes owners ss n =
     (if n = 0 then Inl ZeroLimit else configured owners (ss\<lparr>max_session_key_bytes := n\<rparr>))"

definition try_max_session_value_bytes :: "nat \<Rightarrow> Sessions \<Rightarrow> nat \<Rightarrow> SessionConfigError + Sessions" where
  "try_max_session_value_bytes owners ss n =
     (if n = 0 then Inl ZeroLimit else configured owners (ss\<lparr>max_session_value_bytes := n\<rparr>))"

definition try_max_session_data_bytes :: "nat \<Rightarrow> Sessions \<Rightarrow> nat \<Rightarrow> SessionConfigError + Sessions" where
  "try_max_session_data_bytes owners ss n =
     (if n = 0 then Inl ZeroLimit else configured owners (ss\<lparr>max_session_data_bytes := n\<rparr>))"

definition try_secure_cookies :: "nat \<Rightarrow> Sessions \<Rightarrow> bool \<Rightarrow> SessionConfigError + Sessions" where
  "try_secure_cookies owners ss secure = configured owners (ss\<lparr>force_secure_cookie := secure\<rparr>)"

definition try_same_site :: "nat \<Rightarrow> Sessions \<Rightarrow> SameSite \<Rightarrow> SessionConfigError + Sessions" where
  "try_same_site owners ss policy = configured owners (ss\<lparr>same_site := policy\<rparr>)"

definition data_limits :: "Sessions \<Rightarrow> SessionDataLimits" where
  "data_limits ss =
     \<lparr>lim_entries = max_entries_per_session ss, lim_key_bytes = max_session_key_bytes ss,
      lim_value_bytes = max_session_value_bytes ss, lim_total_bytes = max_session_data_bytes ss\<rparr>"

section \<open>Calls\<close>

record session_env =
  env_hash :: "string \<Rightarrow> nat"
  env_imax :: nat
  env_hmac :: "string \<Rightarrow> string \<Rightarrow> string"
  env_b64 :: "string \<Rightarrow> string"

text \<open>An id is the signature of \<open>nanos-count\<close>; the counter is an \<open>AtomicU64\<close>.\<close>

definition generate_id :: "session_env \<Rightarrow> Sessions \<Rightarrow> nat \<Rightarrow> nat \<Rightarrow> string" where
  "generate_id env ss nanos count =
     (let v = sign_value (env_hmac env) (env_b64 env) (secret ss) (show_nat nanos @ ''-'' @ show_nat count)
      in case rsplit_once (CHR ''.'') v of None \<Rightarrow> v | Some (_, sig) \<Rightarrow> sig)"

type_synonym session_state = "SessionStore \<times> nat"

definition sessions_len :: "session_state \<Rightarrow> nat \<Rightarrow> session_state \<times> nat" where
  "sessions_len st now = (case live_len (fst st) now of (s, n) \<Rightarrow> ((s, snd st), n))"

definition sessions_get ::
  "session_env \<Rightarrow> Sessions \<Rightarrow> session_state \<Rightarrow> string \<Rightarrow> string \<Rightarrow> nat \<Rightarrow> session_state \<times> string option" where
  "sessions_get env ss st sid key now =
     (case get (env_hash env) (env_imax env) (fst st) sid key now (idle_timeout ss) of
        (s, v) \<Rightarrow> ((s, snd st), v))"

definition sessions_set ::
  "session_env \<Rightarrow> Sessions \<Rightarrow> session_state \<Rightarrow> string \<Rightarrow> string \<Rightarrow> string \<Rightarrow> nat \<times> nat \<times> nat \<Rightarrow>
     session_state \<times> (SessionDataError + unit)" where
  "sessions_set env ss st sid key value now3 =
     (case set_value (env_hash env) (env_imax env) (fst st) sid key value now3 (idle_timeout ss)
             (max_sessions ss) (data_limits ss) of
        (s, r) \<Rightarrow> ((s, snd st), r))"

definition sessions_remove ::
  "session_env \<Rightarrow> Sessions \<Rightarrow> session_state \<Rightarrow> string \<Rightarrow> string \<Rightarrow> nat \<Rightarrow> session_state" where
  "sessions_remove env ss st sid key now =
     (remove_value (env_hash env) (env_imax env) (fst st) sid key now (idle_timeout ss), snd st)"

definition sessions_clear :: "session_env \<Rightarrow> session_state \<Rightarrow> string \<Rightarrow> session_state" where
  "sessions_clear env st sid = (clear (env_hash env) (fst st) sid, snd st)"

text \<open>The three clock readings are those of \<open>rotate\<close>, \<open>create\<close> and \<open>record_rotation\<close>.\<close>

definition regenerate ::
  "session_env \<Rightarrow> Sessions \<Rightarrow> session_state \<Rightarrow> string \<Rightarrow> nat \<Rightarrow> nat \<times> nat \<times> nat \<Rightarrow>
     session_state \<times> (SessionDataError + string)" where
  "regenerate env ss st sid nanos now3 =
     (let new_id = generate_id env ss nanos (snd st);
          count = fetch_add (snd st) 1;
          (now1, now2, now) = now3;
          (s1, rotated) = rotate (env_hash env) (env_imax env) (fst st) sid new_id now1 (idle_timeout ss);
          (s2, available) = (if rotated then (s1, True)
                             else create (env_hash env) (env_imax env) s1 new_id now2 (idle_timeout ss)
                                    (max_sessions ss))
      in if \<not> available then ((s2, count), Inl (SessionUnavailable, None))
         else ((record_rotation s2 sid new_id (max_sessions ss) now, count), Inr new_id))"

text \<open>The calls the middleware makes.\<close>

definition sessions_resume ::
  "session_env \<Rightarrow> Sessions \<Rightarrow> session_state \<Rightarrow> string \<Rightarrow> nat \<Rightarrow> session_state \<times> bool" where
  "sessions_resume env ss st sid now =
     (case resume (env_hash env) (env_imax env) (fst st) sid now (idle_timeout ss) of
        (s, b) \<Rightarrow> ((s, snd st), b))"

definition sessions_take_rotation :: "session_state \<Rightarrow> string \<Rightarrow> session_state \<times> string option" where
  "sessions_take_rotation st sid = (case take_rotation (fst st) sid of (s, r) \<Rightarrow> ((s, snd st), r))"

end
