(* ===== verification/Session_Props.thy ===== *)
theory Session_Props
  imports Sessions
begin

text \<open>
  Programs of session calls: the invariant and bounds every sequence of calls keeps, that
  the calls of other sessions never disturb a live one, and what \<open>regenerate\<close> achieves.
\<close>

section \<open>Programs\<close>

text \<open>A call with its first clock reading and the time that passes until each later one.\<close>

datatype session_call =
    CallLen nat
  | CallGet string string nat
  | CallSet string string string nat nat nat
  | CallRemove string string nat
  | CallClear string
  | CallRegenerate string nat nat nat nat
  | CallResume string nat
  | CallTakeRotation string

fun session_step :: "session_env \<Rightarrow> Sessions \<Rightarrow> session_state \<Rightarrow> session_call \<Rightarrow> session_state" where
  "session_step env ss st (CallLen now) = fst (sessions_len st now)"
| "session_step env ss st (CallGet sid key now) = fst (sessions_get env ss st sid key now)"
| "session_step env ss st (CallSet sid key v now d1 d2) =
     fst (sessions_set env ss st sid key v (now, now + d1, now + d1 + d2))"
| "session_step env ss st (CallRemove sid key now) = sessions_remove env ss st sid key now"
| "session_step env ss st (CallClear sid) = sessions_clear env st sid"
| "session_step env ss st (CallRegenerate sid nanos now d1 d2) =
     fst (regenerate env ss st sid nanos (now, now + d1, now + d1 + d2))"
| "session_step env ss st (CallResume sid now) = fst (sessions_resume env ss st sid now)"
| "session_step env ss st (CallTakeRotation sid) = fst (sessions_take_rotation st sid)"

definition session_run :: "session_env \<Rightarrow> Sessions \<Rightarrow> session_state \<Rightarrow> session_call list \<Rightarrow> session_state" where
  "session_run env ss = foldl (session_step env ss)"

text \<open>The last clock reading of a call, and the sessions it names or creates.\<close>

fun call_time :: "session_call \<Rightarrow> nat" where
  "call_time (CallLen now) = now"
| "call_time (CallGet sid key now) = now"
| "call_time (CallSet sid key v now d1 d2) = now + d1 + d2"
| "call_time (CallRemove sid key now) = now"
| "call_time (CallClear sid) = 0"
| "call_time (CallRegenerate sid nanos now d1 d2) = now + d1 + d2"
| "call_time (CallResume sid now) = now"
| "call_time (CallTakeRotation sid) = 0"

fun touches :: "session_env \<Rightarrow> Sessions \<Rightarrow> session_state \<Rightarrow> session_call \<Rightarrow> string set" where
  "touches env ss st (CallLen now) = {}"
| "touches env ss st (CallGet sid key now) = {sid}"
| "touches env ss st (CallSet sid key v now d1 d2) = {sid}"
| "touches env ss st (CallRemove sid key now) = {sid}"
| "touches env ss st (CallClear sid) = {sid}"
| "touches env ss st (CallRegenerate sid nanos now d1 d2) = {sid, generate_id env ss nanos (snd st)}"
| "touches env ss st (CallResume sid now) = {sid}"
| "touches env ss st (CallTakeRotation sid) = {}"

fun others_only ::
  "session_env \<Rightarrow> Sessions \<Rightarrow> nat \<Rightarrow> string \<Rightarrow> session_state \<Rightarrow> session_call list \<Rightarrow> bool" where
  "others_only env ss t sid st [] = True"
| "others_only env ss t sid st (c # cs) =
     (call_time c \<le> t \<and> sid \<notin> touches env ss st c \<and> others_only env ss t sid (session_step env ss st c) cs)"

section \<open>Invariant\<close>

definition data_ok :: "Sessions \<Rightarrow> (string \<times> string) list \<Rightarrow> bool" where
  "data_ok ss data \<longleftrightarrow>
     length data \<le> max_entries_per_session ss \<and> data_bytes data \<le> max_session_data_bytes ss \<and>
     (\<forall>(k, v) \<in> set data. k \<noteq> [] \<and> length k \<le> max_session_key_bytes ss \<and>
        length v \<le> max_session_value_bytes ss)"

definition all_data :: "((string \<times> string) list \<Rightarrow> bool) \<Rightarrow> session_map \<Rightarrow> bool" where
  "all_data P m \<longleftrightarrow> (\<forall>sid e. m sid = Some e \<longrightarrow> P (se_data e))"

definition session_inv :: "session_env \<Rightarrow> Sessions \<Rightarrow> session_state \<Rightarrow> bool" where
  "session_inv env ss st \<longleftrightarrow>
     max_sessions ss \<le> u64_max \<and> max_session_data_bytes ss \<le> u64_max \<and>
     store_ok (env_hash env) (fst st) \<and> entries (fst st) \<le> max_sessions ss \<and>
     length (rotations (fst st)) \<le> max_sessions ss \<and>
     all_data (data_ok ss) (sessions (env_hash env) (fst st))"

lemma all_data_purged: "purged now m m' \<Longrightarrow> all_data P m \<Longrightarrow> all_data P m'"
  unfolding all_data_def purged_def by (metis option.distinct(1))

lemma all_data_upd: "all_data P m \<Longrightarrow> P (se_data e) \<Longrightarrow> all_data P (m(sid \<mapsto> e))"
  by (simp add: all_data_def)

lemma all_data_drop: "all_data P m \<Longrightarrow> all_data P (m(sid := None))"
  by (simp add: all_data_def)

lemma all_data_live: "all_data P m \<Longrightarrow> live now m sid = Some e \<Longrightarrow> P (se_data e)"
  by (auto simp: all_data_def live_def split: option.splits if_splits)

lemma all_data_touch: "all_data P m \<Longrightarrow> all_data P (touch now x m sid)"
  using all_data_live [of P m now sid] by (auto simp: touch_def intro: all_data_upd split: option.split)

lemma data_ok_Nil: "data_ok ss []"
  by (simp add: data_ok_def data_bytes_def)

lemma data_ok_delete: "data_ok ss data \<Longrightarrow> data_ok ss (AList.delete k data)"
  using data_bytes_delete [of k data] delete_set_subset [of k data] length_delete_le [of k data]
  by (fastforce simp: data_ok_def)

lemma length_update_le:
  "length (AList.update k v data) \<le> (if map_of data k = None then Suc (length data) else length data)"
  by (induction data) auto

lemma data_ok_update:
  assumes "data_ok ss data" "validate_session_value k v (data_limits ss) = Inr ()"
    and "map_of data k = None \<longrightarrow> length data < max_entries_per_session ss"
    and "data_bytes (AList.update k v data) \<le> max_session_data_bytes ss"
  shows "data_ok ss (AList.update k v data)"
proof -
  have "k \<noteq> [] \<and> length k \<le> max_session_key_bytes ss \<and> length v \<le> max_session_value_bytes ss"
    using assms(2) by (auto simp: validate_session_value_def data_limits_def split: if_splits)
  then show ?thesis
    using assms(1,3,4) length_update_le [of k v data] set_update_subset [of k v data]
    by (fastforce simp: data_ok_def split: if_splits)
qed

lemma all_data_opened: "all_data (data_ok ss) m \<Longrightarrow> data_ok ss (se_data (opened imax idle now1 now2 m sid))"
  using all_data_live [of "data_ok ss" m now1 sid] by (auto simp: opened_def data_ok_Nil split: option.split)

lemma all_data_created: "all_data (data_ok ss) m \<Longrightarrow> data_ok ss (se_data (created now x m sid))"
  using all_data_live [of "data_ok ss" m now sid] by (auto simp: created_def data_ok_Nil split: option.split)

section \<open>Every call keeps the invariant\<close>

lemma len_inv: "session_inv env ss st \<Longrightarrow> session_inv env ss (fst (sessions_len st now))"
  using live_len_ok [of "env_hash env" "fst st" now] all_data_live [of "data_ok ss"]
  by (auto simp: session_inv_def sessions_len_def all_data_def split: prod.splits)

lemma get_inv: "session_inv env ss st \<Longrightarrow> session_inv env ss (fst (sessions_get env ss st sid key now))"
  using get_ok [of "env_hash env" "fst st" "env_imax env" sid key now "idle_timeout ss"]
  by (fastforce simp: session_inv_def sessions_get_def intro: all_data_purged all_data_touch split: prod.splits)

lemma resume_inv: "session_inv env ss st \<Longrightarrow> session_inv env ss (fst (sessions_resume env ss st sid now))"
  using resume_ok [of "env_hash env" "fst st" "env_imax env" sid now "idle_timeout ss"]
  by (fastforce simp: session_inv_def sessions_resume_def intro: all_data_purged all_data_touch split: prod.splits)

lemma clear_inv: "session_inv env ss st \<Longrightarrow> session_inv env ss (sessions_clear env st sid)"
  using clear_ok [of "env_hash env" "fst st" sid]
  by (auto simp: session_inv_def sessions_clear_def intro: all_data_drop)

lemma take_inv: "session_inv env ss st \<Longrightarrow> session_inv env ss (fst (sessions_take_rotation st sid))"
  using length_delete_le [of sid "rotations (fst st)"]
  by (auto simp: session_inv_def sessions_take_rotation_def take_rotation_def)

lemma remove_inv:
  assumes "session_inv env ss st"
  shows "session_inv env ss (sessions_remove env ss st sid key now)"
proof -
  let ?M = "sessions (env_hash env) (fst st)" and ?x = "expiry (env_imax env) now (idle_timeout ss)"
  have ok: "store_ok (env_hash env) (fst st)" and d: "all_data (data_ok ss) ?M"
    using assms by (simp_all add: session_inv_def)
  note r = remove_value_ok [OF ok refl, of "env_imax env" sid key now "idle_timeout ss"]
  have "all_data (data_ok ss) (case live now ?M sid of None \<Rightarrow> ?M
      | Some e \<Rightarrow> ?M(sid \<mapsto> e\<lparr>se_expires_at := ?x, se_data := AList.delete key (se_data e)\<rparr>))"
    using d by (auto intro!: all_data_upd data_ok_delete intro: all_data_live split: option.split)
  from all_data_purged [OF remove_value_ok(2) [OF ok refl] this] assms show ?thesis
    using remove_value_ok(1,3,4) [OF ok refl, of "env_imax env" sid key now "idle_timeout ss"]
    by (simp add: session_inv_def sessions_remove_def)
qed

lemma set_inv:
  assumes inv: "session_inv env ss st"
  shows "session_inv env ss (fst (sessions_set env ss st sid key v (now1, now1 + d1, now1 + d1 + d2)))"
proof -
  let ?h = "env_hash env" and ?M = "sessions (env_hash env) (fst st)"
  obtain s' result where w: "set_value ?h (env_imax env) (fst st) sid key v (now1, now1 + d1, now1 + d1 + d2)
      (idle_timeout ss) (max_sessions ss) (data_limits ss) = (s', result)" by fastforce
  have ok: "store_ok ?h (fst st)" and cap: "max_sessions ss \<le> u64_max" and d: "all_data (data_ok ss) ?M"
    and lim: "max_session_data_bytes ss \<le> u64_max" using inv by (simp_all add: session_inv_def)
  have le: "now1 \<le> now1 + d1" "now1 + d1 \<le> now1 + d1 + d2" by simp_all
  note s' = set_value_ok [OF ok cap le(1) w]
  let ?e = "opened (env_imax env) (idle_timeout ss) now1 (now1 + d1) ?M sid"
  note e = all_data_opened [OF d, of "env_imax env" "idle_timeout ss" now1 "now1 + d1" sid]
  from ok cap le w have "all_data (data_ok ss) (sessions ?h s')"
  proof (cases rule: set_value_cases)
    case (saved e')
    have "distinct (map fst (se_data ?e))"
      using shard_ok_entry [OF store_okD(3) [OF ok]]
      by (auto simp: opened_def live_def sessions_shard split: option.splits)
    from next_bytes_exact [OF this _ lim, of key v] saved(5) e lim
    have "data_bytes (AList.update key v (se_data ?e)) \<le> max_session_data_bytes ss"
      by (auto simp: data_limits_def data_ok_def split: if_splits)
    with data_ok_update [OF e saved(3)] saved(4) have "data_ok ss (se_data e')"
      by (simp add: saved(6) data_limits_def)
    with d saved(7) show ?thesis by (blast intro: all_data_purged all_data_upd)
  qed (use d e in \<open>auto intro: all_data_purged all_data_upd\<close>)
  with inv s' w show ?thesis by (simp add: session_inv_def sessions_set_def)
qed

lemma regenerate_cases:
  assumes inv: "session_inv env ss st"
    and r: "regenerate env ss st sid nanos (now1, now1 + d1, now1 + d1 + d2) = (st', result)"
  defines "M \<equiv> sessions (env_hash env) (fst st)" and "new \<equiv> generate_id env ss nanos (snd st)"
    and "M' \<equiv> sessions (env_hash env) (fst st')"
  obtains (moved) e where "live now1 M sid = Some e" "result = Inr new"
      "M' = M(sid := None, new \<mapsto>
         \<lparr>se_data = se_data e, se_expires_at = expiry (env_imax env) now1 (idle_timeout ss)\<rparr>)"
  | (admitted) M1 where "live now1 M sid = None" "result = Inr new" "purged now1 M M1" "M1 sid = None"
      "purged (now1 + d1) (M1(new \<mapsto>
         created (now1 + d1) (expiry (env_imax env) (now1 + d1) (idle_timeout ss)) M1 new)) M'"
  | (refused) "live now1 M sid = None" "result = Inl (SessionUnavailable, None)"
      "purged (now1 + d1) M M'" "M' sid = None"
proof -
  let ?h = "env_hash env" and ?i = "env_imax env"
  have ok: "store_ok ?h (fst st)" and cap: "max_sessions ss \<le> u64_max" using inv by (simp_all add: session_inv_def)
  obtain s1 rotated where ro: "rotate ?h ?i (fst st) sid new now1 (idle_timeout ss) = (s1, rotated)" by fastforce
  obtain s2 available where
    c: "(if rotated then (s1, True) else create ?h ?i s1 new (now1 + d1) (idle_timeout ss) (max_sessions ss)) =
      (s2, available)" by fastforce
  note r' = r [unfolded regenerate_def Let_def split_conv new_def [symmetric] ro c]
  note m = rotate_ok [OF ok ro, folded M_def]
  have s2: "M' = sessions ?h s2"
    using r' by (auto simp: M'_def record_rotation_def Let_def split: if_splits)
  show thesis
  proof (cases rotated)
    case True
    with m(2) obtain e where e: "live now1 M sid = Some e" by auto
    then have "M sid = Some e" by (auto simp: live_def split: option.splits if_splits)
    with True c r' m(3) e s2 show thesis by (intro moved) auto
  next
    case False
    then have none: "live now1 M sid = None" and p: "purged now1 M (sessions ?h s1)" "sessions ?h s1 sid = None"
      using m(2,4) by auto
    from False c have cr: "create ?h ?i s1 new (now1 + d1) (idle_timeout ss) (max_sessions ss) = (s2, available)" by simp
    note n = create_ok [OF m(1) cr cap]
    show thesis
    proof (cases available)
      case True
      with r' none p n(3) s2 show thesis by (intro admitted [of "sessions ?h s1"]) auto
    next
      case False
      have "purged (now1 + d1) M M'"
        using n(4) [OF False] purged_trans [OF purged_mono [OF p(1), of "now1 + d1"]] s2 by simp
      moreover have "M' sid = None" using n(4) [OF False] p(2) s2 by (auto dest: purged_None)
      ultimately show thesis using False r' none by (intro refused) auto
    qed
  qed
qed

lemma regenerate_inv:
  assumes inv: "session_inv env ss st"
  shows "session_inv env ss (fst (regenerate env ss st sid nanos (now1, now1 + d1, now1 + d1 + d2)))"
proof -
  let ?h = "env_hash env" and ?i = "env_imax env" and ?M = "sessions (env_hash env) (fst st)"
  let ?new = "generate_id env ss nanos (snd st)"
  obtain st' result where r: "regenerate env ss st sid nanos (now1, now1 + d1, now1 + d1 + d2) = (st', result)"
    by fastforce
  have ok: "store_ok ?h (fst st)" and cap: "max_sessions ss \<le> u64_max" and d: "all_data (data_ok ss) ?M"
    and n: "entries (fst st) \<le> max_sessions ss" using inv by (simp_all add: session_inv_def)
  obtain s1 rotated where ro: "rotate ?h ?i (fst st) sid ?new now1 (idle_timeout ss) = (s1, rotated)" by fastforce
  obtain s2 available where
    c: "(if rotated then (s1, True) else create ?h ?i s1 ?new (now1 + d1) (idle_timeout ss) (max_sessions ss)) =
      (s2, available)" by fastforce
  note m = rotate_ok [OF ok ro]
  have s2: "store_ok ?h s2 \<and> entries s2 \<le> max_sessions ss \<and> rotations s2 = rotations (fst st)"
    using c m(1,5,6) n create_ok(1,5,6) [OF m(1) _ cap] by (cases rotated) (auto intro: order_trans)
  have st': "fst st' = s2 \<or> fst st' = record_rotation s2 sid ?new (max_sessions ss) (now1 + d1 + d2)"
    using r [unfolded regenerate_def Let_def split_conv ro c] by (auto split: if_splits)
  have "length (filter P (rotations s2)) \<le> max_sessions ss" for P
    using s2 inv order_trans [OF length_filter_le [of P "rotations s2"]] by (auto simp: session_inv_def)
  then have "length (rotations (record_rotation s2 sid ?new (max_sessions ss) (now1 + d1 + d2))) \<le> max_sessions ss"
    using length_update_le [of sid "(?new, now1 + d1 + d2)" "filter (\<lambda>(_, _, at). now1 + d1 + d2 - at < ROTATION_RECORD_TTL) (rotations s2)"]
    by (auto simp: record_rotation_def Let_def split: if_splits)
  then have store: "store_ok ?h (fst st') \<and> entries (fst st') \<le> max_sessions ss \<and>
      length (rotations (fst st')) \<le> max_sessions ss"
    using st' s2 inv by (auto simp: record_rotation_def Let_def session_inv_def)
  from inv r have "all_data (data_ok ss) (sessions ?h (fst st'))"
  proof (cases rule: regenerate_cases)
    case (moved e)
    then show ?thesis using d by (auto intro!: all_data_upd all_data_drop intro: all_data_live)
  next
    case (admitted M1)
    have "all_data (data_ok ss) M1" using all_data_purged [OF admitted(3) d] .
    with admitted(5) all_data_created show ?thesis by (blast intro: all_data_purged all_data_upd)
  next
    case refused
    then show ?thesis using d all_data_purged by blast
  qed
  with store inv r show ?thesis by (simp add: session_inv_def)
qed

lemmas call_invs = len_inv get_inv set_inv remove_inv clear_inv regenerate_inv resume_inv take_inv

interpretation session: invariant_system "session_step env ss" "session_inv env ss" for env ss
proof
  fix st c
  assume "session_inv env ss st"
  then show "session_inv env ss (session_step env ss st c)" by (cases c) (simp_all add: call_invs)
qed

section \<open>Other sessions are not disturbed\<close>

lemma live_frame:
  assumes "purged now m1 m'" "now \<le> t" "m1 sid = m sid"
  shows "live t m' sid = live t m sid"
  using purged_live [OF purged_mono [OF assms(1,2)]] assms(3) by (metis live_def)

lemma step_frame:
  assumes inv: "session_inv env ss st" and "call_time c \<le> t" "sid \<notin> touches env ss st c"
  shows "live t (sessions (env_hash env) (fst (session_step env ss st c))) sid =
         live t (sessions (env_hash env) (fst st)) sid"
proof -
  let ?h = "env_hash env" and ?M = "sessions (env_hash env) (fst st)"
  have ok: "store_ok ?h (fst st)" and cap: "max_sessions ss \<le> u64_max" using inv by (simp_all add: session_inv_def)
  show ?thesis
  proof (cases c)
    case (CallLen now)
    obtain s' n where l: "live_len (fst st) now = (s', n)" by fastforce
    have "live t (live now ?M) sid = live t ?M sid"
      using assms(2) CallLen by (auto simp: live_def split: option.split)
    then show ?thesis using CallLen l live_len_ok(2) [OF ok l] by (simp add: sessions_len_def)
  next
    case (CallGet x key now)
    obtain s' v where g: "get ?h (env_imax env) (fst st) x key now (idle_timeout ss) = (s', v)" by fastforce
    from live_frame [OF get_ok(2) [OF ok g], of t sid ?M] assms(2,3) CallGet g show ?thesis
      by (simp add: sessions_get_def touch_def split: option.split)
  next
    case (CallResume x now)
    obtain s' b where g: "resume ?h (env_imax env) (fst st) x now (idle_timeout ss) = (s', b)" by fastforce
    from live_frame [OF resume_ok(2) [OF ok g], of t sid ?M] assms(2,3) CallResume g show ?thesis
      by (simp add: sessions_resume_def touch_def split: option.split)
  next
    case (CallRemove x key now)
    from live_frame [OF remove_value_ok(2) [OF ok refl], where t = t and sid = sid and m = ?M]
      assms(2,3) CallRemove show ?thesis
      by (simp add: sessions_remove_def split: option.split)
  next
    case (CallClear x)
    with clear_ok(2) [OF ok, of x] assms(3) show ?thesis by (simp add: sessions_clear_def live_def)
  next
    case (CallTakeRotation x)
    then show ?thesis by (simp add: sessions_take_rotation_def take_rotation_def)
  next
    case (CallSet x key v now d1 d2)
    obtain s' r where w: "set_value ?h (env_imax env) (fst st) x key v (now, now + d1, now + d1 + d2)
      (idle_timeout ss) (max_sessions ss) (data_limits ss) = (s', r)" by fastforce
    have le: "now \<le> now + d1" "now + d1 \<le> now + d1 + d2" by simp_all
    have t: "now + d1 + d2 \<le> t" and x: "sid \<noteq> x" using assms(2,3) CallSet by simp_all
    from ok cap le w have "live t (sessions ?h s') sid = live t ?M sid"
      by (cases rule: set_value_cases) (use t x in \<open>auto intro: live_frame\<close>)
    with CallSet w show ?thesis by (simp add: sessions_set_def)
  next
    case (CallRegenerate x nanos now d1 d2)
    obtain st' r where g: "regenerate env ss st x nanos (now, now + d1, now + d1 + d2) = (st', r)" by fastforce
    have t: "now + d1 \<le> t" "now \<le> t" and x: "sid \<noteq> x" "sid \<noteq> generate_id env ss nanos (snd st)"
      using assms(2,3) CallRegenerate by simp_all
    from inv g have "live t (sessions ?h (fst st')) sid = live t ?M sid"
    proof (cases rule: regenerate_cases)
      case (moved e)
      with x show ?thesis by (simp add: live_def)
    next
      case (admitted M1)
      have "live t M1 sid = live t ?M sid" using live_frame [OF admitted(3) t(2), where sid = sid and m = ?M] by simp
      with live_frame [OF admitted(5) t(1), of sid M1] x show ?thesis by simp
    next
      case refused
      then show ?thesis using live_frame [OF refused(3) t(1), where sid = sid and m = ?M] by simp
    qed
    with CallRegenerate g show ?thesis by simp
  qed
qed

lemma run_frame:
  assumes "session_inv env ss st" "others_only env ss t sid st cs"
  shows "live t (sessions (env_hash env) (fst (session_run env ss st cs))) sid =
         live t (sessions (env_hash env) (fst st)) sid"
  using assms
proof (induction cs arbitrary: st)
  case (Cons c cs)
  then show ?case using Cons.IH [OF session.step_inv [OF Cons.prems(1)]] step_frame [OF Cons.prems(1)]
    by (simp add: session_run_def)
qed (simp add: session_run_def)

section \<open>Properties\<close>

lemma new_store_inv:
  assumes "SessionStore_new imax now = Val s" "max_sessions ss \<le> u64_max" "max_session_data_bytes ss \<le> u64_max"
  shows "session_inv env ss (s, count)" "sessions hash s = (\<lambda>_. None)"
proof -
  have s: "shards s = replicate SESSION_STORE_SHARDS SessionShard_default" "entries s = 0"
    "cleanup_shard (maintenance s) = 0" "rotations s = []"
    using assms(1) by (auto simp: SessionStore_new_def split: option.splits)
  show "sessions hash s = (\<lambda>_. None)"
  proof
    fix sid
    have "hash sid mod SESSION_STORE_SHARDS < SESSION_STORE_SHARDS" by (simp add: SESSION_STORE_SHARDS_def)
    then show "sessions hash s sid = None" by (simp add: sessions_def look_def s(1) SessionShard_default_def)
  qed
  moreover have "store_ok hash s" for hash
    using s by (auto simp: store_ok_def shards_ok_def shard_ok_def stored_def SessionShard_default_def
        index_exact_def sum_list_replicate SESSION_STORE_SHARDS_def u64_max_def)
  ultimately show "session_inv env ss (s, count)"
    using assms(2,3) s by (auto simp: session_inv_def all_data_def sessions_def look_def SessionShard_default_def
        SESSION_STORE_SHARDS_def)
qed

text \<open>
  Claim C9: whatever sequence of calls is made on a new session store, the expiry index of every
  shard lists exactly its entries, the atomic counter equals the number of stored sessions, that
  number never passes \<open>max_sessions\<close>, nor does the number of rotation records, and every session
  keeps within the configured number of entries and bytes.
\<close>

theorem session_program_bounded:
  assumes "SessionStore_new (env_imax env) t0 = Val s0"
    and "max_sessions ss \<le> u64_max" "max_session_data_bytes ss \<le> u64_max"
  shows "let s = fst (session_run env ss (s0, count) calls) in
    list_all (\<lambda>shard. index_exact (sh_entries shard) (sh_expiry shard)) (shards s) \<and>
    entries s = card (dom (sessions (env_hash env) s)) \<and> entries s \<le> max_sessions ss \<and>
    length (rotations s) \<le> max_sessions ss \<and>
    (\<forall>sid e. sessions (env_hash env) s sid = Some e \<longrightarrow>
       length (se_data e) \<le> max_entries_per_session ss \<and> data_bytes (se_data e) \<le> max_session_data_bytes ss)"
proof -
  let ?s = "fst (session_run env ss (s0, count) calls)"
  have inv: "session_inv env ss (session_run env ss (s0, count) calls)"
    unfolding session_run_def by (rule session.run_inv [OF new_store_inv(1) [OF assms]])
  then have ok: "store_ok (env_hash env) ?s" by (simp add: session_inv_def)
  have "list_all (\<lambda>shard. index_exact (sh_entries shard) (sh_expiry shard)) (shards ?s)"
    using store_okD(1) [OF ok] by (auto simp: list_all_length shards_ok_def shard_ok_def)
  moreover have "\<forall>sid e. sessions (env_hash env) ?s sid = Some e \<longrightarrow>
      length (se_data e) \<le> max_entries_per_session ss \<and> data_bytes (se_data e) \<le> max_session_data_bytes ss"
    using inv by (auto simp: session_inv_def all_data_def data_ok_def)
  ultimately show ?thesis
    using inv entries_card [OF ok] by (simp add: session_inv_def Let_def)
qed

definition demo_env :: session_env where
  "demo_env = \<lparr>env_hash = length, env_imax = seconds 1000000, env_hmac = (\<lambda>k v. v), env_b64 = (\<lambda>x. x)\<rparr>"

definition demo_sessions :: Sessions where
  "demo_sessions = \<lparr>secret = replicate 32 (CHR ''s''), cookie_name = ''sid'', same_site = Lax,
     force_secure_cookie = False, idle_timeout = seconds 100, max_sessions = 2, max_entries_per_session = 2,
     max_session_key_bytes = 8, max_session_value_bytes = 8, max_session_data_bytes = 16\<rparr>"

definition demo_store :: SessionStore where
  "demo_store = (case SessionStore_new (seconds 1000000) 0 of Val s \<Rightarrow> s)"

lemma demo_new: "SessionStore_new (env_imax demo_env) 0 = Val demo_store"
  by (simp add: demo_store_def demo_env_def SessionStore_new_def instant_checked_add_def STORE_CLEANUP_INTERVAL_def)

lemma demo_limits: "max_sessions demo_sessions \<le> u64_max" "max_session_data_bytes demo_sessions \<le> u64_max"
  by (simp_all add: demo_sessions_def u64_max_def)

theorem session_program_bounded_witness:
  "entries (fst (session_run demo_env demo_sessions (demo_store, 1)
     [CallSet ''a'' ''k'' ''v'' 0 1 1, CallSet ''b'' ''k'' ''v'' 5 1 1, CallSet ''c'' ''k'' ''v'' 9 1 1])) \<le> 2"
  using session_program_bounded [OF demo_new demo_limits, of 1
      "[CallSet ''a'' ''k'' ''v'' 0 1 1, CallSet ''b'' ''k'' ''v'' 5 1 1, CallSet ''c'' ''k'' ''v'' 9 1 1]"]
  by (simp add: Let_def demo_sessions_def)

text \<open>
  Claim C10: a value stored in a session is returned by \<open>get\<close> as long as the session has not
  been idle for \<open>idle_timeout\<close>, whatever calls are made meanwhile on other sessions: neither
  cleaning, nor a full store, nor another session's rotation evicts a live session.
\<close>

theorem session_value_persists:
  assumes inv: "session_inv env ss st"
    and set: "sessions_set env ss st sid key v (now, now + d1, now + d1 + d2) = (st', Inr ())"
    and others: "others_only env ss t sid st' calls"
    and idle: "t < now + idle_timeout ss" "now + d1 + idle_timeout ss \<le> env_imax env"
  shows "snd (sessions_get env ss (session_run env ss st' calls) sid key t) = Some v"
proof -
  let ?h = "env_hash env" and ?i = "env_imax env"
  obtain s' where w: "set_value ?h ?i (fst st) sid key v (now, now + d1, now + d1 + d2) (idle_timeout ss)
      (max_sessions ss) (data_limits ss) = (s', Inr ())" and st': "st' = (s', snd st)"
    using set by (auto simp: sessions_set_def split: prod.splits)
  have ok: "store_ok ?h (fst st)" and cap: "max_sessions ss \<le> u64_max" using inv by (simp_all add: session_inv_def)
  have le: "now \<le> now + d1" "now + d1 \<le> now + d1 + d2" by simp_all
  from ok cap le w obtain e where e: "sessions ?h s' sid = Some e" "map_of (se_data e) key = Some v"
    "se_expires_at e = se_expires_at (opened ?i (idle_timeout ss) now (now + d1) (sessions ?h (fst st)) sid)"
    by (cases rule: set_value_cases) (auto simp: update_conv')
  have "t < se_expires_at e"
    using e(3) idle by (auto simp: opened_def expiry_def instant_checked_add_def split: option.split)
  then have live: "live t (sessions ?h s') sid = Some e" using e(1) by (simp add: live_def)
  have inv': "session_inv env ss st'"
    using set_inv [OF inv, of sid key v now d1 d2] set by simp
  have "live t (sessions ?h (fst (session_run env ss st' calls))) sid = Some e"
    using run_frame [OF inv' others] live st' by simp
  moreover have "store_ok ?h (fst (session_run env ss st' calls))"
    using session.run_inv [OF inv', of calls] by (simp add: session_run_def session_inv_def)
  ultimately show ?thesis
    using get_ok(3) e(2) by (fastforce simp: sessions_get_def split: prod.splits)
qed

theorem session_value_persists_witness:
  "snd (sessions_get demo_env demo_sessions
     (session_run demo_env demo_sessions
        (fst (sessions_set demo_env demo_sessions (demo_store, 1) ''a'' ''k'' ''v'' (0, 0 + 1, 0 + 1 + 1)))
        [CallSet ''b'' ''k'' ''w'' 5 1 1, CallRegenerate ''b'' 7 9 1 1]) ''a'' ''k'' 50) = Some ''v''"
proof -
  have set: "snd (sessions_set demo_env demo_sessions (demo_store, 1) ''a'' ''k'' ''v'' (0, 0 + 1, 0 + 1 + 1)) = Inr ()"
    and others: "others_only demo_env demo_sessions 50 ''a''
      (fst (sessions_set demo_env demo_sessions (demo_store, 1) ''a'' ''k'' ''v'' (0, 0 + 1, 0 + 1 + 1)))
      [CallSet ''b'' ''k'' ''w'' 5 1 1, CallRegenerate ''b'' 7 9 1 1]"
    and idle: "50 < 0 + idle_timeout demo_sessions" "0 + 1 + idle_timeout demo_sessions \<le> env_imax demo_env"
    by code_simp+
  from set have eq: "sessions_set demo_env demo_sessions (demo_store, 1) ''a'' ''k'' ''v'' (0, 0 + 1, 0 + 1 + 1) =
    (fst (sessions_set demo_env demo_sessions (demo_store, 1) ''a'' ''k'' ''v'' (0, 0 + 1, 0 + 1 + 1)), Inr ())"
    by (metis prod.collapse)
  show ?thesis
    by (rule session_value_persists [OF new_store_inv(1) [OF demo_new demo_limits] eq others idle])
qed

text \<open>
  A write is refused for want of a session only when the store is full of live ones.
  With clock readings less than \<open>idle_timeout\<close> apart, \<open>SessionUnavailable\<close> means that the
  session was not live and that exactly \<open>max_sessions\<close> sessions are live at the time of the
  admission: expired entries never keep a new session out, and none is evicted for it.
\<close>

theorem session_refused_only_when_full:
  assumes inv: "session_inv env ss st"
    and set: "sessions_set env ss st sid key v (now, now + d1, now + d1 + d2) = (st', Inl (SessionUnavailable, None))"
    and idle: "d1 + d2 < idle_timeout ss" "now + d1 + idle_timeout ss \<le> env_imax env"
  shows "live now (sessions (env_hash env) (fst st)) sid = None \<and>
    card (dom (live (now + d1) (sessions (env_hash env) (fst st)))) = max_sessions ss"
proof -
  let ?h = "env_hash env" and ?i = "env_imax env" and ?M = "sessions (env_hash env) (fst st)"
  obtain s' where w: "set_value ?h ?i (fst st) sid key v (now, now + d1, now + d1 + d2) (idle_timeout ss)
      (max_sessions ss) (data_limits ss) = (s', Inl (SessionUnavailable, None))" and st': "st' = (s', snd st)"
    using set by (auto simp: sessions_set_def split: prod.splits)
  have ok: "store_ok ?h (fst st)" and cap: "max_sessions ss \<le> u64_max" "entries (fst st) \<le> max_sessions ss"
    using inv by (simp_all add: session_inv_def)
  have le: "now \<le> now + d1" "now + d1 \<le> now + d1 + d2" by simp_all
  note s' = set_value_ok [OF ok cap(1) le(1) w]
  have fresh: "now + d1 + d2 < se_expires_at (opened ?i (idle_timeout ss) now (now + d1) ?M sid)"
    using idle by (auto simp: opened_def expiry_def instant_checked_add_def split: option.split)
  from ok cap(1) le w show ?thesis
  proof (cases rule: set_value_cases)
    case (invalid err)
    then show ?thesis by (auto simp: validate_session_value_def split: if_splits)
  next
    case refused
    then have "sessions ?h s' = live (now + d1) ?M" using live_dom [OF refused(5)] cap(2) by blast
    with entries_card [OF s'(1)] refused(2,3) s'(2) [OF cap(2)] show ?thesis by simp
  qed (use fresh in auto)
qed

theorem session_refused_only_when_full_witness:
  "live 9 (sessions (env_hash demo_env) (fst (session_run demo_env demo_sessions (demo_store, 1)
     [CallSet ''a'' ''k'' ''v'' 0 1 1, CallSet ''b'' ''k'' ''v'' 5 1 1]))) ''c'' = None"
proof -
  let ?st = "session_run demo_env demo_sessions (demo_store, 1)
     [CallSet ''a'' ''k'' ''v'' 0 1 1, CallSet ''b'' ''k'' ''v'' 5 1 1]"
  have inv: "session_inv demo_env demo_sessions ?st"
    unfolding session_run_def by (rule session.run_inv [OF new_store_inv(1) [OF demo_new demo_limits]])
  have set: "snd (sessions_set demo_env demo_sessions ?st ''c'' ''k'' ''v'' (9, 9 + 1, 9 + 1 + 1)) =
      Inl (SessionUnavailable, None)"
    and idle: "1 + 1 < idle_timeout demo_sessions" "9 + 1 + idle_timeout demo_sessions \<le> env_imax demo_env"
    by code_simp+
  from set have eq: "sessions_set demo_env demo_sessions ?st ''c'' ''k'' ''v'' (9, 9 + 1, 9 + 1 + 1) =
    (fst (sessions_set demo_env demo_sessions ?st ''c'' ''k'' ''v'' (9, 9 + 1, 9 + 1 + 1)),
     Inl (SessionUnavailable, None))"
    by (metis prod.collapse)
  show ?thesis using session_refused_only_when_full [OF inv eq idle] by simp
qed

text \<open>
  Writing to a live session decides exactly as documented. The checks come in order:
  empty key, key length, value length, the pair alone over the session's byte budget, one entry
  too many, and the exact number of bytes the session would then hold over the budget; the
  overflow-checked arithmetic never misjudges. On success the session holds the new value, keeps
  its other values and its idle time restarts; on an error its values are unchanged.
\<close>

theorem session_set_decision:
  assumes inv: "session_inv env ss st" and live: "live now (sessions (env_hash env) (fst st)) sid = Some e"
    and idle: "d1 + d2 < idle_timeout ss" "now + d1 + idle_timeout ss \<le> env_imax env"
    and set: "sessions_set env ss st sid key v (now, now + d1, now + d1 + d2) = (st', result)"
  shows "result =
    (if key = [] then Inl (EmptyKey, None)
     else if length key > max_session_key_bytes ss then Inl (KeyTooLarge, Some (max_session_key_bytes ss))
     else if length v > max_session_value_bytes ss then Inl (ValueTooLarge, Some (max_session_value_bytes ss))
     else if length key + length v > max_session_data_bytes ss
     then Inl (SessionTooLarge, Some (max_session_data_bytes ss))
     else if map_of (se_data e) key = None \<and> max_entries_per_session ss \<le> length (se_data e)
     then Inl (TooManyEntries, Some (max_entries_per_session ss))
     else if data_bytes (AList.update key v (se_data e)) > max_session_data_bytes ss
     then Inl (SessionTooLarge, Some (max_session_data_bytes ss))
     else Inr ()) \<and>
    map_option (map_of \<circ> se_data) (sessions (env_hash env) (fst st') sid) =
      Some (if result = Inr () then (map_of (se_data e))(key \<mapsto> v) else map_of (se_data e))"
proof -
  let ?h = "env_hash env" and ?i = "env_imax env" and ?M = "sessions (env_hash env) (fst st)"
  obtain s' where w: "set_value ?h ?i (fst st) sid key v (now, now + d1, now + d1 + d2) (idle_timeout ss)
      (max_sessions ss) (data_limits ss) = (s', result)" and st': "st' = (s', snd st)"
    using set by (auto simp: sessions_set_def split: prod.splits)
  have ok: "store_ok ?h (fst st)" and cap: "max_sessions ss \<le> u64_max" and d: "all_data (data_ok ss) ?M"
    and lim: "max_session_data_bytes ss \<le> u64_max" using inv by (simp_all add: session_inv_def)
  have le: "now \<le> now + d1" "now + d1 \<le> now + d1 + d2" by simp_all
  have M: "?M sid = Some e" using live by (auto simp: live_def split: option.splits if_splits)
  let ?o = "opened ?i (idle_timeout ss) now (now + d1) ?M sid"
  have op: "se_data ?o = se_data e" "now + d1 + d2 < se_expires_at ?o"
    using live idle by (auto simp: opened_def expiry_def instant_checked_add_def)
  have "distinct (map fst (se_data e))"
    using shard_ok_entry [OF store_okD(3) [OF ok]] M by (simp add: sessions_shard)
  moreover have "data_bytes (se_data e) \<le> u64_max"
    using all_data_live [OF d live] lim by (simp add: data_ok_def)
  ultimately have nb: "next_bytes (se_data e) key v (max_session_data_bytes ss) = None \<longleftrightarrow>
      max_session_data_bytes ss < data_bytes (AList.update key v (se_data e))"
    using next_bytes_exact [OF _ _ lim] by auto
  have val: "validate_session_value key v (data_limits ss) =
    (if key = [] then Inl (EmptyKey, None)
     else if length key > max_session_key_bytes ss then Inl (KeyTooLarge, Some (max_session_key_bytes ss))
     else if length v > max_session_value_bytes ss then Inl (ValueTooLarge, Some (max_session_value_bytes ss))
     else if length key + length v > max_session_data_bytes ss
     then Inl (SessionTooLarge, Some (max_session_data_bytes ss)) else Inr ())"
    using validate_exact [of "data_limits ss" key v] lim by (simp add: data_limits_def)
  from ok cap le w show ?thesis
  proof (cases rule: set_value_cases)
    case (invalid err)
    then show ?thesis using M st' unfolding val by (auto split: if_splits)
  next
    case crowded
    then show ?thesis using op st' unfolding val by (auto simp: data_limits_def split: if_splits)
  next
    case oversize
    then show ?thesis using op nb st' unfolding val by (auto simp: data_limits_def split: if_splits)
  next
    case (saved e')
    then show ?thesis using op nb st' unfolding val by (auto simp: data_limits_def update_conv' split: if_splits)
  qed (use live op in auto)
qed

text \<open>A session holding one value, for the witnesses.\<close>

definition demo_state :: session_state where
  "demo_state = session_run demo_env demo_sessions (demo_store, 1) [CallSet ''a'' ''k'' ''v'' 0 1 1]"

lemma demo_state_inv: "session_inv demo_env demo_sessions demo_state"
  unfolding demo_state_def session_run_def by (rule session.run_inv [OF new_store_inv(1) [OF demo_new demo_limits]])

lemma demo_state_live:
  "live 9 (sessions (env_hash demo_env) (fst demo_state)) ''a'' =
     Some \<lparr>se_data = [(''k'', ''v'')], se_expires_at = seconds 100 + 1\<rparr>"
  by code_simp

theorem session_set_decision_witness:
  "snd (sessions_set demo_env demo_sessions demo_state ''a'' ''key2'' ''12345678'' (9, 9 + 1, 9 + 1 + 1)) = Inr () \<and>
   snd (sessions_set demo_env demo_sessions demo_state ''a'' ''key2345'' ''12345678'' (9, 9 + 1, 9 + 1 + 1)) =
     Inl (SessionTooLarge, Some 16)"
proof -
  have idle: "1 + 1 < idle_timeout demo_sessions" "9 + 1 + idle_timeout demo_sessions \<le> env_imax demo_env"
    by code_simp+
  note w = session_set_decision [OF demo_state_inv demo_state_live idle surjective_pairing]
  from w [of "''key2''" "''12345678''"] w [of "''key2345''" "''12345678''"] show ?thesis
    by (simp add: demo_sessions_def data_bytes_def)
qed

text \<open>
  \<open>regenerate\<close> defeats session fixation. Whatever it returns, nothing is stored under the
  old id any more; a live session moves, with all its data and a restarted idle time, to the
  returned new id, and no third session changes.
\<close>

theorem regenerate_moves_session:
  assumes inv: "session_inv env ss st"
    and r: "regenerate env ss st sid nanos (now, now + d1, now + d1 + d2) = (st', result)"
    and new: "generate_id env ss nanos (snd st) \<noteq> sid"
  shows "sessions (env_hash env) (fst st') sid = None \<and>
    (\<forall>e. live now (sessions (env_hash env) (fst st)) sid = Some e \<longrightarrow>
       result = Inr (generate_id env ss nanos (snd st)) \<and>
       sessions (env_hash env) (fst st') = (sessions (env_hash env) (fst st))
         (sid := None, generate_id env ss nanos (snd st) \<mapsto>
            \<lparr>se_data = se_data e, se_expires_at = expiry (env_imax env) now (idle_timeout ss)\<rparr>))"
  using inv r
proof (cases rule: regenerate_cases)
  case (moved e)
  then show ?thesis using new by simp
next
  case (admitted M1)
  then show ?thesis using new purged_None [OF admitted(5), of sid] by simp
next
  case refused
  then show ?thesis by simp
qed

theorem regenerate_moves_session_witness:
  "sessions (env_hash demo_env)
     (fst (fst (regenerate demo_env demo_sessions demo_state ''a'' 7 (9, 9 + 1, 9 + 1 + 1)))) ''a'' = None \<and>
   snd (regenerate demo_env demo_sessions demo_state ''a'' 7 (9, 9 + 1, 9 + 1 + 1)) = Inr ''7-1''"
proof -
  have new: "generate_id demo_env demo_sessions 7 (snd demo_state) \<noteq> ''a''"
    "generate_id demo_env demo_sessions 7 (snd demo_state) = ''7-1''" by code_simp+
  show ?thesis
    using regenerate_moves_session [OF demo_state_inv
        surjective_pairing [of "regenerate demo_env demo_sessions demo_state ''a'' 7 (9, 9 + 1, 9 + 1 + 1)"] new(1)]
      demo_state_live new(2) by simp
qed

end
