(* ===== verification/Trim.thy ===== *)
theory Trim
  imports Prelude
begin

text \<open>
  Lemmas on \<open>str::trim\<close>: the result has no white space at either end, trimming it again changes
  nothing, and an ASCII character shields what lies behind it.
\<close>

definition ws1 :: "char \<Rightarrow> bool" where
  "ws1 a \<longleftrightarrow> (9 \<le> code a \<and> code a \<le> 13) \<or> code a = 32"

definition ws2 :: "char \<Rightarrow> char \<Rightarrow> bool" where
  "ws2 a b \<longleftrightarrow> code a = 194 \<and> (code b = 133 \<or> code b = 160)"

definition ws3 :: "char \<Rightarrow> char \<Rightarrow> char \<Rightarrow> bool" where
  "ws3 a b c \<longleftrightarrow> (code a = 225 \<and> code b = 154 \<and> code c = 128)
     \<or> (code a = 226 \<and> code b = 128 \<and>
         ((128 \<le> code c \<and> code c \<le> 138) \<or> code c = 168 \<or> code c = 169 \<or> code c = 175))
     \<or> (code a = 226 \<and> code b = 129 \<and> code c = 159)
     \<or> (code a = 227 \<and> code b = 128 \<and> code c = 128)"

lemma ws_len_simps:
  "ws_len [] = 0"
  "ws_len [a] = (if ws1 a then 1 else 0)"
  "ws_len [a, b] = (if ws1 a then 1 else if ws2 a b then 2 else 0)"
  "ws_len (a # b # c # r) = (if ws1 a then 1 else if ws2 a b then 2 else if ws3 a b c then 3 else 0)"
  by (simp_all add: ws_len_def ws1_def ws2_def ws3_def)

lemma ws_len_Cons1: "ws1 a \<Longrightarrow> ws_len (a # r) = 1"
  by (simp add: ws_len_def ws1_def)

lemma ws_ascii:
  "code b < 128 \<Longrightarrow> \<not> ws2 a b" "code b < 128 \<Longrightarrow> \<not> ws3 a b c" "code c < 128 \<Longrightarrow> \<not> ws3 a b c"
  "code a < 128 \<Longrightarrow> \<not> ws2 a b" "code a < 128 \<Longrightarrow> \<not> ws3 a b c"
  by (auto simp: ws2_def ws3_def)

lemma list3_cases:
  obtains "s = []" | a where "s = [a]" | a b where "s = [a, b]" | a b c r where "s = a # b # c # r"
  by (metis neq_Nil_conv)

lemma ws_len_ascii: "code c < 128 \<Longrightarrow> \<not> ws1 c \<Longrightarrow> ws_len (c # r) = 0"
  by (cases "c # r" rule: list3_cases) (auto simp: ws_len_simps ws_ascii)

lemma ws_len_append: "0 < ws_len a \<Longrightarrow> ws_len (a @ b) = ws_len a"
proof (cases a rule: list3_cases)
  case (3 x y)
  then show "0 < ws_len a \<Longrightarrow> ?thesis" by (cases b) (auto simp: ws_len_simps split: if_splits)
qed (auto simp: ws_len_simps ws_len_Cons1 split: if_splits)

lemma ws_len_before_ascii: "ws_len a = 0 \<Longrightarrow> a \<noteq> [] \<Longrightarrow> code c < 128 \<Longrightarrow> ws_len (a @ c # b) = 0"
proof (cases a rule: list3_cases)
  case (2 x)
  assume "ws_len a = 0" "code c < 128"
  with 2 show ?thesis by (cases b) (auto simp: ws_len_simps ws_ascii split: if_splits)
qed (auto simp: ws_len_simps ws_ascii split: if_splits)

lemma ws_len_back_simps:
  "ws_len_back [] = 0"
  "ws_len_back [a] = (if ws1 a then 1 else 0)"
  "ws_len_back [b, a] = (if ws1 b then 1 else if ws2 a b then 2 else 0)"
  "ws_len_back (c # b # a # r) = (if ws1 c then 1 else if ws2 b c then 2 else if ws3 a b c then 3 else 0)"
  by (auto simp: ws_len_back_def ws_len_simps numeral_2_eq_2 numeral_3_eq_3 ws1_def ws2_def ws3_def)

lemma ws_len_back_Cons1: "ws1 a \<Longrightarrow> ws_len_back (a # r) = 1"
  by (cases "a # r" rule: list3_cases) (auto simp: ws_len_back_simps)

lemma ws_len_back_ascii: "code c < 128 \<Longrightarrow> \<not> ws1 c \<Longrightarrow> ws_len_back (c # r) = 0"
  by (cases "c # r" rule: list3_cases) (auto simp: ws_len_back_simps ws_ascii)

lemma ws_len_back_append: "0 < ws_len_back a \<Longrightarrow> ws_len_back (a @ b) = ws_len_back a"
proof (cases a rule: list3_cases)
  case (3 x y)
  then show "0 < ws_len_back a \<Longrightarrow> ?thesis" by (cases b) (auto simp: ws_len_back_simps split: if_splits)
qed (auto simp: ws_len_back_simps ws_len_back_Cons1 split: if_splits)

lemma ws_len_back_before_ascii:
  "ws_len_back a = 0 \<Longrightarrow> a \<noteq> [] \<Longrightarrow> code c < 128 \<Longrightarrow> ws_len_back (a @ c # b) = 0"
proof (cases a rule: list3_cases)
  case (2 x)
  assume "ws_len_back a = 0" "code c < 128"
  with 2 show ?thesis by (cases b) (auto simp: ws_len_back_simps ws_ascii split: if_splits)
qed (auto simp: ws_len_back_simps ws_ascii split: if_splits)

section \<open>Trimmed strings\<close>

definition trimmed :: "string \<Rightarrow> bool" where
  "trimmed s \<longleftrightarrow> ws_len s = 0 \<and> ws_len_back (rev s) = 0"

lemma trim_start_front: "ws_len (trim_start s) = 0"
proof (induction s rule: trim_start.induct)
  case (1 s)
  then show ?case by (subst trim_start.simps) (auto simp: ws_len_simps)
qed

lemma trim_back_front: "ws_len_back (trim_back s) = 0"
proof (induction s rule: trim_back.induct)
  case (1 s)
  then show ?case by (subst trim_back.simps) (auto simp: ws_len_back_simps)
qed

lemma trim_back_suffix: "\<exists>p. s = p @ trim_back s"
proof (induction s rule: trim_back.induct)
  case (1 s)
  show ?case
  proof (cases "ws_len_back s = 0 \<or> s = []")
    case True
    then show ?thesis by (simp add: trim_back.simps)
  next
    case False
    with 1 obtain p where "drop (ws_len_back s) s = p @ trim_back (drop (ws_len_back s) s)" by blast
    then have "s = (take (ws_len_back s) s @ p) @ trim_back (drop (ws_len_back s) s)"
      by (metis append.assoc append_take_drop_id)
    then show ?thesis using False by (metis trim_back.simps)
  qed
qed

lemma trimmed_trim: "trimmed (trim s)"
proof -
  let ?t = "trim_start s"
  obtain p where p: "rev ?t = p @ trim_back (rev ?t)" using trim_back_suffix by blast
  then have eq: "?t = rev (trim_back (rev ?t)) @ rev p" by (metis rev_append rev_rev_ident)
  have "ws_len (rev (trim_back (rev ?t))) = 0"
    using ws_len_append [of "rev (trim_back (rev ?t))" "rev p"] eq trim_start_front [of s] by (metis not_gr_zero)
  then show ?thesis by (simp add: trimmed_def trim_def trim_end_def trim_back_front)
qed

lemma trim_trimmed: "trimmed s \<Longrightarrow> trim s = s"
  by (simp add: trimmed_def trim_def trim_end_def trim_start.simps [of s] trim_back.simps [of "rev s"])

lemma trim_space: "trim (CHR '' '' # s) = trim s"
  by (simp add: trim_def trim_start.simps [of "CHR '' '' # s"] ws_len_Cons1 ws1_def)

lemma trimmed_Nil [simp]: "trimmed []"
  by (simp add: trimmed_def ws_len_simps ws_len_back_simps)

lemma trim_Nil [simp]: "trim [] = []"
  by (simp add: trim_trimmed)

lemma trimmed_ascii:
  assumes "list_all (\<lambda>c. code c < 128 \<and> \<not> ws1 c) s"
  shows "trimmed s"
proof (cases s)
  case (Cons a r)
  obtain z t where r: "rev s = z # t" using Cons by (cases "rev s") auto
  then have "z \<in> set s" by (metis list.set_intros(1) set_rev)
  then have "ws_len_back (rev s) = 0" using assms r by (auto simp: list_all_iff ws_len_back_ascii)
  then show ?thesis using assms Cons by (simp add: trimmed_def ws_len_ascii)
qed simp

lemma trimmed_join:
  assumes "trimmed a" "trimmed b" "code c < 128" "\<not> ws1 c"
  shows "trimmed (a @ c # b)"
proof -
  have "ws_len (a @ c # b) = 0"
    using assms by (cases "a = []") (auto simp: trimmed_def ws_len_ascii ws_len_before_ascii)
  moreover have "ws_len_back (rev b @ c # rev a) = 0"
    using assms by (cases "b = []") (auto simp: trimmed_def ws_len_back_ascii ws_len_back_before_ascii)
  ultimately show ?thesis by (simp add: trimmed_def)
qed

lemma set_trim: "set (trim s) \<subseteq> set s"
proof -
  obtain p where p: "rev (trim_start s) = p @ trim_back (rev (trim_start s))" using trim_back_suffix by blast
  have "set (trim_start x) \<subseteq> set x" for x
  proof (induction x rule: trim_start.induct)
    case (1 s)
    then show ?case by (subst trim_start.simps) (auto dest: in_set_dropD)
  qed
  moreover have "set (trim_back (rev (trim_start s))) \<subseteq> set (trim_start s)"
    using p by (metis set_append set_rev sup_ge2)
  ultimately show ?thesis by (auto simp: trim_def trim_end_def)
qed

end
