(* ===== verification/Http_Types.thy ===== *)
theory Http_Types
  imports Prelude "HOL-Library.AList"
begin

text \<open>
  The vocabulary of HTTP messages that the framework takes from the crates \<open>http\<close> and
  \<open>serde_json\<close>. A \<open>HeaderMap\<close> is the list of its fields, names in lower case; the order of
  different names means nothing, the order of the values of one name is theirs. A
  \<open>StatusCode\<close> is its number and a \<open>HeaderValue\<close> its bytes. What the crates decide (which names,
  values and numbers are valid, how a problem document is rendered) is an argument \<open>http\<close> of
  the definitions that need it, and \<open>http_laws\<close> states the documented behaviour that is relied on.
\<close>

section \<open>Header maps\<close>

type_synonym HeaderMap = "(string \<times> string) list"

definition hm_get_all :: "HeaderMap \<Rightarrow> string \<Rightarrow> string list" where
  "hm_get_all h name = map snd (filter (\<lambda>(n, _). n = name) h)"

definition hm_get :: "HeaderMap \<Rightarrow> string \<Rightarrow> string option" where
  "hm_get h name = (case hm_get_all h name of [] \<Rightarrow> None | v # _ \<Rightarrow> Some v)"

definition hm_contains :: "HeaderMap \<Rightarrow> string \<Rightarrow> bool" where
  "hm_contains h name \<longleftrightarrow> hm_get_all h name \<noteq> []"

definition hm_remove :: "HeaderMap \<Rightarrow> string \<Rightarrow> HeaderMap" where
  "hm_remove h name = filter (\<lambda>(n, _). n \<noteq> name) h"

text \<open>\<open>insert\<close> replaces every value of the name, in the place of the first.\<close>

fun hm_insert :: "HeaderMap \<Rightarrow> string \<Rightarrow> string \<Rightarrow> HeaderMap" where
  "hm_insert [] name v = [(name, v)]"
| "hm_insert ((n, w) # h) name v =
     (if n = name then (name, v) # hm_remove h name else (n, w) # hm_insert h name v)"

definition hm_append :: "HeaderMap \<Rightarrow> string \<Rightarrow> string \<Rightarrow> HeaderMap" where
  "hm_append h name v = h @ [(name, v)]"

definition hm_keys :: "HeaderMap \<Rightarrow> string list" where
  "hm_keys h = remdups (map fst h)"

lemma get_all_append [simp]:
  "hm_get_all (hm_append h n v) m = (if m = n then hm_get_all h m @ [v] else hm_get_all h m)"
  by (auto simp: hm_get_all_def hm_append_def)

lemma get_all_remove [simp]: "hm_get_all (hm_remove h n) m = (if m = n then [] else hm_get_all h m)"
  by (induction h) (auto simp: hm_get_all_def hm_remove_def)

lemma get_all_Nil [simp]: "hm_get_all [] m = []"
  by (simp add: hm_get_all_def)

lemma get_all_Cons: "hm_get_all ((n, v) # h) m = (if n = m then v # hm_get_all h m else hm_get_all h m)"
  by (simp add: hm_get_all_def)

lemma get_all_insert [simp]:
  "hm_get_all (hm_insert h n v) m = (if m = n then [v] else hm_get_all h m)"
  by (induction h n v rule: hm_insert.induct) (auto simp: get_all_Cons)

lemma remove_absent: "hm_get_all h n = [] \<Longrightarrow> hm_remove h n = h"
  by (induction h) (auto simp: get_all_Cons hm_remove_def split: if_splits)

lemma insert_same: "hm_get_all h n = [v] \<Longrightarrow> hm_insert h n v = h"
  by (induction h n v rule: hm_insert.induct) (auto simp: get_all_Cons remove_absent split: if_splits)

lemma hm_contains_simps [simp]:
  "hm_contains (hm_insert h n v) m \<longleftrightarrow> m = n \<or> hm_contains h m"
  "hm_contains (hm_append h n v) m \<longleftrightarrow> m = n \<or> hm_contains h m"
  "hm_contains (hm_remove h n) m \<longleftrightarrow> m \<noteq> n \<and> hm_contains h m"
  "\<not> hm_contains [] m"
  by (auto simp: hm_contains_def)

lemma hm_keys_contains: "m \<in> set (hm_keys h) \<longleftrightarrow> hm_contains h m"
  by (force simp: hm_keys_def hm_contains_def hm_get_all_def filter_empty_conv)

section \<open>The crate http\<close>

record http_crate =
  header_name :: "string \<Rightarrow> string option"
  header_value_ok :: "string \<Rightarrow> bool"
  to_str_ok :: "string \<Rightarrow> bool"
  status_ok :: "nat \<Rightarrow> bool"
  problem_json :: "nat \<Rightarrow> string \<Rightarrow> string \<Rightarrow> string"

text \<open>
  Documented: a parsed header name is the lower-cased argument, and letters, digits and hyphens
  make a name; a header value made of visible ASCII is valid, and a value made from a string
  can be read back as one; a status is a number from 100 to 999.
\<close>

definition visible :: "char \<Rightarrow> bool" where
  "visible c \<longleftrightarrow> 32 \<le> code c \<and> code c < 127"

definition http_laws :: "http_crate \<Rightarrow> bool" where
  "http_laws http \<longleftrightarrow>
     (\<forall>n m. header_name http n = Some m \<longrightarrow> m = to_ascii_lowercase n) \<and>
     (\<forall>v. list_all visible v \<longrightarrow> header_value_ok http v) \<and>
     (\<forall>v. header_value_ok http v \<longrightarrow> to_str_ok http v) \<and>
     (\<forall>s. status_ok http s \<longleftrightarrow> 100 \<le> s \<and> s \<le> 999) \<and>
     (\<forall>n. n \<noteq> [] \<and> list_all (\<lambda>c. is_ascii_alphanumeric c \<or> c = CHR ''-'') n \<longrightarrow>
        header_name http n = Some (to_ascii_lowercase n))"

lemma http_lawsD:
  assumes "http_laws http"
  shows "header_name http n = Some m \<Longrightarrow> m = to_ascii_lowercase n"
    "list_all visible v \<Longrightarrow> header_value_ok http v" "header_value_ok http v \<Longrightarrow> to_str_ok http v"
    "status_ok http s \<longleftrightarrow> 100 \<le> s \<and> s \<le> 999"
    "n \<noteq> [] \<Longrightarrow> list_all (\<lambda>c. is_ascii_alphanumeric c \<or> c = CHR ''-'') n \<Longrightarrow>
       header_name http n = Some (to_ascii_lowercase n)"
  using assms unfolding http_laws_def by blast+

text \<open>An instance, used by the witnesses: names are tokens, values printable ASCII or tab.\<close>

definition demo_http :: http_crate where
  "demo_http =
     \<lparr>header_name = (\<lambda>n. if n \<noteq> [] \<and> list_all (\<lambda>c. is_ascii_alphanumeric c \<or> c \<in> set ''-_'') n
                      then Some (to_ascii_lowercase n) else None),
      header_value_ok = list_all (\<lambda>c. visible c \<or> code c = 9),
      to_str_ok = list_all (\<lambda>c. visible c \<or> code c = 9),
      status_ok = (\<lambda>s. 100 \<le> s \<and> s \<le> 999),
      problem_json = (\<lambda>s c m. ''{'' @ show_nat s @ '' '' @ c @ '': '' @ m @ ''}'')\<rparr>"

lemma demo_http_laws: "http_laws demo_http"
  by (auto simp: http_laws_def demo_http_def list_all_iff split: if_splits)

section \<open>Digits\<close>

lemma digit_visible: "is_ascii_digit c \<Longrightarrow> visible c"
  by (simp add: is_ascii_digit_def visible_def)

lemma show_nat_visible: "list_all visible (show_nat n)"
  using show_nat_digits [of n] by (auto simp: list_all_iff digit_visible)

lemma show_nat_not_Nil [simp]: "show_nat n \<noteq> []"
  by (subst show_nat.simps) simp

lemma dec_val_snoc: "dec_val (s @ [c]) = 10 * dec_val s + digit_val c"
  by (simp add: dec_val_def)

lemma dec_val_show_nat: "dec_val (show_nat n) = n"
proof (induction n rule: show_nat.induct)
  case (1 n)
  have d: "digit_val (char_of (48 + k)) = k" if "k < 10" for k :: nat
    using that by (simp add: digit_val_def)
  show ?case
  proof (cases "n < 10")
    case True
    then show ?thesis by (subst show_nat.simps) (simp add: dec_val_def d)
  next
    case False
    with 1 show ?thesis by (subst show_nat.simps) (simp add: dec_val_snoc d)
  qed
qed

end
