(* ===== verification/Http_Error.thy ===== *)
theory Http_Error
  imports Http_Types
begin

text \<open>
  Errors (\<open>src/app/error.rs\<close>, and \<open>ResponseBuildError\<close> of \<open>src/app/response.rs\<close>). A boxed
  source error is opaque except for the two kinds the framework recognises or creates itself.
\<close>

section \<open>Construction errors of a response\<close>

datatype ResponseBuildError =
    InvalidStatus
  | InvalidHeaderName
  | InvalidHeaderValue
  | InvalidTrailerName string
  | InvalidContentLength
  | InvalidContentLengthValue string
  | ConflictingContentLength
  | ContentLengthMismatch nat nat
  | ExplicitTransferEncoding
  | ContentLengthWithTrailers
  | InterimStatus nat
  | InvalidSwitchingProtocols
  | TrailerWithoutFields
  | BuilderError

fun build_error_message :: "ResponseBuildError \<Rightarrow> string" where
  "build_error_message InvalidStatus = ''El estado HTTP de la respuesta no es valido''"
| "build_error_message InvalidHeaderName = ''El nombre de encabezado de la respuesta no es valido''"
| "build_error_message InvalidHeaderValue = ''El valor de encabezado de la respuesta no es valido''"
| "build_error_message (InvalidTrailerName name) =
     ''El trailer de la respuesta no esta permitido: '' @ name"
| "build_error_message InvalidContentLength = ''Content-Length de la respuesta no es valido''"
| "build_error_message (InvalidContentLengthValue value) =
     ''Content-Length de la respuesta no es valido: '' @ value"
| "build_error_message ConflictingContentLength =
     ''La respuesta contiene valores Content-Length en conflicto''"
| "build_error_message (ContentLengthMismatch declared actual) =
     ''Content-Length ('' @ show_nat declared @ '') no coincide con el cuerpo ('' @ show_nat actual @ '')''"
| "build_error_message ExplicitTransferEncoding =
     ''Transfer-Encoding de la respuesta lo debe seleccionar automaticamente el servidor''"
| "build_error_message ContentLengthWithTrailers =
     ''Content-Length no se puede combinar con trailers de respuesta''"
| "build_error_message (InterimStatus status) =
     ''El estado provisional '' @ show_nat status @ '' no puede ser la respuesta final de un manejador''"
| "build_error_message InvalidSwitchingProtocols =
     ''La respuesta 101 no contiene un handshake WebSocket valido''"
| "build_error_message TrailerWithoutFields =
     ''El encabezado Trailer requiere campos trailer en la respuesta''"
| "build_error_message BuilderError = ''No se pudo construir la respuesta HTTP''"

section \<open>HTTP errors\<close>

datatype BoxError =
    BodyLimitExceeded nat
  | HandlerMessageError string
  | BuildError ResponseBuildError
  | OtherError string

record HttpError =
  err_status :: nat
  err_code :: string
  public_message :: string
  err_source :: "BoxError option"
  err_headers :: HeaderMap
  err_missing :: bool

definition HttpError_new :: "nat \<Rightarrow> string \<Rightarrow> string \<Rightarrow> HttpError" where
  "HttpError_new status c message =
     \<lparr>err_status = status, err_code = c, public_message = message, err_source = None, err_headers = [],
      err_missing = False\<rparr>"

definition bad_request :: "string \<Rightarrow> HttpError" where
  "bad_request message = HttpError_new 400 ''bad_request'' message"

definition unauthorized :: "string \<Rightarrow> HttpError" where
  "unauthorized message = HttpError_new 401 ''unauthorized'' message"

definition forbidden :: "string \<Rightarrow> HttpError" where
  "forbidden message = HttpError_new 403 ''forbidden'' message"

definition not_found :: "string \<Rightarrow> HttpError" where
  "not_found message = HttpError_new 404 ''not_found'' message"

definition method_not_allowed :: "string \<Rightarrow> HttpError" where
  "method_not_allowed message = HttpError_new 405 ''method_not_allowed'' message"

definition payload_too_large :: "string \<Rightarrow> HttpError" where
  "payload_too_large message = HttpError_new 413 ''payload_too_large'' message"

definition payload_too_large_limit :: "nat \<Rightarrow> HttpError" where
  "payload_too_large_limit limit =
     payload_too_large (''El cuerpo de la solicitud supera el limite de '' @ show_nat limit @ '' bytes'')"

definition invalid_content_length :: HttpError where
  "invalid_content_length =
     HttpError_new 400 ''invalid_content_length'' ''El encabezado Content-Length no es valido''"

definition duplicate_header :: "string \<Rightarrow> HttpError" where
  "duplicate_header name =
     HttpError_new 400 ''duplicate_header'' (''El encabezado '' @ name @ '' debe aparecer como maximo una vez'')"

definition with_source :: "BoxError \<Rightarrow> HttpError \<Rightarrow> HttpError" where
  "with_source source e = e\<lparr>err_source := Some source\<rparr>"

fun body_read :: "BoxError \<Rightarrow> HttpError" where
  "body_read (BodyLimitExceeded limit) =
     with_source (BodyLimitExceeded limit) (payload_too_large_limit limit)"
| "body_read source =
     with_source source (HttpError_new 400 ''body_read'' ''No se pudo leer el cuerpo de la solicitud'')"

definition body_already_consumed :: HttpError where
  "body_already_consumed =
     HttpError_new 400 ''body_already_consumed'' ''El cuerpo de la solicitud ya fue consumido''"

definition body_not_buffered :: HttpError where
  "body_not_buffered =
     HttpError_new 400 ''body_not_buffered'' ''El cuerpo de la solicitud requiere lectura asincrona''"

definition invalid_utf8 :: HttpError where
  "invalid_utf8 = HttpError_new 400 ''invalid_utf8'' ''El cuerpo de la solicitud no es UTF-8 valido''"

definition invalid_json :: HttpError where
  "invalid_json = HttpError_new 400 ''invalid_json'' ''El cuerpo de la solicitud no contiene JSON valido''"

definition request_timeout :: "string \<Rightarrow> HttpError" where
  "request_timeout message = HttpError_new 408 ''request_timeout'' message"

definition too_many_requests :: "string \<Rightarrow> HttpError" where
  "too_many_requests message = HttpError_new 429 ''too_many_requests'' message"

definition upgrade_required :: "string \<Rightarrow> HttpError" where
  "upgrade_required message = HttpError_new 426 ''upgrade_required'' message"

definition internal_server_error :: "string \<Rightarrow> HttpError" where
  "internal_server_error message = HttpError_new 500 ''internal_server_error'' message"

definition err_header :: "string \<Rightarrow> string \<Rightarrow> HttpError \<Rightarrow> HttpError" where
  "err_header name v e = e\<lparr>err_headers := hm_insert (err_headers e) name v\<rparr>"

definition err_append_header :: "string \<Rightarrow> string \<Rightarrow> HttpError \<Rightarrow> HttpError" where
  "err_append_header name v e = e\<lparr>err_headers := hm_append (err_headers e) name v\<rparr>"

definition set_missing :: "HttpError \<Rightarrow> HttpError" where
  "set_missing e = e\<lparr>err_missing := True\<rparr>"

text \<open>A handler's error text is never shown to the client; it becomes the source.\<close>

definition private_handler_error :: "string \<Rightarrow> HttpError" where
  "private_handler_error message =
     with_source (HandlerMessageError message) (internal_server_error ''Error interno del servidor'')"

lemmas error_defs = HttpError_new_def bad_request_def unauthorized_def forbidden_def not_found_def
  method_not_allowed_def payload_too_large_def payload_too_large_limit_def invalid_content_length_def
  duplicate_header_def with_source_def body_already_consumed_def body_not_buffered_def invalid_utf8_def
  invalid_json_def request_timeout_def too_many_requests_def upgrade_required_def
  internal_server_error_def err_header_def err_append_header_def set_missing_def private_handler_error_def

end
