(* ===== verification/Http_Body.thy ===== *)
theory Http_Body
  imports Http_Error
begin

text \<open>
  Request bodies (\<open>src/app/body.rs\<close>). A stream of chunks is the list of what it yields, each chunk
  the bytes or an error. \<open>Incoming\<close> and \<open>Stream\<close> bodies differ only in where the chunks come from.
\<close>

section \<open>Model\<close>

type_synonym BodyStream = "(BoxError + string) list"

definition DEFAULT_BODY_LIMIT :: nat where "DEFAULT_BODY_LIMIT = 64 * 1024"

datatype BodyState = Incoming BodyStream | Buffered string | Streamed BodyStream | Taken

record RequestBody =
  body_state :: BodyState
  default_limit :: nat

definition body_incoming :: "BodyStream \<Rightarrow> nat \<Rightarrow> RequestBody" where
  "body_incoming chunks limit = \<lparr>body_state = Incoming chunks, default_limit = limit\<rparr>"

definition buffered :: "string \<Rightarrow> nat \<Rightarrow> RequestBody" where
  "buffered b limit = \<lparr>body_state = Buffered b, default_limit = limit\<rparr>"

definition from_stream :: "BodyStream \<Rightarrow> nat \<Rightarrow> RequestBody" where
  "from_stream chunks limit = \<lparr>body_state = Streamed chunks, default_limit = limit\<rparr>"

definition buffered_len :: "RequestBody \<Rightarrow> nat option" where
  "buffered_len body = (case body_state body of Buffered b \<Rightarrow> Some (length b) | _ \<Rightarrow> None)"

definition set_default_limit :: "RequestBody \<Rightarrow> nat \<Rightarrow> RequestBody" where
  "set_default_limit body limit = body\<lparr>default_limit := limit\<rparr>"

definition take_raw_stream :: "RequestBody \<Rightarrow> RequestBody \<times> (HttpError + BodyStream)" where
  "take_raw_stream body =
     (body\<lparr>body_state := Taken\<rparr>,
      case body_state body of
        Incoming chunks \<Rightarrow> Inr chunks
      | Buffered b \<Rightarrow> Inr [Inr b]
      | Streamed chunks \<Rightarrow> Inr chunks
      | Taken \<Rightarrow> Inl body_already_consumed)"

text \<open>\<open>checked_add\<close> followed by the filter on the limit.\<close>

definition grow :: "nat \<Rightarrow> nat \<Rightarrow> nat \<Rightarrow> nat option" where
  "grow limit seen n =
     (case usize_checked_add seen n of None \<Rightarrow> None | Some m \<Rightarrow> if m \<le> limit then Some m else None)"

fun collect_chunks :: "nat \<Rightarrow> string \<Rightarrow> BodyStream \<Rightarrow> HttpError + string" where
  "collect_chunks limit out [] = Inr out"
| "collect_chunks limit out (Inl e # rest) = Inl (body_read e)"
| "collect_chunks limit out (Inr chunk # rest) =
     (case grow limit (length out) (length chunk) of
        None \<Rightarrow> Inl (payload_too_large_limit limit)
      | Some _ \<Rightarrow> collect_chunks limit (out @ chunk) rest)"

definition collect :: "RequestBody \<Rightarrow> nat \<Rightarrow> RequestBody \<times> (HttpError + string)" where
  "collect body limit0 =
     (let limit = min limit0 (default_limit body) in
      case body_state body of
        Buffered b \<Rightarrow> (body, if length b > limit then Inl (payload_too_large_limit limit) else Inr b)
      | _ \<Rightarrow>
          (case take_raw_stream body of
             (body', Inl e) \<Rightarrow> (body', Inl e)
           | (body', Inr chunks) \<Rightarrow>
               (case collect_chunks limit [] chunks of
                  Inl e \<Rightarrow> (body', Inl e)
                | Inr b \<Rightarrow> (body'\<lparr>body_state := Buffered b\<rparr>, Inr b))))"

definition collect_default :: "RequestBody \<Rightarrow> RequestBody \<times> (HttpError + string)" where
  "collect_default body = collect body (default_limit body)"

fun limit_chunks :: "nat \<Rightarrow> nat \<Rightarrow> BodyStream \<Rightarrow> BodyStream" where
  "limit_chunks limit seen [] = []"
| "limit_chunks limit seen (Inl e # rest) = Inl e # limit_chunks limit seen rest"
| "limit_chunks limit seen (Inr chunk # rest) =
     (case grow limit seen (length chunk) of
        Some n \<Rightarrow> Inr chunk # limit_chunks limit n rest
      | None \<Rightarrow> [Inl (BodyLimitExceeded limit)])"

definition limit_stream :: "BodyStream \<Rightarrow> nat \<Rightarrow> BodyStream" where
  "limit_stream chunks limit = limit_chunks limit 0 chunks"

definition take_stream :: "RequestBody \<Rightarrow> RequestBody \<times> (HttpError + BodyStream)" where
  "take_stream body =
     (let limit = default_limit body in
      case take_raw_stream body of
        (body', Inl e) \<Rightarrow> (body', Inl e)
      | (body', Inr chunks) \<Rightarrow> (body', Inr (limit_stream chunks limit)))"

section \<open>What a body contains\<close>

definition source_chunks :: "RequestBody \<Rightarrow> BodyStream option" where
  "source_chunks body = (case snd (take_raw_stream body) of Inl _ \<Rightarrow> None | Inr chunks \<Rightarrow> Some chunks)"

definition good_chunks :: "BodyStream \<Rightarrow> bool" where
  "good_chunks chunks \<longleftrightarrow> list_all (\<lambda>c. \<exists>b. c = Inr b) chunks"

definition payload :: "BodyStream \<Rightarrow> string" where
  "payload chunks = concat (map (\<lambda>c. case c of Inl _ \<Rightarrow> [] | Inr b \<Rightarrow> b) chunks)"

lemma grow_Some: "grow limit seen n = Some m \<longleftrightarrow> m = seen + n \<and> m \<le> limit \<and> m \<le> u64_max"
  by (auto simp: grow_def usize_checked_add_def split: if_splits)

lemma grow_None: "limit \<le> u64_max \<Longrightarrow> grow limit seen n = None \<longleftrightarrow> limit < seen + n"
  by (auto simp: grow_def usize_checked_add_def)

lemma collect_chunks_exact:
  "limit \<le> u64_max \<Longrightarrow> collect_chunks limit out chunks = Inr b \<longleftrightarrow>
    good_chunks chunks \<and> b = out @ payload chunks \<and> (chunks \<noteq> [] \<longrightarrow> length b \<le> limit)"
proof (induction limit out chunks rule: collect_chunks.induct)
  case (3 limit out chunk rest)
  show ?case
  proof (cases "grow limit (length out) (length chunk)")
    case None
    with 3(2) have "limit < length out + length chunk" by (simp add: grow_None)
    with None show ?thesis by (auto simp: good_chunks_def payload_def)
  next
    case (Some n)
    then have "length out + length chunk \<le> limit" by (simp add: grow_Some)
    with Some 3(1) [OF Some 3(2)] show ?thesis by (auto simp: good_chunks_def payload_def)
  qed
qed (auto simp: good_chunks_def payload_def)

lemma limit_chunks_total:
  "limit \<le> u64_max \<Longrightarrow> seen \<le> limit \<Longrightarrow> seen + length (payload (limit_chunks limit seen chunks)) \<le> limit"
proof (induction limit seen chunks rule: limit_chunks.induct)
  case (3 limit seen chunk rest)
  show ?case
  proof (cases "grow limit seen (length chunk)")
    case None
    with 3 show ?thesis by (simp add: payload_def)
  next
    case (Some n)
    then have "n = seen + length chunk" "n \<le> limit" by (simp_all add: grow_Some)
    with 3(1) [OF Some 3(2)] Some show ?thesis by (simp add: payload_def)
  qed
qed (simp_all add: payload_def)

lemma limit_chunks_id:
  "limit \<le> u64_max \<Longrightarrow> seen + length (payload chunks) \<le> limit \<Longrightarrow> limit_chunks limit seen chunks = chunks"
proof (induction limit seen chunks rule: limit_chunks.induct)
  case (3 limit seen chunk rest)
  then have "grow limit seen (length chunk) = Some (seen + length chunk)"
    by (simp add: grow_Some payload_def)
  with 3(1) [OF this 3(2)] 3(3) show ?case by (simp add: payload_def)
qed (simp_all add: payload_def)

section \<open>Properties\<close>

text \<open>
  Collecting a body returns its bytes exactly when it has not been taken, every chunk
  arrives, and the total is within both the caller's limit and the limit of the application or
  route, which no caller can raise; a collected body can be collected again and gives the same
  bytes, and a body whose collection failed half-way is gone.
\<close>

theorem collect_exact:
  assumes "default_limit body \<le> u64_max"
  shows "(snd (collect body limit) = Inr b \<longleftrightarrow>
      (\<exists>chunks. source_chunks body = Some chunks \<and> good_chunks chunks \<and> b = payload chunks \<and>
        length b \<le> min limit (default_limit body))) \<and>
    (snd (collect body limit) = Inr b \<longrightarrow>
      collect (fst (collect body limit)) limit = (fst (collect body limit), Inr b)) \<and>
    (snd (collect body limit) = Inl e \<and> buffered_len body = None \<longrightarrow>
      snd (collect (fst (collect body limit)) limit) = Inl body_already_consumed)"
proof -
  have lim: "min limit (default_limit body) \<le> u64_max" using assms by simp
  note c = collect_chunks_exact [OF lim, of "[]"]
  have streamed: ?thesis if st: "body_state body \<in> {Incoming chunks, Streamed chunks}" for chunks
  proof -
    have src: "source_chunks body = Some chunks" using st by (auto simp: source_chunks_def take_raw_stream_def)
    have col: "collect body limit = (case collect_chunks (min limit (default_limit body)) [] chunks of
        Inl e \<Rightarrow> (body\<lparr>body_state := Taken\<rparr>, Inl e)
      | Inr b \<Rightarrow> (body\<lparr>body_state := Buffered b\<rparr>, Inr b))"
      using st by (auto simp: collect_def take_raw_stream_def Let_def split: sum.split)
    have small: "length (payload chunks) \<le> min limit (default_limit body)" if "chunks = []"
      using that by (simp add: payload_def)
    let ?lim = "min limit (default_limit body)"
    have iff: "collect_chunks ?lim [] chunks = Inr x \<longleftrightarrow> good_chunks chunks \<and> x = payload chunks \<and> length x \<le> ?lim" for x
      using c [of chunks x] small by auto
    have none: "buffered_len body = None" using st by (auto simp: buffered_len_def)
    show ?thesis
    proof (cases "collect_chunks ?lim [] chunks")
      case (Inl f)
      then have "\<not> (good_chunks chunks \<and> length (payload chunks) \<le> ?lim)" using iff [of "payload chunks"] by auto
      moreover have "collect body limit = (body\<lparr>body_state := Taken\<rparr>, Inl f)" using Inl col by simp
      ultimately show ?thesis using src by (auto simp: collect_def Let_def take_raw_stream_def)
    next
      case (Inr x)
      then have x: "good_chunks chunks" "x = payload chunks" "length x \<le> ?lim" using iff by auto
      moreover have "collect body limit = (body\<lparr>body_state := Buffered x\<rparr>, Inr x)" using Inr col by simp
      ultimately show ?thesis using src by (auto simp: collect_def Let_def)
    qed
  qed
  show ?thesis
  proof (cases "body_state body")
    case (Buffered x)
    then show ?thesis
      by (auto simp: collect_def source_chunks_def take_raw_stream_def good_chunks_def payload_def buffered_len_def Let_def)
  next
    case Taken
    then show ?thesis by (auto simp: collect_def source_chunks_def take_raw_stream_def Let_def)
  qed (use streamed in auto)
qed

theorem collect_exact_witness:
  "snd (collect (from_stream [Inr ''ab'', Inr ''c''] 3) 100) = Inr ''abc'' \<and>
   snd (collect (from_stream [Inr ''ab'', Inr ''cd''] 3) 100) \<noteq> Inr ''abcd''"
proof -
  have l: "default_limit (from_stream chunks 3) \<le> u64_max" for chunks by (simp add: from_stream_def u64_max_def)
  show ?thesis
    using collect_exact [OF l, of "[Inr ''ab'', Inr ''c'']" 100 "''abc''"] collect_exact [OF l, of "[Inr ''ab'', Inr ''cd'']" 100 "''abcd''"]
    by (simp add: source_chunks_def from_stream_def take_raw_stream_def good_chunks_def payload_def)
qed

text \<open>
  The stream a handler takes never yields more bytes than the limit of the application or
  route; a body within the limit is passed on unchanged, and the body can be taken once only.
\<close>

theorem take_stream_limited:
  assumes "default_limit body \<le> u64_max" "source_chunks body = Some chunks"
  shows "\<exists>out. take_stream body = (body\<lparr>body_state := Taken\<rparr>, Inr out) \<and>
    length (payload out) \<le> default_limit body \<and>
    (length (payload chunks) \<le> default_limit body \<longrightarrow> out = chunks) \<and>
    snd (take_stream (fst (take_stream body))) = Inl body_already_consumed"
proof -
  have raw: "take_raw_stream body = (body\<lparr>body_state := Taken\<rparr>, Inr chunks)"
    using assms(2) by (auto simp: source_chunks_def take_raw_stream_def split: sum.splits)
  show ?thesis
    using limit_chunks_total [OF assms(1), of 0 chunks] limit_chunks_id [OF assms(1), of 0 chunks]
    by (simp add: take_stream_def raw Let_def limit_stream_def) (simp add: take_raw_stream_def)
qed

theorem take_stream_limited_witness:
  "\<exists>out. take_stream (from_stream [Inr ''ab'', Inr ''cd''] 3) =
      ((from_stream [Inr ''ab'', Inr ''cd''] 3)\<lparr>body_state := Taken\<rparr>, Inr out) \<and> length (payload out) \<le> 3"
proof -
  have "default_limit (from_stream [Inr ''ab'', Inr ''cd''] 3) \<le> u64_max"
    "source_chunks (from_stream [Inr ''ab'', Inr ''cd''] 3) = Some [Inr ''ab'', Inr ''cd'']"
    "default_limit (from_stream [Inr ''ab'', Inr ''cd''] 3) = 3"
    by (simp_all add: from_stream_def source_chunks_def take_raw_stream_def u64_max_def)
  with take_stream_limited [of "from_stream [Inr ''ab'', Inr ''cd''] 3"] show ?thesis by fastforce
qed

end
