(* ===== verification/Http_Response.thy ===== *)
theory Http_Response
  imports Http_Error Cookie Route_Pattern Trim
begin

text \<open>
  Responses (\<open>src/app/response.rs\<close>): the builder, the preparation for \<open>HEAD\<close> and \<open>304\<close>, and the
  validation of status, trailers and framing at the network boundary. A streamed body is the
  list of chunks it will yield. \<open>b64\<close> decodes standard base64 (crate \<open>base64\<close>).
\<close>

section \<open>State\<close>

datatype BodyKind = BBytes string | BStream "(BoxError + string) list" | BEmpty

record Response =
  rs_status :: nat
  content_type :: string
  rs_headers :: HeaderMap
  body_kind :: BodyKind
  rs_trailers :: "HeaderMap option"
  rs_error :: "HttpError option"
  build_error :: "ResponseBuildError option"
  websocket_upgrade_authorized :: bool

section \<open>Redirect targets\<close>

definition location_char :: "char \<Rightarrow> bool" where
  "location_char c \<longleftrightarrow> is_ascii_alphanumeric c \<or> c \<in> set ''-._~:/?#[]@!$&()*+,;='' \<or> code c = 39"

definition is_escape :: "char \<Rightarrow> string \<Rightarrow> bool" where
  "is_escape c rest \<longleftrightarrow> c = CHR ''%'' \<and> 2 \<le> length rest \<and> list_all is_ascii_hexdigit (take 2 rest)"

fun encode_location :: "string \<Rightarrow> string" where
  "encode_location [] = []"
| "encode_location (c # rest) =
     (if location_char c \<or> is_escape c rest then [c]
      else [CHR ''%'', hex_upper (code c div 16), hex_upper (code c mod 16)]) @ encode_location rest"

section \<open>Building\<close>

definition Response_bytes :: "string \<Rightarrow> string \<Rightarrow> Response" where
  "Response_bytes b ct =
     \<lparr>rs_status = 200, content_type = ct, rs_headers = [], body_kind = BBytes b, rs_trailers = None,
      rs_error = None, build_error = None, websocket_upgrade_authorized = False\<rparr>"

definition Response_send :: "string \<Rightarrow> Response" where
  "Response_send text = Response_bytes text ''text/plain; charset=utf-8''"

definition Response_stream :: "(BoxError + string) list \<Rightarrow> Response" where
  "Response_stream chunks =
     \<lparr>rs_status = 200, content_type = ''application/octet-stream'', rs_headers = [],
      body_kind = BStream chunks, rs_trailers = None, rs_error = None, build_error = None,
      websocket_upgrade_authorized = False\<rparr>"

definition record_build_error :: "Response \<Rightarrow> ResponseBuildError \<Rightarrow> Response" where
  "record_build_error r e = (if build_error r = None then r\<lparr>build_error := Some e\<rparr> else r)"

definition set_status :: "http_crate \<Rightarrow> nat \<Rightarrow> Response \<Rightarrow> Response" where
  "set_status http status r =
     (if status_ok http status then r\<lparr>rs_status := status\<rparr> else record_build_error r InvalidStatus)"

definition try_status :: "http_crate \<Rightarrow> nat \<Rightarrow> Response \<Rightarrow> ResponseBuildError + Response" where
  "try_status http status r =
     (if status_ok http status then Inr (r\<lparr>rs_status := status\<rparr>) else Inl InvalidStatus)"

definition set_content_type :: "string \<Rightarrow> Response \<Rightarrow> Response" where
  "set_content_type ct r = r\<lparr>content_type := ct\<rparr>"

definition try_set_header :: "http_crate \<Rightarrow> Response \<Rightarrow> string \<Rightarrow> string \<Rightarrow> ResponseBuildError + Response" where
  "try_set_header http r name v =
     (case header_name http name of
        None \<Rightarrow> Inl InvalidHeaderName
      | Some n \<Rightarrow>
          if header_value_ok http v then Inr (r\<lparr>rs_headers := hm_insert (rs_headers r) n v\<rparr>)
          else Inl InvalidHeaderValue)"

definition try_add_header :: "http_crate \<Rightarrow> Response \<Rightarrow> string \<Rightarrow> string \<Rightarrow> ResponseBuildError + Response" where
  "try_add_header http r name v =
     (case header_name http name of
        None \<Rightarrow> Inl InvalidHeaderName
      | Some n \<Rightarrow>
          if header_value_ok http v then Inr (r\<lparr>rs_headers := hm_append (rs_headers r) n v\<rparr>)
          else Inl InvalidHeaderValue)"

definition rs_header :: "http_crate \<Rightarrow> string \<Rightarrow> string \<Rightarrow> Response \<Rightarrow> Response" where
  "rs_header http name v r =
     (case try_set_header http r name v of Inl e \<Rightarrow> record_build_error r e | Inr r' \<Rightarrow> r')"

definition append_header :: "http_crate \<Rightarrow> string \<Rightarrow> string \<Rightarrow> Response \<Rightarrow> Response" where
  "append_header http name v r =
     (case try_add_header http r name v of Inl e \<Rightarrow> record_build_error r e | Inr r' \<Rightarrow> r')"

text \<open>The media type and status of an error are those of its problem document.\<close>

definition from_error :: "http_crate \<Rightarrow> HttpError \<Rightarrow> Response" where
  "from_error http e =
     (set_status http (err_status e)
        (Response_bytes (problem_json http (err_status e) (err_code e) (public_message e))
           ''application/problem+json''))
       \<lparr>rs_headers := err_headers e, rs_error := Some e\<rparr>"

definition redirect_with_status :: "http_crate \<Rightarrow> string \<Rightarrow> nat \<Rightarrow> Response" where
  "redirect_with_status http location status =
     (let r = rs_header http ''location'' (encode_location location)
                (set_status http status (Response_send []))
      in if 300 \<le> status \<and> status \<le> 399 then r else record_build_error r InvalidStatus)"

definition redirect :: "http_crate \<Rightarrow> string \<Rightarrow> Response" where
  "redirect http location = redirect_with_status http location 302"

definition set_cookie :: "http_crate \<Rightarrow> Cookie \<Rightarrow> Response \<Rightarrow> Response" where
  "set_cookie http c r = append_header http ''set-cookie'' (to_header_value c) r"

definition clear_cookie_with :: "http_crate \<Rightarrow> Cookie \<Rightarrow> Response \<Rightarrow> Response" where
  "clear_cookie_with http c r = set_cookie http (cleared_cookie c) r"

section \<open>Trailers and connection headers\<close>

definition forbidden_trailer_names :: "string list" where
  "forbidden_trailer_names =
     [''accept-ranges'', ''age'', ''allow'', ''alt-svc'', ''authorization'', ''cache-control'', ''connection'',
      ''content-disposition'', ''content-encoding'', ''content-language'', ''content-length'',
      ''content-location'', ''content-range'', ''content-security-policy'', ''content-type'', ''cookie'',
      ''date'', ''expect'', ''expires'', ''host'', ''if-match'', ''if-modified-since'', ''if-none-match'',
      ''if-range'', ''if-unmodified-since'', ''keep-alive'', ''last-modified'', ''link'', ''location'',
      ''max-forwards'', ''permissions-policy'', ''pragma'', ''range'', ''referrer-policy'', ''refresh'',
      ''retry-after'', ''server'', ''set-cookie'', ''strict-transport-security'', ''te'', ''trailer'',
      ''transfer-encoding'', ''upgrade'', ''vary'', ''warning'', ''www-authenticate'',
      ''x-content-type-options'', ''x-frame-options'']"

definition is_forbidden_trailer :: "string \<Rightarrow> bool" where
  "is_forbidden_trailer name \<longleftrightarrow>
     starts_with ''access-control-'' name \<or> starts_with ''cross-origin-'' name \<or>
     starts_with ''proxy-'' name \<or> starts_with ''sec-websocket-'' name \<or>
     name \<in> set forbidden_trailer_names"

definition first_error :: "(string \<Rightarrow> bool) \<Rightarrow> string list \<Rightarrow> ResponseBuildError + unit" where
  "first_error bad names =
     (case filter bad names of [] \<Rightarrow> Inr () | n # _ \<Rightarrow> Inl (InvalidTrailerName n))"

definition validate_trailers :: "HeaderMap \<Rightarrow> ResponseBuildError + unit" where
  "validate_trailers trailers = first_error is_forbidden_trailer (hm_keys trailers)"

definition connection_nominated_headers :: "http_crate \<Rightarrow> HeaderMap \<Rightarrow> string list" where
  "connection_nominated_headers http h =
     List.map_filter (\<lambda>name. header_name http (trim name))
       (concat (map (split_char (CHR '','')) (filter (to_str_ok http) (hm_get_all h ''connection''))))"

definition validate_response_trailers ::
  "http_crate \<Rightarrow> HeaderMap \<Rightarrow> HeaderMap \<Rightarrow> ResponseBuildError + unit" where
  "validate_response_trailers http h trailers =
     (case validate_trailers trailers of
        Inl e \<Rightarrow> Inl e
      | Inr _ \<Rightarrow> first_error (hm_contains trailers) (connection_nominated_headers http h))"

definition with_trailers :: "HeaderMap \<Rightarrow> Response \<Rightarrow> Response" where
  "with_trailers trailers r =
     (case validate_trailers trailers of
        Inl e \<Rightarrow> record_build_error r e | Inr _ \<Rightarrow> r\<lparr>rs_trailers := Some trailers\<rparr>)"

definition clear_body :: "Response \<Rightarrow> Response" where
  "clear_body r = r\<lparr>body_kind := BEmpty\<rparr>"

definition clear_body_and_trailers :: "Response \<Rightarrow> Response" where
  "clear_body_and_trailers r =
     (clear_body r)\<lparr>rs_trailers := None, rs_headers := hm_remove (rs_headers r) ''trailer''\<rparr>"

definition strip_http2_connection_headers :: "http_crate \<Rightarrow> Response \<Rightarrow> Response" where
  "strip_http2_connection_headers http r =
     (let nominated = connection_nominated_headers http (rs_headers r);
          r1 = (case rs_trailers r of
                  None \<Rightarrow> r
                | Some trailers \<Rightarrow>
                    (case filter (hm_contains trailers) nominated of
                       [] \<Rightarrow> r | n # _ \<Rightarrow> record_build_error r (InvalidTrailerName n)))
      in r1\<lparr>rs_headers := foldl hm_remove (rs_headers r1)
             ([''connection'', ''upgrade'', ''te'', ''keep-alive'', ''proxy-connection''] @ nominated)\<rparr>)"

section \<open>Framing\<close>

definition is_informational :: "nat \<Rightarrow> bool" where
  "is_informational status \<longleftrightarrow> 100 \<le> status \<and> status < 200"

definition status_has_no_content :: "nat \<Rightarrow> bool" where
  "status_has_no_content status \<longleftrightarrow> is_informational status \<or> status \<in> {204, 205, 304}"

fun length_candidates :: "string list \<Rightarrow> nat option \<Rightarrow> ResponseBuildError + nat option" where
  "length_candidates [] parsed = Inr parsed"
| "length_candidates (raw # rest) parsed =
     (let candidate = trim raw in
      if candidate = [] \<or> \<not> list_all is_ascii_digit candidate then Inl (InvalidContentLengthValue candidate)
      else
        (case parse_u64 candidate of
           None \<Rightarrow> Inl InvalidContentLength
         | Some n \<Rightarrow>
             (case parsed of
                Some current \<Rightarrow>
                  if current \<noteq> n then Inl ConflictingContentLength else length_candidates rest (Some n)
              | None \<Rightarrow> length_candidates rest (Some n))))"

fun length_values :: "http_crate \<Rightarrow> string list \<Rightarrow> nat option \<Rightarrow> ResponseBuildError + nat option" where
  "length_values http [] parsed = Inr parsed"
| "length_values http (v # vs) parsed =
     (if \<not> to_str_ok http v then Inl InvalidContentLength
      else (case length_candidates (split_char (CHR '','') v) parsed of
              Inl e \<Rightarrow> Inl e | Inr p \<Rightarrow> length_values http vs p))"

definition response_content_length ::
  "http_crate \<Rightarrow> HeaderMap \<Rightarrow> ResponseBuildError + (HeaderMap \<times> nat option)" where
  "response_content_length http h =
     (case length_values http (hm_get_all h ''content-length'') None of
        Inl e \<Rightarrow> Inl e
      | Inr None \<Rightarrow> Inr (h, None)
      | Inr (Some n) \<Rightarrow> Inr (hm_insert h ''content-length'' (show_nat n), Some n))"

definition mismatch :: "nat option \<Rightarrow> BodyKind \<Rightarrow> ResponseBuildError option" where
  "mismatch declared body =
     (case (declared, body) of
        (Some n, BBytes b) \<Rightarrow> if n \<noteq> length b then Some (ContentLengthMismatch n (length b)) else None
      | _ \<Rightarrow> None)"

definition finalize_framing :: "http_crate \<Rightarrow> Response \<Rightarrow> nat \<Rightarrow> ResponseBuildError + Response" where
  "finalize_framing http r0 status =
     (case response_content_length http (rs_headers r0) of
        Inl e \<Rightarrow> Inl e
      | Inr (h, declared) \<Rightarrow>
          let r = r0\<lparr>rs_headers := h\<rparr> in
          if hm_contains h ''transfer-encoding'' then Inl ExplicitTransferEncoding
          else if declared \<noteq> None \<and> rs_trailers r \<noteq> None then Inl ContentLengthWithTrailers
          else
            (case (if status = 304 then mismatch declared (body_kind r) else None) of
               Some e \<Rightarrow> Inl e
             | None \<Rightarrow>
                 if status_has_no_content status then
                   let h' = hm_remove (hm_remove h ''trailer'') ''transfer-encoding'' in
                   Inr ((clear_body r)\<lparr>rs_trailers := None,
                          rs_headers := (if status \<noteq> 304 then hm_remove h' ''content-length'' else h')\<rparr>)
                 else (case mismatch declared (body_kind r) of Some e \<Rightarrow> Inl e | None \<Rightarrow> Inr r)))"

definition response_header_contains_token :: "http_crate \<Rightarrow> HeaderMap \<Rightarrow> string \<Rightarrow> string \<Rightarrow> bool" where
  "response_header_contains_token http h name expected \<longleftrightarrow>
     list_ex (\<lambda>v. to_str_ok http v \<and>
       list_ex (\<lambda>token. eq_ignore_ascii_case (trim token) expected) (split_char (CHR '','') v))
       (hm_get_all h name)"

definition valid_websocket_switching_protocols ::
  "http_crate \<Rightarrow> (string \<Rightarrow> string option) \<Rightarrow> HeaderMap \<Rightarrow> bool" where
  "valid_websocket_switching_protocols http b64 h \<longleftrightarrow>
     response_header_contains_token http h ''connection'' ''upgrade'' \<and>
     response_header_contains_token http h ''upgrade'' ''websocket'' \<and>
     length (hm_get_all h ''sec-websocket-accept'') = 1 \<and>
     (case hm_get h ''sec-websocket-accept'' of
        None \<Rightarrow> False
      | Some v \<Rightarrow> to_str_ok http v \<and>
          (case b64 (trim v) of None \<Rightarrow> False | Some accept \<Rightarrow> length accept = 20))"

text \<open>The stages of \<open>finalize\<close>, up to its first error.\<close>

definition finalize_status ::
  "http_crate \<Rightarrow> (string \<Rightarrow> string option) \<Rightarrow> Response \<Rightarrow> ResponseBuildError option" where
  "finalize_status http b64 r =
     (if build_error r \<noteq> None then build_error r
      else if \<not> status_ok http (rs_status r) then Some InvalidStatus
      else if is_informational (rs_status r) \<and> rs_status r \<noteq> 101 then Some (InterimStatus (rs_status r))
      else if rs_status r = 101 \<and> \<not> valid_websocket_switching_protocols http b64 (rs_headers r)
      then Some InvalidSwitchingProtocols
      else None)"

definition finalize_trailers :: "http_crate \<Rightarrow> Response \<Rightarrow> ResponseBuildError + Response" where
  "finalize_trailers http r =
     (case rs_trailers r of
        Some trailers \<Rightarrow>
          (case validate_response_trailers http (rs_headers r) trailers of
             Inl e \<Rightarrow> Inl e
           | Inr _ \<Rightarrow> Inr (r\<lparr>rs_headers := hm_insert (rs_headers r) ''trailer'' (join '', '' (hm_keys trailers))\<rparr>))
      | None \<Rightarrow>
          if hm_contains (rs_headers r) ''trailer'' then Inl TrailerWithoutFields else Inr r)"

definition finalize_content :: "http_crate \<Rightarrow> Response \<Rightarrow> ResponseBuildError + Response" where
  "finalize_content http r =
     (let status = rs_status r in
      if \<not> status_has_no_content status \<and> \<not> hm_contains (rs_headers r) ''content-type'' \<and>
         \<not> header_value_ok http (content_type r)
      then Inl InvalidHeaderValue
      else
        let r1 = (if \<not> status_has_no_content status \<and> \<not> hm_contains (rs_headers r) ''content-type''
                  then r\<lparr>rs_headers := hm_insert (rs_headers r) ''content-type'' (content_type r)\<rparr> else r)
        in Inr (if \<not> status_has_no_content status \<and> \<not> hm_contains (rs_headers r1) ''content-length'' \<and>
                   rs_trailers r1 = None
                then (case body_kind r1 of
                        BBytes b \<Rightarrow>
                          r1\<lparr>rs_headers := hm_insert (rs_headers r1) ''content-length'' (show_nat (length b))\<rparr>
                      | _ \<Rightarrow> r1)
                else r1))"

definition finalize_once ::
  "http_crate \<Rightarrow> (string \<Rightarrow> string option) \<Rightarrow> Response \<Rightarrow> ResponseBuildError + Response" where
  "finalize_once http b64 r =
     (case finalize_status http b64 r of
        Some e \<Rightarrow> Inl e
      | None \<Rightarrow>
          (case finalize_trailers http r of
             Inl e \<Rightarrow> Inl e
           | Inr r1 \<Rightarrow>
               (case finalize_framing http r1 (rs_status r1) of
                  Inl e \<Rightarrow> Inl e | Inr r2 \<Rightarrow> finalize_content http r2)))"

definition invalid_response :: "http_crate \<Rightarrow> ResponseBuildError \<Rightarrow> Response" where
  "invalid_response http e =
     from_error http (with_source (BuildError e) (internal_server_error ''No se pudo construir la respuesta''))"

text \<open>
  An invalid response is replaced by an error response that is finalised in turn: the source
  recurses, so not returning is a possible value of this definition.
\<close>

partial_function (option) finalize ::
  "http_crate \<Rightarrow> (string \<Rightarrow> string option) \<Rightarrow> Response \<Rightarrow> Response option" where
  "finalize http b64 r =
     (case finalize_once http b64 r of
        Inr r' \<Rightarrow> Some r' | Inl e \<Rightarrow> finalize http b64 (invalid_response http e))"

subsection \<open>Bodies that are discarded\<close>

definition preserve_buffered_representation_length :: "http_crate \<Rightarrow> Response \<Rightarrow> Response" where
  "preserve_buffered_representation_length http r =
     (case body_kind r of
        BBytes b \<Rightarrow>
          (case response_content_length http (rs_headers r) of
             Inl e \<Rightarrow> record_build_error r e
           | Inr (h, None) \<Rightarrow> r\<lparr>rs_headers := hm_insert h ''content-length'' (show_nat (length b))\<rparr>
           | Inr (h, Some n) \<Rightarrow>
               if n \<noteq> length b
               then record_build_error (r\<lparr>rs_headers := h\<rparr>) (ContentLengthMismatch n (length b))
               else r\<lparr>rs_headers := h\<rparr>)
      | _ \<Rightarrow> r)"

definition prepare_for_head :: "http_crate \<Rightarrow> Response \<Rightarrow> Response" where
  "prepare_for_head http r0 =
     (let r = r0\<lparr>rs_trailers := None, rs_headers := hm_remove (rs_headers r0) ''trailer''\<rparr> in
      if \<not> status_ok http (rs_status r) then clear_body r
      else if status_has_no_content (rs_status r) then clear_body r
      else clear_body (preserve_buffered_representation_length http r))"

definition validate_selected_representation :: "http_crate \<Rightarrow> Response \<Rightarrow> Response" where
  "validate_selected_representation http r0 =
     (let r1 = (case rs_trailers r0 of
                  Some trailers \<Rightarrow>
                    (case validate_response_trailers http (rs_headers r0) trailers of
                       Inl e \<Rightarrow> record_build_error r0 e | Inr _ \<Rightarrow> r0)
                | None \<Rightarrow>
                    if hm_contains (rs_headers r0) ''trailer''
                    then record_build_error r0 TrailerWithoutFields else r0);
          r2 = (if hm_contains (rs_headers r1) ''transfer-encoding''
                then record_build_error r1 ExplicitTransferEncoding else r1);
          (r3, declared) = (case response_content_length http (rs_headers r2) of
                              Inl e \<Rightarrow> (record_build_error r2 e, None)
                            | Inr (h, n) \<Rightarrow> (r2\<lparr>rs_headers := h\<rparr>, n));
          r4 = (if declared \<noteq> None \<and> rs_trailers r3 \<noteq> None
                then record_build_error r3 ContentLengthWithTrailers else r3);
          r5 = (case body_kind r4 of
                  BBytes b \<Rightarrow>
                    (case declared of
                       Some n \<Rightarrow>
                         if n \<noteq> length b then record_build_error r4 (ContentLengthMismatch n (length b)) else r4
                     | None \<Rightarrow>
                         r4\<lparr>rs_headers := hm_insert (rs_headers r4) ''content-length'' (show_nat (length b))\<rparr>)
                | _ \<Rightarrow> r4)
      in if \<not> hm_contains (rs_headers r5) ''content-type'' \<and> \<not> header_value_ok http (content_type r5)
         then record_build_error r5 InvalidHeaderValue else r5)"

definition prepare_for_not_modified :: "http_crate \<Rightarrow> Response \<Rightarrow> Response" where
  "prepare_for_not_modified http r = clear_body_and_trailers (validate_selected_representation http r)"

definition replace_body_bytes :: "string \<Rightarrow> Response \<Rightarrow> Response \<times> bool" where
  "replace_body_bytes b r =
     (case body_kind r of BBytes _ \<Rightarrow> (r\<lparr>body_kind := BBytes b\<rparr>, True) | _ \<Rightarrow> (r, False))"

definition websocket_accept :: "(string \<Rightarrow> string) \<Rightarrow> (string \<Rightarrow> string) \<Rightarrow> string \<Rightarrow> string" where
  "websocket_accept sha1 b64_encode key =
     b64_encode (sha1 (key @ ''258EAFA5-E914-47DA-95CA-C5AB0DC85B11''))"

end
