(* ===== verification/Http_Response_Props.thy ===== *)
theory Http_Response_Props
  imports Http_Response
begin

text \<open>
  What the network boundary guarantees of every response: it is always produced, well framed,
  and finalising it again changes nothing; a \<open>HEAD\<close> response has the fields of its \<open>GET\<close>.
\<close>

section \<open>Well-framed responses\<close>

definition well_framed :: "http_crate \<Rightarrow> Response \<Rightarrow> bool" where
  "well_framed http r \<longleftrightarrow>
     100 \<le> rs_status r \<and> rs_status r \<le> 999 \<and> (is_informational (rs_status r) \<longrightarrow> rs_status r = 101) \<and>
     \<not> hm_contains (rs_headers r) ''transfer-encoding'' \<and>
     (hm_contains (rs_headers r) ''trailer'' \<longleftrightarrow> rs_trailers r \<noteq> None) \<and>
     (if status_has_no_content (rs_status r)
      then body_kind r = BEmpty \<and> rs_trailers r = None \<and>
        (rs_status r \<noteq> 304 \<longrightarrow> \<not> hm_contains (rs_headers r) ''content-length'')
      else hm_contains (rs_headers r) ''content-type'' \<and>
        (\<forall>b. body_kind r = BBytes b \<and> rs_trailers r = None \<longrightarrow>
           hm_get_all (rs_headers r) ''content-length'' = [show_nat (length b)])) \<and>
     (\<forall>trailers. rs_trailers r = Some trailers \<longrightarrow>
        \<not> hm_contains (rs_headers r) ''content-length'' \<and>
        (\<forall>n. hm_contains trailers n \<longrightarrow>
           \<not> is_forbidden_trailer n \<and> n \<notin> set (connection_nominated_headers http (rs_headers r))))"

section \<open>Content-Length\<close>

lemma trim_digits: "list_all is_ascii_digit s \<Longrightarrow> trim s = s"
  by (rule trim_trimmed, rule trimmed_ascii) (auto simp: list_all_iff is_ascii_digit_def ws1_def)

lemma parse_show_nat: "n \<le> u64_max \<Longrightarrow> parse_u64 (show_nat n) = Some n"
proof -
  assume n: "n \<le> u64_max"
  obtain c r where cr: "show_nat n = c # r" by (cases "show_nat n") auto
  with show_nat_digits [of n] have "c \<noteq> CHR ''+''" by (auto simp: is_ascii_digit_def)
  with n cr show_nat_digits [of n] dec_val_show_nat [of n] show ?thesis
    by (auto simp: parse_u64_def Let_def)
qed

lemma comma_free_digits: "list_all is_ascii_digit s \<Longrightarrow> CHR '','' \<notin> set s"
  by (auto simp: list_all_iff is_ascii_digit_def)

lemma length_values_canonical:
  assumes "http_laws http" "n \<le> u64_max"
  shows "length_values http [show_nat n] None = Inr (Some n)"
proof -
  have "split_char (CHR '','') (show_nat n) = [show_nat n]"
    using comma_free_digits [OF show_nat_digits] by (rule split_char_none)
  then show ?thesis
    using assms http_lawsD(2,3) [OF assms(1)] show_nat_visible show_nat_digits
    by (simp add: trim_digits parse_show_nat)
qed

lemma parse_u64_le: "parse_u64 s = Some n \<Longrightarrow> n \<le> u64_max"
  by (auto simp: parse_u64_def Let_def split: if_splits)

lemma length_candidates_le:
  assumes "length_candidates cs parsed = Inr (Some n)" "\<And>m. parsed = Some m \<Longrightarrow> m \<le> u64_max"
  shows "n \<le> u64_max"
  using assms
proof (induction cs parsed rule: length_candidates.induct)
  case (1 parsed)
  then show ?case by simp
next
  case (2 raw rest parsed)
  from 2(3) have c: "\<not> (trim raw = [] \<or> \<not> list_all is_ascii_digit (trim raw))"
    by (auto simp: Let_def split: if_splits)
  from 2(3) c obtain m where m: "parse_u64 (trim raw) = Some m" by (auto simp: Let_def split: option.splits)
  show ?case
  proof (cases parsed)
    case None
    from 2(3) c m None have "length_candidates rest (Some m) = Inr (Some n)" by (simp add: Let_def)
    with 2(1) [OF refl c m None] parse_u64_le [OF m] show ?thesis by simp
  next
    case (Some k)
    from 2(3) c m Some have "k = m" "length_candidates rest (Some m) = Inr (Some n)"
      by (auto simp: Let_def split: if_splits)
    with 2(2) [OF refl c m Some] parse_u64_le [OF m] show ?thesis by simp
  qed
qed

lemma length_candidates_None: "length_candidates cs parsed = Inr None \<Longrightarrow> cs = [] \<and> parsed = None"
proof (induction cs parsed rule: length_candidates.induct)
  case (2 raw rest parsed)
  then show ?case by (cases "parse_u64 (trim raw)"; cases parsed) (auto simp: Let_def split: if_splits)
qed simp

lemma length_values_Some:
  "length_values http vs parsed = Inr (Some n) \<Longrightarrow> (\<And>m. parsed = Some m \<Longrightarrow> m \<le> u64_max) \<Longrightarrow> n \<le> u64_max"
proof (induction http vs parsed rule: length_values.induct)
  case (2 http v vs parsed)
  from 2(2) obtain p where p: "to_str_ok http v" "length_candidates (split_char (CHR '','') v) parsed = Inr p"
    "length_values http vs p = Inr (Some n)" by (auto split: if_splits sum.splits)
  have "m \<le> u64_max" if "p = Some m" for m
    using length_candidates_le [OF p(2) [unfolded that]] 2(3) by blast
  with 2(1) [OF _ p(2,3)] p(1) show ?case by simp
qed simp

lemma length_values_None: "length_values http vs parsed = Inr None \<Longrightarrow> vs = [] \<and> parsed = None"
proof (induction http vs parsed rule: length_values.induct)
  case (2 http v vs parsed)
  from 2(2) obtain p where p: "to_str_ok http v" "length_candidates (split_char (CHR '','') v) parsed = Inr p"
    "length_values http vs p = Inr None" by (auto split: if_splits sum.splits)
  from 2(1) [OF _ p(2,3)] p(1) have "p = None" by simp
  with length_candidates_None p(2) show ?case by fastforce
qed simp

lemma content_length_cases:
  assumes "response_content_length http h = Inr (h', declared)"
  obtains (absent) "h' = h" "declared = None" "hm_get_all h ''content-length'' = []"
  | (declared) n where "declared = Some n" "h' = hm_insert h ''content-length'' (show_nat n)" "n \<le> u64_max"
proof (cases "length_values http (hm_get_all h ''content-length'') None")
  case (Inl e)
  with assms show thesis by (simp add: response_content_length_def)
next
  case (Inr d)
  show thesis
  proof (cases d)
    case None
    with assms Inr length_values_None [of http _ None] show thesis
      by (intro absent) (auto simp: response_content_length_def)
  next
    case (Some n)
    with assms Inr length_values_Some [of http _ None n] show thesis
      by (intro declared) (auto simp: response_content_length_def)
  qed
qed

text \<open>A canonical or absent length is read back unchanged.\<close>

lemma content_length_again:
  assumes "http_laws http" "hm_get_all h ''content-length'' = [show_nat n]" "n \<le> u64_max"
  shows "response_content_length http h = Inr (h, Some n)"
  unfolding response_content_length_def assms(2) length_values_canonical [OF assms(1,3)]
  by (simp add: insert_same assms(2))

lemma content_length_absent:
  "hm_get_all h ''content-length'' = [] \<Longrightarrow> response_content_length http h = Inr (h, None)"
  by (simp add: response_content_length_def)

section \<open>The stages of finalize\<close>

definition length_field_ok :: "HeaderMap \<Rightarrow> BodyKind \<Rightarrow> HeaderMap option \<Rightarrow> bool" where
  "length_field_ok h body trailers \<longleftrightarrow>
     hm_get_all h ''content-length'' = [] \<or>
     trailers = None \<and> (\<exists>n \<le> u64_max. hm_get_all h ''content-length'' = [show_nat n] \<and>
       (\<forall>b. body = BBytes b \<longrightarrow> n = length b))"

lemma mismatch_None: "mismatch (Some n) body = None \<longleftrightarrow> (\<forall>b. body = BBytes b \<longrightarrow> n = length b)"
  by (auto simp: mismatch_def split: BodyKind.split)

lemma framing_ok:
  assumes "finalize_framing http r status = Inr r'"
  shows "rs_status r' = rs_status r" "build_error r' = build_error r" "content_type r' = content_type r"
    "\<not> hm_contains (rs_headers r') ''transfer-encoding''"
    "n \<notin> {''trailer'', ''transfer-encoding'', ''content-length''} \<Longrightarrow>
       hm_get_all (rs_headers r') n = hm_get_all (rs_headers r) n"
    "status_has_no_content status \<Longrightarrow> body_kind r' = BEmpty \<and> rs_trailers r' = None \<and>
       \<not> hm_contains (rs_headers r') ''trailer'' \<and>
       (status \<noteq> 304 \<longrightarrow> \<not> hm_contains (rs_headers r') ''content-length'')"
    "\<not> status_has_no_content status \<Longrightarrow> body_kind r' = body_kind r \<and> rs_trailers r' = rs_trailers r \<and>
       hm_get_all (rs_headers r') ''trailer'' = hm_get_all (rs_headers r) ''trailer''"
    "length_field_ok (rs_headers r') (body_kind r') (rs_trailers r')"
proof -
  obtain h declared where c: "response_content_length http (rs_headers r) = Inr (h, declared)"
    and te: "\<not> hm_contains h ''transfer-encoding''" and tr: "\<not> (declared \<noteq> None \<and> rs_trailers r \<noteq> None)"
    using assms by (auto simp: finalize_framing_def Let_def split: sum.splits if_splits)
  let ?h' = "hm_remove (hm_remove h ''trailer'') ''transfer-encoding''"
  have r': "r' = (if status_has_no_content status
      then (clear_body (r\<lparr>rs_headers := h\<rparr>))\<lparr>rs_trailers := None,
             rs_headers := (if status \<noteq> 304 then hm_remove ?h' ''content-length'' else ?h')\<rparr>
      else r\<lparr>rs_headers := h\<rparr>)" and mm: "\<not> status_has_no_content status \<Longrightarrow> mismatch declared (body_kind r) = None"
    using assms c te tr by (auto simp: finalize_framing_def Let_def split: if_splits option.splits)
  have h: "hm_get_all h m = hm_get_all (rs_headers r) m" if "m \<noteq> ''content-length''" for m
    using c that by (cases rule: content_length_cases) auto
  have len: "hm_get_all h ''content-length'' = [] \<or>
      (\<exists>n \<le> u64_max. declared = Some n \<and> hm_get_all h ''content-length'' = [show_nat n])"
    using c by (cases rule: content_length_cases) auto
  show "rs_status r' = rs_status r" "build_error r' = build_error r" "content_type r' = content_type r"
    "\<not> hm_contains (rs_headers r') ''transfer-encoding''"
    "status_has_no_content status \<Longrightarrow> body_kind r' = BEmpty \<and> rs_trailers r' = None \<and>
       \<not> hm_contains (rs_headers r') ''trailer'' \<and>
       (status \<noteq> 304 \<longrightarrow> \<not> hm_contains (rs_headers r') ''content-length'')"
    using te by (simp_all add: r' clear_body_def)
  show "n \<notin> {''trailer'', ''transfer-encoding'', ''content-length''} \<Longrightarrow>
       hm_get_all (rs_headers r') n = hm_get_all (rs_headers r) n"
    using h by (simp add: r')
  show "\<not> status_has_no_content status \<Longrightarrow> body_kind r' = body_kind r \<and> rs_trailers r' = rs_trailers r \<and>
       hm_get_all (rs_headers r') ''trailer'' = hm_get_all (rs_headers r) ''trailer''"
    using h by (simp add: r')
  show "length_field_ok (rs_headers r') (body_kind r') (rs_trailers r')"
    using len mm tr by (auto simp: r' length_field_ok_def clear_body_def mismatch_None)
qed

lemma first_error_Inr: "first_error bad names = Inr () \<longleftrightarrow> (\<forall>n \<in> set names. \<not> bad n)"
proof -
  have "first_error bad names = Inr () \<longleftrightarrow> filter bad names = []"
    by (cases "filter bad names") (simp_all add: first_error_def)
  then show ?thesis by (simp add: filter_empty_conv)
qed

lemma validate_trailers_Inr:
  "validate_response_trailers http h trailers = Inr () \<longleftrightarrow>
     (\<forall>n. hm_contains trailers n \<longrightarrow> \<not> is_forbidden_trailer n \<and> n \<notin> set (connection_nominated_headers http h))"
proof (cases "validate_trailers trailers")
  case (Inl e)
  then have "\<not> (\<forall>n. hm_contains trailers n \<longrightarrow> \<not> is_forbidden_trailer n)"
    using first_error_Inr [of is_forbidden_trailer "hm_keys trailers"] by (auto simp: validate_trailers_def hm_keys_contains)
  with Inl show ?thesis by (auto simp: validate_response_trailers_def)
next
  case (Inr u)
  then have "\<forall>n. hm_contains trailers n \<longrightarrow> \<not> is_forbidden_trailer n"
    using first_error_Inr [of is_forbidden_trailer "hm_keys trailers"] by (auto simp: validate_trailers_def hm_keys_contains)
  with Inr show ?thesis by (auto simp: validate_response_trailers_def first_error_Inr)
qed

lemma nominated_cong:
  "hm_get_all h ''connection'' = hm_get_all h' ''connection'' \<Longrightarrow>
     connection_nominated_headers http h = connection_nominated_headers http h'"
  by (simp add: connection_nominated_headers_def)

lemma trailers_ok:
  assumes "finalize_trailers http r = Inr r'"
  shows "r' = r\<lparr>rs_headers := rs_headers r'\<rparr>"
    "n \<noteq> ''trailer'' \<Longrightarrow> hm_get_all (rs_headers r') n = hm_get_all (rs_headers r) n"
    "hm_get_all (rs_headers r') ''trailer'' =
       (case rs_trailers r of None \<Rightarrow> [] | Some t \<Rightarrow> [join '', '' (hm_keys t)])"
    "rs_trailers r = Some t \<Longrightarrow> hm_contains t n \<Longrightarrow>
       \<not> is_forbidden_trailer n \<and> n \<notin> set (connection_nominated_headers http (rs_headers r))"
proof -
  have "r' = r\<lparr>rs_headers := rs_headers r'\<rparr> \<and> (n \<noteq> ''trailer'' \<longrightarrow> hm_get_all (rs_headers r') n = hm_get_all (rs_headers r) n) \<and>
    hm_get_all (rs_headers r') ''trailer'' =
       (case rs_trailers r of None \<Rightarrow> [] | Some t \<Rightarrow> [join '', '' (hm_keys t)]) \<and>
    (\<forall>t. rs_trailers r = Some t \<longrightarrow> validate_response_trailers http (rs_headers r) t = Inr ())"
    using assms by (cases "rs_trailers r")
      (auto simp: finalize_trailers_def hm_contains_def split: if_splits sum.splits)
  then show "r' = r\<lparr>rs_headers := rs_headers r'\<rparr>"
    "n \<noteq> ''trailer'' \<Longrightarrow> hm_get_all (rs_headers r') n = hm_get_all (rs_headers r) n"
    "hm_get_all (rs_headers r') ''trailer'' =
       (case rs_trailers r of None \<Rightarrow> [] | Some t \<Rightarrow> [join '', '' (hm_keys t)])"
    "rs_trailers r = Some t \<Longrightarrow> hm_contains t n \<Longrightarrow>
       \<not> is_forbidden_trailer n \<and> n \<notin> set (connection_nominated_headers http (rs_headers r))"
    by (auto simp: validate_trailers_Inr)
qed

lemma content_ok:
  assumes "finalize_content http r = Inr r'"
  shows "r' = r\<lparr>rs_headers := rs_headers r'\<rparr>"
    "n \<notin> {''content-type'', ''content-length''} \<Longrightarrow> hm_get_all (rs_headers r') n = hm_get_all (rs_headers r) n"
    "hm_get_all (rs_headers r') ''content-type'' =
       (if status_has_no_content (rs_status r) \<or> hm_contains (rs_headers r) ''content-type''
        then hm_get_all (rs_headers r) ''content-type'' else [content_type r])"
    "hm_get_all (rs_headers r') ''content-length'' =
       (if status_has_no_content (rs_status r) \<or> hm_contains (rs_headers r) ''content-length'' \<or> rs_trailers r \<noteq> None
        then hm_get_all (rs_headers r) ''content-length''
        else case body_kind r of BBytes b \<Rightarrow> [show_nat (length b)] | _ \<Rightarrow> [])"
  using assms unfolding finalize_content_def Let_def
  by (auto simp: hm_contains_def split: if_splits BodyKind.splits)

lemma status_checked:
  assumes "http_laws http" "finalize_status http b64 r = None"
  shows "100 \<le> rs_status r" "rs_status r \<le> 999" "is_informational (rs_status r) \<Longrightarrow> rs_status r = 101"
    "build_error r = None"
    "rs_status r = 101 \<Longrightarrow> valid_websocket_switching_protocols http b64 (rs_headers r)"
  using assms http_lawsD(4) [OF assms(1)] by (auto simp: finalize_status_def split: if_splits)

lemma once_cases:
  assumes "finalize_once http b64 r = Inr r'"
  obtains r1 r2 where "finalize_status http b64 r = None" "finalize_trailers http r = Inr r1"
    "finalize_framing http r1 (rs_status r) = Inr r2" "finalize_content http r2 = Inr r'"
    "rs_status r1 = rs_status r" "rs_status r2 = rs_status r" "rs_status r' = rs_status r"
    "build_error r' = build_error r"
proof -
  obtain r1 r2 where s: "finalize_status http b64 r = None" "finalize_trailers http r = Inr r1"
    "finalize_framing http r1 (rs_status r1) = Inr r2" "finalize_content http r2 = Inr r'"
    using assms by (auto simp: finalize_once_def split: option.splits sum.splits)
  have "rs_status r1 = rs_status r \<and> build_error r1 = build_error r"
    using trailers_ok(1) [OF s(2)] by (metis Response.select_convs(1,7) Response.surjective Response.update_convs(3))
  moreover have "rs_status r' = rs_status r2 \<and> build_error r' = build_error r2"
    using content_ok(1) [OF s(4)] by (metis Response.select_convs(1,7) Response.surjective Response.update_convs(3))
  ultimately show thesis using s framing_ok(1,2) [OF s(3)] by (intro that [of r1 r2]) simp_all
qed

lemma once_framed:
  assumes laws: "http_laws http" and "finalize_once http b64 r = Inr r'"
  shows "well_framed http r'"
  using assms(2)
proof (cases rule: once_cases)
  case (1 r1 r2)
  note st = status_checked [OF laws 1(1)] and t = trailers_ok [OF 1(2)] and f = framing_ok [OF 1(3)]
    and c = content_ok [OF 1(4)]
  obtain h1 where r1: "r1 = r\<lparr>rs_headers := h1\<rparr>" using t(1) by blast
  obtain h' where r': "r' = r2\<lparr>rs_headers := h'\<rparr>" using c(1) by blast
  have same: "rs_trailers r' = rs_trailers r2" "body_kind r' = body_kind r2" by (simp_all add: r')
  have conn: "connection_nominated_headers http (rs_headers r') = connection_nominated_headers http (rs_headers r)"
    by (rule nominated_cong) (simp add: c(2) f(5) t(2))
  have trailer: "hm_get_all (rs_headers r') ''trailer'' = (if status_has_no_content (rs_status r) then []
      else case rs_trailers r of None \<Rightarrow> [] | Some t \<Rightarrow> [join '', '' (hm_keys t)])"
    using c(2) [of "''trailer''"] f(6,7) t(3) by (auto simp: hm_contains_def)
  show ?thesis
  proof (cases "status_has_no_content (rs_status r)")
    case True
    with f(6) c(4) have "rs_status r \<noteq> 304 \<longrightarrow> \<not> hm_contains (rs_headers r') ''content-length''"
      by (auto simp: hm_contains_def 1(6))
    with True f(4,6) c(2) [of "''transfer-encoding''"] st 1(6,7) same trailer show ?thesis
      by (auto simp: well_framed_def hm_contains_def)
  next
    case False
    note f7 = f(7) [OF False]
    have tr: "rs_trailers r2 = rs_trailers r" using f7 by (simp add: r1)
    have ct: "hm_contains (rs_headers r') ''content-type''"
      using c(3) False 1(6) by (auto simp: hm_contains_def)
    have len: "hm_get_all (rs_headers r') ''content-length'' = [show_nat (length b)]"
      if "body_kind r2 = BBytes b" "rs_trailers r2 = None" for b
      using c(4) f(8) that False 1(6) by (auto simp: length_field_ok_def hm_contains_def)
    have notr: "hm_get_all (rs_headers r') ''content-length'' = []" if "rs_trailers r2 \<noteq> None"
      using c(4) f(8) that by (auto simp: length_field_ok_def)
    show ?thesis
      unfolding well_framed_def 1(7) same conn tr
      using st False ct len notr tr trailer f(4) c(2) [of "''transfer-encoding''"] t(4)
      by (auto simp: hm_contains_def split: option.splits)
  qed
qed

section \<open>Every response is produced\<close>

lemma invalid_once:
  assumes laws: "http_laws http"
  shows "\<exists>r'. finalize_once http b64 (invalid_response http e) = Inr r'"
proof -
  have v: "header_value_ok http ''application/problem+json''"
    by (rule http_lawsD(2) [OF laws]) (simp add: visible_def)
  have s: "status_ok http 500" using http_lawsD(4) [OF laws] by simp
  let ?r = "invalid_response http e"
  have r: "rs_status ?r = 500" "content_type ?r = ''application/problem+json''" "rs_headers ?r = []"
    "rs_trailers ?r = None" "build_error ?r = None" "\<exists>b. body_kind ?r = BBytes b"
    using s by (simp_all add: invalid_response_def from_error_def error_defs set_status_def Response_bytes_def)
  then obtain b where b: "body_kind ?r = BBytes b" by blast
  have "finalize_status http b64 ?r = None" "finalize_trailers http ?r = Inr ?r"
    using r s by (simp_all add: finalize_status_def is_informational_def finalize_trailers_def)
  moreover have "finalize_framing http ?r 500 = Inr (?r\<lparr>rs_headers := []\<rparr>)"
    using r b by (simp add: finalize_framing_def content_length_absent mismatch_def status_has_no_content_def
        is_informational_def)
  moreover have "\<exists>r'. finalize_content http (?r\<lparr>rs_headers := []\<rparr>) = Inr r'"
    using r v by (simp add: finalize_content_def Let_def)
  ultimately show ?thesis using r(1) by (simp add: finalize_once_def)
qed

lemma finalize_once_Inr: "finalize_once http b64 r = Inr r' \<Longrightarrow> finalize http b64 r = Some r'"
  by (subst finalize.simps) simp

lemma finalize_returns:
  assumes "http_laws http"
  obtains r0 r' where "finalize http b64 r = Some r'" "finalize_once http b64 r0 = Inr r'"
    "r0 = r \<or> (\<exists>e. finalize_once http b64 r = Inl e \<and> r0 = invalid_response http e)"
proof (cases "finalize_once http b64 r")
  case (Inl e)
  from invalid_once [OF assms] obtain r' where r': "finalize_once http b64 (invalid_response http e) = Inr r'"
    by blast
  with Inl have "finalize http b64 r = Some r'" by (subst finalize.simps) (simp add: finalize_once_Inr)
  with r' Inl that show thesis by blast
next
  case (Inr r')
  then show thesis using finalize_once_Inr that by blast
qed

text \<open>
  Claim C14: finalising a response, whatever a handler or middleware put into it, returns, and the
  result is well framed: a final status code, no \<open>Transfer-Encoding\<close>, a body of known length
  announced by exactly one \<open>Content-Length\<close> that equals it (and none beside trailers), no
  body, trailers or length for the statuses that have no content, a \<open>Trailer\<close> field exactly when there
  are trailers, and no trailer that is forbidden or nominated by \<open>Connection\<close>.
\<close>

theorem finalize_total_framed:
  assumes "http_laws http"
  shows "\<exists>r'. finalize http b64 r = Some r' \<and> well_framed http r'"
  using finalize_returns [OF assms, of b64 r] once_framed [OF assms] by metis

theorem finalize_total_framed_witness:
  "\<exists>r'. finalize demo_http (\<lambda>s. Some s)
      ((Response_send ''hola'')\<lparr>rs_headers := [(''content-length'', ''4, 4''), (''transfer-encoding'', ''chunked'')]\<rparr>) = Some r' \<and>
    well_framed demo_http r'"
  by (rule finalize_total_framed [OF demo_http_laws])

section \<open>Finalising twice\<close>

lemma framing_again:
  assumes laws: "http_laws http" and w: "well_framed http r"
    and field: "length_field_ok (rs_headers r) (body_kind r) (rs_trailers r)"
  shows "finalize_framing http r (rs_status r) = Inr r"
proof -
  let ?h = "rs_headers r" and ?s = "rs_status r"
  have te: "hm_get_all ?h ''transfer-encoding'' = []" using w by (auto simp: well_framed_def hm_contains_def)
  obtain declared where c: "response_content_length http ?h = Inr (?h, declared)"
    and d: "declared = None \<or> rs_trailers r = None" "mismatch declared (body_kind r) = None"
  proof (cases "hm_get_all ?h ''content-length'' = []")
    case True
    show thesis by (rule that [OF content_length_absent [OF True]]) (simp_all add: mismatch_def)
  next
    case False
    with field obtain n where n: "n \<le> u64_max" "hm_get_all ?h ''content-length'' = [show_nat n]"
      "rs_trailers r = None" "\<forall>b. body_kind r = BBytes b \<longrightarrow> n = length b"
      by (auto simp: length_field_ok_def)
    show thesis by (rule that [OF content_length_again [OF laws n(2,1)]]) (simp_all add: n(3,4) mismatch_None)
  qed
  have "(clear_body r)\<lparr>rs_trailers := None,
      rs_headers := (if ?s \<noteq> 304 then hm_remove (hm_remove (hm_remove ?h ''trailer'') ''transfer-encoding'') ''content-length''
        else hm_remove (hm_remove ?h ''trailer'') ''transfer-encoding'')\<rparr> = r"
    if "status_has_no_content ?s"
  proof -
    have "hm_get_all ?h ''trailer'' = []" "body_kind r = BEmpty" "rs_trailers r = None"
      "?s \<noteq> 304 \<longrightarrow> hm_get_all ?h ''content-length'' = []"
      using w that by (auto simp: well_framed_def hm_contains_def)
    with te show ?thesis by (cases r) (simp add: remove_absent clear_body_def)
  qed
  with c d te show ?thesis
    by (cases "status_has_no_content ?s"; cases "?s = 304")
      (simp_all add: finalize_framing_def Let_def hm_contains_def)
qed

lemma invalid_body: "body_kind (invalid_response http e) =
    BBytes (problem_json http 500 ''internal_server_error'' ''No se pudo construir la respuesta'')"
  by (simp add: invalid_response_def from_error_def error_defs set_status_def Response_bytes_def
      record_build_error_def)

lemma once_again:
  assumes laws: "http_laws http" and o: "finalize_once http b64 r = Inr r'"
    and small: "\<And>b. body_kind r = BBytes b \<Longrightarrow> length b \<le> u64_max"
  shows "finalize_once http b64 r' = Inr r'"
  using o
proof (cases rule: once_cases)
  case (1 r1 r2)
  note st = status_checked [OF laws 1(1)] and t = trailers_ok [OF 1(2)] and f = framing_ok [OF 1(3)]
    and c = content_ok [OF 1(4)] and w = once_framed [OF laws o]
  obtain h1 where r1: "r1 = r\<lparr>rs_headers := h1\<rparr>" using t(1) by blast
  obtain h' where r': "r' = r2\<lparr>rs_headers := h'\<rparr>" using c(1) by blast
  let ?h = "rs_headers r'"
  have keep: "hm_get_all ?h n = hm_get_all (rs_headers r) n"
    if "n \<notin> {''trailer'', ''transfer-encoding'', ''content-length'', ''content-type''}" for n
    using that c(2) f(5) t(2) by simp
  have status: "finalize_status http b64 r' = None"
  proof -
    have "valid_websocket_switching_protocols http b64 ?h" if "rs_status r = 101"
      using st(5) [OF that] keep by (simp add: valid_websocket_switching_protocols_def
          response_header_contains_token_def hm_get_def)
    then show ?thesis using st http_lawsD(4) [OF laws] 1(7,8) by (auto simp: finalize_status_def)
  qed
  have trailers: "finalize_trailers http r' = Inr r'"
  proof (cases "rs_trailers r'")
    case None
    with w show ?thesis by (simp add: finalize_trailers_def well_framed_def)
  next
    case (Some tr)
    then have "\<not> status_has_no_content (rs_status r)" using w 1(7) by (auto simp: well_framed_def split: if_splits)
    from f(7) [OF this] Some have "rs_trailers r = Some tr" "hm_get_all ?h ''trailer'' = [join '', '' (hm_keys tr)]"
      using t(3) c(2) [of "''trailer''"] by (auto simp: r1 r')
    moreover have "validate_response_trailers http ?h tr = Inr ()"
      using w Some by (auto simp: validate_trailers_Inr well_framed_def)
    ultimately show ?thesis using Some by (simp add: finalize_trailers_def insert_same)
  qed
  have field: "length_field_ok ?h (body_kind r') (rs_trailers r')"
  proof (cases "hm_get_all ?h ''content-length'' = hm_get_all (rs_headers r2) ''content-length''")
    case True
    with f(8) show ?thesis by (simp add: r' length_field_ok_def)
  next
    case False
    with c(4) obtain b where "body_kind r2 = BBytes b" "rs_trailers r2 = None" "\<not> status_has_no_content (rs_status r2)"
      "hm_get_all ?h ''content-length'' = [show_nat (length b)]"
      by (auto simp: hm_contains_def split: if_splits BodyKind.splits)
    moreover from this f(7) 1(6) small have "length b \<le> u64_max" by (simp add: r1)
    ultimately show ?thesis by (auto simp: length_field_ok_def r')
  qed
  have framing: "finalize_framing http r' (rs_status r') = Inr r'"
    using framing_again [OF laws w field] .
  have "finalize_content http r' = Inr r'"
    using w unfolding finalize_content_def well_framed_def Let_def
    by (auto simp: hm_contains_def split: BodyKind.split if_splits)
  with status trailers framing show ?thesis by (simp add: finalize_once_def)
qed

text \<open>
  Finalising is idempotent: the response a test client or the server has finalised once is
  sent unchanged when the network layer finalises it again, for every body whose length is a
  \<open>u64\<close>.
\<close>

theorem finalize_idempotent:
  assumes "http_laws http" "finalize http b64 r = Some r'"
    and "\<And>b. body_kind r = BBytes b \<Longrightarrow> length b \<le> u64_max"
    and "length (problem_json http 500 ''internal_server_error'' ''No se pudo construir la respuesta'') \<le> u64_max"
  shows "finalize http b64 r' = Some r'"
proof -
  obtain r0 r'' where r0: "finalize http b64 r = Some r''" "finalize_once http b64 r0 = Inr r''"
    "r0 = r \<or> (\<exists>e. finalize_once http b64 r = Inl e \<and> r0 = invalid_response http e)"
    by (rule finalize_returns [OF assms(1)])
  have "length b \<le> u64_max" if "body_kind r0 = BBytes b" for b
    using r0(3) that assms(3,4) by (auto simp: invalid_body)
  from once_again [OF assms(1) r0(2) this] show ?thesis
    using r0(1) assms(2) by (simp add: finalize_once_Inr)
qed

definition demo_final :: Response where
  "demo_final = (Response_send ''hola'')\<lparr>rs_headers :=
     [(''content-type'', ''text/plain; charset=utf-8''), (''content-length'', ''4'')]\<rparr>"

lemma demo_once: "finalize_once demo_http (\<lambda>s. Some s) (Response_send ''hola'') = Inr demo_final"
  by code_simp

theorem finalize_idempotent_witness:
  "finalize demo_http (\<lambda>s. Some s) demo_final = Some demo_final"
proof -
  have "length (problem_json demo_http 500 ''internal_server_error'' ''No se pudo construir la respuesta'') \<le> u64_max"
    by code_simp
  moreover have "length b \<le> u64_max" if "body_kind (Response_send ''hola'') = BBytes b" for b
    using that by (auto simp: Response_send_def Response_bytes_def u64_max_def)
  ultimately show ?thesis
    using finalize_idempotent [OF demo_http_laws finalize_once_Inr [OF demo_once]] by blast
qed

section \<open>HEAD\<close>

lemma status_clear_body: "finalize_status http b64 (clear_body r) = finalize_status http b64 r"
  by (simp add: finalize_status_def clear_body_def)

lemma length_preserved:
  assumes "response_content_length http (rs_headers r) = Inr (h, declared)" "body_kind r = BBytes b"
    and "mismatch declared (BBytes b) = None"
  shows "\<exists>h'. preserve_buffered_representation_length http r = r\<lparr>rs_headers := h'\<rparr> \<and>
    (\<forall>n. hm_get_all h' n = (if n = ''content-length'' then [show_nat (length b)] else hm_get_all (rs_headers r) n))"
  using assms(1)
proof (cases rule: content_length_cases)
  case absent
  then show ?thesis using assms by (auto simp: preserve_buffered_representation_length_def)
next
  case (declared n)
  then have "n = length b" using assms(3) by (simp add: mismatch_None)
  with declared assms show ?thesis by (auto simp: preserve_buffered_representation_length_def)
qed

lemma framing_valid:
  assumes "finalize_framing http r status = Inr r'" "\<not> status_has_no_content status" "body_kind r = BBytes b"
  obtains h declared where "response_content_length http (rs_headers r) = Inr (h, declared)"
    "mismatch declared (BBytes b) = None" "\<not> hm_contains (rs_headers r) ''transfer-encoding''"
proof -
  obtain h declared where c: "response_content_length http (rs_headers r) = Inr (h, declared)"
    and te: "\<not> hm_contains h ''transfer-encoding''" and m: "mismatch declared (BBytes b) = None"
    using assms by (auto simp: finalize_framing_def Let_def split: sum.splits if_splits option.splits)
  have "hm_contains h ''transfer-encoding'' = hm_contains (rs_headers r) ''transfer-encoding''"
    using c by (cases rule: content_length_cases) auto
  with c te m that show thesis by simp
qed

lemma prepared_no_trailers:
  "rs_trailers r = None \<Longrightarrow> hm_get_all (rs_headers r) ''trailer'' = [] \<Longrightarrow>
     r\<lparr>rs_trailers := None, rs_headers := hm_remove (rs_headers r) ''trailer''\<rparr> = r"
  by (cases r) (simp add: remove_absent)

lemma head_prepared:
  assumes "status_ok http (rs_status r)" "\<not> status_has_no_content (rs_status r)"
    and "rs_trailers r = None" "hm_get_all (rs_headers r) ''trailer'' = []" "body_kind r = BBytes b"
    and "finalize_framing http r (rs_status r) = Inr r2"
  obtains h' where "prepare_for_head http r = clear_body (r\<lparr>rs_headers := h'\<rparr>)"
    "\<And>n. hm_get_all h' n = (if n = ''content-length'' then [show_nat (length b)] else hm_get_all (rs_headers r) n)"
    "hm_get_all (rs_headers r) ''transfer-encoding'' = []"
proof -
  obtain h declared where cl: "response_content_length http (rs_headers r) = Inr (h, declared)"
    "mismatch declared (BBytes b) = None" "\<not> hm_contains (rs_headers r) ''transfer-encoding''"
    using framing_valid [OF assms(6,2,5)] by metis
  from length_preserved [OF cl(1) assms(5) cl(2)] obtain h' where
    "preserve_buffered_representation_length http r = r\<lparr>rs_headers := h'\<rparr>"
    "\<And>n. hm_get_all h' n = (if n = ''content-length'' then [show_nat (length b)] else hm_get_all (rs_headers r) n)"
    by blast
  with assms(1,2) prepared_no_trailers [OF assms(3,4)] cl(3) that [of h'] show thesis
    by (simp add: prepare_for_head_def Let_def hm_contains_def)
qed

text \<open>The head of a valid response passes every stage up to the content type.\<close>

lemma head_stages:
  assumes laws: "http_laws http" and "finalize_status http b64 r = None" "\<not> status_has_no_content (rs_status r)"
    and "rs_trailers r = None" "length b \<le> u64_max"
    and h': "\<And>n. hm_get_all h' n = (if n = ''content-length'' then [show_nat (length b)] else hm_get_all (rs_headers r) n)"
    and "hm_get_all (rs_headers r) ''trailer'' = []" "hm_get_all (rs_headers r) ''transfer-encoding'' = []"
  defines "p \<equiv> clear_body (r\<lparr>rs_headers := h'\<rparr>)"
  shows "finalize_once http b64 p = finalize_content http p"
proof -
  have "finalize_status http b64 p = None"
    unfolding p_def status_clear_body using status_checked [OF laws assms(2)] http_lawsD(4) [OF laws] assms(3)
    by (auto simp: finalize_status_def status_has_no_content_def is_informational_def)
  moreover have "finalize_trailers http p = Inr p"
    using assms(4,7) h' by (simp add: p_def clear_body_def finalize_trailers_def hm_contains_def)
  moreover have "response_content_length http h' = Inr (h', Some (length b))"
    by (rule content_length_again [OF laws _ assms(5)]) (simp add: h')
  then have "finalize_framing http p (rs_status p) = Inr p"
    using assms(3,4,8) h'
    by (auto simp: p_def finalize_framing_def clear_body_def Let_def hm_contains_def mismatch_def)
  ultimately show ?thesis by (simp add: finalize_once_def)
qed

lemma head_fields:
  assumes laws: "http_laws http" and g: "finalize_once http b64 r = Inr g" and "finalize_content http r2 = Inr g"
    and q: "finalize_content http (clear_body (r\<lparr>rs_headers := h'\<rparr>)) = Inr q"
    and f: "content_type r2 = content_type r \<and> body_kind r2 = BBytes b \<and> rs_trailers r2 = None \<and>
      hm_get_all (rs_headers r2) ''trailer'' = [] \<and> hm_get_all (rs_headers r2) ''transfer-encoding'' = [] \<and>
      (\<forall>n. n \<notin> {''trailer'', ''transfer-encoding'', ''content-length''} \<longrightarrow>
        hm_get_all (rs_headers r2) n = hm_get_all (rs_headers r) n) \<and>
      (\<forall>n. hm_get_all h' n = (if n = ''content-length'' then [show_nat (length b)] else hm_get_all (rs_headers r) n)) \<and>
      hm_get_all (rs_headers r) ''trailer'' = [] \<and> hm_get_all (rs_headers r) ''transfer-encoding'' = [] \<and>
      \<not> status_has_no_content (rs_status r)"
    and st: "rs_status r2 = rs_status r" "rs_status g = rs_status r"
  shows "rs_status q = rs_status g \<and> body_kind q = BEmpty \<and>
    (\<forall>n. hm_get_all (rs_headers q) n = hm_get_all (rs_headers g) n)"
proof -
  note c = content_ok [OF assms(3)] and cq = content_ok [OF q]
  obtain hg hq where hs: "g = r2\<lparr>rs_headers := hg\<rparr>" "q = (clear_body (r\<lparr>rs_headers := h'\<rparr>))\<lparr>rs_headers := hq\<rparr>"
    using c(1) cq(1) by blast
  have len: "hm_get_all (rs_headers g) ''content-length'' = [show_nat (length b)]"
  proof -
    have "body_kind g = BBytes b" "rs_trailers g = None" "\<not> status_has_no_content (rs_status g)"
      using f st(2) by (simp_all add: hs(1))
    with once_framed [OF laws g] show ?thesis by (simp add: well_framed_def)
  qed
  have "hm_get_all (rs_headers q) n = hm_get_all (rs_headers g) n" for n
  proof (cases "n \<in> {''content-type'', ''content-length'', ''trailer'', ''transfer-encoding''}")
    case True
    have h': "hm_get_all h' m = (if m = ''content-length'' then [show_nat (length b)] else hm_get_all (rs_headers r) m)"
      and r2: "hm_get_all (rs_headers r2) ''content-type'' = hm_get_all (rs_headers r) ''content-type''" for m
      using f by simp_all
    have eq: "content_type r2 = content_type r" "\<not> status_has_no_content (rs_status r)"
      "hm_get_all (rs_headers r2) ''trailer'' = []" "hm_get_all (rs_headers r) ''trailer'' = []"
      "hm_get_all (rs_headers r2) ''transfer-encoding'' = []" "hm_get_all (rs_headers r) ''transfer-encoding'' = []"
      using f by blast+
    from True consider "n = ''content-type''" | "n = ''content-length''" | "n = ''trailer''" | "n = ''transfer-encoding''"
      by auto
    then show ?thesis
    proof cases
      case 1
      then show ?thesis using cq(3) c(3) st eq(1,2) by (simp add: clear_body_def hm_contains_def h' r2)
    next
      case 2
      then show ?thesis using cq(4) len by (simp add: clear_body_def hm_contains_def h')
    next
      case 3
      then show ?thesis using cq(2) [of n] c(2) [of n] eq(3,4) by (simp add: clear_body_def h')
    next
      case 4
      then show ?thesis using cq(2) [of n] c(2) [of n] eq(5,6) by (simp add: clear_body_def h')
    qed
  next
    case False
    then have "hm_get_all (rs_headers r2) n = hm_get_all h' n" using f by simp
    with False show ?thesis using cq(2) [of n] c(2) [of n] by (simp add: clear_body_def)
  qed
  then show ?thesis using hs st by (simp add: clear_body_def)
qed

text \<open>
  The answer to \<open>HEAD\<close> mirrors the one to \<open>GET\<close>: for every response with a buffered body
  and no trailers that is valid for \<open>GET\<close>, preparing it for \<open>HEAD\<close> and finalising gives the same
  status and the same fields, \<open>Content-Length\<close> included, and no body.
\<close>

theorem head_mirrors_get:
  assumes laws: "http_laws http" and g: "finalize_once http b64 r = Inr g"
    and b: "body_kind r = BBytes b" "length b \<le> u64_max" "rs_trailers r = None"
  shows "\<exists>h. finalize http b64 (prepare_for_head http r) = Some h \<and> rs_status h = rs_status g \<and>
    body_kind h = BEmpty \<and> (\<forall>n. hm_get_all (rs_headers h) n = hm_get_all (rs_headers g) n)"
  using g
proof (cases rule: once_cases)
  case (1 r1 r2)
  note st = status_checked [OF laws 1(1)] and f = framing_ok [OF 1(3)] and c = content_ok [OF 1(4)]
  have r1: "r1 = r" and tr: "hm_get_all (rs_headers r) ''trailer'' = []"
    using 1(2) b(3) by (auto simp: finalize_trailers_def hm_contains_def split: if_splits)
  let ?p = "prepare_for_head http r"
  have ok: "status_ok http (rs_status r)" using st(1,2) http_lawsD(4) [OF laws] by simp
  show ?thesis
  proof (cases "status_has_no_content (rs_status r)")
    case True
    have p: "?p = clear_body r" using True ok prepared_no_trailers [OF b(3) tr] by (simp add: prepare_for_head_def Let_def)
    have "finalize_status http b64 ?p = None" using 1(1) by (simp add: p status_clear_body)
    moreover have "finalize_trailers http ?p = Inr ?p"
      using b(3) tr by (simp add: p clear_body_def finalize_trailers_def hm_contains_def)
    moreover have "finalize_framing http ?p (rs_status r) = Inr r2"
      using 1(3) True b(3) unfolding r1 p finalize_framing_def
      by (auto simp: clear_body_def Let_def mismatch_def split: sum.splits if_splits option.splits)
    ultimately have "finalize_once http b64 ?p = Inr g"
      using 1(4) by (simp add: finalize_once_def p clear_body_def)
    moreover have "body_kind g = BEmpty" using once_framed [OF laws g] True 1(7) by (simp add: well_framed_def)
    ultimately show ?thesis using finalize_once_Inr by blast
  next
    case False
    from ok False b(3) tr b(1) 1(3) [unfolded r1] obtain h' where pr: "?p = clear_body (r\<lparr>rs_headers := h'\<rparr>)"
      and h': "\<And>n. hm_get_all h' n = (if n = ''content-length'' then [show_nat (length b)] else hm_get_all (rs_headers r) n)"
      and te: "hm_get_all (rs_headers r) ''transfer-encoding'' = []" by (rule head_prepared) blast
    obtain q where q: "finalize_content http ?p = Inr q"
      using 1(4) f(3,5) False r1 h' by (fastforce simp: pr finalize_content_def Let_def clear_body_def hm_contains_def
          1(6) split: if_splits)
    have "finalize http b64 ?p = Some q"
      using head_stages [OF laws 1(1) False b(3,2) h' tr te] q by (intro finalize_once_Inr) (simp add: pr)
    moreover have "rs_status q = rs_status g \<and> body_kind q = BEmpty \<and>
        (\<forall>n. hm_get_all (rs_headers q) n = hm_get_all (rs_headers g) n)"
      using head_fields [OF laws g 1(4) q [unfolded pr] _ 1(6,7)] f False b tr te h' r1
      by (simp add: hm_contains_def)
    ultimately show ?thesis by blast
  qed
qed

theorem head_mirrors_get_witness:
  "\<exists>h. finalize demo_http (\<lambda>s. Some s) (prepare_for_head demo_http (Response_send ''hola'')) = Some h \<and>
     rs_status h = 200 \<and> body_kind h = BEmpty \<and> hm_get_all (rs_headers h) ''content-length'' = [''4'']"
proof -
  have r: "body_kind (Response_send ''hola'') = BBytes ''hola''" "length ''hola'' \<le> u64_max"
    "rs_trailers (Response_send ''hola'') = None" by code_simp+
  have g: "rs_status demo_final = 200" "hm_get_all (rs_headers demo_final) ''content-length'' = [''4'']"
    by code_simp+
  from head_mirrors_get [OF demo_http_laws demo_once r] g show ?thesis by auto
qed

section \<open>Redirect targets\<close>

lemma hex_location: "is_ascii_hexdigit c \<Longrightarrow> location_char c"
  by (auto simp: is_ascii_hexdigit_def location_char_def is_ascii_alphanumeric_def is_ascii_upper_def
      is_ascii_lower_def)

lemma percent_not_location [simp]: "\<not> location_char CHR ''%''"
  by (simp add: location_char_def is_ascii_alphanumeric_def is_ascii_digit_def is_ascii_upper_def is_ascii_lower_def)

lemma is_escape_iff: "is_escape c rest \<longleftrightarrow> c = CHR ''%'' \<and>
    (\<exists>a b r. rest = a # b # r \<and> is_ascii_hexdigit a \<and> is_ascii_hexdigit b)"
proof (cases rest)
  case (Cons a r)
  then show ?thesis by (cases r) (auto simp: is_escape_def)
qed (simp add: is_escape_def)

lemma escape_kept: "is_escape c rest \<Longrightarrow> is_escape c (encode_location rest)"
  by (auto simp: is_escape_iff hex_location)

lemma code_hex: "is_ascii_hexdigit (hex_upper (code c div 16))" "is_ascii_hexdigit (hex_upper (code c mod 16))"
  by (rule hex_upper_hexdigit, simp add: less_mult_imp_div_less)+

lemma location_visible: "location_char c \<Longrightarrow> visible c"
  by (auto simp: location_char_def visible_def is_ascii_alphanumeric_def is_ascii_digit_def is_ascii_upper_def
      is_ascii_lower_def)

text \<open>
  A redirect target is made safe once and for all: the encoded location has only visible
  ASCII bytes, so no field or line can be injected through it and it is a valid header
  value, and encoding an encoded location changes nothing, so existing escapes survive.
\<close>

theorem encode_location_safe:
  "list_all visible (encode_location s) \<and> encode_location (encode_location s) = encode_location s"
proof (induction s rule: encode_location.induct)
  case (2 c rest)
  have v: "visible CHR ''%''" by (simp add: visible_def)
  consider "location_char c" | "\<not> location_char c" "is_escape c rest" | "\<not> location_char c" "\<not> is_escape c rest"
    by blast
  then show ?case
  proof cases
    case 1
    with 2 show ?thesis by (simp add: location_visible)
  next
    case 2
    then have "c = CHR ''%''" by (simp add: is_escape_iff)
    with 2 \<open>list_all visible (encode_location rest) \<and> _\<close> escape_kept [OF 2(2)] v show ?thesis by simp
  next
    case 3
    let ?E = "hex_upper (code c div 16) # hex_upper (code c mod 16) # encode_location rest"
    have "is_escape CHR ''%'' ?E" using code_hex by (auto simp: is_escape_iff)
    with 3 \<open>list_all visible (encode_location rest) \<and> _\<close> v code_hex [of c] show ?thesis
      by (simp add: hex_location location_visible)
  qed
qed simp

end
