(* ===== verification/Ws_Config.thy ===== *)
theory Ws_Config
  imports Http_Types
begin

text \<open>
  WebSocket configuration (\<open>src/app/websocket/config.rs\<close>): the optional overrides of an
  application and of a route, their resolution, its validation, and the origin policy. URIs are
  parsed by the crate \<open>http\<close>, a parameter \<open>uris\<close>. Durations are in nanoseconds.
\<close>

section \<open>URIs\<close>

record Uri =
  uri_scheme :: "string option"
  uri_authority :: "string option"
  uri_path_and_query :: "string option"
  uri_path :: string
  uri_query :: "string option"

record uri_crate =
  parse_uri :: "string \<Rightarrow> Uri option"
  authority_host :: "string \<Rightarrow> string"
  authority_port :: "string \<Rightarrow> nat option"
  parse_authority :: "string \<Rightarrow> bool"

section \<open>Errors (src/app/websocket/error.rs)\<close>

datatype WebSocketTimeout = TimeoutSend | TimeoutPong | TimeoutIdle | TimeoutLifetime | TimeoutClose
  | TimeoutShutdown | TimeoutBroker

datatype WebSocketCapacityError = InboundQueue | OutboundQueue | GlobalConnections | RouteConnections
  | IpConnections | MessageRate

datatype WebSocketError = ProtocolError string | JsonError string

datatype WebSocketErrorCategory = CategoryProtocol | CategoryJson

fun ws_error_category :: "WebSocketError \<Rightarrow> WebSocketErrorCategory" where
  "ws_error_category (ProtocolError _) = CategoryProtocol"
| "ws_error_category (JsonError _) = CategoryJson"

datatype WsError =
    WsWebSocket WebSocketError
  | WsTimeout WebSocketTimeout
  | WsCapacity WebSocketCapacityError
  | InvalidConfiguration string
  | InvalidClose nat string
  | InvalidRoom string
  | RoomLimit
  | ConnectionNotFound nat
  | WsShutdown
  | HandlerPanic
  | WsClosed

section \<open>Origin policy\<close>

datatype BackpressurePolicy = Wait | Reject | Disconnect

datatype OriginPolicy = AnyOrigin bool | SameHost bool | AllowList "string list" bool

fun allow_missing :: "OriginPolicy \<Rightarrow> bool \<Rightarrow> OriginPolicy" where
  "allow_missing (AnyOrigin _) b = AnyOrigin b"
| "allow_missing (SameHost _) b = SameHost b"
| "allow_missing (AllowList origins _) b = AllowList origins b"

fun allows_missing :: "OriginPolicy \<Rightarrow> bool" where
  "allows_missing (AnyOrigin b) = b"
| "allows_missing (SameHost b) = b"
| "allows_missing (AllowList _ b) = b"

datatype OriginScheme = SchemeHttp | SchemeHttps | SchemeWs | SchemeWss

definition scheme_parse :: "string \<Rightarrow> OriginScheme option" where
  "scheme_parse v =
     (if eq_ignore_ascii_case v ''http'' then Some SchemeHttp
      else if eq_ignore_ascii_case v ''https'' then Some SchemeHttps
      else if eq_ignore_ascii_case v ''ws'' then Some SchemeWs
      else if eq_ignore_ascii_case v ''wss'' then Some SchemeWss else None)"

fun scheme_default_port :: "OriginScheme \<Rightarrow> nat" where
  "scheme_default_port SchemeHttp = 80"
| "scheme_default_port SchemeWs = 80"
| "scheme_default_port SchemeHttps = 443"
| "scheme_default_port SchemeWss = 443"

definition scheme_is_secure :: "OriginScheme \<Rightarrow> bool" where
  "scheme_is_secure s \<longleftrightarrow> s = SchemeHttps \<or> s = SchemeWss"

record NormalizedOrigin =
  or_scheme :: OriginScheme
  or_host :: string
  or_port :: nat

fun find_char :: "char \<Rightarrow> string \<Rightarrow> nat option" where
  "find_char c [] = None"
| "find_char c (x # xs) = (if x = c then Some 0 else map_option Suc (find_char c xs))"

definition effective_port :: "uri_crate \<Rightarrow> string \<Rightarrow> nat \<Rightarrow> nat option" where
  "effective_port uris authority default_port =
     (case authority_port uris authority of
        Some port \<Rightarrow> Some port
      | None \<Rightarrow>
          let has_explicit_port =
            (if starts_with ''['' authority
             then (case find_char (CHR '']'') authority of
                     None \<Rightarrow> False | Some i \<Rightarrow> i + 1 < length authority)
             else CHR '':'' \<in> set authority)
          in if has_explicit_port then None else Some default_port)"

definition origin_parse :: "uri_crate \<Rightarrow> string \<Rightarrow> NormalizedOrigin option" where
  "origin_parse uris v =
     (case parse_uri uris v of
        None \<Rightarrow> None
      | Some uri \<Rightarrow>
          (case Option.bind (uri_scheme uri) scheme_parse of
             None \<Rightarrow> None
           | Some scheme \<Rightarrow>
               (case uri_authority uri of
                  None \<Rightarrow> None
                | Some authority \<Rightarrow>
                    if CHR ''@'' \<in> set authority then None
                    else if uri_path_and_query uri \<noteq> None \<and> uri_path_and_query uri \<noteq> Some ''/'' then None
                    else if authority_host uris authority = [] then None
                    else map_option (\<lambda>port. \<lparr>or_scheme = scheme,
                           or_host = to_ascii_lowercase (authority_host uris authority), or_port = port\<rparr>)
                         (effective_port uris authority (scheme_default_port scheme)))))"

definition ws_normalize_host :: "uri_crate \<Rightarrow> string \<Rightarrow> nat \<Rightarrow> (string \<times> nat) option" where
  "ws_normalize_host uris host default_port =
     (case parse_uri uris (''http://'' @ host) of
        None \<Rightarrow> None
      | Some uri \<Rightarrow>
          (case uri_authority uri of
             None \<Rightarrow> None
           | Some authority \<Rightarrow>
               if CHR ''@'' \<in> set authority then None
               else if uri_path_and_query uri \<noteq> None \<and> uri_path_and_query uri \<noteq> Some ''/'' then None
               else if authority_host uris authority = [] then None
               else map_option (\<lambda>port. (to_ascii_lowercase (authority_host uris authority), port))
                      (effective_port uris authority default_port)))"

definition allows_normalized :: "uri_crate \<Rightarrow> OriginPolicy \<Rightarrow> NormalizedOrigin \<Rightarrow> string \<Rightarrow> nat \<Rightarrow> bool" where
  "allows_normalized uris policy origin host default_port =
     (case policy of
        AnyOrigin _ \<Rightarrow> True
      | SameHost _ \<Rightarrow> ws_normalize_host uris host default_port = Some (or_host origin, or_port origin)
      | AllowList origins _ \<Rightarrow> list_ex (\<lambda>allowed. origin_parse uris allowed = Some origin) origins)"

definition policy_allows :: "uri_crate \<Rightarrow> OriginPolicy \<Rightarrow> string option \<Rightarrow> string \<Rightarrow> bool" where
  "policy_allows uris policy origin host =
     (case origin of
        None \<Rightarrow> allows_missing policy
      | Some raw \<Rightarrow>
          (case origin_parse uris raw of
             None \<Rightarrow> False
           | Some o' \<Rightarrow> allows_normalized uris policy o' host (scheme_default_port (or_scheme o'))))"

definition allows_for_transport ::
  "uri_crate \<Rightarrow> OriginPolicy \<Rightarrow> string option \<Rightarrow> string \<Rightarrow> bool \<Rightarrow> bool" where
  "allows_for_transport uris policy origin host over_tls =
     (case origin of
        None \<Rightarrow> allows_missing policy
      | Some raw \<Rightarrow>
          (case origin_parse uris raw of
             None \<Rightarrow> False
           | Some o' \<Rightarrow>
               if (case policy of SameHost _ \<Rightarrow> scheme_is_secure (or_scheme o') \<noteq> over_tls | _ \<Rightarrow> False) then False
               else allows_normalized uris policy o' host (if over_tls then 443 else 80)))"

definition policy_is_valid :: "uri_crate \<Rightarrow> OriginPolicy \<Rightarrow> bool" where
  "policy_is_valid uris policy =
     (case policy of
        AllowList origins _ \<Rightarrow> list_all (\<lambda>origin. origin_parse uris origin \<noteq> None) origins
      | _ \<Rightarrow> True)"

section \<open>Configuration layers\<close>

abbreviation secs :: "nat \<Rightarrow> nat" where
  "secs n \<equiv> n * 1000000000"

definition DEFAULT_MAX_MESSAGE_SIZE :: nat where "DEFAULT_MAX_MESSAGE_SIZE = 1024 * 1024"
definition DEFAULT_MAX_FRAME_SIZE :: nat where "DEFAULT_MAX_FRAME_SIZE = 256 * 1024"
definition DEFAULT_WRITE_BUFFER_SIZE :: nat where "DEFAULT_WRITE_BUFFER_SIZE = 128 * 1024"
definition DEFAULT_MAX_WRITE_BUFFER_SIZE :: nat where "DEFAULT_MAX_WRITE_BUFFER_SIZE = 1024 * 1024"
definition DEFAULT_CHANNEL_CAPACITY :: nat where "DEFAULT_CHANNEL_CAPACITY = 16"
definition DEFAULT_SEND_TIMEOUT :: nat where "DEFAULT_SEND_TIMEOUT = secs 5"
definition DEFAULT_PING_INTERVAL :: nat where "DEFAULT_PING_INTERVAL = secs 30"
definition DEFAULT_PONG_TIMEOUT :: nat where "DEFAULT_PONG_TIMEOUT = secs 10"
definition DEFAULT_WS_IDLE_TIMEOUT :: nat where "DEFAULT_WS_IDLE_TIMEOUT = secs 120"
definition DEFAULT_MAX_CONNECTION_LIFETIME :: nat where "DEFAULT_MAX_CONNECTION_LIFETIME = secs (24 * 60 * 60)"
definition DEFAULT_CLOSE_TIMEOUT :: nat where "DEFAULT_CLOSE_TIMEOUT = secs 5"
definition DEFAULT_WS_MAX_CONNECTIONS :: nat where "DEFAULT_WS_MAX_CONNECTIONS = 2000"
definition DEFAULT_MAX_CONNECTIONS_PER_IP :: nat where "DEFAULT_MAX_CONNECTIONS_PER_IP = 20"
definition DEFAULT_MAX_MESSAGES_PER_INTERVAL :: nat where "DEFAULT_MAX_MESSAGES_PER_INTERVAL = 100"
definition DEFAULT_MESSAGE_RATE_INTERVAL :: nat where "DEFAULT_MESSAGE_RATE_INTERVAL = secs 1"
definition DEFAULT_MAX_ROOMS :: nat where "DEFAULT_MAX_ROOMS = 32"
definition DEFAULT_MAX_ROOM_NAME_BYTES :: nat where "DEFAULT_MAX_ROOM_NAME_BYTES = 128"

record MessageRateLimit =
  rl_max_messages :: nat
  rl_interval :: nat

record WebSocketConfig =
  wc_protocols :: "string list option"
  wc_require_protocol :: "bool option"
  wc_max_message_size :: "nat option option"
  wc_max_frame_size :: "nat option option"
  wc_write_buffer_size :: "nat option"
  wc_max_write_buffer_size :: "nat option"
  wc_inbound_capacity :: "nat option"
  wc_outbound_capacity :: "nat option"
  wc_backpressure_policy :: "BackpressurePolicy option"
  wc_send_timeout :: "nat option"
  wc_ping_interval :: "nat option option"
  wc_pong_timeout :: "nat option"
  wc_idle_timeout :: "nat option option"
  wc_max_connection_lifetime :: "nat option option"
  wc_close_timeout :: "nat option"
  wc_origin_policy :: "OriginPolicy option"
  wc_max_connections :: "nat option option"
  wc_max_connections_per_ip :: "nat option option"
  wc_message_rate_limit :: "MessageRateLimit option option"
  wc_max_rooms_per_connection :: "nat option"
  wc_max_room_name_bytes :: "nat option"

definition WebSocketConfig_default :: WebSocketConfig where
  "WebSocketConfig_default =
     \<lparr>wc_protocols = None, wc_require_protocol = None, wc_max_message_size = None, wc_max_frame_size = None,
      wc_write_buffer_size = None, wc_max_write_buffer_size = None, wc_inbound_capacity = None,
      wc_outbound_capacity = None, wc_backpressure_policy = None, wc_send_timeout = None,
      wc_ping_interval = None, wc_pong_timeout = None, wc_idle_timeout = None,
      wc_max_connection_lifetime = None, wc_close_timeout = None, wc_origin_policy = None,
      wc_max_connections = None, wc_max_connections_per_ip = None, wc_message_rate_limit = None,
      wc_max_rooms_per_connection = None, wc_max_room_name_bytes = None\<rparr>"

record ResolvedWebSocketConfig =
  wr_protocols :: "string list"
  wr_require_protocol :: bool
  wr_max_message_size :: "nat option"
  wr_max_frame_size :: "nat option"
  wr_write_buffer_size :: nat
  wr_max_write_buffer_size :: nat
  wr_inbound_capacity :: nat
  wr_outbound_capacity :: nat
  wr_backpressure_policy :: BackpressurePolicy
  wr_send_timeout :: nat
  wr_ping_interval :: "nat option"
  wr_pong_timeout :: nat
  wr_idle_timeout :: "nat option"
  wr_max_connection_lifetime :: "nat option"
  wr_close_timeout :: nat
  wr_origin_policy :: OriginPolicy
  wr_process_max_connections :: "nat option"
  wr_route_max_connections :: "nat option"
  wr_max_connections_per_ip :: "nat option"
  wr_message_rate_limit :: "MessageRateLimit option"
  wr_max_rooms_per_connection :: nat
  wr_max_room_name_bytes :: nat

text \<open>\<open>route.or(app).unwrap_or(default)\<close>.\<close>

definition layered :: "'a option \<Rightarrow> 'a option \<Rightarrow> 'a \<Rightarrow> 'a" where
  "layered route app builtin = (case route of Some v \<Rightarrow> v | None \<Rightarrow> (case app of Some v \<Rightarrow> v | None \<Rightarrow> builtin))"

definition from_layers :: "WebSocketConfig \<Rightarrow> WebSocketConfig \<Rightarrow> ResolvedWebSocketConfig" where
  "from_layers app route =
     \<lparr>wr_protocols = layered (wc_protocols route) (wc_protocols app) [],
      wr_require_protocol = layered (wc_require_protocol route) (wc_require_protocol app) False,
      wr_max_message_size = layered (wc_max_message_size route) (wc_max_message_size app) (Some DEFAULT_MAX_MESSAGE_SIZE),
      wr_max_frame_size = layered (wc_max_frame_size route) (wc_max_frame_size app) (Some DEFAULT_MAX_FRAME_SIZE),
      wr_write_buffer_size = layered (wc_write_buffer_size route) (wc_write_buffer_size app) DEFAULT_WRITE_BUFFER_SIZE,
      wr_max_write_buffer_size =
        layered (wc_max_write_buffer_size route) (wc_max_write_buffer_size app) DEFAULT_MAX_WRITE_BUFFER_SIZE,
      wr_inbound_capacity = layered (wc_inbound_capacity route) (wc_inbound_capacity app) DEFAULT_CHANNEL_CAPACITY,
      wr_outbound_capacity = layered (wc_outbound_capacity route) (wc_outbound_capacity app) DEFAULT_CHANNEL_CAPACITY,
      wr_backpressure_policy = layered (wc_backpressure_policy route) (wc_backpressure_policy app) Wait,
      wr_send_timeout = layered (wc_send_timeout route) (wc_send_timeout app) DEFAULT_SEND_TIMEOUT,
      wr_ping_interval = layered (wc_ping_interval route) (wc_ping_interval app) (Some DEFAULT_PING_INTERVAL),
      wr_pong_timeout = layered (wc_pong_timeout route) (wc_pong_timeout app) DEFAULT_PONG_TIMEOUT,
      wr_idle_timeout = layered (wc_idle_timeout route) (wc_idle_timeout app) (Some DEFAULT_WS_IDLE_TIMEOUT),
      wr_max_connection_lifetime =
        layered (wc_max_connection_lifetime route) (wc_max_connection_lifetime app) (Some DEFAULT_MAX_CONNECTION_LIFETIME),
      wr_close_timeout = layered (wc_close_timeout route) (wc_close_timeout app) DEFAULT_CLOSE_TIMEOUT,
      wr_origin_policy = layered (wc_origin_policy route) (wc_origin_policy app) (allow_missing (SameHost True) False),
      wr_process_max_connections = layered (wc_max_connections app) None (Some DEFAULT_WS_MAX_CONNECTIONS),
      wr_route_max_connections = layered (wc_max_connections route) None None,
      wr_max_connections_per_ip =
        layered (wc_max_connections_per_ip route) (wc_max_connections_per_ip app) (Some DEFAULT_MAX_CONNECTIONS_PER_IP),
      wr_message_rate_limit =
        layered (wc_message_rate_limit route) (wc_message_rate_limit app)
          (Some \<lparr>rl_max_messages = DEFAULT_MAX_MESSAGES_PER_INTERVAL, rl_interval = DEFAULT_MESSAGE_RATE_INTERVAL\<rparr>),
      wr_max_rooms_per_connection =
        layered (wc_max_rooms_per_connection route) (wc_max_rooms_per_connection app) DEFAULT_MAX_ROOMS,
      wr_max_room_name_bytes =
        layered (wc_max_room_name_bytes route) (wc_max_room_name_bytes app) DEFAULT_MAX_ROOM_NAME_BYTES\<rparr>"

definition is_valid_protocol_token :: "string \<Rightarrow> bool" where
  "is_valid_protocol_token v \<longleftrightarrow>
     v \<noteq> [] \<and> list_all (\<lambda>b. is_ascii_alphanumeric b \<or> b \<in> set ''!#$%&*+-.^_|~'' \<or> code b = 39 \<or> code b = 96) v"

text \<open>The subprotocols are checked one by one, each for its form and then for a repetition.\<close>

fun validate_protocols :: "string list \<Rightarrow> string list \<Rightarrow> WsError + unit" where
  "validate_protocols [] seen = Inr ()"
| "validate_protocols (p # ps) seen =
     (if \<not> is_valid_protocol_token p
      then Inl (InvalidConfiguration ''los subprotocolos WebSocket deben ser tokens HTTP validos'')
      else if p \<in> set seen
      then Inl (InvalidConfiguration ''los subprotocolos WebSocket no pueden estar duplicados'')
      else validate_protocols ps (p # seen))"

definition bad_deadline :: "nat \<Rightarrow> nat \<Rightarrow> nat option \<Rightarrow> bool" where
  "bad_deadline imax now timeout =
     (case timeout of None \<Rightarrow> False | Some t \<Rightarrow> t = 0 \<or> instant_checked_add imax now t = None)"

definition resolved_validate ::
  "uri_crate \<Rightarrow> nat \<Rightarrow> nat \<Rightarrow> ResolvedWebSocketConfig \<Rightarrow> WsError + unit" where
  "resolved_validate uris imax now c =
     (case validate_protocols (wr_protocols c) [] of
        Inl e \<Rightarrow> Inl e
      | Inr _ \<Rightarrow>
          if wr_require_protocol c \<and> wr_protocols c = []
          then Inl (InvalidConfiguration ''require_protocol necesita al menos un subprotocolo WebSocket'')
          else if wr_max_message_size c = Some 0 \<or> wr_max_frame_size c = Some 0
          then Inl (InvalidConfiguration ''los limites de mensaje y frame WebSocket deben ser mayores que cero'')
          else if wr_inbound_capacity c = 0 \<or> wr_outbound_capacity c = 0
          then Inl (InvalidConfiguration ''las capacidades de los canales WebSocket deben ser mayores que cero'')
          else if wr_max_write_buffer_size c \<le> wr_write_buffer_size c
          then Inl (InvalidConfiguration ''max_write_buffer_size debe ser mayor que write_buffer_size'')
          else if (case wr_ping_interval c of None \<Rightarrow> False | Some i \<Rightarrow> i \<le> wr_pong_timeout c)
          then Inl (InvalidConfiguration ''ping_interval debe ser mayor que pong_timeout'')
          else if wr_send_timeout c = 0 \<or>
            list_ex (bad_deadline imax now)
              [wr_ping_interval c, Some (wr_pong_timeout c), wr_idle_timeout c, wr_max_connection_lifetime c, Some (wr_close_timeout c)]
          then Inl (InvalidConfiguration ''los tiempos limite WebSocket deben ser positivos y representables'')
          else if wr_max_rooms_per_connection c = 0 \<or> wr_max_room_name_bytes c = 0
          then Inl (InvalidConfiguration ''los limites de rooms WebSocket deben ser mayores que cero'')
          else if wr_process_max_connections c = Some 0 \<or> wr_route_max_connections c = Some 0 \<or>
            wr_max_connections_per_ip c = Some 0
          then Inl (InvalidConfiguration ''los limites de conexiones WebSocket deben ser mayores que cero'')
          else if (case wr_message_rate_limit c of None \<Rightarrow> False | Some l \<Rightarrow> rl_max_messages l = 0 \<or> rl_interval l = 0)
          then Inl (InvalidConfiguration
                 ''los limites de frecuencia de mensajes WebSocket deben ser mayores que cero'')
          else if \<not> policy_is_valid uris (wr_origin_policy c)
          then Inl (InvalidConfiguration ''la politica de origen WebSocket contiene un origen no valido'')
          else Inr ())"

definition config_validate :: "uri_crate \<Rightarrow> nat \<Rightarrow> nat \<Rightarrow> WebSocketConfig \<Rightarrow> WsError + unit" where
  "config_validate uris imax now c = resolved_validate uris imax now (from_layers WebSocketConfig_default c)"

end
