(* ===== verification/Http_Request.thy ===== *)
theory Http_Request
  imports Http_Body Ws_Config Trim "HOL-Library.List_Lexorder" "HOL-Library.Char_ord"
begin

text \<open>
  Requests (\<open>src/app/request.rs\<close>): the three views of the header fields (the list of pairs, the
  collapsed map, the cookies), the operations that rewrite them, the builder, query and
  component decoding, and the validation of \<open>Content-Length\<close>. A \<open>HashMap\<close> is an association list with
  distinct keys. The fields that only carry server objects (state, extensions and the WebSocket
  runtime) are left out; of the pending upgrade only its presence is kept. A socket address is
  a pair of numbers.
\<close>

section \<open>State\<close>

datatype Version = HTTP_09 | HTTP_10 | HTTP_11 | HTTP_2 | HTTP_3

record Request =
  rq_version :: Version
  rq_method :: string
  rq_path :: string
  raw_query :: "string option"
  rq_query :: "(string \<times> string list) list"
  rq_headers :: "(string \<times> string) list"
  rq_cookies :: "(string \<times> string) list"
  rq_body :: RequestBody
  rq_body_limit :: nat
  rq_params :: "string \<rightharpoonup> string"
  rq_route_pattern :: "string option"
  resolved_websocket_config :: "ResolvedWebSocketConfig option"
  rq_upgrade :: bool
  remote_addr :: "(nat \<times> nat) option"
  secure_transport :: bool
  header_pairs :: "(string \<times> string) list"
  rq_session_id :: "string option"

section \<open>Decoding\<close>

definition hex_value :: "char \<Rightarrow> nat option" where
  "hex_value c =
     (if is_ascii_digit c then Some (code c - 48)
      else if 97 \<le> code c \<and> code c \<le> 102 then Some (code c - 97 + 10)
      else if 65 \<le> code c \<and> code c \<le> 70 then Some (code c - 65 + 10)
      else None)"

text \<open>
  \<open>String::from_utf8_lossy\<close>: each maximal invalid piece becomes one replacement character. The
  length of the piece is that of the longest prefix of a well-formed sequence, at least one.
\<close>

definition invalid_len :: "string \<Rightarrow> nat" where
  "invalid_len s =
     (case s of
        b0 # b1 # r \<Rightarrow>
          if 224 \<le> code b0 \<and> code b0 \<le> 244 \<and> second_ok b0 b1
          then (case r of
                  b2 # _ \<Rightarrow> if 240 \<le> code b0 \<and> cont_byte b2 then 3 else 2
                | [] \<Rightarrow> 2)
          else 1
      | _ \<Rightarrow> 1)"

definition replacement_character :: string where
  "replacement_character = [char_of (239 :: nat), char_of (191 :: nat), char_of (189 :: nat)]"

function from_utf8_lossy :: "string \<Rightarrow> string" where
  "from_utf8_lossy s =
     (if s = [] then []
      else (case utf8_next s of
              Some (cp, r) \<Rightarrow> take (length s - length r) s @ from_utf8_lossy r
            | None \<Rightarrow> replacement_character @ from_utf8_lossy (drop (invalid_len s) s)))"
  by pat_completeness auto
termination
proof (relation "measure length")
  fix s :: string
  assume "s \<noteq> []" "utf8_next s = None"
  moreover have "0 < invalid_len s" by (simp add: invalid_len_def split: list.split)
  ultimately show "(drop (invalid_len s) s, s) \<in> measure length" by simp
qed (auto simp: utf8_next_shorter)

declare from_utf8_lossy.simps [simp del]

fun decode_bytes :: "bool \<Rightarrow> string \<Rightarrow> string" where
  "decode_bytes plus_as_space [] = []"
| "decode_bytes plus_as_space (c # rest) =
     (if c = CHR ''+'' \<and> plus_as_space then CHR '' '' # decode_bytes plus_as_space rest
      else
        (case rest of
           a # b # r \<Rightarrow>
             if c = CHR ''%'' then
               (case (hex_value a, hex_value b) of
                  (Some high, Some low) \<Rightarrow> char_of (16 * high + low) # decode_bytes plus_as_space r
                | _ \<Rightarrow> c # decode_bytes plus_as_space rest)
             else c # decode_bytes plus_as_space rest
         | _ \<Rightarrow> c # decode_bytes plus_as_space rest))"

definition decode_component :: "string \<Rightarrow> bool \<Rightarrow> string" where
  "decode_component input plus_as_space = from_utf8_lossy (decode_bytes plus_as_space input)"

definition push_param ::
  "(string \<times> string list) list \<Rightarrow> string \<Rightarrow> string \<Rightarrow> (string \<times> string list) list" where
  "push_param params key v =
     AList.update key ((case map_of params key of None \<Rightarrow> [] | Some vs \<Rightarrow> vs) @ [v]) params"

definition parse_query :: "string \<Rightarrow> (string \<times> string list) list" where
  "parse_query query =
     foldl (\<lambda>params pair.
       let (key, v) = (case split_once (CHR ''='') pair of None \<Rightarrow> (pair, []) | Some kv \<Rightarrow> kv)
       in push_param params (decode_component key True) (decode_component v True))
     [] (filter (\<lambda>part. part \<noteq> []) (split_char (CHR ''&'') query))"

section \<open>Cookies\<close>

definition insert_cookie :: "(string \<times> string) list \<Rightarrow> string \<Rightarrow> (string \<times> string) list" where
  "insert_cookie cookies part =
     (let part = trim part in
      if part = [] then cookies
      else (case split_once (CHR ''='') part of
              None \<Rightarrow> cookies
            | Some (name, v) \<Rightarrow> AList.update (trim name) (trim v) cookies))"

definition parse_cookies :: "string \<Rightarrow> (string \<times> string) list" where
  "parse_cookies header = foldl insert_cookie [] (split_char (CHR '';'') header)"

definition map_extend :: "(string \<times> string) list \<Rightarrow> (string \<times> string) list \<Rightarrow> (string \<times> string) list" where
  "map_extend m new = foldl (\<lambda>m (k, v). AList.update k v m) m new"

definition cookies_of :: "(string \<times> string) list \<Rightarrow> (string \<times> string) list" where
  "cookies_of pairs =
     foldl (\<lambda>cookies (name, v).
       if eq_ignore_ascii_case name ''cookie'' then map_extend cookies (parse_cookies v) else cookies) [] pairs"

definition rebuild_cookie_view :: "Request \<Rightarrow> Request" where
  "rebuild_cookie_view rq = rq\<lparr>rq_cookies := cookies_of (header_pairs rq)\<rparr>"

definition render_cookies :: "(string \<times> string) list \<Rightarrow> string" where
  "render_cookies cookies = join ''; '' (map (\<lambda>(name, v). name @ ''='' @ v) (sort_key fst cookies))"

definition rewrite_cookie_header :: "Request \<Rightarrow> Request" where
  "rewrite_cookie_header rq =
     (let rq1 = rq\<lparr>rq_headers := AList.delete ''cookie'' (rq_headers rq),
                   header_pairs := filter (\<lambda>(n, _). \<not> eq_ignore_ascii_case n ''cookie'') (header_pairs rq)\<rparr>
      in if rq_cookies rq = [] then rq1
         else let v = render_cookies (rq_cookies rq)
              in rq1\<lparr>rq_headers := AList.update ''cookie'' v (rq_headers rq1),
                     header_pairs := header_pairs rq1 @ [(''cookie'', v)]\<rparr>)"

definition valid_request_cookie_name :: "string \<Rightarrow> bool" where
  "valid_request_cookie_name v \<longleftrightarrow>
     v \<noteq> [] \<and> list_all (\<lambda>b. is_ascii_alphanumeric b \<or> b \<in> set ''!#$%&*+-.^_|~'' \<or>
       code b = 39 \<or> code b = 96) v"

definition valid_request_cookie_value :: "string \<Rightarrow> bool" where
  "valid_request_cookie_value v \<longleftrightarrow>
     list_all (\<lambda>b. let n = code b in n = 0x21 \<or> (0x23 \<le> n \<and> n \<le> 0x2b) \<or> (0x2d \<le> n \<and> n \<le> 0x3a)
        \<or> (0x3c \<le> n \<and> n \<le> 0x5b) \<or> (0x5d \<le> n \<and> n \<le> 0x7e)) v"

definition rq_set_cookie :: "Request \<Rightarrow> string \<Rightarrow> string \<Rightarrow> HttpError + Request" where
  "rq_set_cookie rq name v =
     (if \<not> valid_request_cookie_name name \<or> \<not> valid_request_cookie_value v
      then Inl (bad_request ''El nombre o valor de la cookie de solicitud no es valido'')
      else Inr (rewrite_cookie_header (rq\<lparr>rq_cookies := AList.update name v (rq_cookies rq)\<rparr>)))"

definition rq_remove_cookie :: "Request \<Rightarrow> string \<Rightarrow> Request" where
  "rq_remove_cookie rq name = rewrite_cookie_header (rq\<lparr>rq_cookies := AList.delete name (rq_cookies rq)\<rparr>)"

definition rq_cookie :: "Request \<Rightarrow> string \<Rightarrow> string option" where
  "rq_cookie rq name = map_of (rq_cookies rq) name"

section \<open>Header fields\<close>

definition rq_header :: "Request \<Rightarrow> string \<Rightarrow> string option" where
  "rq_header rq name =
     (case map_of (rq_headers rq) name of
        Some v \<Rightarrow> Some v | None \<Rightarrow> map_of (rq_headers rq) (to_ascii_lowercase name))"

definition headers_all :: "Request \<Rightarrow> string \<Rightarrow> string list" where
  "headers_all rq name = map snd (filter (\<lambda>(k, _). eq_ignore_ascii_case k name) (header_pairs rq))"

definition singleton_header :: "Request \<Rightarrow> string \<Rightarrow> HttpError + string option" where
  "singleton_header rq name =
     (case headers_all rq name of
        [] \<Rightarrow> Inr (rq_header rq name)
      | [v] \<Rightarrow> Inr (Some v)
      | _ \<Rightarrow> Inl (duplicate_header name))"

definition parse_header_name :: "http_crate \<Rightarrow> string \<Rightarrow> HttpError + string" where
  "parse_header_name http name =
     (case header_name http name of
        None \<Rightarrow> Inl (with_source (OtherError ''InvalidHeaderName'')
                      (bad_request ''El nombre del encabezado de solicitud no es valido''))
      | Some n \<Rightarrow> Inr n)"

definition validate_header_value :: "http_crate \<Rightarrow> string \<Rightarrow> HttpError + unit" where
  "validate_header_value http v =
     (if header_value_ok http v then Inr ()
      else Inl (with_source (OtherError ''InvalidHeaderValue'')
                  (bad_request ''El valor del encabezado de solicitud no es valido'')))"

definition rq_set_header :: "http_crate \<Rightarrow> Request \<Rightarrow> string \<Rightarrow> string \<Rightarrow> HttpError + Request" where
  "rq_set_header http rq name v =
     (case parse_header_name http name of
        Inl e \<Rightarrow> Inl e
      | Inr n \<Rightarrow>
          (case validate_header_value http v of
             Inl e \<Rightarrow> Inl e
           | Inr _ \<Rightarrow>
               let rq1 = rq\<lparr>rq_headers := AList.update n v (rq_headers rq),
                            header_pairs := filter (\<lambda>(k, _). \<not> eq_ignore_ascii_case k n) (header_pairs rq) @ [(n, v)]\<rparr>
               in Inr (if n = ''cookie'' then rebuild_cookie_view rq1 else rq1)))"

definition rq_append_header :: "http_crate \<Rightarrow> Request \<Rightarrow> string \<Rightarrow> string \<Rightarrow> HttpError + Request" where
  "rq_append_header http rq name v =
     (case parse_header_name http name of
        Inl e \<Rightarrow> Inl e
      | Inr n \<Rightarrow>
          (case validate_header_value http v of
             Inl e \<Rightarrow> Inl e
           | Inr _ \<Rightarrow>
               let rq1 = rq\<lparr>rq_headers := AList.update n v (rq_headers rq),
                            header_pairs := header_pairs rq @ [(n, v)]\<rparr>
               in Inr (if n = ''cookie'' then rebuild_cookie_view rq1 else rq1)))"

definition rq_remove_header :: "Request \<Rightarrow> string \<Rightarrow> Request" where
  "rq_remove_header rq name =
     (let rq1 = rq\<lparr>rq_headers := filter (\<lambda>(k, _). \<not> eq_ignore_ascii_case k name) (rq_headers rq),
                   header_pairs := filter (\<lambda>(k, _). \<not> eq_ignore_ascii_case k name) (header_pairs rq)\<rparr>
      in if eq_ignore_ascii_case name ''cookie'' then rq1\<lparr>rq_cookies := []\<rparr> else rq1)"

definition rq_set_body_limit :: "Request \<Rightarrow> nat \<Rightarrow> Request" where
  "rq_set_body_limit rq limit =
     rq\<lparr>rq_body_limit := limit, rq_body := set_default_limit (rq_body rq) limit\<rparr>"

section \<open>Content-Length\<close>

fun length_parts :: "string list \<Rightarrow> nat option \<Rightarrow> HttpError + nat option" where
  "length_parts [] seen = Inr seen"
| "length_parts (raw # rest) seen =
     (let v = trim raw in
      if v = [] \<or> \<not> list_all is_ascii_digit v then Inl invalid_content_length
      else
        (case parse_u64 v of
           None \<Rightarrow> Inl invalid_content_length
         | Some n \<Rightarrow>
             (case seen of
                Some previous \<Rightarrow>
                  if previous \<noteq> n then Inl invalid_content_length else length_parts rest seen
              | None \<Rightarrow> length_parts rest (Some n))))"

definition validate_content_length :: "Request \<Rightarrow> HttpError + unit" where
  "validate_content_length rq =
     (let all = headers_all rq ''content-length'';
          vals = (if all = [] then (case rq_header rq ''content-length'' of None \<Rightarrow> [] | Some v \<Rightarrow> [v]) else all)
      in if vals \<noteq> [] \<and> rq_header rq ''transfer-encoding'' \<noteq> None
         then Inl (HttpError_new 400 ''ambiguous_message_framing''
                     ''Transfer-Encoding y Content-Length no pueden combinarse'')
         else
           (case length_parts (concat (map (split_char (CHR '','')) vals)) None of
              Inl e \<Rightarrow> Inl e
            | Inr None \<Rightarrow> Inr ()
            | Inr (Some n) \<Rightarrow>
                if n > rq_body_limit rq then Inl (payload_too_large_limit (rq_body_limit rq))
                else (case buffered_len (rq_body rq) of
                        None \<Rightarrow> Inr ()
                      | Some actual \<Rightarrow> if n \<noteq> actual then Inl invalid_content_length else Inr ())))"

section \<open>Builder\<close>

record RequestBuilder =
  bd_method :: string
  bd_path :: string
  bd_raw_query :: "string option"
  bd_headers :: "(string \<times> string) list"
  bd_cookies :: "(string \<times> string) list"
  bd_params :: "(string \<times> string) list"
  bd_route_pattern :: "string option"
  bd_body :: string
  bd_body_limit :: nat
  bd_remote_addr :: "(nat \<times> nat) option"
  bd_secure :: bool

definition RequestBuilder_new :: RequestBuilder where
  "RequestBuilder_new =
     \<lparr>bd_method = ''GET'', bd_path = ''/'', bd_raw_query = None, bd_headers = [], bd_cookies = [],
      bd_params = [], bd_route_pattern = None, bd_body = [], bd_body_limit = DEFAULT_BODY_LIMIT,
      bd_remote_addr = None, bd_secure = False\<rparr>"

definition to_upper :: "char \<Rightarrow> char" where
  "to_upper c = (if is_ascii_lower c then char_of (code c - 32) else c)"

definition builder_method :: "string \<Rightarrow> RequestBuilder \<Rightarrow> RequestBuilder" where
  "builder_method m b = b\<lparr>bd_method := map to_upper m\<rparr>"

definition builder_path :: "string \<Rightarrow> RequestBuilder \<Rightarrow> RequestBuilder" where
  "builder_path p b =
     (case split_once (CHR ''?'') p of
        Some (path, query) \<Rightarrow> b\<lparr>bd_path := path, bd_raw_query := Some query\<rparr>
      | None \<Rightarrow> b\<lparr>bd_path := p, bd_raw_query := None\<rparr>)"

definition builder_header :: "string \<Rightarrow> string \<Rightarrow> RequestBuilder \<Rightarrow> RequestBuilder" where
  "builder_header name v b = b\<lparr>bd_headers := bd_headers b @ [(to_ascii_lowercase name, v)]\<rparr>"

definition builder_cookie :: "string \<Rightarrow> string \<Rightarrow> RequestBuilder \<Rightarrow> RequestBuilder" where
  "builder_cookie name v b = b\<lparr>bd_cookies := AList.update name v (bd_cookies b)\<rparr>"

definition builder_pairs :: "RequestBuilder \<Rightarrow> (string \<times> string) list" where
  "builder_pairs b =
     (let explicit = concat (map (\<lambda>(n, v). if n = ''cookie'' then map fst (parse_cookies v) else []) (bd_headers b));
          synthetic = filter (\<lambda>(name, _). name \<notin> set explicit) (bd_cookies b)
      in (if synthetic = [] then [] else [(''cookie'', render_cookies synthetic)]) @ bd_headers b)"

definition builder_build :: "RequestBuilder \<Rightarrow> Request" where
  "builder_build b =
     (let pairs = builder_pairs b
      in \<lparr>rq_version = HTTP_11, rq_method = bd_method b, rq_path = bd_path b, raw_query = bd_raw_query b,
          rq_query = (case bd_raw_query b of None \<Rightarrow> [] | Some q \<Rightarrow> parse_query q),
          rq_headers = map_extend [] pairs,
          rq_cookies = foldl (\<lambda>cookies (n, v). if n = ''cookie'' then map_extend cookies (parse_cookies v) else cookies) [] pairs,
          rq_body = buffered (bd_body b) (bd_body_limit b), rq_body_limit = bd_body_limit b,
          rq_params = map_of (bd_params b), rq_route_pattern = bd_route_pattern b,
          resolved_websocket_config = None, rq_upgrade = False,
          remote_addr = bd_remote_addr b, secure_transport = bd_secure b,
          header_pairs = pairs, rq_session_id = None\<rparr>)"

end
