(* ===== verification/Http_Request_Props.thy ===== *)
theory Http_Request_Props
  imports Http_Request
begin

text \<open>
  The header views of a request stay synchronised: whatever the builder was given and whatever
  middleware does with headers and cookies, the collapsed map and the cookies are those of the pairs.
\<close>

section \<open>Invariant\<close>

definition clean_cookie :: "string \<times> string \<Rightarrow> bool" where
  "clean_cookie c \<longleftrightarrow> trimmed (fst c) \<and> trimmed (snd c) \<and> CHR ''='' \<notin> set (fst c) \<and>
     CHR '';'' \<notin> set (fst c) \<and> CHR '';'' \<notin> set (snd c)"

definition views_ok :: "Request \<Rightarrow> bool" where
  "views_ok rq \<longleftrightarrow>
     (\<forall>(n, _) \<in> set (header_pairs rq). to_ascii_lowercase n = n) \<and>
     map_of (rq_headers rq) = map_of (rev (header_pairs rq)) \<and>
     distinct (map fst (rq_headers rq)) \<and> distinct (map fst (rq_cookies rq)) \<and>
     map_of (rq_cookies rq) = map_of (cookies_of (header_pairs rq))"

section \<open>Lemmas on the views\<close>

lemma to_lower_idem [simp]: "to_lower (to_lower c) = to_lower c"
  by (simp add: to_lower_def is_ascii_upper_def)

lemma lowercase_idem [simp]: "to_ascii_lowercase (to_ascii_lowercase s) = to_ascii_lowercase s"
  by (simp add: to_ascii_lowercase_def)

lemma lowercase_cookie [simp]: "to_ascii_lowercase ''cookie'' = ''cookie''"
  by (simp add: to_ascii_lowercase_def to_lower_def is_ascii_upper_def)

lemma eq_ignore_lower: "to_ascii_lowercase n = n \<Longrightarrow> to_ascii_lowercase m = m \<Longrightarrow> eq_ignore_ascii_case n m \<longleftrightarrow> n = m"
  by (simp add: eq_ignore_ascii_case_def)

lemma map_of_extend: "map_of (map_extend m new) = map_of m ++ map_of (rev new)"
proof (induction new arbitrary: m)
  case (Cons p new)
  obtain k v where p: "p = (k, v)" by (cases p)
  have "map_extend m (p # new) = map_extend (AList.update k v m) new" by (simp add: map_extend_def p)
  with Cons [of "AList.update k v m"] show ?case
    by (auto simp: p update_conv' map_add_def fun_eq_iff split: option.split)
qed (simp add: map_extend_def)

lemma distinct_extend: "distinct (map fst m) \<Longrightarrow> distinct (map fst (map_extend m new))"
proof (induction new arbitrary: m)
  case (Cons p new)
  then show ?case by (cases p) (simp add: map_extend_def distinct_update)
qed (simp add: map_extend_def)

lemma distinct_insert_cookie: "distinct (map fst m) \<Longrightarrow> distinct (map fst (insert_cookie m part))"
  by (auto simp: insert_cookie_def Let_def distinct_update split: option.split)

lemma distinct_parse: "distinct (map fst (parse_cookies h))"
proof -
  have "distinct (map fst m) \<Longrightarrow> distinct (map fst (foldl insert_cookie m ps))" for m ps
    by (induction ps arbitrary: m) (simp_all add: distinct_insert_cookie)
  then show ?thesis by (simp add: parse_cookies_def)
qed

lemma cookies_of_snoc: "cookies_of (ps @ [(n, v)]) =
    (if eq_ignore_ascii_case n ''cookie'' then map_extend (cookies_of ps) (parse_cookies v) else cookies_of ps)"
  by (simp add: cookies_of_def)

lemma distinct_cookies_of: "distinct (map fst (cookies_of ps))"
proof (induction ps rule: rev_induct)
  case (snoc p ps)
  then show ?case by (cases p) (simp add: cookies_of_snoc distinct_extend)
qed (simp add: cookies_of_def)

lemma cookies_of_filter_other:
  "(\<And>n v. (n, v) \<in> set ps \<Longrightarrow> eq_ignore_ascii_case n ''cookie'' \<Longrightarrow> P (n, v)) \<Longrightarrow> cookies_of (filter P ps) = cookies_of ps"
proof (induction ps rule: rev_induct)
  case (snoc p ps)
  then show ?case by (cases p) (auto simp: cookies_of_snoc)
qed simp

lemma cookies_of_none:
  "(\<And>n v. (n, v) \<in> set ps \<Longrightarrow> \<not> eq_ignore_ascii_case n ''cookie'') \<Longrightarrow> cookies_of ps = []"
proof (induction ps rule: rev_induct)
  case (snoc p ps)
  then show ?case by (cases p) (auto simp: cookies_of_snoc)
qed (simp add: cookies_of_def)

lemma map_of_filter_name:
  "map_of (filter (\<lambda>(k, _). k \<noteq> n) ps) = (map_of ps)(n := None)"
  by (induction ps) (auto simp: fun_eq_iff)

section \<open>Cookies that were parsed can be rendered\<close>

lemma clean_insert:
  assumes "list_all clean_cookie m" "CHR '';'' \<notin> set part"
  shows "list_all clean_cookie (insert_cookie m part)"
proof -
  have up: "list_all clean_cookie (AList.update k v m)" if "clean_cookie (k, v)" for k v
    using assms(1) that by (induction m) (auto simp: clean_cookie_def)
  show ?thesis
  proof (cases "split_once (CHR ''='') (trim part)")
    case None
    then show ?thesis using assms(1) by (simp add: insert_cookie_def Let_def)
  next
    case (Some nv)
    obtain n v where nv: "nv = (n, v)" by (cases nv)
    with Some have eq: "trim part = n @ CHR ''='' # v" "CHR ''='' \<notin> set n" by (simp_all add: split_once_Some)
    have semi: "CHR '';'' \<notin> set (trim part)" using assms(2) set_trim by blast
    have "clean_cookie (trim n, trim v)"
      using eq semi set_trim [of n] set_trim [of v] by (auto simp: clean_cookie_def trimmed_trim)
    from up [OF this] Some nv assms(1) show ?thesis by (simp add: insert_cookie_def Let_def)
  qed
qed

lemma clean_parse: "list_all clean_cookie (parse_cookies h)"
proof -
  have "list_all clean_cookie m \<Longrightarrow> (\<And>p. p \<in> set ps \<Longrightarrow> CHR '';'' \<notin> set p) \<Longrightarrow>
      list_all clean_cookie (foldl insert_cookie m ps)" for m ps
    by (induction ps arbitrary: m) (simp_all add: clean_insert)
  then show ?thesis using split_char_no_sep by (auto simp: parse_cookies_def)
qed

lemma clean_extend:
  "list_all clean_cookie m \<Longrightarrow> list_all clean_cookie new \<Longrightarrow> list_all clean_cookie (map_extend m new)"
proof (induction new arbitrary: m)
  case (Cons p new)
  obtain k v where p: "p = (k, v)" by (cases p)
  have "list_all clean_cookie (AList.update k v m)"
    using Cons.prems p by (induction m) (auto simp: clean_cookie_def)
  with Cons p show ?case by (simp add: map_extend_def)
qed (simp add: map_extend_def)

lemma clean_cookies_of: "list_all clean_cookie (cookies_of ps)"
proof (induction ps rule: rev_induct)
  case (snoc p ps)
  then show ?case by (cases p) (simp add: cookies_of_snoc clean_extend clean_parse)
qed (simp add: cookies_of_def)

lemma map_of_same_set:
  assumes "distinct (map fst xs)" "distinct (map fst ys)" "set xs = set ys"
  shows "map_of xs = map_of ys"
proof
  fix k
  show "map_of xs k = map_of ys k"
  proof (cases "map_of xs k")
    case None
    then show ?thesis using assms(3) by (metis map_of_eq_None_iff)
  next
    case (Some v)
    then show ?thesis using assms by (metis map_of_eq_Some_iff)
  qed
qed

lemma split_join_semi:
  "list_all (\<lambda>p. CHR '';'' \<notin> set p) (p # ps) \<Longrightarrow>
     split_char (CHR '';'') (join ''; '' (p # ps)) = p # map ((#) (CHR '' '')) ps"
proof (induction ps arbitrary: p)
  case (Cons q ps)
  have "split_char (CHR '';'') (CHR '' '' # join ''; '' (q # ps)) = (CHR '' '' # q) # map ((#) (CHR '' '')) ps"
    using Cons.IH [of q] Cons.prems by simp
  with Cons.prems split_char_app [of "CHR '';''" p "CHR '' '' # join ''; '' (q # ps)"] show ?case by simp
qed (simp add: split_char_none)

definition render_part :: "string \<times> string \<Rightarrow> string" where
  "render_part c = fst c @ ''='' @ snd c"

lemma insert_rendered:
  assumes "clean_cookie c"
  shows "insert_cookie m (render_part c) = AList.update (fst c) (snd c) m"
    "insert_cookie m (CHR '' '' # render_part c) = AList.update (fst c) (snd c) m"
proof -
  have t: "trimmed (fst c @ CHR ''='' # snd c)"
    using assms by (intro trimmed_join) (auto simp: clean_cookie_def ws1_def)
  have "split_once (CHR ''='') (fst c @ CHR ''='' # snd c) = Some (fst c, snd c)"
    using assms unfolding split_once_Some by (simp add: clean_cookie_def)
  then show "insert_cookie m (render_part c) = AList.update (fst c) (snd c) m"
    "insert_cookie m (CHR '' '' # render_part c) = AList.update (fst c) (snd c) m"
    using assms t
    by (simp_all add: insert_cookie_def render_part_def trim_space trim_trimmed clean_cookie_def split_def)
qed

lemma fold_rendered:
  "list_all clean_cookie cs \<Longrightarrow> foldl insert_cookie m (map ((#) (CHR '' '') \<circ> render_part) cs) = map_extend m cs"
proof (induction cs arbitrary: m)
  case (Cons c cs)
  then show ?case by (simp add: insert_rendered map_extend_def split_def)
qed (simp add: map_extend_def)

lemma parse_rendered:
  assumes "cs \<noteq> []" "list_all clean_cookie cs"
  shows "parse_cookies (join ''; '' (map render_part cs)) = map_extend [] cs"
proof -
  obtain c rest where cs: "cs = c # rest" using assms(1) by (cases cs) auto
  have "list_all (\<lambda>p. CHR '';'' \<notin> set p) (map render_part cs)"
    using assms(2) by (auto simp: list_all_iff clean_cookie_def render_part_def)
  then have "split_char (CHR '';'') (join ''; '' (map render_part cs)) =
      render_part c # map ((#) (CHR '' '') \<circ> render_part) rest"
    using split_join_semi [of "render_part c" "map render_part rest"] by (simp add: cs)
  then show ?thesis
    using assms(2) fold_rendered [of rest "AList.update (fst c) (snd c) []"] insert_rendered(1) [of c "[]"]
    by (simp add: parse_cookies_def cs) (simp add: map_extend_def split_def)
qed

lemma parse_render_map:
  assumes "list_all clean_cookie cs" "distinct (map fst cs)" "cs \<noteq> []"
  shows "map_of (parse_cookies (render_cookies cs)) = map_of cs"
proof -
  let ?s = "sort_key fst cs"
  have s: "list_all clean_cookie ?s" "?s \<noteq> []" using assms by (auto simp: list_all_iff) (metis set_empty set_sort)
  have "map_of (parse_cookies (render_cookies cs)) = map_of (map_extend [] ?s)"
    using parse_rendered [OF s(2,1)] by (simp add: render_cookies_def render_part_def [abs_def] split_def)
  also have "\<dots> = map_of (rev ?s)" by (simp add: map_of_extend)
  also have "\<dots> = map_of cs"
  proof (rule map_of_same_set)
    show "distinct (map fst (rev ?s))"
      using assms(2) by (metis distinct_map distinct_rev distinct_sort rev_map set_sort)
  qed (use assms(2) in simp_all)
  finally show ?thesis .
qed

text \<open>
  The \<open>Cookie\<close> header that replaces the cookies of a request carries exactly them: for
  every set of cookies that parsing can produce or \<open>set_cookie\<close> accepts, parsing the rendered header
  gives the same names and values.
\<close>

theorem cookie_header_roundtrip:
  assumes "list_all clean_cookie cs" "distinct (map fst cs)" "cs \<noteq> []"
  shows "map_of (parse_cookies (render_cookies cs)) = map_of cs"
  using assms by (rule parse_render_map)

theorem cookie_header_roundtrip_witness:
  "map_of (parse_cookies (render_cookies [(''sid'', ''x=1''), (''a'', ''b c'')])) (''sid'') = Some ''x=1''"
proof -
  have "list_all clean_cookie [(''sid'', ''x=1''), (''a'', ''b c'')]"
    "distinct (map fst [(''sid'', ''x=1''), (''a'', ''b c'')])" by code_simp+
  from cookie_header_roundtrip [OF this] show ?thesis by simp
qed

section \<open>Synchronised views\<close>

lemma lower_pairs_filter: "\<forall>(n, _) \<in> set ps. to_ascii_lowercase n = n \<Longrightarrow>
    filter (\<lambda>(k, _). \<not> eq_ignore_ascii_case k m) ps = filter (\<lambda>(k, _). k \<noteq> to_ascii_lowercase m) ps"
  by (rule filter_cong [OF refl]) (auto simp: eq_ignore_ascii_case_def)

lemma set_header_ok:
  assumes ok: "views_ok rq" and laws: "http_laws http" and r: "rq_set_header http rq name v = Inr rq'"
  shows "views_ok rq'"
proof -
  obtain n where n: "header_name http name = Some n"
    and rq': "rq' = (let rq1 = rq\<lparr>rq_headers := AList.update n v (rq_headers rq),
        header_pairs := filter (\<lambda>(k, _). \<not> eq_ignore_ascii_case k n) (header_pairs rq) @ [(n, v)]\<rparr>
      in if n = ''cookie'' then rebuild_cookie_view rq1 else rq1)"
    using r by (auto simp: rq_set_header_def parse_header_name_def Let_def split: option.splits sum.splits)
  have low: "to_ascii_lowercase n = n" using http_lawsD(1) [OF laws n] by simp
  have ps: "\<forall>(k, _) \<in> set (header_pairs rq). to_ascii_lowercase k = k" using ok by (simp add: views_ok_def)
  have f: "filter (\<lambda>(k, _). \<not> eq_ignore_ascii_case k n) (header_pairs rq) = filter (\<lambda>(k, _). k \<noteq> n) (header_pairs rq)"
    using lower_pairs_filter [OF ps, of n] low by simp
  have m: "map_of (AList.update n v (rq_headers rq)) =
      map_of (rev (filter (\<lambda>(k, _). k \<noteq> n) (header_pairs rq) @ [(n, v)]))"
    using ok map_of_filter_name [of n "rev (header_pairs rq)"]
    by (auto simp: views_ok_def update_conv' rev_filter fun_eq_iff)
  show ?thesis
  proof (cases "n = ''cookie''")
    case True
    then show ?thesis unfolding rq' Let_def f
      using ps m low ok by (auto simp: rebuild_cookie_view_def distinct_cookies_of views_ok_def distinct_update)
  next
    case False
    then have "cookies_of (filter (\<lambda>(k, _). k \<noteq> n) (header_pairs rq) @ [(n, v)]) = cookies_of (header_pairs rq)"
      using ps low by (auto simp: cookies_of_snoc eq_ignore_lower intro!: cookies_of_filter_other)
    with False ps m low ok show ?thesis unfolding rq' Let_def f by (auto simp: views_ok_def distinct_update)
  qed
qed

lemma append_header_ok:
  assumes ok: "views_ok rq" and laws: "http_laws http" and r: "rq_append_header http rq name v = Inr rq'"
  shows "views_ok rq'"
proof -
  obtain n where n: "header_name http name = Some n"
    and rq': "rq' = (let rq1 = rq\<lparr>rq_headers := AList.update n v (rq_headers rq), header_pairs := header_pairs rq @ [(n, v)]\<rparr>
      in if n = ''cookie'' then rebuild_cookie_view rq1 else rq1)"
    using r by (auto simp: rq_append_header_def parse_header_name_def Let_def split: option.splits sum.splits)
  have low: "to_ascii_lowercase n = n" using http_lawsD(1) [OF laws n] by simp
  show ?thesis
    using ok low by (auto simp: rq' Let_def views_ok_def distinct_update update_conv' cookies_of_snoc eq_ignore_lower
        rebuild_cookie_view_def distinct_cookies_of distinct_extend fun_eq_iff)
qed

lemma remove_header_ok:
  assumes ok: "views_ok rq"
  shows "views_ok (rq_remove_header rq name)"
proof -
  let ?n = "to_ascii_lowercase name"
  have ps: "\<forall>(k, _) \<in> set (header_pairs rq). to_ascii_lowercase k = k" using ok by (simp add: views_ok_def)
  have hs: "\<forall>(k, _) \<in> set (rq_headers rq). to_ascii_lowercase k = k"
  proof clarify
    fix k v assume "(k, v) \<in> set (rq_headers rq)"
    moreover have "distinct (map fst (rq_headers rq))" using ok by (simp add: views_ok_def)
    ultimately have "map_of (rq_headers rq) k = Some v" by simp
    then have "map_of (rev (header_pairs rq)) k = Some v" using ok by (simp add: views_ok_def)
    from map_of_SomeD [OF this] show "to_ascii_lowercase k = k" using ps by auto
  qed
  note f = lower_pairs_filter [OF ps, of name] lower_pairs_filter [OF hs, of name]
  have m: "map_of (filter (\<lambda>(k, _). k \<noteq> ?n) (rq_headers rq)) = map_of (rev (filter (\<lambda>(k, _). k \<noteq> ?n) (header_pairs rq)))"
    using ok by (simp add: map_of_filter_name rev_filter views_ok_def)
  have d: "distinct (map fst (filter (\<lambda>(k, _). k \<noteq> ?n) (rq_headers rq)))"
    using ok by (simp add: views_ok_def distinct_map_filter)
  show ?thesis
  proof (cases "eq_ignore_ascii_case name ''cookie''")
    case True
    then have "cookies_of (filter (\<lambda>(k, _). k \<noteq> ?n) (header_pairs rq)) = []"
      using ps by (intro cookies_of_none) (auto simp: eq_ignore_ascii_case_def)
    with True ps m d show ?thesis by (auto simp: rq_remove_header_def Let_def f views_ok_def)
  next
    case False
    then have "cookies_of (filter (\<lambda>(k, _). k \<noteq> ?n) (header_pairs rq)) = cookies_of (header_pairs rq)"
      using ps by (intro cookies_of_filter_other) (auto simp: eq_ignore_ascii_case_def)
    with False ok ps m d show ?thesis by (auto simp: rq_remove_header_def Let_def f views_ok_def)
  qed
qed

lemma clean_views: "views_ok rq \<Longrightarrow> list_all clean_cookie (rq_cookies rq)"
proof -
  assume ok: "views_ok rq"
  have "clean_cookie (k, v)" if "(k, v) \<in> set (rq_cookies rq)" for k v
  proof -
    have "distinct (map fst (rq_cookies rq))" using ok by (simp add: views_ok_def)
    then have "map_of (rq_cookies rq) k = Some v" using that by simp
    then have "map_of (cookies_of (header_pairs rq)) k = Some v" using ok by (simp add: views_ok_def)
    from map_of_SomeD [OF this] show ?thesis using clean_cookies_of by (auto simp: list_all_iff)
  qed
  then show ?thesis by (auto simp: list_all_iff)
qed

lemma rewrite_ok:
  assumes ok: "views_ok rq" and cs: "distinct (map fst cs)" "list_all clean_cookie cs"
  shows "views_ok (rewrite_cookie_header (rq\<lparr>rq_cookies := cs\<rparr>))"
proof -
  have ps: "\<forall>(k, _) \<in> set (header_pairs rq). to_ascii_lowercase k = k" using ok by (simp add: views_ok_def)
  note f = lower_pairs_filter [OF ps, of "''cookie''", simplified]
  let ?ps = "filter (\<lambda>(k, _). k \<noteq> ''cookie'') (header_pairs rq)"
  have none: "cookies_of ?ps = []"
    using ps by (intro cookies_of_none) (auto simp: eq_ignore_lower)
  have m: "map_of (AList.delete ''cookie'' (rq_headers rq)) = map_of (rev ?ps)"
    using ok by (simp add: delete_conv' map_of_filter_name rev_filter views_ok_def)
  have d: "distinct (map fst (AList.delete ''cookie'' (rq_headers rq)))" using ok by (simp add: views_ok_def distinct_delete)
  show ?thesis
  proof (cases "cs = []")
    case True
    with ps m d none show ?thesis by (auto simp: rewrite_cookie_header_def Let_def f views_ok_def)
  next
    case False
    have "map_of (map_extend [] (parse_cookies (render_cookies cs))) = map_of cs"
      using map_of_same_set [of "rev (parse_cookies (render_cookies cs))" "parse_cookies (render_cookies cs)"]
        distinct_parse parse_render_map [OF cs(2,1) False] by (simp add: map_of_extend rev_map [symmetric])
    with False ps m d none cs show ?thesis
      by (auto simp: rewrite_cookie_header_def Let_def f views_ok_def cookies_of_snoc distinct_update update_conv')
  qed
qed

lemma valid_cookie_clean:
  assumes "valid_request_cookie_name n" "valid_request_cookie_value v"
  shows "clean_cookie (n, v)"
proof -
  have name: "code c < 128 \<and> \<not> ws1 c \<and> c \<noteq> CHR ''='' \<and> c \<noteq> CHR '';''"
    if "is_ascii_alphanumeric c \<or> c \<in> set ''!#$%&*+-.^_|~'' \<or> code c = 39 \<or> code c = 96" for c
    using that by (auto simp: is_ascii_alphanumeric_def is_ascii_digit_def is_ascii_upper_def is_ascii_lower_def ws1_def)
  have n: "list_all (\<lambda>c. code c < 128 \<and> \<not> ws1 c \<and> c \<noteq> CHR ''='' \<and> c \<noteq> CHR '';'') n"
    using assms(1) [unfolded valid_request_cookie_name_def, THEN conjunct2]
    by (rule list.pred_mono_strong) (use name in blast)
  have val: "code c < 128 \<and> \<not> ws1 c \<and> c \<noteq> CHR '';''"
    if "let n = code c in n = 0x21 \<or> (0x23 \<le> n \<and> n \<le> 0x2b) \<or> (0x2d \<le> n \<and> n \<le> 0x3a)
        \<or> (0x3c \<le> n \<and> n \<le> 0x5b) \<or> (0x5d \<le> n \<and> n \<le> 0x7e)" for c
    using that by (auto simp: Let_def ws1_def)
  have v: "list_all (\<lambda>c. code c < 128 \<and> \<not> ws1 c \<and> c \<noteq> CHR '';'') v"
    using assms(2) unfolding valid_request_cookie_value_def by (rule list.pred_mono_strong) (rule val)
  have "trimmed n" by (rule trimmed_ascii) (use n in \<open>auto simp: list_all_iff\<close>)
  moreover have "trimmed v" by (rule trimmed_ascii) (use v in \<open>auto simp: list_all_iff\<close>)
  ultimately show ?thesis using n v by (auto simp: clean_cookie_def list_all_iff)
qed

lemma clean_update: "list_all clean_cookie cs \<Longrightarrow> clean_cookie (n, v) \<Longrightarrow> list_all clean_cookie (AList.update n v cs)"
  by (induction cs) (auto simp: clean_cookie_def)

lemma clean_delete: "list_all clean_cookie cs \<Longrightarrow> list_all clean_cookie (AList.delete n cs)"
  by (auto simp: list_all_iff AList.delete_eq)

lemma set_cookie_ok: "views_ok rq \<Longrightarrow> rq_set_cookie rq n v = Inr rq' \<Longrightarrow> views_ok rq'"
  using rewrite_ok [of rq "AList.update n v (rq_cookies rq)"] clean_views [of rq] clean_update valid_cookie_clean [of n v]
  by (auto simp: rq_set_cookie_def views_ok_def distinct_update split: if_splits)

lemma remove_cookie_ok: "views_ok rq \<Longrightarrow> views_ok (rq_remove_cookie rq n)"
  using rewrite_ok [of rq "AList.delete n (rq_cookies rq)"] clean_views [of rq] clean_delete
  by (auto simp: rq_remove_cookie_def views_ok_def distinct_delete)

lemma body_limit_ok: "views_ok rq \<Longrightarrow> views_ok (rq_set_body_limit rq n)"
  by (simp add: views_ok_def rq_set_body_limit_def)

section \<open>Programs\<close>

datatype request_op =
    SetHeader string string | AppendHeader string string | RemoveHeader string
  | SetCookie string string | RemoveCookie string | SetBodyLimit nat

text \<open>A refused operation leaves the request as it is.\<close>

fun request_step :: "http_crate \<Rightarrow> Request \<Rightarrow> request_op \<Rightarrow> Request" where
  "request_step http rq (SetHeader n v) = (case rq_set_header http rq n v of Inl _ \<Rightarrow> rq | Inr rq' \<Rightarrow> rq')"
| "request_step http rq (AppendHeader n v) = (case rq_append_header http rq n v of Inl _ \<Rightarrow> rq | Inr rq' \<Rightarrow> rq')"
| "request_step http rq (RemoveHeader n) = rq_remove_header rq n"
| "request_step http rq (SetCookie n v) = (case rq_set_cookie rq n v of Inl _ \<Rightarrow> rq | Inr rq' \<Rightarrow> rq')"
| "request_step http rq (RemoveCookie n) = rq_remove_cookie rq n"
| "request_step http rq (SetBodyLimit n) = rq_set_body_limit rq n"

interpretation request: invariant_system "request_step http" "\<lambda>rq. http_laws http \<and> views_ok rq" for http
proof
  fix rq op
  assume "http_laws http \<and> views_ok rq"
  then show "http_laws http \<and> views_ok (request_step http rq op)"
    by (cases op) (auto intro: set_header_ok append_header_ok remove_header_ok set_cookie_ok remove_cookie_ok
        body_limit_ok split: sum.split)
qed

definition builder_ok :: "RequestBuilder \<Rightarrow> bool" where
  "builder_ok b \<longleftrightarrow> (\<forall>(n, _) \<in> set (bd_headers b). to_ascii_lowercase n = n)"

lemma builder_steps_ok:
  "builder_ok RequestBuilder_new" "builder_ok b \<Longrightarrow> builder_ok (builder_header n v b)"
  "builder_ok b \<Longrightarrow> builder_ok (builder_cookie n v b)" "builder_ok b \<Longrightarrow> builder_ok (builder_path n b)"
  "builder_ok b \<Longrightarrow> builder_ok (builder_method n b)"
  by (auto simp: builder_ok_def RequestBuilder_new_def builder_header_def builder_cookie_def builder_path_def
      builder_method_def split: option.split)

lemma built_ok:
  assumes "builder_ok b"
  shows "views_ok (builder_build b)"
proof -
  have low: "\<forall>(n, _) \<in> set (builder_pairs b). to_ascii_lowercase n = n"
    using assms by (auto simp: builder_ok_def builder_pairs_def Let_def)
  have "foldl (\<lambda>cookies (n, v). if n = ''cookie'' then map_extend cookies (parse_cookies v) else cookies) m ps =
      foldl (\<lambda>cookies (n, v). if eq_ignore_ascii_case n ''cookie'' then map_extend cookies (parse_cookies v) else cookies) m ps"
    if "\<forall>(n, _) \<in> set ps. to_ascii_lowercase n = n" for ps m
    using that by (induction ps arbitrary: m) (auto simp: eq_ignore_lower)
  with low show ?thesis
    by (simp add: views_ok_def builder_build_def Let_def map_of_extend distinct_extend distinct_cookies_of cookies_of_def [symmetric])
qed

lemma views_header:
  assumes ok: "views_ok rq"
  shows "rq_header rq name = (case headers_all rq name of [] \<Rightarrow> None | vs \<Rightarrow> Some (last vs))"
proof -
  have low: "\<forall>(n, _) \<in> set (header_pairs rq). to_ascii_lowercase n = n" using ok by (simp add: views_ok_def)
  have last: "map_of (rev ps) n = (case map snd (filter (\<lambda>(k, _). k = n) ps) of [] \<Rightarrow> None | vs \<Rightarrow> Some (last vs))"
    for ps :: "(string \<times> string) list" and n
    by (induction ps rule: rev_induct) (auto split: list.splits)
  have all: "headers_all rq name = map snd (filter (\<lambda>(k, _). k = to_ascii_lowercase name) (header_pairs rq))"
    unfolding headers_all_def by (rule arg_cong [of _ _ "map snd"], rule filter_cong [OF refl])
      (use low in \<open>auto simp: eq_ignore_ascii_case_def\<close>)
  have other: "map_of (rq_headers rq) name = None" if "name \<noteq> to_ascii_lowercase name"
  proof (rule ccontr)
    assume "map_of (rq_headers rq) name \<noteq> None"
    then obtain v where "map_of (rev (header_pairs rq)) name = Some v" using ok by (auto simp: views_ok_def)
    from map_of_SomeD [OF this] low that show False by auto
  qed
  have "rq_header rq name = map_of (rq_headers rq) (to_ascii_lowercase name)"
    using other by (cases "name = to_ascii_lowercase name") (auto simp: rq_header_def split: option.split)
  with all last ok show ?thesis by (simp add: views_ok_def)
qed

text \<open>
  The header views of a request never disagree. On any request the builder made, after any
  sequence of header and cookie operations, accepted or refused: \<open>header(name)\<close> is the last of
  \<open>headers_all(name)\<close> for every name in any case, and \<open>cookie(name)\<close> is what the \<open>Cookie\<close> fields
  among the pairs say, so no check can be bypassed by making two views differ.
\<close>

theorem request_views_in_sync:
  assumes "http_laws http" "builder_ok b"
  shows "let rq = foldl (request_step http) (builder_build b) ops in
    (\<forall>name. rq_header rq name = (case headers_all rq name of [] \<Rightarrow> None | vs \<Rightarrow> Some (last vs))) \<and>
    (\<forall>name. rq_cookie rq name = map_of (cookies_of (header_pairs rq)) name)"
proof -
  have ok: "views_ok (foldl (request_step http) (builder_build b) ops)"
    using request.run_inv [of http "builder_build b" ops] assms built_ok by simp
  then show ?thesis using views_header [OF ok] by (simp add: Let_def rq_cookie_def views_ok_def)
qed

theorem request_views_in_sync_witness:
  "let rq = foldl (request_step demo_http) (builder_build (builder_header ''Cookie'' ''a=1'' RequestBuilder_new))
        [SetCookie ''b'' ''2'', AppendHeader ''X-Y'' ''z''] in
   rq_header rq ''x-y'' = (case headers_all rq ''x-y'' of [] \<Rightarrow> None | vs \<Rightarrow> Some (last vs))"
proof -
  have "builder_ok (builder_header ''Cookie'' ''a=1'' RequestBuilder_new)" by (intro builder_steps_ok)
  from request_views_in_sync [OF demo_http_laws this, of "[SetCookie ''b'' ''2'', AppendHeader ''X-Y'' ''z'']"]
  show ?thesis unfolding Let_def by blast
qed

end
