(* ===== verification/Session_Middleware.thy ===== *)
theory Session_Middleware
  imports Session_Props Http_Response Http_Request_Props
begin

text \<open>
  The session middleware (\<open>src/app/session.rs\<close>, \<open>Sessions::middleware\<close>): what it does before the
  rest of the chain runs (\<open>session_enter\<close>) and after (\<open>session_leave\<close>). The chain \<open>next\<close> is a function
  on the shared store, so it may make any calls, and so may other requests meanwhile.
  \<open>dec\<close> decodes base64url.
\<close>

section \<open>Model\<close>

definition SESSION_ID_HEADER :: string where "SESSION_ID_HEADER = ''x-session-id''"

definition request_cookie_occurrences :: "Request \<Rightarrow> string \<Rightarrow> nat" where
  "request_cookie_occurrences rq name =
     length (filter (\<lambda>pair. case split_once (CHR ''='') pair of None \<Rightarrow> False | Some (n, _) \<Rightarrow> trim n = name)
       (concat (map (split_char (CHR '';'')) (headers_all rq ''cookie''))))"

definition i64_max :: nat where "i64_max = 9223372036854775807"

definition duration_max_age :: "nat \<Rightarrow> int" where
  "duration_max_age d =
     (let rounded = min u64_max (d div 1000000000 + (if d mod 1000000000 \<noteq> 0 then 1 else 0))
      in int (min rounded i64_max))"

definition default_cookie_path :: "string \<Rightarrow> string" where
  "default_cookie_path path =
     (if \<not> starts_with ''/'' path then ''/''
      else (case rsplit_once (CHR ''/'') path of
              None \<Rightarrow> ''/'' | Some (before, _) \<Rightarrow> if before = [] then ''/'' else before))"

text \<open>One attribute of a \<open>Set-Cookie\<close> value: the effective path and whether a domain was seen.\<close>

definition cookie_attribute :: "string \<Rightarrow> string \<times> bool \<Rightarrow> string \<Rightarrow> string \<times> bool" where
  "cookie_attribute default_path acc attribute =
     (let (name, v) = (case split_once (CHR ''='') (trim attribute) of
                         None \<Rightarrow> (trim attribute, []) | Some (n, v) \<Rightarrow> (trim n, trim v))
      in if eq_ignore_ascii_case name ''path''
         then ((if starts_with ''/'' v then v else default_path), snd acc)
         else if eq_ignore_ascii_case name ''domain'' then (fst acc, True) else acc)"

definition sets_root_host_cookie :: "string \<Rightarrow> string \<Rightarrow> string \<Rightarrow> bool" where
  "sets_root_host_cookie cname request_path v =
     (case split_char (CHR '';'') v of
        [] \<Rightarrow> False
      | pair # attributes \<Rightarrow>
          (case split_once (CHR ''='') pair of
             None \<Rightarrow> False
           | Some (name, _) \<Rightarrow>
               trim name = cname \<and>
               (let default_path = default_cookie_path request_path
                in foldl (cookie_attribute default_path) (default_path, False) attributes = (''/'', False))))"

definition response_sets_root_host_cookie :: "http_crate \<Rightarrow> Response \<Rightarrow> string \<Rightarrow> string \<Rightarrow> bool" where
  "response_sets_root_host_cookie http res cname request_path =
     list_ex (\<lambda>v. to_str_ok http v \<and> sets_root_host_cookie cname request_path v)
       (hm_get_all (rs_headers res) ''set-cookie'')"

definition private_directive :: "string \<Rightarrow> bool" where
  "private_directive directive =
     (let name = (case split_once (CHR ''='') (trim directive) of
                    None \<Rightarrow> trim directive | Some (n, _) \<Rightarrow> trim n)
      in eq_ignore_ascii_case name ''private'' \<or> eq_ignore_ascii_case name ''no-store'')"

definition ensure_private_cache_control :: "http_crate \<Rightarrow> Response \<Rightarrow> Response" where
  "ensure_private_cache_control http res =
     (let vals = hm_get_all (rs_headers res) ''cache-control'';
          invalid = list_ex (\<lambda>v. \<not> to_str_ok http v) vals;
          private = list_ex (\<lambda>v. list_ex private_directive (split_char (CHR '','') v)) vals
      in if invalid
         then res\<lparr>rs_headers := hm_insert (hm_remove (rs_headers res) ''cache-control'')
                    ''cache-control'' ''private, no-store''\<rparr>
         else if \<not> private
         then res\<lparr>rs_headers := hm_append (rs_headers res) ''cache-control'' ''private''\<rparr>
         else res)"

definition duplicate_session_cookie :: HttpError where
  "duplicate_session_cookie =
     HttpError_new 400 ''duplicate_session_cookie''
       ''La solicitud contiene varias cookies de sesion con el mismo nombre''"

text \<open>
  The session a request presents, if its cookie verifies and its session is live; the first
  clock reading renews it.
\<close>

definition presented_session ::
  "session_env \<Rightarrow> (string \<Rightarrow> string option) \<Rightarrow> Sessions \<Rightarrow> session_state \<Rightarrow> Request \<Rightarrow> nat \<Rightarrow>
     session_state \<times> string option" where
  "presented_session env dec ss st rq now =
     (case rq_cookie rq (cookie_name ss) of
        None \<Rightarrow> (st, None)
      | Some cookie \<Rightarrow>
          (case verify_value (env_hmac env) dec (secret ss) cookie of
             None \<Rightarrow> (st, None)
           | Some sid \<Rightarrow>
               (case sessions_resume env ss st sid now of
                  (st', alive) \<Rightarrow> (st', if alive then Some sid else None))))"

definition session_enter ::
  "http_crate \<Rightarrow> session_env \<Rightarrow> (string \<Rightarrow> string option) \<Rightarrow> Sessions \<Rightarrow> session_state \<Rightarrow> Request \<Rightarrow>
     nat \<Rightarrow> nat \<Rightarrow> session_state \<times> (Response + Request \<times> string)" where
  "session_enter http env dec ss st rq nanos now =
     (if request_cookie_occurrences rq (cookie_name ss) > 1
      then (st, Inl (ensure_private_cache_control http (from_error http duplicate_session_cookie)))
      else
        let (st1, existing) = presented_session env dec ss st rq now;
            (st2, sid) = (case existing of
                            Some sid \<Rightarrow> (st1, sid)
                          | None \<Rightarrow> ((fst st1, fetch_add (snd st1) 1), generate_id env ss nanos (snd st1)))
        in (case rq_set_header http rq SESSION_ID_HEADER sid of
              Inl e \<Rightarrow> (st2, Inl (ensure_private_cache_control http (from_error http e)))
            | Inr rq' \<Rightarrow> (st2, Inr (rq'\<lparr>rq_session_id := Some sid\<rparr>, sid))))"

definition session_cookie :: "session_env \<Rightarrow> Sessions \<Rightarrow> bool \<Rightarrow> string \<Rightarrow> bool \<Rightarrow> Cookie" where
  "session_cookie env ss over_tls sid alive =
     (let secure = (over_tls \<or> force_secure_cookie ss \<or> starts_with ''__Host-'' (cookie_name ss) \<or>
                    starts_with ''__Secure-'' (cookie_name ss) \<or> same_site ss = SameSite_None);
          v = (if alive then sign_value (env_hmac env) (env_b64 env) (secret ss) sid else [])
      in cookie_same_site (same_site ss) (cookie_http_only True (cookie_secure secure
           (cookie_max_age_secs (if alive then duration_max_age (idle_timeout ss) else 0)
             (Cookie_new (cookie_name ss) v)))))"

definition session_leave ::
  "http_crate \<Rightarrow> session_env \<Rightarrow> Sessions \<Rightarrow> session_state \<Rightarrow> Response \<Rightarrow> Request \<Rightarrow> string \<Rightarrow> nat \<Rightarrow>
     session_state \<times> Response" where
  "session_leave http env ss st res0 rq sid now =
     (let res = ensure_private_cache_control http res0;
          (st1, rotated) = sessions_take_rotation st sid;
          sid' = (case rotated of None \<Rightarrow> sid | Some new_id \<Rightarrow> new_id)
      in if response_sets_root_host_cookie http res (cookie_name ss) (rq_path rq) then (st1, res)
         else
           let (st2, alive) = sessions_resume env ss st1 sid' now
           in if \<not> alive \<and> rq_cookie rq (cookie_name ss) = None then (st2, res)
              else (st2, set_cookie http (session_cookie env ss (secure_transport rq) sid' alive) res))"

text \<open>The clock readings are those of \<open>generate_id\<close> and of the two calls of \<open>resume\<close>.\<close>

definition session_middleware ::
  "http_crate \<Rightarrow> session_env \<Rightarrow> (string \<Rightarrow> string option) \<Rightarrow> Sessions \<Rightarrow>
     (session_state \<Rightarrow> Request \<Rightarrow> session_state \<times> Response) \<Rightarrow> session_state \<Rightarrow> Request \<Rightarrow>
     nat \<times> nat \<times> nat \<Rightarrow> session_state \<times> Response" where
  "session_middleware http env dec ss next_fn st rq clock =
     (case clock of (nanos, now1, now2) \<Rightarrow>
        (case session_enter http env dec ss st rq nanos now1 of
           (st1, Inl early) \<Rightarrow> (st1, early)
         | (st1, Inr (rq', sid)) \<Rightarrow>
             (case next_fn st1 rq' of (st2, res) \<Rightarrow> session_leave http env ss st2 res rq sid now2)))"

end
