(* ===== verification/Session_Middleware_Props.thy ===== *)
theory Session_Middleware_Props
  imports Session_Middleware
begin

text \<open>
  What the session middleware guarantees: responses are never publicly cacheable, a session
  survives the trip through the browser, handlers only see ids the server vouches for, and
  what happens to a session that is regenerated twice in one request.
\<close>

section \<open>Private responses\<close>

definition private_response :: "http_crate \<Rightarrow> Response \<Rightarrow> bool" where
  "private_response http res \<longleftrightarrow>
     list_ex (\<lambda>v. to_str_ok http v \<and> list_ex private_directive (split_char (CHR '','') v))
       (hm_get_all (rs_headers res) ''cache-control'')"

lemma private_values:
  "list_ex private_directive (split_char (CHR '','') ''private'')"
  "list_ex private_directive (split_char (CHR '','') ''private, no-store'')"
  "list_all visible ''private''" "list_all visible ''private, no-store''"
  by code_simp+

lemma ensure_private: 
  assumes "http_laws http"
  shows "private_response http (ensure_private_cache_control http res)"
proof -
  have "to_str_ok http ''private''" "to_str_ok http ''private, no-store''"
    using private_values(3,4) http_lawsD(2,3) [OF assms] by blast+
  with private_values(1,2) show ?thesis
    by (auto simp: private_response_def ensure_private_cache_control_def Let_def list_ex_iff
        simp del: split_char.simps)
qed

lemma set_cookie_name: "http_laws http \<Longrightarrow> header_name http ''set-cookie'' = Some ''set-cookie''"
  using http_lawsD(5) [of http "''set-cookie''"]
  by (simp add: to_ascii_lowercase_def to_lower_def is_ascii_upper_def is_ascii_alphanumeric_def is_ascii_lower_def)

lemma set_cookie_private:
  "http_laws http \<Longrightarrow> private_response http (set_cookie http c res) = private_response http res"
  by (simp add: set_cookie_def append_header_def try_add_header_def set_cookie_name private_response_def
      record_build_error_def)

lemma leave_private:
  "http_laws http \<Longrightarrow> private_response http (snd (session_leave http env ss st res rq sid now))"
  using ensure_private [of http res]
  by (simp add: session_leave_def Let_def set_cookie_private split: prod.split)

section \<open>Cookies that carry a session\<close>

text \<open>What a user agent stores of a \<open>Set-Cookie\<close> value and sends back: the part before the attributes.\<close>

definition user_agent_cookie :: "string \<Rightarrow> (string \<times> string) option" where
  "user_agent_cookie v = split_once (CHR ''='') (hd (split_char (CHR '';'') v))"

lemma wf_session_cookie: "wf_cookie (session_cookie env ss tls sid alive)"
  using wf_Cookie_new
  by (simp add: wf_cookie_def session_cookie_def Let_def cookie_same_site_def cookie_http_only_def
      cookie_secure_def cookie_max_age_secs_def)

lemma user_agent_header_value:
  assumes "wf_cookie c" "CHR ''='' \<notin> set (ck_name c)"
  shows "user_agent_cookie (to_header_value c) = Some (ck_name c, ck_value c)"
proof -
  have "CHR '';'' \<notin> set (ck_name c @ ''='' @ ck_value c)"
    using assms(1) by (auto simp: wf_cookie_def list_all_iff clean_byte_def)
  moreover have "\<forall>a \<in> set (cookie_attributes c). CHR '';'' \<notin> set a"
    using clean_attributes [OF assms(1)] by (fastforce simp: list_all_iff clean_byte_def)
  ultimately have "hd (split_char (CHR '';'') (to_header_value c)) = ck_name c @ CHR ''='' # ck_value c"
    using split_char_attributes [of "CHR '';''" "ck_name c @ ''='' @ ck_value c" "cookie_attributes c"]
    by (simp only: to_header_value_attributes) simp
  then show ?thesis using assms(2) by (simp add: user_agent_cookie_def split_once_Some)
qed

lemma valid_name_sanitized: "is_valid_cookie_name name \<Longrightarrow> sanitize_cookie_name name = name"
  by (auto simp: is_valid_cookie_name_def sanitize_cookie_name_def is_token_byte_def list_all_iff)

lemma octets_sanitized: "list_all is_cookie_octet v \<Longrightarrow> sanitize_cookie_value v = v"
  by (simp add: sanitize_cookie_value_def list_all_iff)

lemma valid_name_chars: "is_valid_cookie_name name \<Longrightarrow> CHR ''='' \<notin> set name \<and> list_all visible name"
  by (auto simp: is_valid_cookie_name_def list_all_iff is_ascii_alphanumeric_def is_ascii_digit_def
      is_ascii_upper_def is_ascii_lower_def visible_def)

lemma octet_visible: "is_cookie_octet c \<Longrightarrow> visible c"
  by (auto simp: is_cookie_octet_def visible_def Let_def)

lemma base64url_octet: "is_ascii_alphanumeric c \<or> c \<in> {CHR ''-'', CHR ''_''} \<Longrightarrow> is_cookie_octet c"
  by (auto simp: is_cookie_octet_def is_ascii_alphanumeric_def is_ascii_digit_def is_ascii_upper_def
      is_ascii_lower_def Let_def)

lemma signed_octets:
  assumes "base64url (env_b64 env) dec" "list_all is_cookie_octet sid"
  shows "list_all is_cookie_octet (sign_value (env_hmac env) (env_b64 env) k sid)"
proof -
  have "is_cookie_octet c" if "c \<in> set (env_b64 env x)" for c x
    using assms(1) that base64url_octet unfolding base64url_def by blast
  moreover have "is_cookie_octet (CHR ''.'')" by code_simp
  ultimately show ?thesis using assms(2) by (auto simp: sign_value_def signature_def list_all_iff)
qed

lemma verify_signed:
  assumes "base64url (env_b64 env) dec"
  shows "verify_value (env_hmac env) dec k (sign_value (env_hmac env) (env_b64 env) k sid) = Some sid"
proof -
  have "\<not> is_ascii_alphanumeric (CHR ''.'')" by code_simp
  then have "CHR ''.'' \<notin> set (env_b64 env (env_hmac env k sid))" using assms unfolding base64url_def by fastforce
  with assms show ?thesis by (auto simp: verify_value_Some sign_value_def signature_def base64url_def)
qed

lemma generated_octets:
  assumes "base64url (env_b64 env) dec"
  shows "list_all is_cookie_octet (generate_id env ss nanos count)"
proof -
  let ?v = "show_nat nanos @ ''-'' @ show_nat count"
  let ?sig = "env_b64 env (env_hmac env (secret ss) ?v)"
  have "\<not> is_ascii_alphanumeric (CHR ''.'')" by code_simp
  then have "CHR ''.'' \<notin> set ?sig" using assms unfolding base64url_def by fastforce
  then have "rsplit_once (CHR ''.'') (?v @ CHR ''.'' # ?sig) = Some (?v, ?sig)"
    unfolding rsplit_once_Some by simp
  then have "generate_id env ss nanos count = ?sig" by (simp add: generate_id_def sign_value_def signature_def)
  moreover have "\<forall>c \<in> set ?sig. is_cookie_octet c"
    using assms base64url_octet unfolding base64url_def by blast
  ultimately show ?thesis by (simp add: list_all_iff)
qed

lemma visible_session_cookie:
  assumes "is_valid_cookie_name (cookie_name ss)" "list_all is_cookie_octet (ck_value (session_cookie env ss tls sid alive))"
  shows "list_all visible (to_header_value (session_cookie env ss tls sid alive))"
proof -
  let ?c = "session_cookie env ss tls sid alive"
  have int: "list_all visible (show_int i)" for i
    using show_nat_visible by (simp add: show_int_def visible_def)
  have same: "list_all visible (SameSite_as_str s)" for s by (cases s) (simp_all add: visible_def)
  have lits: "list_all visible ''; Path=/''" "list_all visible ''; Max-Age=''" "list_all visible ''; Secure''"
    "list_all visible ''; HttpOnly''" "list_all visible ''None''" "list_all visible ''; SameSite=''" "list_all visible ''=''" by code_simp+
  have c: "ck_name ?c = cookie_name ss" "ck_path ?c = ''/''" "ck_domain ?c = None"
    using valid_name_sanitized [OF assms(1)]
    by (simp_all add: session_cookie_def Let_def cookie_same_site_def cookie_http_only_def cookie_secure_def
        cookie_max_age_secs_def Cookie_new_def)
  have v: "list_all visible (ck_value ?c)" using assms(2) octet_visible by (auto simp: list_all_iff)
  show ?thesis
    using valid_name_chars [OF assms(1)] v lits int same c
    by (simp add: to_header_value_def Let_def split: option.split)
qed


lemma set_cookie_appends:
  assumes "http_laws http" "list_all visible (to_header_value c)"
  shows "set_cookie http c res = res\<lparr>rs_headers := hm_append (rs_headers res) ''set-cookie'' (to_header_value c)\<rparr>"
  using http_lawsD(2) [OF assms] set_cookie_name [OF assms(1)]
  by (simp add: set_cookie_def append_header_def try_add_header_def)

lemma session_cookie_parts:
  assumes "is_valid_cookie_name (cookie_name ss)"
  shows "ck_name (session_cookie env ss tls sid alive) = cookie_name ss"
    "ck_value (session_cookie env ss tls sid True) =
       sanitize_cookie_value (sign_value (env_hmac env) (env_b64 env) (secret ss) sid)"
    "session_cookie env ss tls sid False = cleared_cookie (session_cookie env ss tls other True)"
  using valid_name_sanitized [OF assms]
  by (simp_all add: session_cookie_def Let_def cookie_same_site_def cookie_http_only_def cookie_secure_def
      cookie_max_age_secs_def Cookie_new_def cleared_cookie_def sanitize_cookie_value_def)

text \<open>The ids a handler may be given.\<close>

lemma id_header_set:
  assumes "http_laws http" "list_all visible sid"
  shows "\<exists>rq'. rq_set_header http rq SESSION_ID_HEADER sid = Inr rq'"
proof -
  have "header_name http SESSION_ID_HEADER = Some SESSION_ID_HEADER"
    using http_lawsD(5) [OF assms(1), of SESSION_ID_HEADER]
    by (simp add: SESSION_ID_HEADER_def to_ascii_lowercase_def to_lower_def is_ascii_upper_def
        is_ascii_alphanumeric_def is_ascii_lower_def)
  with http_lawsD(2) [OF assms] show ?thesis
    by (simp add: rq_set_header_def parse_header_name_def validate_header_value_def Let_def)
qed

lemma enter_resumes:
  assumes laws: "http_laws http" and b64: "base64url (env_b64 env) dec" and ok: "store_ok (env_hash env) (fst st)"
    and octets: "list_all is_cookie_octet sid"
    and cookie: "rq_cookie rq (cookie_name ss) = Some (sign_value (env_hmac env) (env_b64 env) (secret ss) sid)"
    and once: "request_cookie_occurrences rq (cookie_name ss) \<le> 1"
    and live: "live now (sessions (env_hash env) (fst st)) sid \<noteq> None"
  shows "\<exists>rq'. snd (session_enter http env dec ss st rq nanos now) = Inr (rq', sid) \<and> rq_session_id rq' = Some sid"
proof -
  obtain s' found where r: "resume (env_hash env) (env_imax env) (fst st) sid now (idle_timeout ss) = (s', found)"
    by fastforce
  have found: "found" using resume_ok(3) [OF ok r] live by simp
  have p: "presented_session env dec ss st rq now = ((s', snd st), Some sid)"
    using r found verify_signed [OF b64] by (simp add: presented_session_def cookie sessions_resume_def)
  have "list_all visible sid" using octets octet_visible by (auto simp: list_all_iff)
  from id_header_set [OF laws this, of rq] obtain rq' where "rq_set_header http rq SESSION_ID_HEADER sid = Inr rq'" ..
  with p once show ?thesis by (simp add: session_enter_def)
qed


section \<open>Leaving the middleware\<close>

lemma leave_alive:
  assumes inv: "session_inv env ss st" and rot: "snd (sessions_take_rotation st sid) = rotated"
    and sid': "sid' = (case rotated of None \<Rightarrow> sid | Some new_id \<Rightarrow> new_id)"
    and live: "live now (sessions (env_hash env) (fst st)) sid' = Some e"
    and unset: "\<not> response_sets_root_host_cookie http (ensure_private_cache_control http res) (cookie_name ss) (rq_path rq)"
    and leave: "session_leave http env ss st res rq sid now = (st', res')"
  shows "session_inv env ss st'"
    "sessions (env_hash env) (fst st') sid' =
       Some (e\<lparr>se_expires_at := expiry (env_imax env) now (idle_timeout ss)\<rparr>)"
    "res' = set_cookie http (session_cookie env ss (secure_transport rq) sid' True) (ensure_private_cache_control http res)"
proof -
  let ?st1 = "fst (sessions_take_rotation st sid)" and ?h = "env_hash env"
  have m: "sessions ?h (fst ?st1) = sessions ?h (fst st)"
    by (simp add: sessions_take_rotation_def take_rotation_def)
  have inv1: "session_inv env ss ?st1" by (rule take_inv [OF inv])
  then have ok1: "store_ok ?h (fst ?st1)" by (simp add: session_inv_def)
  obtain s2 found where r: "resume ?h (env_imax env) (fst ?st1) sid' now (idle_timeout ss) = (s2, found)" by fastforce
  have found: found using resume_ok(3) [OF ok1 r] live m by simp
  have st': "st' = (s2, snd ?st1)"
    and res': "res' = set_cookie http (session_cookie env ss (secure_transport rq) sid' True) (ensure_private_cache_control http res)"
    using leave unset r found sid' rot by (auto simp: session_leave_def Let_def sessions_resume_def split_def)
  show "session_inv env ss st'"
    using resume_inv [OF inv1, of sid' now] r st' by (simp add: sessions_resume_def)
  show "sessions ?h (fst st') sid' = Some (e\<lparr>se_expires_at := expiry (env_imax env) now (idle_timeout ss)\<rparr>)"
    using resume_ok(4) [OF ok1 r found] live m st' by (simp add: touch_def)
  show "res' = set_cookie http (session_cookie env ss (secure_transport rq) sid' True) (ensure_private_cache_control http res)"
    by (rule res')
qed

lemma leave_dead:
  assumes inv: "session_inv env ss st" and rot: "snd (sessions_take_rotation st sid) = rotated"
    and sid': "sid' = (case rotated of None \<Rightarrow> sid | Some new_id \<Rightarrow> new_id)"
    and dead: "live now (sessions (env_hash env) (fst st)) sid' = None"
    and unset: "\<not> response_sets_root_host_cookie http (ensure_private_cache_control http res) (cookie_name ss) (rq_path rq)"
    and leave: "session_leave http env ss st res rq sid now = (st', res')"
  shows "purged now (sessions (env_hash env) (fst st)) (sessions (env_hash env) (fst st'))"
    "res' = (if rq_cookie rq (cookie_name ss) = None then ensure_private_cache_control http res
       else set_cookie http (session_cookie env ss (secure_transport rq) sid' False) (ensure_private_cache_control http res))"
proof -
  let ?st1 = "fst (sessions_take_rotation st sid)" and ?h = "env_hash env"
  have m: "sessions ?h (fst ?st1) = sessions ?h (fst st)"
    by (simp add: sessions_take_rotation_def take_rotation_def)
  have ok1: "store_ok ?h (fst ?st1)" using take_inv [OF inv] by (simp add: session_inv_def)
  obtain s2 found where r: "resume ?h (env_imax env) (fst ?st1) sid' now (idle_timeout ss) = (s2, found)" by fastforce
  have "\<not> found" using resume_ok(3) [OF ok1 r] dead m by simp
  then have "fst st' = s2" and res': "res' = (if rq_cookie rq (cookie_name ss) = None then ensure_private_cache_control http res
       else set_cookie http (session_cookie env ss (secure_transport rq) sid' False) (ensure_private_cache_control http res))"
    using leave unset r sid' rot by (auto simp: session_leave_def Let_def sessions_resume_def split_def split: if_splits)
  then show "purged now (sessions ?h (fst st)) (sessions ?h (fst st'))"
    using resume_ok(2) [OF ok1 r] dead m by (simp add: touch_None)
  show "res' = (if rq_cookie rq (cookie_name ss) = None then ensure_private_cache_control http res
       else set_cookie http (session_cookie env ss (secure_transport rq) sid' False) (ensure_private_cache_control http res))"
    by (rule res')
qed

section \<open>Properties\<close>

text \<open>
  No response that passes through the session middleware may be stored by a shared
  cache. Whatever the rest of the chain answers, and on the early error paths too, the response carries
  a readable \<open>Cache-Control\<close> value with the directive \<open>private\<close> or \<open>no-store\<close>.
\<close>

theorem session_responses_private:
  assumes "http_laws http"
  shows "private_response http (snd (session_middleware http env dec ss next_fn st rq clock))"
proof -
  have early: "private_response http r" if "snd (session_enter http env dec ss st rq n1 n2) = Inl r" for r n1 n2
    using that ensure_private [OF assms]
    by (auto simp: session_enter_def Let_def split: prod.splits sum.splits if_splits)
  obtain nanos now1 now2 where c: "clock = (nanos, now1, now2)" by (cases clock)
  obtain st1 x where e: "session_enter http env dec ss st rq nanos now1 = (st1, x)" by fastforce
  show ?thesis
  proof (cases x)
    case (Inl r)
    then show ?thesis using early [of nanos now1 r] e by (simp add: session_middleware_def c)
  next
    case (Inr p)
    then show ?thesis using e leave_private [OF assms]
      by (simp add: session_middleware_def c split: prod.split)
  qed
qed

theorem session_responses_private_witness:
  "private_response demo_http (snd (session_middleware demo_http demo_env Some demo_sessions
     (\<lambda>st rq. (st, Response_send ''ok'')) demo_state (builder_build RequestBuilder_new) (7, 8, 9)))"
  by (rule session_responses_private [OF demo_http_laws])

text \<open>
  Claim C11: a session survives the trip through the browser. When a request ends with a live
  session, under the id it began with or the one \<open>regenerate\<close> gave it, the response sets the
  session cookie; a later request that sends this cookie back before the idle timeout is given
  exactly that session's id, whatever calls other sessions make in between.
\<close>

theorem session_survives_browser:
  assumes laws: "http_laws http" and b64: "base64url (env_b64 env) dec"
    and name: "is_valid_cookie_name (cookie_name ss)" and inv: "session_inv env ss st"
    and sid': "sid' = (case snd (sessions_take_rotation st sid) of None \<Rightarrow> sid | Some new_id \<Rightarrow> new_id)"
    and octets: "list_all is_cookie_octet sid'"
    and live: "live now (sessions (env_hash env) (fst st)) sid' \<noteq> None"
    and unset: "\<not> response_sets_root_host_cookie http (ensure_private_cache_control http res) (cookie_name ss) (rq_path rq)"
    and leave: "session_leave http env ss st res rq sid now = (st', res')"
    and others: "others_only env ss t sid' st' calls"
    and idle: "t < now + idle_timeout ss" "now + idle_timeout ss \<le> env_imax env"
  shows "\<exists>v. user_agent_cookie (last (hm_get_all (rs_headers res') ''set-cookie'')) = Some (cookie_name ss, v) \<and>
    (\<forall>rq2 nanos. rq_cookie rq2 (cookie_name ss) = Some v \<and> request_cookie_occurrences rq2 (cookie_name ss) \<le> 1 \<longrightarrow>
       (\<exists>rq'. snd (session_enter http env dec ss (session_run env ss st' calls) rq2 nanos t) = Inr (rq', sid') \<and>
              rq_session_id rq' = Some sid'))"
proof -
  let ?h = "env_hash env" and ?c = "session_cookie env ss (secure_transport rq) sid' True"
  let ?v = "sign_value (env_hmac env) (env_b64 env) (secret ss) sid'"
  obtain e where e: "live now (sessions ?h (fst st)) sid' = Some e" using live by auto
  note l = leave_alive [OF inv refl sid' e unset leave]
  note parts = session_cookie_parts [OF name]
  have v: "list_all is_cookie_octet ?v" by (rule signed_octets [OF b64 octets])
  then have cv: "ck_value ?c = ?v" using parts(2) octets_sanitized by simp
  have vis: "list_all visible (to_header_value ?c)"
    using visible_session_cookie [OF name] v cv by metis
  have "last (hm_get_all (rs_headers res') ''set-cookie'') = to_header_value ?c"
    using l(3) by (simp add: set_cookie_appends [OF laws vis])
  then have ua: "user_agent_cookie (last (hm_get_all (rs_headers res') ''set-cookie'')) = Some (cookie_name ss, ?v)"
    using user_agent_header_value [OF wf_session_cookie, of env ss "secure_transport rq" sid' True]
      parts(1) cv valid_name_chars [OF name] by simp
  have inv2: "session_inv env ss (session_run env ss st' calls)"
    unfolding session_run_def by (rule session.run_inv [OF l(1)])
  have "live t (sessions ?h (fst st')) sid' \<noteq> None"
    using l(2) idle by (simp add: live_def expiry_def instant_checked_add_def)
  then have "live t (sessions ?h (fst (session_run env ss st' calls))) sid' \<noteq> None"
    using run_frame [OF l(1) others] by simp
  with ua show ?thesis
    using enter_resumes [OF laws b64 _ octets] inv2 unfolding session_inv_def by blast
qed

text \<open>A session of the demonstration store, with a codec that can be inverted.\<close>

definition browser_env :: session_env where
  "browser_env = demo_env\<lparr>env_b64 := nibbles_encode\<rparr>"

definition browser_state :: session_state where
  "browser_state = session_run browser_env demo_sessions (demo_store, 1) [CallSet ''a'' ''k'' ''v'' 0 1 1]"

lemma browser_facts:
  "base64url (env_b64 browser_env) nibbles_decode" "is_valid_cookie_name (cookie_name demo_sessions)"
  "session_inv browser_env demo_sessions browser_state"
proof -
  have "SessionStore_new (env_imax browser_env) 0 = Val demo_store" using demo_new by (simp add: browser_env_def)
  from new_store_inv(1) [OF this demo_limits] show "session_inv browser_env demo_sessions browser_state"
    unfolding browser_state_def session_run_def by (intro session.run_inv)
  show "base64url (env_b64 browser_env) nibbles_decode" by (simp add: browser_env_def base64url_nibbles)
  show "is_valid_cookie_name (cookie_name demo_sessions)" by code_simp
qed

theorem session_survives_browser_witness:
  "\<exists>rq'. snd (session_enter demo_http browser_env nibbles_decode demo_sessions
     (session_run browser_env demo_sessions
        (fst (session_leave demo_http browser_env demo_sessions browser_state (Response_send ''ok'')
                (builder_build RequestBuilder_new) ''a'' 9)) [CallSet ''b'' ''k'' ''w'' 15 1 1])
     (builder_build (builder_header ''Cookie'' (''x=1; sid='' @ sign_value (env_hmac browser_env) (env_b64 browser_env)
        (secret demo_sessions) ''a'') RequestBuilder_new)) 7 50) = Inr (rq', ''a'')"
proof -
  let ?leave = "session_leave demo_http browser_env demo_sessions browser_state (Response_send ''ok'')
    (builder_build RequestBuilder_new) ''a'' 9"
  let ?rq = "builder_build (builder_header ''Cookie'' (''x=1; sid='' @ sign_value (env_hmac browser_env)
    (env_b64 browser_env) (secret demo_sessions) ''a'') RequestBuilder_new)"
  have c: "''a'' = (case snd (sessions_take_rotation browser_state ''a'') of None \<Rightarrow> ''a'' | Some new_id \<Rightarrow> new_id)"
    "list_all is_cookie_octet ''a''"
    "live 9 (sessions (env_hash browser_env) (fst browser_state)) ''a'' \<noteq> None"
    "\<not> response_sets_root_host_cookie demo_http (ensure_private_cache_control demo_http (Response_send ''ok''))
       (cookie_name demo_sessions) (rq_path (builder_build RequestBuilder_new))"
    "others_only browser_env demo_sessions 50 ''a'' (fst ?leave) [CallSet ''b'' ''k'' ''w'' 15 1 1]"
    "50 < 9 + idle_timeout demo_sessions" "9 + idle_timeout demo_sessions \<le> env_imax browser_env"
    by code_simp+
  have ua: "map_option snd (user_agent_cookie (last (hm_get_all (rs_headers (snd ?leave)) ''set-cookie''))) =
      rq_cookie ?rq (cookie_name demo_sessions)" "request_cookie_occurrences ?rq (cookie_name demo_sessions) \<le> 1"
    by code_simp+
  obtain v where v: "user_agent_cookie (last (hm_get_all (rs_headers (snd ?leave)) ''set-cookie'')) =
      Some (cookie_name demo_sessions, v)"
    and returns: "\<And>rq2 nanos. rq_cookie rq2 (cookie_name demo_sessions) = Some v \<and>
        request_cookie_occurrences rq2 (cookie_name demo_sessions) \<le> 1 \<Longrightarrow>
      \<exists>rq'. snd (session_enter demo_http browser_env nibbles_decode demo_sessions
        (session_run browser_env demo_sessions (fst ?leave) [CallSet ''b'' ''k'' ''w'' 15 1 1]) rq2 nanos 50) = Inr (rq', ''a'')"
    using session_survives_browser [OF demo_http_laws browser_facts c(1-4) surjective_pairing c(5-7)] by blast
  have "rq_cookie ?rq (cookie_name demo_sessions) = Some v" using ua(1) v by simp
  then show ?thesis using returns [of ?rq 7] ua(2) by blast
qed

section \<open>The id a handler is given\<close>

lemma set_header_all:
  assumes "http_laws http" "rq_set_header http rq name v = Inr rq'"
  shows "headers_all rq' name = [v]"
proof -
  obtain n where n: "header_name http name = Some n"
    and hp: "header_pairs rq' = filter (\<lambda>(k, _). \<not> eq_ignore_ascii_case k n) (header_pairs rq) @ [(n, v)]"
    using assms(2) by (auto simp: rq_set_header_def parse_header_name_def Let_def rebuild_cookie_view_def
        split: option.splits sum.splits if_splits)
  have "eq_ignore_ascii_case k n \<longleftrightarrow> eq_ignore_ascii_case k name" for k
    using http_lawsD(1) [OF assms(1) n] by (simp add: eq_ignore_ascii_case_def)
  moreover have "filter (\<lambda>(k, _). eq_ignore_ascii_case k name) (filter (\<lambda>(k, _). \<not> eq_ignore_ascii_case k name) ps) = []"
    for ps :: "(string \<times> string) list" by (induction ps) auto
  ultimately show ?thesis using http_lawsD(1) [OF assms(1) n] by (simp add: headers_all_def hp eq_ignore_ascii_case_def)
qed

text \<open>
  Claim C12: a handler only ever sees a session id the server vouches for. Behind the middleware
  the request's session id is the one its cookie carries when the cookie verifies under the secret and
  that session is live, and a newly generated one in every other case; the field \<open>x-session-id\<close> is that id
  alone, whatever the client sent under this name.
\<close>

theorem session_id_trusted:
  assumes laws: "http_laws http" and inv: "session_inv env ss st"
    and enter: "session_enter http env dec ss st rq nanos now = (st', Inr (rq', sid))"
  shows "rq_session_id rq' = Some sid \<and> headers_all rq' SESSION_ID_HEADER = [sid] \<and>
    sid = (case Option.bind (rq_cookie rq (cookie_name ss)) (verify_value (env_hmac env) dec (secret ss)) of
             None \<Rightarrow> generate_id env ss nanos (snd st)
           | Some presented \<Rightarrow>
               if live now (sessions (env_hash env) (fst st)) presented \<noteq> None then presented
               else generate_id env ss nanos (snd st))"
proof -
  have ok: "store_ok (env_hash env) (fst st)" using inv by (simp add: session_inv_def)
  obtain st1 existing where p: "presented_session env dec ss st rq now = (st1, existing)" by fastforce
  obtain rq1 where set: "rq_set_header http rq SESSION_ID_HEADER sid = Inr rq1"
    and rq': "rq' = rq1\<lparr>rq_session_id := Some sid\<rparr>"
    and sid: "sid = (case existing of Some sid \<Rightarrow> sid | None \<Rightarrow> generate_id env ss nanos (snd st1))"
  proof -
    let ?sid = "case existing of Some sid \<Rightarrow> sid | None \<Rightarrow> generate_id env ss nanos (snd st1)"
    have "\<not> 1 < request_cookie_occurrences rq (cookie_name ss)"
      using enter by (auto simp: session_enter_def)
    with enter p have "snd (case rq_set_header http rq SESSION_ID_HEADER ?sid of
        Inl e \<Rightarrow> (st', Inl (ensure_private_cache_control http (from_error http e)))
      | Inr rq1 \<Rightarrow> (st', Inr (rq1\<lparr>rq_session_id := Some ?sid\<rparr>, ?sid))) = Inr (rq', sid)"
      by (cases existing; cases "rq_set_header http rq SESSION_ID_HEADER ?sid") (auto simp: session_enter_def)
    then show thesis by (cases "rq_set_header http rq SESSION_ID_HEADER ?sid") (auto intro: that)
  qed
  have "headers_all rq' SESSION_ID_HEADER = [sid]"
    using set_header_all [OF laws set] by (simp add: rq' headers_all_def)
  moreover have "snd st1 = snd st \<and> existing =
      (case Option.bind (rq_cookie rq (cookie_name ss)) (verify_value (env_hmac env) dec (secret ss)) of
         None \<Rightarrow> None
       | Some presented \<Rightarrow>
           if live now (sessions (env_hash env) (fst st)) presented \<noteq> None then Some presented else None)"
    using p by (auto simp: presented_session_def sessions_resume_def dest: resume_ok(3) [OF ok]
        split: option.splits prod.splits)
  ultimately show ?thesis using sid rq' by (auto split: option.splits)
qed

theorem session_id_trusted_witness:
  "let rq = builder_build (builder_header ''x-session-id'' ''admin'' (builder_header ''Cookie'' ''sid=a.forged'' RequestBuilder_new)) in
   case snd (session_enter demo_http browser_env nibbles_decode demo_sessions browser_state rq 7 9) of
     Inr (rq', sid) \<Rightarrow> sid = generate_id browser_env demo_sessions 7 1 \<and> headers_all rq' SESSION_ID_HEADER = [sid]
   | Inl _ \<Rightarrow> False"
proof -
  let ?rq = "builder_build (builder_header ''x-session-id'' ''admin'' (builder_header ''Cookie'' ''sid=a.forged'' RequestBuilder_new))"
  let ?e = "session_enter demo_http browser_env nibbles_decode demo_sessions browser_state ?rq 7 9"
  have "case snd ?e of Inr _ \<Rightarrow> True | Inl _ \<Rightarrow> False"
    and none: "Option.bind (rq_cookie ?rq (cookie_name demo_sessions))
      (verify_value (env_hmac browser_env) nibbles_decode (secret demo_sessions)) = None" "snd browser_state = 1"
    by code_simp+
  then obtain rq' sid where e: "snd ?e = Inr (rq', sid)" by (auto split: sum.splits)
  then have "?e = (fst ?e, Inr (rq', sid))" by (metis prod.collapse)
  from session_id_trusted [OF demo_http_laws browser_facts(3) this] none e show ?thesis by (simp add: Let_def)
qed

section \<open>Regenerating twice\<close>

lemma regenerate_moved:
  assumes inv: "session_inv env ss st"
    and r: "regenerate env ss st sid nanos (now, now + d1, now + d1 + d2) = (st', Inr new_id)"
    and live: "live now (sessions (env_hash env) (fst st)) sid = Some e"
  shows "new_id = generate_id env ss nanos (snd st)"
    "sessions (env_hash env) (fst st') = (sessions (env_hash env) (fst st))
       (sid := None, new_id \<mapsto> \<lparr>se_data = se_data e, se_expires_at = expiry (env_imax env) now (idle_timeout ss)\<rparr>)"
    "rotations (fst st') =
       (let kept = filter (\<lambda>(_, _, at). now + d1 + d2 - at < ROTATION_RECORD_TTL) (rotations (fst st))
        in if length kept < max_sessions ss then AList.update sid (new_id, now + d1 + d2) kept else kept)"
proof -
  from inv r show id: "new_id = generate_id env ss nanos (snd st)"
    and "sessions (env_hash env) (fst st') = (sessions (env_hash env) (fst st))
       (sid := None, new_id \<mapsto> \<lparr>se_data = se_data e, se_expires_at = expiry (env_imax env) now (idle_timeout ss)\<rparr>)"
    by (cases rule: regenerate_cases; use live in auto)+
  have ok: "store_ok (env_hash env) (fst st)" using inv by (simp add: session_inv_def)
  obtain s1 rotated where ro: "rotate (env_hash env) (env_imax env) (fst st) sid new_id now (idle_timeout ss) = (s1, rotated)"
    by fastforce
  have rotated using rotate_ok(2) [OF ok ro] live by simp
  then show "rotations (fst st') =
       (let kept = filter (\<lambda>(_, _, at). now + d1 + d2 - at < ROTATION_RECORD_TTL) (rotations (fst st))
        in if length kept < max_sessions ss then AList.update sid (new_id, now + d1 + d2) kept else kept)"
    using r ro rotate_ok(6) [OF ok ro] id by (auto simp: regenerate_def Let_def record_rotation_def)
qed

lemma kept_rotation:
  assumes "map_of rs sid = Some (new_id, at)" "now - at < ROTATION_RECORD_TTL" "distinct (map fst rs)"
  shows "map_of (filter (\<lambda>(_, _, at). now - at < ROTATION_RECORD_TTL) rs) sid = Some (new_id, at)"
  using assms by (induction rs) (auto split: if_splits simp: map_of_eq_None_iff image_iff)

text \<open>
  Claim C13: a session that a handler regenerates twice in one request is lost. The middleware follows one
  recorded rotation only, finds the intermediate id dead, and answers with the cookie that clears the
  session, although the data is live under the id the second call returned. (The documentation of
  \<open>regenerate\<close> promises that the middleware sends the new cookie.)
\<close>

theorem double_regenerate_loses_session:
  assumes laws: "http_laws http" and name: "is_valid_cookie_name (cookie_name ss)" and inv: "session_inv env ss st"
    and live: "live t1 (sessions (env_hash env) (fst st)) sid = Some e"
    and r1: "regenerate env ss st sid nanos1 (t1, t1 + d1, t1 + d1 + d2) = (st1, Inr id1)"
    and r2: "regenerate env ss st1 id1 nanos2 (t2, t2 + d3, t2 + d3 + d4) = (st2, Inr id2)"
    and ids: "id1 \<noteq> sid" "id2 \<noteq> id1" "id2 \<noteq> sid"
    and room: "length (rotations (fst st)) < max_sessions ss" "distinct (map fst (rotations (fst st)))"
    and soon: "t2 + d3 + d4 < t1 + d1 + d2 + ROTATION_RECORD_TTL" "now < t2 + idle_timeout ss"
      "t2 < t1 + idle_timeout ss" "t1 + idle_timeout ss \<le> env_imax env" "t2 + idle_timeout ss \<le> env_imax env"
    and cookie: "rq_cookie rq (cookie_name ss) \<noteq> None"
    and unset: "\<not> response_sets_root_host_cookie http (ensure_private_cache_control http res) (cookie_name ss) (rq_path rq)"
    and leave: "session_leave http env ss st2 res rq sid now = (st3, res')"
  shows "last (hm_get_all (rs_headers res') ''set-cookie'') =
      to_header_value (cleared_cookie (session_cookie env ss (secure_transport rq) id2 True)) \<and>
    map_option se_data (live now (sessions (env_hash env) (fst st3)) id2) = Some (se_data e)"
proof -
  let ?h = "env_hash env" and ?i = "env_imax env"
  note m1 = regenerate_moved [OF inv r1 live]
  have inv1: "session_inv env ss st1" using regenerate_inv [OF inv, of sid nanos1 t1 d1 d2] r1 by simp
  have "t2 < expiry ?i t1 (idle_timeout ss)" using soon by (simp add: expiry_def instant_checked_add_def)
  then have live1: "live t2 (sessions ?h (fst st1)) id1 =
      Some \<lparr>se_data = se_data e, se_expires_at = expiry ?i t1 (idle_timeout ss)\<rparr>"
    using m1(2) by (simp add: live_def)
  note m2 = regenerate_moved [OF inv1 r2 live1]
  have inv2: "session_inv env ss st2" using regenerate_inv [OF inv1, of id1 nanos2 t2 d3 d4] r2 by simp
  let ?f = "filter (\<lambda>(_, _, at). t1 + d1 + d2 - at < ROTATION_RECORD_TTL) (rotations (fst st))"
  have "length ?f < max_sessions ss" using room(1) by (rule le_less_trans [OF length_filter_le])
  then have rs1: "rotations (fst st1) = AList.update sid (id1, t1 + d1 + d2) ?f" using m1(3) by (simp add: Let_def)
  have d: "distinct (map fst (rotations (fst st1)))"
    using room(2) by (simp add: rs1 distinct_update distinct_map_filter)
  have "map_of (rotations (fst st1)) sid = Some (id1, t1 + d1 + d2)" by (simp add: rs1 update_conv')
  moreover have "t2 + d3 + d4 - (t1 + d1 + d2) < ROTATION_RECORD_TTL"
    using soon(1) by (auto simp: ROTATION_RECORD_TTL_def)
  ultimately have "map_of (rotations (fst st2)) sid = Some (id1, t1 + d1 + d2)"
    using ids(1) kept_rotation [OF _ _ d] by (simp add: m2(3) Let_def update_conv')
  then have rot: "snd (sessions_take_rotation st2 sid) = Some id1"
    by (simp add: sessions_take_rotation_def take_rotation_def)
  have dead: "live now (sessions ?h (fst st2)) id1 = None" using m2(2) ids(2) by (simp add: live_def)
  note l = leave_dead [OF inv2 rot _ dead unset leave, simplified]
  have live2: "live now (sessions ?h (fst st2)) id2 =
      Some \<lparr>se_data = se_data e, se_expires_at = expiry ?i t2 (idle_timeout ss)\<rparr>"
    using m2(2) soon by (simp add: live_def expiry_def instant_checked_add_def)
  let ?c = "session_cookie env ss (secure_transport rq) id1 False"
  have c: "?c = cleared_cookie (session_cookie env ss (secure_transport rq) id2 True)"
    by (rule session_cookie_parts(3) [OF name])
  have "list_all is_cookie_octet (ck_value ?c)" by (simp add: c cleared_cookie_def)
  from set_cookie_appends [OF laws visible_session_cookie [OF name this]] l(2) cookie c
  have "last (hm_get_all (rs_headers res') ''set-cookie'') =
      to_header_value (cleared_cookie (session_cookie env ss (secure_transport rq) id2 True))" by simp
  moreover have "map_option se_data (live now (sessions ?h (fst st3)) id2) = Some (se_data e)"
    using purged_live [OF l(1)] live2 by simp
  ultimately show ?thesis ..
qed

theorem double_regenerate_loses_session_witness:
  "let rq = builder_build (builder_header ''Cookie'' ''sid=a.x'' RequestBuilder_new);
       ss = demo_sessions\<lparr>max_sessions := 5\<rparr>;
       (st1, r1) = regenerate demo_env ss demo_state ''a'' 7 (9, 9 + 1, 9 + 1 + 1);
       (st2, r2) = regenerate demo_env ss st1 ''7-1'' 8 (12, 12 + 1, 12 + 1 + 1);
       res = snd (session_leave demo_http demo_env ss st2 (Response_send ''ok'') rq ''a'' 20)
   in r2 = Inr ''8-2'' \<and>
      last (hm_get_all (rs_headers res) ''set-cookie'') = ''sid=; Path=/; Max-Age=0; HttpOnly; SameSite=Lax''"
proof -
  let ?ss = "demo_sessions\<lparr>max_sessions := 5\<rparr>"
  let ?rq = "builder_build (builder_header ''Cookie'' ''sid=a.x'' RequestBuilder_new)"
  let ?r1 = "regenerate demo_env ?ss demo_state ''a'' 7 (9, 9 + 1, 9 + 1 + 1)"
  let ?r2 = "regenerate demo_env ?ss (fst ?r1) ''7-1'' 8 (12, 12 + 1, 12 + 1 + 1)"
  have inv: "session_inv demo_env ?ss demo_state"
    using demo_state_inv by (auto simp: session_inv_def demo_sessions_def u64_max_def all_data_def data_ok_def)
  have ids: "snd ?r1 = Inr ''7-1''" "snd ?r2 = Inr ''8-2''" by code_simp+
  have r1: "?r1 = (fst ?r1, Inr ''7-1'')" and r2: "?r2 = (fst ?r2, Inr ''8-2'')" using ids by (metis prod.collapse)+
  have c: "is_valid_cookie_name (cookie_name ?ss)" "length (rotations (fst demo_state)) < max_sessions ?ss"
    "distinct (map fst (rotations (fst demo_state)))" "12 + 1 + 1 < 9 + 1 + 1 + ROTATION_RECORD_TTL"
    "20 < 12 + idle_timeout ?ss" "12 < 9 + idle_timeout ?ss" "9 + idle_timeout ?ss \<le> env_imax demo_env"
    "12 + idle_timeout ?ss \<le> env_imax demo_env" "rq_cookie ?rq (cookie_name ?ss) \<noteq> None"
    "\<not> response_sets_root_host_cookie demo_http (ensure_private_cache_control demo_http (Response_send ''ok''))
       (cookie_name ?ss) (rq_path ?rq)"
    by code_simp+
  have ne: "''7-1'' \<noteq> ''a''" "''8-2'' \<noteq> ''7-1''" "''8-2'' \<noteq> ''a''" by simp_all
  have h: "to_header_value (cleared_cookie (session_cookie demo_env ?ss (secure_transport ?rq) ''8-2'' True)) =
      ''sid=; Path=/; Max-Age=0; HttpOnly; SameSite=Lax''" by code_simp
  from double_regenerate_loses_session [OF demo_http_laws c(1) inv demo_state_live r1 r2 ne c(2-10) surjective_pairing] ids(2) h
  show ?thesis by (simp add: split_def)
qed

end
