(* ===== verification/Ws_Handshake.thy ===== *)
theory Ws_Handshake
  imports Http_Request Http_Response
begin

text \<open>
  The WebSocket handshake (\<open>src/app/websocket.rs\<close>): which requests ask for an upgrade, the
  negotiation of a subprotocol, the validation of a handshake against a resolved configuration
  and the response that accepts it. \<open>b64\<close> and \<open>b64_encode\<close> are the standard engine of the crate
  \<open>base64\<close>, \<open>sha1\<close> the digest of the crate \<open>sha1\<close>.
\<close>

section \<open>Model\<close>

record HandshakeRejection =
  hr_status :: nat
  hr_message :: string
  hr_headers :: "(string \<times> string) list"

definition rejection :: "nat \<Rightarrow> string \<Rightarrow> HandshakeRejection" where
  "rejection status message = \<lparr>hr_status = status, hr_message = message, hr_headers = []\<rparr>"

definition rejection_with_header :: "string \<Rightarrow> string \<Rightarrow> HandshakeRejection \<Rightarrow> HandshakeRejection" where
  "rejection_with_header name v r = r\<lparr>hr_headers := hr_headers r @ [(name, v)]\<rparr>"

definition rejection_into_http_error :: "http_crate \<Rightarrow> HandshakeRejection \<Rightarrow> HttpError" where
  "rejection_into_http_error http r =
     (let e = (if \<not> status_ok http (hr_status r)
               then with_source (OtherError ''InvalidStatusCode'') (internal_server_error ''Error interno'')
               else if hr_status r = 400 then bad_request (hr_message r)
               else if hr_status r = 403 then forbidden (hr_message r)
               else if hr_status r = 426 then upgrade_required (hr_message r)
               else HttpError_new (hr_status r) ''websocket_handshake_rejected'' (hr_message r))
      in foldl (\<lambda>e (name, v). err_header name v e) e (hr_headers r))"

definition header_value_contains_token :: "string \<Rightarrow> string \<Rightarrow> bool" where
  "header_value_contains_token v expected \<longleftrightarrow>
     list_ex (\<lambda>token. eq_ignore_ascii_case (trim token) expected) (split_char (CHR '','') v)"

definition is_valid_websocket_key :: "(string \<Rightarrow> string option) \<Rightarrow> string \<Rightarrow> bool" where
  "is_valid_websocket_key b64 v \<longleftrightarrow> (case b64 v of None \<Rightarrow> False | Some decoded \<Rightarrow> length decoded = 16)"

definition request_header_contains_token :: "Request \<Rightarrow> string \<Rightarrow> string \<Rightarrow> bool" where
  "request_header_contains_token rq name expected \<longleftrightarrow>
     list_ex (\<lambda>v. header_value_contains_token v expected) (headers_all rq name) \<or>
     (case rq_header rq name of None \<Rightarrow> False | Some v \<Rightarrow> header_value_contains_token v expected)"

definition ws_singleton_header :: "Request \<Rightarrow> string \<Rightarrow> string option" where
  "ws_singleton_header rq name = (case headers_all rq name of [v] \<Rightarrow> Some v | _ \<Rightarrow> None)"

text \<open>The loop over the offered subprotocols: the selection so far, and the tokens seen.\<close>

fun negotiate_loop ::
  "string list \<Rightarrow> string list \<Rightarrow> string option \<Rightarrow> string list \<Rightarrow>
     HandshakeRejection + string option \<times> string list" where
  "negotiate_loop protocols [] selected seen = Inr (selected, seen)"
| "negotiate_loop protocols (raw # rest) selected seen =
     (let candidate = trim raw in
      if candidate = [] then negotiate_loop protocols rest selected seen
      else if \<not> is_valid_protocol_token candidate
      then Inl (rejection 400 ''Sec-WebSocket-Protocol contiene un token no valido'')
      else if candidate \<in> set seen
      then Inl (rejection 400 ''Sec-WebSocket-Protocol contiene un token duplicado'')
      else negotiate_loop protocols rest
             (if selected = None \<and> candidate \<in> set protocols then Some candidate else selected)
             (candidate # seen))"

definition negotiate_protocol :: "Request \<Rightarrow> string list \<Rightarrow> HandshakeRejection + string option" where
  "negotiate_protocol rq protocols =
     (let all = headers_all rq ''sec-websocket-protocol'';
          vals = (if all = [] then (case rq_header rq ''sec-websocket-protocol'' of None \<Rightarrow> [] | Some v \<Rightarrow> [v]) else all)
      in case negotiate_loop protocols (concat (map (split_char (CHR '','')) vals)) None [] of
           Inl e \<Rightarrow> Inl e
         | Inr (selected, seen) \<Rightarrow>
             if vals \<noteq> [] \<and> seen = []
             then Inl (rejection 400 ''Sec-WebSocket-Protocol debe contener al menos un token'')
             else Inr selected)"

definition validate_handshake ::
  "uri_crate \<Rightarrow> (string \<Rightarrow> string option) \<Rightarrow> Request \<Rightarrow> ResolvedWebSocketConfig \<Rightarrow>
     HandshakeRejection + string option" where
  "validate_handshake uris b64 rq config =
     (if rq_version rq \<noteq> HTTP_11 then Inl (rejection 400 ''La actualizacion WebSocket requiere HTTP/1.1'')
      else (case ws_singleton_header rq ''host'' of
        None \<Rightarrow> Inl (rejection 400 ''La cabecera Host debe aparecer exactamente una vez y no estar vacia'')
      | Some raw_host \<Rightarrow>
      if trim raw_host = []
      then Inl (rejection 400 ''La cabecera Host debe aparecer exactamente una vez y no estar vacia'')
      else if \<not> eq_ignore_ascii_case (rq_method rq) ''GET''
      then Inl (rejection 400 ''La actualizacion WebSocket requiere el metodo GET'')
      else if \<not> request_header_contains_token rq ''upgrade'' ''websocket''
      then Inl (rejection 400 ''La cabecera Upgrade debe incluir websocket'')
      else if \<not> request_header_contains_token rq ''connection'' ''upgrade''
      then Inl (rejection 400 ''La cabecera Connection debe incluir Upgrade'')
      else (case ws_singleton_header rq ''sec-websocket-version'' of
        None \<Rightarrow> Inl (rejection 400 ''Sec-WebSocket-Version debe aparecer exactamente una vez'')
      | Some version \<Rightarrow>
      if trim version \<noteq> ''13''
      then Inl (rejection_with_header ''sec-websocket-version'' ''13''
                  (rejection 426 ''La version WebSocket debe ser 13''))
      else (case ws_singleton_header rq ''sec-websocket-key'' of
        None \<Rightarrow> Inl (rejection 400 ''Sec-WebSocket-Key debe aparecer exactamente una vez'')
      | Some key \<Rightarrow>
      if \<not> is_valid_websocket_key b64 key
      then Inl (rejection 400 ''Sec-WebSocket-Key debe codificar exactamente 16 bytes'')
      else
        let origins = headers_all rq ''origin'' in
        if length origins > 1
        then Inl (rejection 400 ''La cabecera Origin no puede aparecer mas de una vez'')
        else if \<not> allows_for_transport uris (wr_origin_policy config)
                    (case origins of [] \<Rightarrow> None | o' # _ \<Rightarrow> Some o') (trim raw_host) (secure_transport rq)
        then Inl (rejection 403 ''El origen WebSocket no esta permitido'')
        else
          (case negotiate_protocol rq (wr_protocols config) of
             Inl e \<Rightarrow> Inl e
           | Inr protocol \<Rightarrow>
               if wr_require_protocol config \<and> protocol = None
               then Inl (rejection 400 ''Se requiere un subprotocolo WebSocket compatible'')
               else Inr protocol)))))"

definition is_websocket_upgrade :: "(string \<Rightarrow> string option) \<Rightarrow> Request \<Rightarrow> bool" where
  "is_websocket_upgrade b64 rq =
     (case ws_singleton_header rq ''host'' of
        None \<Rightarrow> False
      | Some host \<Rightarrow>
          (case ws_singleton_header rq ''sec-websocket-key'' of
             None \<Rightarrow> False
           | Some key \<Rightarrow>
               (case ws_singleton_header rq ''sec-websocket-version'' of
                  None \<Rightarrow> False
                | Some version \<Rightarrow>
                    rq_version rq = HTTP_11 \<and> eq_ignore_ascii_case (rq_method rq) ''GET'' \<and> trim host \<noteq> [] \<and>
                    request_header_contains_token rq ''upgrade'' ''websocket'' \<and>
                    request_header_contains_token rq ''connection'' ''upgrade'' \<and>
                    is_valid_websocket_key b64 key \<and> trim version = ''13'')))"

definition websocket_upgrade_response ::
  "http_crate \<Rightarrow> (string \<Rightarrow> string) \<Rightarrow> (string \<Rightarrow> string) \<Rightarrow> Request \<Rightarrow> HttpError + Response" where
  "websocket_upgrade_response http sha1 b64_encode rq =
     (case ws_singleton_header rq ''sec-websocket-key'' of
        None \<Rightarrow> Inl (bad_request ''Falta Sec-WebSocket-Key'')
      | Some key \<Rightarrow>
          Inr (rs_header http ''sec-websocket-accept'' (websocket_accept sha1 b64_encode key)
                (rs_header http ''connection'' ''Upgrade''
                  (rs_header http ''upgrade'' ''websocket'' (set_status http 101 (Response_send []))))))"

end
