(* ===== verification/App.thy ===== *)
theory App
  imports Router Ws_Handshake
begin

text \<open>
  The dispatch of a request (\<open>src/app/server.rs\<close>, \<open>src/app/handler.rs\<close>): the middleware onion with
  its guards against panics, the rendering of errors, the answers to requests that no route
  takes, the deadline, and what is done to every response before it is sent.

  A future is a function of the state \<open>'s\<close> that handlers and middleware share: it may never
  complete (\<open>None\<close>), and completes with a value or a panic. Handlers, middleware and the error
  renderer are arbitrary values of these types. \<open>timeout_at\<close> of the crate \<open>tokio\<close> and the clock
  are arguments; \<open>timeout_laws\<close> states what is documented of it.
\<close>

section \<open>Types\<close>

type_synonym 's future = "'s \<Rightarrow> ('s \<times> Response outcome) option"
type_synonym 's handler = "Request \<Rightarrow> 's future"
type_synonym 's middleware = "Request \<Rightarrow> 's handler \<Rightarrow> 's future"
type_synonym 's error_handler = "HttpError \<Rightarrow> 's \<Rightarrow> 's \<times> Response outcome"
type_synonym 's app_router = "('s handler, 's middleware, WebSocketConfig) Router"
type_synonym 's app_match = "('s handler, 's middleware, WebSocketConfig) MatchedRoute"

record 's app_env =
  ev_http :: http_crate
  ev_uris :: uri_crate
  ev_pd :: "string \<Rightarrow> string"
  ev_b64 :: "string \<Rightarrow> string option"
  ev_b64_encode :: "string \<Rightarrow> string"
  ev_sha1 :: "string \<Rightarrow> string"
  ev_timeout_at :: "nat \<Rightarrow> 's future \<Rightarrow> 's \<Rightarrow> 's \<times> Response outcome option"
  ev_now :: "'s \<Rightarrow> nat"
  ev_imax :: nat

text \<open>The timer always fires; a future that completes in time is run as it is.\<close>

definition timeout_laws :: "(nat \<Rightarrow> 's future \<Rightarrow> 's \<Rightarrow> 's \<times> Response outcome option) \<Rightarrow> bool" where
  "timeout_laws timeout_at \<longleftrightarrow>
     (\<forall>deadline fut s s' out. timeout_at deadline fut s = (s', Some out) \<longrightarrow> fut s = Some (s', out))"

datatype TrailingSlash = Ignore | Strict | RedirectSlash

record ServerConfig =
  cfg_max_body_size :: nat
  cfg_request_timeout :: "nat option"
  cfg_header_read_timeout :: "nat option"
  cfg_http2_keep_alive_interval :: "nat option"
  cfg_http2_keep_alive_timeout :: nat
  cfg_tls_handshake_timeout :: nat
  cfg_graceful_shutdown_timeout :: nat
  cfg_max_connections :: "nat option"
  cfg_max_request_target_bytes :: nat
  cfg_max_query_bytes :: nat
  cfg_max_request_header_count :: nat
  cfg_max_request_header_bytes :: nat
  cfg_trailing_slash :: TrailingSlash

definition ServerConfig_default :: ServerConfig where
  "ServerConfig_default =
     \<lparr>cfg_max_body_size = DEFAULT_BODY_LIMIT, cfg_request_timeout = Some (secs 30),
      cfg_header_read_timeout = Some (secs 10), cfg_http2_keep_alive_interval = Some (secs 30),
      cfg_http2_keep_alive_timeout = secs 10, cfg_tls_handshake_timeout = secs 10,
      cfg_graceful_shutdown_timeout = secs 10, cfg_max_connections = Some 10000,
      cfg_max_request_target_bytes = 8 * 1024, cfg_max_query_bytes = 8 * 1024,
      cfg_max_request_header_count = 100, cfg_max_request_header_bytes = 32 * 1024,
      cfg_trailing_slash = Ignore\<rparr>"

record 's App =
  app_router :: "'s app_router"
  app_middlewares :: "'s middleware list"
  app_error_handler :: "'s error_handler option"
  app_config :: ServerConfig
  app_websocket_defaults :: WebSocketConfig

definition App_new :: "'s App" where
  "App_new =
     \<lparr>app_router = Router_new, app_middlewares = [], app_error_handler = None,
      app_config = ServerConfig_default, app_websocket_defaults = WebSocketConfig_default\<rparr>"

section \<open>Configuration\<close>

text \<open>The setters that check their argument panic when it is refused.\<close>

definition app_max_body_size :: "nat \<Rightarrow> 's App \<Rightarrow> 's App" where
  "app_max_body_size n app = app\<lparr>app_config := (app_config app)\<lparr>cfg_max_body_size := n\<rparr>\<rparr>"

definition app_request_timeout :: "nat \<Rightarrow> 's App \<Rightarrow> 's App outcome" where
  "app_request_timeout t app =
     (if t = 0 then Panic else Val (app\<lparr>app_config := (app_config app)\<lparr>cfg_request_timeout := Some t\<rparr>\<rparr>))"

definition disable_request_timeout :: "'s App \<Rightarrow> 's App" where
  "disable_request_timeout app = app\<lparr>app_config := (app_config app)\<lparr>cfg_request_timeout := None\<rparr>\<rparr>"

definition app_header_read_timeout :: "nat \<Rightarrow> nat \<Rightarrow> nat \<Rightarrow> 's App \<Rightarrow> 's App outcome" where
  "app_header_read_timeout imax now t app =
     (if t = 0 \<or> instant_checked_add imax now t = None then Panic
      else Val (app\<lparr>app_config := (app_config app)\<lparr>cfg_header_read_timeout := Some t\<rparr>\<rparr>))"

definition app_http2_keep_alive_interval :: "nat \<Rightarrow> nat \<Rightarrow> nat \<Rightarrow> 's App \<Rightarrow> 's App outcome" where
  "app_http2_keep_alive_interval imax now t app =
     (if t = 0 \<or> instant_checked_add imax now t = None then Panic
      else Val (app\<lparr>app_config := (app_config app)\<lparr>cfg_http2_keep_alive_interval := Some t\<rparr>\<rparr>))"

definition app_http2_keep_alive_timeout :: "nat \<Rightarrow> nat \<Rightarrow> nat \<Rightarrow> 's App \<Rightarrow> 's App outcome" where
  "app_http2_keep_alive_timeout imax now t app =
     (if t = 0 \<or> instant_checked_add imax now t = None then Panic
      else Val (app\<lparr>app_config := (app_config app)\<lparr>cfg_http2_keep_alive_timeout := t\<rparr>\<rparr>))"

definition app_max_request_header_count :: "nat \<Rightarrow> 's App \<Rightarrow> 's App" where
  "app_max_request_header_count n app =
     app\<lparr>app_config := (app_config app)\<lparr>cfg_max_request_header_count := min n 1024\<rparr>\<rparr>"

definition disable_header_read_timeout :: "'s App \<Rightarrow> 's App" where
  "disable_header_read_timeout app = app\<lparr>app_config := (app_config app)\<lparr>cfg_header_read_timeout := None\<rparr>\<rparr>"

definition disable_http2_keep_alive :: "'s App \<Rightarrow> 's App" where
  "disable_http2_keep_alive app = app\<lparr>app_config := (app_config app)\<lparr>cfg_http2_keep_alive_interval := None\<rparr>\<rparr>"

definition app_tls_handshake_timeout :: "nat \<Rightarrow> 's App \<Rightarrow> 's App outcome" where
  "app_tls_handshake_timeout t app =
     (if t = 0 then Panic else Val (app\<lparr>app_config := (app_config app)\<lparr>cfg_tls_handshake_timeout := t\<rparr>\<rparr>))"

definition app_graceful_shutdown_timeout :: "nat \<Rightarrow> 's App \<Rightarrow> 's App" where
  "app_graceful_shutdown_timeout t app = app\<lparr>app_config := (app_config app)\<lparr>cfg_graceful_shutdown_timeout := t\<rparr>\<rparr>"

definition app_max_connections :: "nat \<Rightarrow> nat \<Rightarrow> 's App \<Rightarrow> 's App" where
  "app_max_connections max_permits n app =
     app\<lparr>app_config := (app_config app)\<lparr>cfg_max_connections := Some (min n max_permits)\<rparr>\<rparr>"

definition disable_connection_limit :: "'s App \<Rightarrow> 's App" where
  "disable_connection_limit app = app\<lparr>app_config := (app_config app)\<lparr>cfg_max_connections := None\<rparr>\<rparr>"

definition app_max_request_target_size :: "nat \<Rightarrow> 's App \<Rightarrow> 's App" where
  "app_max_request_target_size n app = app\<lparr>app_config := (app_config app)\<lparr>cfg_max_request_target_bytes := n\<rparr>\<rparr>"

definition app_max_query_string_size :: "nat \<Rightarrow> 's App \<Rightarrow> 's App" where
  "app_max_query_string_size n app = app\<lparr>app_config := (app_config app)\<lparr>cfg_max_query_bytes := n\<rparr>\<rparr>"

definition app_max_request_header_bytes :: "nat \<Rightarrow> 's App \<Rightarrow> 's App" where
  "app_max_request_header_bytes n app = app\<lparr>app_config := (app_config app)\<lparr>cfg_max_request_header_bytes := n\<rparr>\<rparr>"

definition app_trailing_slash :: "TrailingSlash \<Rightarrow> 's App \<Rightarrow> 's App" where
  "app_trailing_slash policy app = app\<lparr>app_config := (app_config app)\<lparr>cfg_trailing_slash := policy\<rparr>\<rparr>"

definition set_websocket_defaults :: "WebSocketConfig \<Rightarrow> 's App \<Rightarrow> 's App" where
  "set_websocket_defaults c app = app\<lparr>app_websocket_defaults := c\<rparr>"

definition set_error_handler :: "'s error_handler \<Rightarrow> 's App \<Rightarrow> 's App" where
  "set_error_handler h app = app\<lparr>app_error_handler := Some h\<rparr>"

definition app_layer :: "'s middleware \<Rightarrow> 's App \<Rightarrow> 's App" where
  "app_layer mw app = app\<lparr>app_middlewares := app_middlewares app @ [mw]\<rparr>"

definition usize_saturating_add :: "nat \<Rightarrow> nat \<Rightarrow> nat" where
  "usize_saturating_add a b = min (a + b) u64_max"

definition usize_saturating_mul :: "nat \<Rightarrow> nat \<Rightarrow> nat" where
  "usize_saturating_mul a b = min (a * b) u64_max"

definition max_http1_head_bytes :: "ServerConfig \<Rightarrow> nat" where
  "max_http1_head_bytes c =
     max (usize_saturating_add
            (usize_saturating_add
               (usize_saturating_add (cfg_max_request_target_bytes c) (cfg_max_request_header_bytes c))
               (usize_saturating_mul (cfg_max_request_header_count c) 4))
            1024)
         (8 * 1024)"

section \<open>Errors\<close>

definition internal_server_error_response :: "http_crate \<Rightarrow> Response" where
  "internal_server_error_response http = from_error http (internal_server_error ''Internal Server Error'')"

definition panic_response :: "http_crate \<Rightarrow> Response" where
  "panic_response http = internal_server_error_response http"

definition request_timeout_error :: HttpError where
  "request_timeout_error = request_timeout ''Request Timeout''"

definition hm_append_all :: "HeaderMap \<Rightarrow> HeaderMap \<Rightarrow> HeaderMap" where
  "hm_append_all h new = foldl (\<lambda>h (n, v). hm_append h n v) h new"

definition render_http_error ::
  "http_crate \<Rightarrow> HttpError \<Rightarrow> 's error_handler option \<Rightarrow> 's \<Rightarrow> 's \<times> Response" where
  "render_http_error http e eh s =
     (case eh of
        None \<Rightarrow> (s, from_error http e)
      | Some handler \<Rightarrow>
          (case handler e s of
             (s', Panic) \<Rightarrow> (s', (internal_server_error_response http)\<lparr>rs_error := None\<rparr>)
           | (s', Val r) \<Rightarrow>
               (s', r\<lparr>rs_error := None,
                      rs_headers := hm_append_all (foldl hm_remove (rs_headers r) (hm_keys (err_headers e)))
                                      (err_headers e)\<rparr>)))"

definition representation_field :: "string \<Rightarrow> bool" where
  "representation_field n \<longleftrightarrow> n = ''content-type'' \<or> n = ''content-length''"

definition render_response_error ::
  "http_crate \<Rightarrow> Response \<Rightarrow> 's error_handler option \<Rightarrow> 's \<Rightarrow> 's \<times> Response" where
  "render_response_error http r eh s =
     (case (rs_error r, eh) of
        (Some e, Some handler) \<Rightarrow>
          (case render_http_error http e (Some handler) s of
             (s', formatted) \<Rightarrow>
               (s', formatted
                  \<lparr>rs_headers :=
                     hm_append_all
                       (foldl hm_remove (rs_headers formatted)
                          (filter (\<lambda>n. \<not> representation_field n) (hm_keys (rs_headers r))))
                       (filter (\<lambda>(n, _). \<not> representation_field n) (rs_headers r)),
                   rs_status := (if rs_status r \<noteq> err_status e then rs_status r else rs_status formatted)\<rparr>))
      | _ \<Rightarrow> (s, r\<lparr>rs_error := None\<rparr>))"

definition error_response :: "'s app_env \<Rightarrow> 's App \<Rightarrow> HttpError \<Rightarrow> 's \<Rightarrow> 's \<times> Response" where
  "error_response env app e s = render_http_error (ev_http env) e (app_error_handler app) s"

section \<open>The onion\<close>

definition guarded_next :: "http_crate \<Rightarrow> 's error_handler option \<Rightarrow> 's handler \<Rightarrow> 's handler" where
  "guarded_next http eh next_handler rq s =
     (case next_handler rq s of
        None \<Rightarrow> None
      | Some (s', out) \<Rightarrow>
          (case render_response_error http
                  (case out of Panic \<Rightarrow> panic_response http | Val r \<Rightarrow> r) eh s' of
             (s'', r) \<Rightarrow> Some (s'', Val r)))"

text \<open>The handler is cut off at the deadline, inside the onion.\<close>

definition until_deadline :: "'s app_env \<Rightarrow> nat option \<Rightarrow> 's handler \<Rightarrow> 's handler" where
  "until_deadline env deadline inner rq s =
     (case deadline of
        None \<Rightarrow> inner rq s
      | Some d \<Rightarrow>
          (case ev_timeout_at env d (inner rq) s of
             (s', Some out) \<Rightarrow> Some (s', out)
           | (s', None) \<Rightarrow> Some (s', Val (from_error (ev_http env) request_timeout_error))))"

definition wrap_middleware ::
  "http_crate \<Rightarrow> 's error_handler option \<Rightarrow> 's middleware \<Rightarrow> 's handler \<Rightarrow> 's handler" where
  "wrap_middleware http eh mw inner = guarded_next http eh (\<lambda>rq. mw rq inner)"

definition execute_chain ::
  "'s app_env \<Rightarrow> 's App \<Rightarrow> Request \<Rightarrow> 's handler \<Rightarrow> 's middleware list \<Rightarrow> nat option \<Rightarrow> 's future" where
  "execute_chain env app rq next_handler route_middlewares deadline =
     (let http = ev_http env; eh = app_error_handler app;
          core = guarded_next http eh (until_deadline env deadline next_handler);
          routed = foldr (wrap_middleware http eh) route_middlewares core;
          onion = foldr (wrap_middleware http eh) (app_middlewares app) routed
      in guarded_next http eh onion rq)"

section \<open>Requests that no route takes\<close>

definition not_found_handler :: "http_crate \<Rightarrow> 's handler" where
  "not_found_handler http rq s = Some (s, Val (from_error http (not_found ''Not Found'')))"

definition method_not_allowed_handler :: "http_crate \<Rightarrow> string \<Rightarrow> 's handler" where
  "method_not_allowed_handler http allow rq s =
     Some (s, if header_value_ok http allow
              then Val (from_error http (err_header ''allow'' allow (method_not_allowed ''Method Not Allowed'')))
              else Panic)"

definition options_handler :: "http_crate \<Rightarrow> string \<Rightarrow> 's handler" where
  "options_handler http allow rq s =
     Some (s, Val (rs_header http ''allow'' allow (set_status http 204 (Response_send []))))"

definition synthetic_match :: "'s handler \<Rightarrow> 's middleware list \<Rightarrow> 's app_match" where
  "synthetic_match h mws =
     \<lparr>mr_handler = h, mr_middlewares = mws, mr_params = Map.empty, mr_pattern = [], mr_kind = Http,
      mr_body_limit = None\<rparr>"

text \<open>A lookup and the router with its cache; \<open>?\<close> goes on with the value.\<close>

type_synonym ('s, 'a) lookup = "(RouteMatchErrorKind + 'a) outcome \<times> 's app_router"

definition and_then ::
  "('s, 'a) lookup \<Rightarrow> ('a \<Rightarrow> 's app_router \<Rightarrow> ('s, 'b) lookup) \<Rightarrow> ('s, 'b) lookup" where
  "and_then l f =
     (case l of
        (Panic, r) \<Rightarrow> (Panic, r)
      | (Val (Inl e), r) \<Rightarrow> (Val (Inl e), r)
      | (Val (Inr x), r) \<Rightarrow> f x r)"

definition resolve_miss ::
  "'s app_env \<Rightarrow> 's app_router \<Rightarrow> string \<Rightarrow> string \<Rightarrow> string option \<Rightarrow> ('s, 's app_match) lookup" where
  "resolve_miss env r method path host =
     and_then (allowed_methods (ev_pd env) r path host) (\<lambda>allowed r.
     and_then (resolve_http_method (ev_pd env) r ''GET'' path host) (\<lambda>implicit_head r.
       if allowed = [] then (Val (Inr (synthetic_match (not_found_handler (ev_http env)) [])), r)
       else if method = ''HEAD'' \<and> implicit_head \<noteq> None then (Val (Inr (the implicit_head)), r)
       else
         let allow = allow_header_value allowed (implicit_head \<noteq> None);
             h = (if method = ''OPTIONS'' then options_handler (ev_http env) allow
                  else method_not_allowed_handler (ev_http env) allow)
         in and_then (scoped_middlewares (ev_pd env) r path host) (\<lambda>mws r.
              (Val (Inr (synthetic_match h mws)), r))))"

definition redirect_location :: "Request \<Rightarrow> string" where
  "redirect_location rq =
     (let trimmed = trim_end_char (CHR ''/'') (rq_path rq);
          canonical = concat (map (\<lambda>c. if code c = 92 then ''%5C'' else [c]) trimmed);
          location = (if canonical = [] then ''/''
                      else if starts_with ''//'' canonical then CHR ''/'' # trim_start_char (CHR ''/'') canonical
                      else canonical)
      in case raw_query rq of None \<Rightarrow> location | Some query \<Rightarrow> location @ ''?'' @ query)"

definition trailing_slash_miss :: "'s app_env \<Rightarrow> 's App \<Rightarrow> Request \<Rightarrow> 's handler option" where
  "trailing_slash_miss env app rq =
     (if length (rq_path rq) \<le> 1 \<or> \<not> ends_with ''/'' (rq_path rq) then None
      else (case cfg_trailing_slash (app_config app) of
              Ignore \<Rightarrow> None
            | Strict \<Rightarrow> Some (not_found_handler (ev_http env))
            | RedirectSlash \<Rightarrow>
                Some (\<lambda>_ s. Some (s, Val (redirect_with_status (ev_http env) (redirect_location rq) 308)))))"

fun route_match_http_error :: "RouteMatchErrorKind \<Rightarrow> HttpError" where
  "route_match_http_error MatchInvalidPathEncoding =
     with_source (OtherError ''RouteMatchError'')
       (HttpError_new 400 ''invalid_path_encoding'' ''La ruta contiene codificacion porcentual invalida'')"
| "route_match_http_error MatchTooManySegments =
     with_source (OtherError ''RouteMatchError'')
       (HttpError_new 414 ''too_many_path_segments'' ''La ruta contiene demasiados segmentos'')"

section \<open>Dispatch\<close>

definition is_success :: "nat \<Rightarrow> bool" where
  "is_success status \<longleftrightarrow> 200 \<le> status \<and> status < 300"

definition enforce_connect_rejection_status :: "http_crate \<Rightarrow> bool \<Rightarrow> Response \<Rightarrow> Response" where
  "enforce_connect_rejection_status http is_connect r =
     (if \<not> is_connect then r
      else if status_ok http (rs_status r) \<and> is_success (rs_status r) then r\<lparr>rs_status := 501\<rparr>
      else r)"

definition dispatch_error_through_global :: "'s app_env \<Rightarrow> 's App \<Rightarrow> Request \<Rightarrow> HttpError \<Rightarrow> 's future" where
  "dispatch_error_through_global env app rq e s =
     (case error_response env app e s of
        (s', r) \<Rightarrow> execute_chain env app rq (\<lambda>_ s. Some (s, Val r)) [] None s')"

definition connect_error :: HttpError where
  "connect_error = HttpError_new 501 ''connect_not_supported'' ''CONNECT requiere una API de tunel dedicada''"

text \<open>What dispatch does to a request that has found its route.\<close>

definition dispatch_matched ::
  "'s app_env \<Rightarrow> 's App \<Rightarrow> Request \<Rightarrow> nat option \<Rightarrow> 's app_match \<Rightarrow> 's future" where
  "dispatch_matched env app rq0 deadline m =
     (let max_body = cfg_max_body_size (app_config app);
          limit = min (case mr_body_limit m of None \<Rightarrow> max_body | Some n \<Rightarrow> n) max_body;
          rq = (rq_set_body_limit rq0 limit)
                 \<lparr>rq_params := mr_params m,
                  rq_route_pattern := (if mr_pattern m = [] then None else Some (mr_pattern m)),
                  resolved_websocket_config :=
                    (case mr_kind m of
                       Http \<Rightarrow> None
                     | WebSocket c \<Rightarrow> Some (from_layers (app_websocket_defaults app) c))\<rparr>
      in case validate_content_length rq of
           Inl e \<Rightarrow> dispatch_error_through_global env app rq e
         | Inr _ \<Rightarrow> execute_chain env app rq (mr_handler m) (mr_middlewares m) deadline)"

text \<open>The future that dispatch runs, and the router with the index that routing may have built.\<close>

definition dispatch_until ::
  "'s app_env \<Rightarrow> 's App \<Rightarrow> Request \<Rightarrow> nat option \<Rightarrow> 's future \<times> 's app_router" where
  "dispatch_until env app rq deadline =
     (let http = ev_http env; r0 = app_router app; host = rq_header rq ''host'' in
      if eq_ignore_ascii_case (rq_method rq) ''CONNECT'' then
        ((\<lambda>s. case dispatch_error_through_global env app rq connect_error s of
                None \<Rightarrow> None
              | Some (s', Panic) \<Rightarrow> Some (s', Panic)
              | Some (s', Val r) \<Rightarrow> Some (s', Val (enforce_connect_rejection_status http True r))), r0)
      else if rq_path rq = ''*'' \<and> rq_method rq = ''OPTIONS'' then
        (execute_chain env app rq (\<lambda>_ s. Some (s, Val (set_status http 204 (Response_send [])))) [] None, r0)
      else
        (case (case trailing_slash_miss env app rq of
                 Some h \<Rightarrow> (Val (Inr (synthetic_match h [])), r0)
               | None \<Rightarrow>
                   and_then (resolve_method (ev_pd env) r0 (rq_method rq) (rq_path rq) host) (\<lambda>found r.
                     case found of
                       Some m \<Rightarrow> (Val (Inr m), r)
                     | None \<Rightarrow> resolve_miss env r (rq_method rq) (rq_path rq) host)) of
           (Panic, r) \<Rightarrow> (\<lambda>s. Some (s, Panic), r)
         | (Val (Inl e), r) \<Rightarrow> (dispatch_error_through_global env app rq (route_match_http_error e), r)
         | (Val (Inr m), r) \<Rightarrow> (dispatch_matched env app rq deadline m, r)))"

section \<open>Running a request\<close>

definition authorized_websocket_switch :: "http_crate \<Rightarrow> Response \<Rightarrow> string option \<Rightarrow> bool" where
  "authorized_websocket_switch http r expected_accept \<longleftrightarrow>
     websocket_upgrade_authorized r \<and>
     (case expected_accept of
        None \<Rightarrow> False
      | Some expected \<Rightarrow>
          (case hm_get_all (rs_headers r) ''sec-websocket-accept'' of
             [v] \<Rightarrow> to_str_ok http v \<and> v = expected
           | _ \<Rightarrow> False))"

definition expected_websocket_accept :: "'s app_env \<Rightarrow> Request \<Rightarrow> string option" where
  "expected_websocket_accept env rq =
     (if rq_upgrade rq \<and> is_websocket_upgrade (ev_b64 env) rq
      then (case singleton_header rq ''sec-websocket-key'' of
              Inr (Some key) \<Rightarrow> Some (websocket_accept (ev_sha1 env) (ev_b64_encode env) key)
            | _ \<Rightarrow> None)
      else None)"

text \<open>What is done to every response before it is sent.\<close>

definition deliver :: "'s app_env \<Rightarrow> Request \<Rightarrow> Response \<Rightarrow> Response option" where
  "deliver env rq r0 =
     (let http = ev_http env;
          r1 = (if rs_status r0 = 101 \<and>
                   \<not> authorized_websocket_switch http r0 (expected_websocket_accept env rq)
                then internal_server_error_response http else r0);
          r2 = (if rq_version rq = HTTP_2 \<or> rq_version rq = HTTP_3
                then strip_http2_connection_headers http r1 else r1);
          r3 = enforce_connect_rejection_status http (eq_ignore_ascii_case (rq_method rq) ''CONNECT'') r2
      in case finalize http (ev_b64 env) r3 of
           None \<Rightarrow> None
         | Some r4 \<Rightarrow>
             if rq_method rq = ''HEAD'' then finalize http (ev_b64 env) (prepare_for_head http r4) else Some r4)"

definition deliver_outcome :: "'s app_env \<Rightarrow> Request \<Rightarrow> 's \<times> Response outcome \<Rightarrow> ('s \<times> Response outcome) option" where
  "deliver_outcome env rq res =
     (case res of
        (s, Panic) \<Rightarrow> Some (s, Panic)
      | (s, Val r) \<Rightarrow> (case deliver env rq r of None \<Rightarrow> None | Some r' \<Rightarrow> Some (s, Val r')))"

text \<open>Dispatch under the configured deadline; \<open>Instant + Duration\<close> panics when it overflows.\<close>

definition dispatch_timed ::
  "'s app_env \<Rightarrow> 's App \<Rightarrow> Request \<Rightarrow> 's \<Rightarrow> ('s \<times> Response outcome) option \<times> 's app_router" where
  "dispatch_timed env app rq s =
     (case cfg_request_timeout (app_config app) of
        Some t \<Rightarrow>
          (case instant_checked_add (ev_imax env) (ev_now env s) t of
             None \<Rightarrow> (Some (s, Panic), app_router app)
           | Some deadline \<Rightarrow>
               (case dispatch_until env app rq (Some deadline) of
                  (fut, r) \<Rightarrow>
                    ((case ev_timeout_at env deadline fut s of
                        (s', Some out) \<Rightarrow> Some (s', out)
                      | (s', None) \<Rightarrow>
                          (case error_response env app request_timeout_error s' of
                             (s'', resp) \<Rightarrow> Some (s'', Val resp))), r)))
      | None \<Rightarrow> (case dispatch_until env app rq None of (fut, r) \<Rightarrow> (fut s, r)))"

definition run_request ::
  "'s app_env \<Rightarrow> 's App \<Rightarrow> Request \<Rightarrow> 's \<Rightarrow> ('s \<times> Response outcome) option \<times> 's app_router" where
  "run_request env app rq s =
     (case dispatch_timed env app rq s of
        (None, r) \<Rightarrow> (None, r)
      | (Some res, r) \<Rightarrow> (deliver_outcome env rq res, r))"

end
