(* ===== verification/App_Props.thy ===== *)
theory App_Props
  imports App Router_Props Http_Response_Props Http_Request_Props
begin

text \<open>
  Properties of the dispatch of requests: a request is always answered and the answer is well
  framed, whatever handlers and middleware do; the order of the onion; what survives an error
  renderer; the answers to requests that no route takes.
\<close>

section \<open>Delivery\<close>

lemma head_valid:
  assumes laws: "http_laws http" and st: "finalize_status http b64 r = None" "\<not> status_has_no_content (rs_status r)"
    and tr: "rs_trailers r = None" "\<not> hm_contains (rs_headers r) ''trailer''"
    and te: "\<not> hm_contains (rs_headers r) ''transfer-encoding''" and ct: "hm_contains (rs_headers r) ''content-type''"
    and cl: "length_field_ok (rs_headers r) BEmpty None"
  shows "finalize_once http b64 (clear_body r) = Inr (clear_body r)"
proof -
  let ?p = "clear_body r"
  obtain d where d: "response_content_length http (rs_headers r) = Inr (rs_headers r, d)"
    using cl content_length_absent content_length_again [OF laws]
    by (auto simp: length_field_ok_def)
  have "finalize_status http b64 ?p = None" using st by (simp add: status_clear_body)
  moreover have "finalize_trailers http ?p = Inr ?p"
    using tr by (simp add: finalize_trailers_def clear_body_def)
  moreover have "finalize_framing http ?p (rs_status ?p) = Inr ?p"
    using d te st tr by (auto simp: finalize_framing_def clear_body_def Let_def mismatch_def split: option.splits)
  moreover have "finalize_content http ?p = Inr ?p"
    using ct by (simp add: finalize_content_def clear_body_def Let_def)
  ultimately show ?thesis by (simp add: finalize_once_def)
qed

text \<open>The head of a finalised response is valid and has no body.\<close>

lemma head_again:
  assumes laws: "http_laws http" and g: "finalize_once http b64 g = Inr g"
    and fits: "\<And>b. body_kind g = BBytes b \<Longrightarrow> length b \<le> u64_max"
  shows "\<exists>q. finalize_once http b64 (prepare_for_head http g) = Inr q \<and> body_kind q = BEmpty \<and>
    rs_status q = rs_status g"
  using g
proof (cases rule: once_cases)
  case (1 r1 r2)
  note w = once_framed [OF laws g] and st = status_checked [OF laws 1(1)]
  have ok: "status_ok http (rs_status g)" using st(1,2) http_lawsD(4) [OF laws] by simp
  let ?g = "g\<lparr>rs_trailers := None, rs_headers := hm_remove (rs_headers g) ''trailer''\<rparr>"
  show ?thesis
  proof (cases "status_has_no_content (rs_status g)")
    case True
    then have "body_kind g = BEmpty" "rs_trailers g = None" "hm_get_all (rs_headers g) ''trailer'' = []"
      using w by (auto simp: well_framed_def hm_contains_def)
    then have "prepare_for_head http g = g" using True ok prepared_no_trailers [of g]
      by (simp add: prepare_for_head_def Let_def clear_body_def)
    with g \<open>body_kind g = BEmpty\<close> show ?thesis by simp
  next
    case False
    have field: "length_field_ok (rs_headers g) (body_kind g) (rs_trailers g)"
    proof -
      have "length_field_ok (rs_headers r2) (body_kind r2) (rs_trailers r2)" by (rule framing_ok(8) [OF 1(3)])
      moreover have "body_kind g = body_kind r2" "rs_trailers g = rs_trailers r2"
        using content_ok(1) [OF 1(4)] by (metis Response.select_convs(4,5) Response.surjective Response.update_convs(3))+
      ultimately show ?thesis
        using content_ok(4) [OF 1(4)] fits False 1(6)
        by (auto simp: length_field_ok_def hm_contains_def split: if_splits BodyKind.splits)
    qed
    obtain h' where h': "preserve_buffered_representation_length http ?g = ?g\<lparr>rs_headers := h'\<rparr>"
      "length_field_ok h' BEmpty None"
      "\<And>n. n \<noteq> ''content-length'' \<Longrightarrow> hm_get_all h' n = hm_get_all (rs_headers ?g) n"
    proof (cases "body_kind g")
      case (BBytes b)
      obtain d where d: "response_content_length http (rs_headers ?g) = Inr (rs_headers ?g, d)"
        "mismatch d (BBytes b) = None"
      proof (cases "hm_get_all (rs_headers g) ''content-length'' = []")
        case True
        then show thesis by (intro that [OF content_length_absent]) (simp_all add: mismatch_def)
      next
        case False
        with field BBytes have "hm_get_all (rs_headers ?g) ''content-length'' = [show_nat (length b)]"
          by (auto simp: length_field_ok_def)
        from content_length_again [OF laws this fits [OF BBytes]] show thesis
          by (rule that) (simp add: mismatch_None)
      qed
      have "body_kind ?g = BBytes b" using BBytes by simp
      from length_preserved [OF d(1) this d(2)] obtain h' where
        "preserve_buffered_representation_length http ?g = ?g\<lparr>rs_headers := h'\<rparr>"
        "\<And>n. hm_get_all h' n = (if n = ''content-length'' then [show_nat (length b)] else hm_get_all (rs_headers ?g) n)"
        by blast
      with fits [OF BBytes] show thesis by (intro that [of h']) (auto simp: length_field_ok_def)
    next
      case (BStream c)
      with field show thesis by (intro that [of "rs_headers ?g"])
        (auto simp: preserve_buffered_representation_length_def length_field_ok_def)
    next
      case BEmpty
      with field show thesis by (intro that [of "rs_headers ?g"])
        (auto simp: preserve_buffered_representation_length_def length_field_ok_def)
    qed
    let ?p = "?g\<lparr>rs_headers := h'\<rparr>"
    have p: "prepare_for_head http g = clear_body ?p"
      using ok False h'(1) by (simp add: prepare_for_head_def Let_def)
    have "finalize_status http b64 ?p = None"
      using st http_lawsD(4) [OF laws] False
      by (auto simp: finalize_status_def status_has_no_content_def is_informational_def)
    moreover have "\<not> hm_contains h' ''trailer''" "\<not> hm_contains h' ''transfer-encoding''"
      "hm_contains h' ''content-type''"
      using w False h'(3) by (auto simp: well_framed_def hm_contains_def)
    ultimately have "finalize_once http b64 (clear_body ?p) = Inr (clear_body ?p)"
      using h'(2) False by (intro head_valid [OF laws]) simp_all
    then show ?thesis unfolding p by (simp add: clear_body_def)
  qed
qed

definition body_fits :: "Response \<Rightarrow> bool" where
  "body_fits r = (case body_kind r of BBytes b \<Rightarrow> length b \<le> u64_max | _ \<Rightarrow> True)"

lemma once_body: "finalize_once http b64 r = Inr g \<Longrightarrow> body_kind g = body_kind r \<or> body_kind g = BEmpty"
  by (erule once_cases)
    (metis Response.select_convs(4) Response.surjective Response.update_convs(3) content_ok(1) framing_ok(6,7)
      trailers_ok(1))

lemma strip_status [simp]: "rs_status (strip_http2_connection_headers http r) = rs_status r"
  "body_kind (strip_http2_connection_headers http r) = body_kind r"
  by (auto simp: strip_http2_connection_headers_def Let_def record_build_error_def split: option.split list.split)

lemma prepare_for_head_status [simp]: "rs_status (prepare_for_head http r) = rs_status r"
  by (auto simp: prepare_for_head_def Let_def clear_body_def preserve_buffered_representation_length_def
      record_build_error_def split: BodyKind.split sum.split option.split prod.split)

lemma finalize_status_of:
  assumes "http_laws http" "finalize http b64 r = Some r'"
  shows "rs_status r' = rs_status r \<or> rs_status r' = 500"
proof -
  obtain r0 r'' where r0: "finalize http b64 r = Some r''" "finalize_once http b64 r0 = Inr r''"
    "r0 = r \<or> (\<exists>e. finalize_once http b64 r = Inl e \<and> r0 = invalid_response http e)"
    by (rule finalize_returns [OF assms(1)])
  have "rs_status r'' = rs_status r0" using r0(2) by (rule once_cases)
  moreover have "rs_status (invalid_response http e) = 500" for e
    using http_lawsD(4) [OF assms(1)]
    by (simp add: invalid_response_def from_error_def error_defs set_status_def Response_bytes_def)
  ultimately show ?thesis using r0 assms(2) by auto
qed

lemma internal_status: "http_laws http \<Longrightarrow> rs_status (internal_server_error_response http) = 500"
  by (simp add: internal_server_error_response_def from_error_def error_defs set_status_def Response_bytes_def
      http_lawsD(4))

definition delivered :: "'s app_env \<Rightarrow> Request \<Rightarrow> Response \<Rightarrow> Response \<Rightarrow> bool" where
  "delivered env rq r out \<longleftrightarrow>
     well_framed (ev_http env) out \<and>
     (rs_status out = 101 \<longrightarrow>
        websocket_upgrade_authorized r \<and> rq_upgrade rq \<and> is_websocket_upgrade (ev_b64 env) rq) \<and>
     (eq_ignore_ascii_case (rq_method rq) ''CONNECT'' \<longrightarrow> \<not> is_success (rs_status out)) \<and>
     (rq_method rq = ''HEAD'' \<and> body_fits r \<longrightarrow> body_kind out = BEmpty)"

lemma authorized_request:
  "authorized_websocket_switch http r (expected_websocket_accept env rq) \<Longrightarrow>
     websocket_upgrade_authorized r \<and> rq_upgrade rq \<and> is_websocket_upgrade (ev_b64 env) rq"
  by (auto simp: authorized_websocket_switch_def expected_websocket_accept_def split: option.splits if_splits)

text \<open>The problem documents that the server itself writes fit in memory.\<close>

definition small_problems :: "http_crate \<Rightarrow> bool" where
  "small_problems http \<longleftrightarrow>
     list_all (\<lambda>(s, c, m). length (problem_json http s c m) \<le> u64_max)
       [(500, ''internal_server_error'', ''Internal Server Error''),
        (500, ''internal_server_error'', ''No se pudo construir la respuesta''),
        (400, ''ambiguous_message_framing'', ''Transfer-Encoding y Content-Length no pueden combinarse''),
        (400, ''unverified_message_framing'', ''La solicitud no pudo verificarse en esta conexion'')]"

lemma fits_internal: "small_problems http \<Longrightarrow> body_fits (internal_server_error_response http)"
  by (simp add: small_problems_def body_fits_def internal_server_error_response_def from_error_def error_defs
      set_status_def Response_bytes_def record_build_error_def)

lemma fits_invalid: "small_problems http \<Longrightarrow> body_fits (invalid_response http e)"
  by (simp add: small_problems_def body_fits_def invalid_body)

lemma finalize_fits:
  assumes "http_laws http" "small_problems http" "body_fits r" "finalize http b64 r = Some g"
  shows "body_fits g \<and> finalize_once http b64 g = Inr g"
proof -
  obtain r0 r' where r0': "finalize http b64 r = Some r'" "finalize_once http b64 r0 = Inr r'"
    "r0 = r \<or> (\<exists>e. finalize_once http b64 r = Inl e \<and> r0 = invalid_response http e)"
    by (rule finalize_returns [OF assms(1)])
  then have r0: "finalize_once http b64 r0 = Inr g" "body_fits r0"
    using assms(3,4) fits_invalid [OF assms(2)] by auto
  have "length b \<le> u64_max" if "body_kind r0 = BBytes b" for b
    using r0(2) that by (simp add: body_fits_def)
  moreover have "body_fits g"
    using once_body [OF r0(1)] r0(2) by (auto simp: body_fits_def)
  ultimately show ?thesis using once_again [OF assms(1) r0(1)] by blast
qed

lemma deliver_ok:
  assumes laws: "http_laws (ev_http env)" and small: "small_problems (ev_http env)"
  shows "\<exists>out. deliver env rq r0 = Some out \<and> delivered env rq r0 out"
proof -
  let ?http = "ev_http env" and ?b64 = "ev_b64 env"
  let ?connect = "eq_ignore_ascii_case (rq_method rq) ''CONNECT''"
  define r1 where "r1 = (if rs_status r0 = 101 \<and>
      \<not> authorized_websocket_switch ?http r0 (expected_websocket_accept env rq)
      then internal_server_error_response ?http else r0)"
  define r2 where "r2 = (if rq_version rq = HTTP_2 \<or> rq_version rq = HTTP_3
      then strip_http2_connection_headers ?http r1 else r1)"
  define r3 where "r3 = enforce_connect_rejection_status ?http ?connect r2"
  from finalize_returns [OF laws, of ?b64 r3] obtain r4 where
    r4: "finalize ?http ?b64 r3 = Some r4" "well_framed ?http r4"
    using once_framed [OF laws] by metis
  from finalize_returns [OF laws, of ?b64 "prepare_for_head ?http r4"] obtain r5 where
    r5: "finalize ?http ?b64 (prepare_for_head ?http r4) = Some r5" "well_framed ?http r5"
    using once_framed [OF laws] by metis
  let ?out = "if rq_method rq = ''HEAD'' then r5 else r4"
  have out: "deliver env rq r0 = Some ?out"
    using r4 r5 unfolding deliver_def Let_def r1_def [symmetric] r2_def [symmetric] r3_def [symmetric] by simp
  have status: "rs_status ?out = rs_status r3 \<or> rs_status ?out = 500"
    using finalize_status_of [OF laws r4(1)] finalize_status_of [OF laws r5(1)] by auto
  have 3: "rs_status r3 = rs_status r2 \<or> rs_status r3 = 501" "rs_status r2 = rs_status r1"
    by (auto simp: r3_def r2_def enforce_connect_rejection_status_def)
  have "?connect \<longrightarrow> \<not> is_success (rs_status ?out)"
    using status http_lawsD(4) [OF laws, of "rs_status r2"]
    by (auto simp: r3_def enforce_connect_rejection_status_def is_success_def split: if_splits)
  moreover have "websocket_upgrade_authorized r0 \<and> rq_upgrade rq \<and> is_websocket_upgrade ?b64 rq"
    if "rs_status ?out = 101"
  proof -
    have "rs_status r1 = 101" using that status 3 by auto
    then show ?thesis using internal_status [OF laws] authorized_request [of ?http r0 env rq]
      by (auto simp: r1_def split: if_splits)
  qed
  moreover have "body_kind ?out = BEmpty" if "rq_method rq = ''HEAD''" "body_fits r0"
  proof -
    have "body_fits r3"
      using that(2) fits_internal [OF small]
      by (auto simp: r3_def r2_def r1_def enforce_connect_rejection_status_def body_fits_def)
    from finalize_fits [OF laws small this r4(1)]
    have g: "finalize_once ?http ?b64 r4 = Inr r4" "\<And>b. body_kind r4 = BBytes b \<Longrightarrow> length b \<le> u64_max"
      by (auto simp: body_fits_def)
    from head_again [OF laws this] obtain q where "finalize_once ?http ?b64 (prepare_for_head ?http r4) = Inr q"
      "body_kind q = BEmpty" by blast
    with r5(1) that(1) finalize_once_Inr show ?thesis by fastforce
  qed
  ultimately show ?thesis using out r4(2) r5(2) by (auto simp: delivered_def)
qed

section \<open>Dispatch never panics\<close>

lemma guarded_not_Panic:
  "guarded_next http eh h rq s = Some (s', out) \<Longrightarrow> out \<noteq> Panic"
  by (auto simp: guarded_next_def split: option.splits prod.splits)

lemma chain_not_Panic: "execute_chain env app rq h mws d s = Some (s', out) \<Longrightarrow> out \<noteq> Panic"
  unfolding execute_chain_def Let_def by (rule guarded_not_Panic)

lemma error_chain_not_Panic: "dispatch_error_through_global env app rq e s = Some (s', out) \<Longrightarrow> out \<noteq> Panic"
  unfolding dispatch_error_through_global_def by (auto dest: chain_not_Panic split: prod.splits)

lemma matched_not_Panic: "dispatch_matched env app rq d m s = Some (s', out) \<Longrightarrow> out \<noteq> Panic"
  unfolding dispatch_matched_def Let_def
  by (auto dest: chain_not_Panic error_chain_not_Panic split: sum.splits)

definition lookup_ok :: "('s, 'a) lookup \<Rightarrow> bool" where
  "lookup_ok l \<longleftrightarrow> fst l \<noteq> Panic \<and> wf_router (snd l)"

lemma lookup_ok_Val [intro]: "wf_router r \<Longrightarrow> lookup_ok (Val x, r)"
  by (simp add: lookup_ok_def)

lemma lookup_ok_and_then [intro]:
  "lookup_ok l \<Longrightarrow> (\<And>x r. wf_router r \<Longrightarrow> lookup_ok (f x r)) \<Longrightarrow> lookup_ok (and_then l f)"
  by (cases l) (auto simp: lookup_ok_def and_then_def split: outcome.splits sum.splits)

lemma allowed_not_Panic: "wf_router r \<Longrightarrow> fst (allowed_methods pd r path host) \<noteq> Panic"
  using allowed_methods_wf [of r pd path _ host]
  by (cases "decode_path_segments pd path") (auto simp: allowed_methods_def)

lemma lookups_ok [intro]:
  assumes "wf_router r"
  shows "lookup_ok (allowed_methods pd r path host)" "lookup_ok (resolve_method pd r method path host)"
    "lookup_ok (resolve_http_method pd r method path host)" "lookup_ok (scoped_middlewares pd r path host)"
  using assms by (simp_all add: lookup_ok_def resolve_method_def resolve_http_method_def resolve_with_not_Panic
      wf_lookup_state scoped_not_Panic allowed_not_Panic)

lemma resolve_miss_ok [intro]: "wf_router r \<Longrightarrow> lookup_ok (resolve_miss env r method path host)"
  unfolding resolve_miss_def Let_def
  by (intro lookup_ok_and_then lookups_ok) (auto split: if_split)

lemma dispatch_not_Panic:
  assumes "wf_router (app_router app)" "dispatch_until env app rq d = (fut, r)"
  shows "fut s = Some (s', out) \<Longrightarrow> out \<noteq> Panic" and "wf_router r"
proof -
  let ?l = "case trailing_slash_miss env app rq of
      Some h \<Rightarrow> (Val (Inr (synthetic_match h [])), app_router app)
    | None \<Rightarrow> and_then (resolve_method (ev_pd env) (app_router app) (rq_method rq) (rq_path rq) (rq_header rq ''host''))
        (\<lambda>found r. case found of Some m \<Rightarrow> (Val (Inr m), r)
           | None \<Rightarrow> resolve_miss env r (rq_method rq) (rq_path rq) (rq_header rq ''host''))"
  have "lookup_ok ?l"
    using assms(1) by (auto split: option.split intro!: lookup_ok_and_then)
  then obtain m r1 where l: "?l = (Val m, r1)" "wf_router r1"
    by (cases ?l rule: prod.exhaust, cases "fst ?l") (auto simp: lookup_ok_def)
  show "fut s = Some (s', out) \<Longrightarrow> out \<noteq> Panic" and "wf_router r"
    using assms l(2) unfolding dispatch_until_def Let_def l(1)
    by (auto split: if_splits sum.splits option.splits outcome.splits prod.splits
        dest: error_chain_not_Panic chain_not_Panic matched_not_Panic)
qed

section \<open>Every request is answered\<close>

text \<open>
  An instance for the witnesses. The state is a clock: a future that ends after the deadline, or
  never, is cut off at the deadline.
\<close>

definition clock_timeout :: "nat \<Rightarrow> nat future \<Rightarrow> nat \<Rightarrow> nat \<times> Response outcome option" where
  "clock_timeout deadline fut s =
     (case fut s of
        Some (s', out) \<Rightarrow> if s' \<le> deadline then (s', Some out) else (deadline, None)
      | None \<Rightarrow> (deadline, None))"

definition no_uris :: uri_crate where
  "no_uris = \<lparr>parse_uri = (\<lambda>_. None), authority_host = (\<lambda>a. a), authority_port = (\<lambda>_. None),
     parse_authority = (\<lambda>_. True)\<rparr>"

definition clock_env :: "nat app_env" where
  "clock_env = \<lparr>ev_http = demo_http, ev_uris = no_uris, ev_pd = percent_decode, ev_b64 = Some,
     ev_b64_encode = (\<lambda>s. s), ev_sha1 = take 20, ev_timeout_at = clock_timeout, ev_now = (\<lambda>s. s),
     ev_imax = secs 1000\<rparr>"

lemma clock_timeout_laws: "timeout_laws clock_timeout"
  by (auto simp: timeout_laws_def clock_timeout_def split: option.splits if_splits)

definition clock_router_env :: "(nat handler, nat middleware, unit) router_env" where
  "clock_router_env = \<lparr>env_pd = percent_decode, env_timeout = (\<lambda>_ rq next_handler. next_handler rq),
     env_instant_max = secs 1000, env_now = 0, env_open_dir = (\<lambda>_. None),
     env_static_handler = (\<lambda>_ _ _ s. Some (s, Val (Response_send [])))\<rparr>"

lemma clock_router_wf: "wf_router (router_run clock_router_env Router_new ops)"
  by (rule wf_router_run) (simp add: clock_router_env_def percent_decoder_percent_decode)

text \<open>A route whose handler never completes, behind a middleware that panics.\<close>

definition stuck_app :: "nat App" where
  "stuck_app = app_layer (\<lambda>_ _ s. Some (s + 1, Panic))
     (App_new\<lparr>app_router :=
        router_run clock_router_env Router_new [OpAdd ''GET'' ''/slow'' (\<lambda>_ _. None) Http]\<rparr>)"

definition stuck_request :: Request where
  "stuck_request = builder_build (builder_path ''/slow'' RequestBuilder_new)"

lemma answered:
  assumes "http_laws (ev_http env)" "small_problems (ev_http env)" "timeout_laws (ev_timeout_at env)"
    and "wf_router (app_router app)"
    and "cfg_request_timeout (app_config app) = Some t" "ev_now env s + t \<le> ev_imax env"
  shows "\<exists>s' r out router. dispatch_timed env app rq s = (Some (s', Val r), router) \<and>
    run_request env app rq s = (Some (s', Val out), router) \<and> delivered env rq r out \<and> wf_router router"
proof -
  let ?d = "ev_now env s + t"
  obtain fut router where f: "dispatch_until env app rq (Some ?d) = (fut, router)" by fastforce
  note safe = dispatch_not_Panic [OF assms(4) f]
  obtain s1 res where res: "ev_timeout_at env ?d fut s = (s1, res)" by fastforce
  have "out \<noteq> Panic" if "res = Some out" for out
    using assms(3) res safe(1) that unfolding timeout_laws_def by metis
  then obtain s' r where "dispatch_timed env app rq s = (Some (s', Val r), router)"
    using assms(5,6) f res
    by (cases res; cases "the res"; cases "error_response env app request_timeout_error s1")
      (auto simp: dispatch_timed_def instant_checked_add_def)
  moreover obtain out where "deliver env rq r = Some out" "delivered env rq r out"
    using deliver_ok [OF assms(1,2)] by blast
  ultimately show ?thesis using safe(2) by (auto simp: run_request_def deliver_outcome_def)
qed

text \<open>
  Claim C16: a request is always answered while a request timeout is configured. Whatever handlers,
  middleware and the error renderer do - panic, or never complete - running a request
  returns a response, never a panic. The response is well framed; \<open>CONNECT\<close> is never
  answered with a success, which would turn the connection into a tunnel; \<open>101\<close> is sent
  only for a response the WebSocket code authorised, to a request that asked for the
  upgrade; \<open>HEAD\<close> gets no body. The router stays well formed.
\<close>

theorem run_request_total:
  assumes "http_laws (ev_http env)" "small_problems (ev_http env)" "timeout_laws (ev_timeout_at env)"
    and "wf_router (app_router app)"
    and "cfg_request_timeout (app_config app) = Some t" "ev_now env s + t \<le> ev_imax env"
  shows "\<exists>s' r out router. dispatch_timed env app rq s = (Some (s', Val r), router) \<and>
    run_request env app rq s = (Some (s', Val out), router) \<and> delivered env rq r out \<and> wf_router router"
  using assms by (rule answered)

theorem run_request_total_witness:
  "\<exists>s' r out router. dispatch_timed clock_env stuck_app stuck_request 7 = (Some (s', Val r), router) \<and>
    run_request clock_env stuck_app stuck_request 7 = (Some (s', Val out), router) \<and>
    delivered clock_env stuck_request r out \<and> wf_router router"
proof (rule run_request_total)
  show "http_laws (ev_http clock_env)" by (simp add: clock_env_def demo_http_laws)
  show "small_problems (ev_http clock_env)" by code_simp
  show "timeout_laws (ev_timeout_at clock_env)" by (simp add: clock_env_def clock_timeout_laws)
  show "wf_router (app_router stuck_app)" 
    using clock_router_wf by (simp add: stuck_app_def app_layer_def del: router_run.simps)
  show "cfg_request_timeout (app_config stuck_app) = Some (secs 30)" by code_simp
  show "ev_now clock_env 7 + secs 30 \<le> ev_imax clock_env" by code_simp
qed

end
