(* ===== verification/App_Onion.thy ===== *)
theory App_Onion
  imports App_Props
begin

text \<open>
  The order of the onion, the fields that survive an error renderer, the answers to requests
  that no route takes, and where a trailing-slash redirect leads.
\<close>

section \<open>Order\<close>

datatype trace_event = Enter nat | Leave nat

text \<open>A middleware that records when it is entered and when it is left.\<close>

definition tracer :: "nat \<Rightarrow> trace_event list middleware" where
  "tracer i rq next_handler s =
     (case next_handler rq (s @ [Enter i]) of
        None \<Rightarrow> None
      | Some (s', out) \<Rightarrow> Some (s' @ [Leave i], out))"

definition silent_renderer :: "'s error_handler option \<Rightarrow> bool" where
  "silent_renderer eh \<longleftrightarrow> (\<forall>h. eh = Some h \<longrightarrow> (\<forall>e s. fst (h e s) = s))"

lemma render_silent:
  assumes "silent_renderer eh"
  shows "\<exists>r'. render_response_error http r eh s = (s, r')"
proof (cases "rs_error r")
  case (Some e)
  show ?thesis
  proof (cases eh)
    case (Some h)
    with assms have "fst (h e s) = s" by (simp add: silent_renderer_def)
    then obtain out where "h e s = (s, out)" by (metis prod.collapse)
    with \<open>rs_error r = Some e\<close> Some show ?thesis
      by (cases out) (simp_all add: render_response_error_def render_http_error_def)
  qed (simp add: render_response_error_def Some)
qed (simp add: render_response_error_def)

lemma guarded_silent:
  assumes "silent_renderer eh" "h rq s = Some (s', out)"
  shows "\<exists>r. guarded_next http eh h rq s = Some (s', Val r)"
proof -
  let ?r = "case out of Panic \<Rightarrow> panic_response http | Val r \<Rightarrow> r"
  from render_silent [OF assms(1), of http ?r s'] obtain r' where
    "render_response_error http ?r eh s' = (s', r')" by blast
  with assms(2) show ?thesis by (simp add: guarded_next_def)
qed

lemma tracers_order:
  assumes "silent_renderer eh" "core rq (s @ map Enter is) = Some (s1, out)"
  shows "\<exists>out'. foldr (wrap_middleware http eh) (map tracer is) core rq s = Some (s1 @ map Leave (rev is), out')"
  using assms(2)
proof (induction "is" arbitrary: s)
  case (Cons i "is")
  let ?inner = "foldr (wrap_middleware http eh) (map tracer is) core"
  have "core rq ((s @ [Enter i]) @ map Enter is) = Some (s1, out)" using Cons.prems by simp
  from Cons.IH [OF this] obtain out' where
    "?inner rq (s @ [Enter i]) = Some (s1 @ map Leave (rev is), out')" by blast
  then have "tracer i rq ?inner s = Some (s1 @ map Leave (rev (i # is)), out')"
    by (simp add: tracer_def)
  from guarded_silent [of eh "\<lambda>rq. tracer i rq ?inner", OF assms(1) this, of http] show ?case
    using wrap_middleware_def [of http eh "tracer i" ?inner] by auto
qed simp

text \<open>
  Claim C17: the middleware onion. Global middleware is entered in registration order, then the
  route's middleware in registration order, then the handler runs; on the way out every
  middleware is left in the reverse order. This holds for every outcome of the handler - an
  error, a panic, or being cut off at the deadline - and the result is a response, never
  a panic.
\<close>

theorem onion_order:
  assumes "app_middlewares app = map tracer globals" "silent_renderer (app_error_handler app)"
    and "until_deadline env deadline h rq (log @ map Enter (globals @ locals)) = Some (s1, out)"
  shows "\<exists>r. execute_chain env app rq h (map tracer locals) deadline log =
    Some (s1 @ map Leave (rev (globals @ locals)), Val r)"
proof -
  let ?w = "wrap_middleware (ev_http env) (app_error_handler app)"
  let ?core = "guarded_next (ev_http env) (app_error_handler app) (until_deadline env deadline h)"
  let ?routed = "foldr ?w (map tracer locals) ?core"
  let ?onion = "foldr ?w (map tracer globals) ?routed"
  obtain r0 where "?core rq (log @ map Enter (globals @ locals)) = Some (s1, Val r0)"
    using guarded_silent [of _ "until_deadline env deadline h", OF assms(2,3)] by blast
  then obtain o1 where "?routed rq (log @ map Enter globals) = Some (s1 @ map Leave (rev locals), o1)"
    using tracers_order [OF assms(2), of ?core rq "log @ map Enter globals" locals s1] by auto
  then obtain o2 where "?onion rq log = Some ((s1 @ map Leave (rev locals)) @ map Leave (rev globals), o2)"
    using tracers_order [OF assms(2), of ?routed rq log globals] by blast
  from guarded_silent [of _ ?onion, OF assms(2) this] show ?thesis
    by (simp add: execute_chain_def Let_def assms(1))
qed

definition trace_env :: "trace_event list app_env" where
  "trace_env = \<lparr>ev_http = demo_http, ev_uris = no_uris, ev_pd = percent_decode, ev_b64 = Some,
     ev_b64_encode = (\<lambda>s. s), ev_sha1 = take 20,
     ev_timeout_at = (\<lambda>_ fut s. case fut s of None \<Rightarrow> (s, None) | Some (s', out) \<Rightarrow> (s', Some out)),
     ev_now = length, ev_imax = 1000\<rparr>"

definition traced_app :: "trace_event list App" where
  "traced_app = app_layer (tracer 2) (app_layer (tracer 1) App_new)"

theorem onion_order_witness:
  "\<exists>r. execute_chain trace_env traced_app stuck_request (\<lambda>_ _. None) [tracer 3] (Some 9) [] =
    Some ([Enter 1, Enter 2, Enter 3, Leave 3, Leave 2, Leave 1], Val r)"
proof -
  have "app_middlewares traced_app = map tracer [1, 2]" "silent_renderer (app_error_handler traced_app)"
    by (simp_all add: traced_app_def app_layer_def App_new_def silent_renderer_def)
  moreover have "until_deadline trace_env (Some 9) (\<lambda>_ _. None) stuck_request ([] @ map Enter ([1, 2] @ [3])) =
    Some ([Enter 1, Enter 2, Enter 3], Val (from_error demo_http request_timeout_error))"
    by (simp add: until_deadline_def trace_env_def)
  ultimately have "\<exists>r. execute_chain trace_env traced_app stuck_request (\<lambda>_ _. None) (map tracer [3]) (Some 9) [] =
    Some ([Enter 1, Enter 2, Enter 3] @ map Leave (rev ([1, 2] @ [3])), Val r)"
    by (rule onion_order)
  then show ?thesis by simp
qed

section \<open>Rendered errors\<close>

lemma get_all_append_all: "hm_get_all (hm_append_all h new) n = hm_get_all h n @ hm_get_all new n"
  unfolding hm_append_all_def
  by (induction new arbitrary: h) (auto simp: get_all_Cons)

lemma get_all_remove_all: "hm_get_all (foldl hm_remove h ns) n = (if n \<in> set ns then [] else hm_get_all h n)"
  by (induction ns arbitrary: h) auto

lemma get_all_filter_names:
  "hm_get_all (filter (\<lambda>(n, _). P n) h) n = (if P n then hm_get_all h n else [])"
  by (induction h) (auto simp: get_all_Cons)

lemma not_contains: "\<not> hm_contains h n \<Longrightarrow> hm_get_all h n = []"
  by (simp add: hm_contains_def)

text \<open>
  An application error renderer cannot lose what the response says. Of the fields that
  were set on an error response, all but \<open>Content-Type\<close> and \<open>Content-Length\<close> reach the client
  with exactly their values; a field the error itself requires (such as \<open>Allow\<close> or \<open>Retry-After\<close>)
  is there unless the response replaced it or the renderer panicked; a status set after the
  error wins over the renderer's, also when the renderer panicked.
\<close>

theorem error_fields_survive:
  assumes "rs_error r = Some e" "render_response_error http r (Some handler) s = (s', out)"
    and "\<not> representation_field n"
  shows "(hm_contains (rs_headers r) n \<longrightarrow> hm_get_all (rs_headers out) n = hm_get_all (rs_headers r) n) \<and>
    (\<not> hm_contains (rs_headers r) n \<and> hm_contains (err_headers e) n \<and> snd (handler e s) \<noteq> Panic \<longrightarrow>
       hm_get_all (rs_headers out) n = hm_get_all (err_headers e) n) \<and>
    (rs_status r \<noteq> err_status e \<longrightarrow> rs_status out = rs_status r) \<and> rs_error out = None"
proof -
  obtain s1 fm where fm: "render_http_error http e (Some handler) s = (s1, fm)" by fastforce
  then have out: "out = fm\<lparr>rs_headers := hm_append_all
        (foldl hm_remove (rs_headers fm) (filter (\<lambda>n. \<not> representation_field n) (hm_keys (rs_headers r))))
        (filter (\<lambda>(n, _). \<not> representation_field n) (rs_headers r)),
      rs_status := (if rs_status r \<noteq> err_status e then rs_status r else rs_status fm)\<rparr>"
    using assms(1,2) by (simp add: render_response_error_def)
  have "rs_error fm = None" using fm by (auto simp: render_http_error_def split: prod.splits outcome.splits)
  moreover have "hm_get_all (rs_headers fm) n = hm_get_all (err_headers e) n"
    if "hm_contains (err_headers e) n" "snd (handler e s) \<noteq> Panic"
    using fm that by (auto simp: render_http_error_def get_all_append_all get_all_remove_all hm_keys_contains
        split: prod.splits outcome.splits)
  ultimately show ?thesis
    using assms(3) by (simp add: out get_all_append_all get_all_remove_all get_all_filter_names hm_keys_contains
        not_contains)
qed

definition auth_error :: HttpError where
  "auth_error = err_header ''www-authenticate'' ''Basic'' (unauthorized ''no'')"

theorem error_fields_survive_witness:
  "hm_get_all (rs_headers (snd (render_response_error demo_http
       (rs_header demo_http ''set-cookie'' ''a=b'' (from_error demo_http auth_error))
       (Some (\<lambda>e s. (s, Panic))) (0 :: nat)))) ''set-cookie'' = [''a=b'']"
proof -
  let ?r = "rs_header demo_http ''set-cookie'' ''a=b'' (from_error demo_http auth_error)"
  let ?h = "\<lambda>e s. (s, Panic) :: nat \<times> Response outcome"
  obtain s' out where out: "render_response_error demo_http ?r (Some ?h) 0 = (s', out)" by (meson surj_pair)
  have e: "rs_error ?r = Some auth_error" "\<not> representation_field ''set-cookie''" by code_simp+
  have "hm_contains (rs_headers ?r) ''set-cookie''" "hm_get_all (rs_headers ?r) ''set-cookie'' = [''a=b'']"
    by code_simp+
  with error_fields_survive [OF e(1) out e(2)] show ?thesis by (simp add: out)
qed

section \<open>Requests that no route takes\<close>

lemma allow_methods:
  assumes "distinct ms"
  shows "\<exists>out. allow_header_value ms b = join '', '' out \<and> distinct out \<and>
    set out = set ms \<union> (if b then {''HEAD''} else {}) \<union> {''OPTIONS''}"
proof -
  let ?m1 = "if b \<and> ''HEAD'' \<notin> set ms then ms @ [''HEAD''] else ms"
  let ?m2 = "if ''OPTIONS'' \<notin> set ?m1 then ?m1 @ [''OPTIONS''] else ?m1"
  have "allow_header_value ms b = join '', '' ?m2" by (simp add: allow_header_value_def Let_def)
  moreover have "distinct ?m2 \<and> set ?m2 = set ms \<union> (if b then {''HEAD''} else {}) \<union> {''OPTIONS''}"
    using assms by auto
  ultimately show ?thesis by blast
qed

lemma visible_join:
  assumes "\<forall>m \<in> set ms. list_all visible m"
  shows "list_all visible (join '', '' ms)"
  using assms
  by (induction "'', ''" ms rule: join.induct) (auto simp: visible_def)

lemma lookup_keeps_routes:
  "routes (snd (allowed_methods pd r path host)) = routes r"
  "routes (snd (resolve_with pd skip r method path)) = routes r"
  using lookup_state(1) [of pd skip r "method" path] lookup_state(2) [of pd r path host]
  by (auto simp: router_index_def Let_def split: option.splits)

text \<open>The routes that serve a path, and whether a plain route answers \<open>GET\<close> on it.\<close>

definition served_methods :: "('h, 'm, 'c) Router \<Rightarrow> string list \<Rightarrow> string option \<Rightarrow> string set" where
  "served_methods r segs host = {rt_method rt | rt. rt \<in> set (routes r) \<and> serves segs host rt} - {METHOD_ALL}"

definition get_routes :: "('h, 'm, 'c) Router \<Rightarrow> string list \<Rightarrow> string option \<Rightarrow> ('h, 'm, 'c) Route set" where
  "get_routes r segs host = {rt \<in> set (routes r). admissible (skip_http host) ''GET'' segs rt}"

lemma implicit_head_cases:
  assumes "wf_router r" "decode_path_segments pd path = Inr segs"
  obtains m r' where "resolve_http_method pd r ''GET'' path host = (Val (Inr m), r')" "wf_router r'" "routes r' = routes r"
    "m = None \<longleftrightarrow> get_routes r segs host = {}"
    "\<And>x. m = Some x \<Longrightarrow> \<exists>rt \<in> get_routes r segs host. mr_handler x = rt_handler rt \<and> mr_middlewares x = rt_middlewares rt"
proof -
  let ?b = "best_route (skip_http host) r ''GET'' segs"
  let ?m = "map_option (\<lambda>i. matched (routes r ! i)
    (the (match_decoded_pattern (segments (rt_pattern (routes r ! i))) segs))) ?b"
  let ?l = "resolve_http_method pd r ''GET'' path host"
  have "fst ?l = Val (Inr ?m)" using resolve_with_best [OF assms] by (simp add: resolve_http_method_def)
  then have "?l = (Val (Inr ?m), snd ?l)" by (metis prod.collapse)
  moreover have "wf_router (snd ?l)" "routes (snd ?l) = routes r"
    using wf_lookup_state(1) [OF assms(1)] lookup_keeps_routes(2) by (auto simp: resolve_http_method_def)
  moreover have "?m = None \<longleftrightarrow> get_routes r segs host = {}"
    by (auto simp: best_route_None get_routes_def in_set_conv_nth)
  moreover have "\<exists>rt \<in> get_routes r segs host. mr_handler x = rt_handler rt \<and> mr_middlewares x = rt_middlewares rt"
    if "?m = Some x" for x
    using that best_route_Some [of "skip_http host" r "''GET''" segs]
    by (fastforce simp: get_routes_def matched_def)
  ultimately show thesis by (rule that)
qed

definition answers_with :: "'s handler \<Rightarrow> nat \<Rightarrow> (HeaderMap \<Rightarrow> bool) \<Rightarrow> bool" where
  "answers_with h status ok \<longleftrightarrow>
     (\<forall>rq s. \<exists>resp. h rq s = Some (s, Val resp) \<and> rs_status resp = status \<and> build_error resp = None \<and> ok (rs_headers resp))"

lemma not_found_answers: "http_laws http \<Longrightarrow> answers_with (not_found_handler http) 404 (\<lambda>h. h = [])"
  by (simp add: answers_with_def not_found_handler_def from_error_def error_defs set_status_def Response_bytes_def
      http_lawsD(4))

lemma allow_answers:
  assumes "http_laws http" "list_all visible allow"
  shows "answers_with (options_handler http allow) 204 (\<lambda>h. hm_get_all h ''allow'' = [allow])"
    "answers_with (method_not_allowed_handler http allow) 405 (\<lambda>h. hm_get_all h ''allow'' = [allow])"
proof -
  have n: "header_name http ''allow'' = Some ''allow''"
    using http_lawsD(5) [OF assms(1), of "''allow''"]
    by (simp add: is_ascii_alphanumeric_def is_ascii_lower_def is_ascii_digit_def
        to_ascii_lowercase_def to_lower_def is_ascii_upper_def)
  have v: "header_value_ok http allow" using http_lawsD(2) [OF assms] .
  show "answers_with (options_handler http allow) 204 (\<lambda>h. hm_get_all h ''allow'' = [allow])"
    by (simp add: answers_with_def options_handler_def rs_header_def try_set_header_def n v set_status_def
        Response_send_def Response_bytes_def http_lawsD(4) [OF assms(1)] get_all_Cons)
  show "answers_with (method_not_allowed_handler http allow) 405 (\<lambda>h. hm_get_all h ''allow'' = [allow])"
    by (simp add: answers_with_def method_not_allowed_handler_def v from_error_def error_defs set_status_def
        Response_bytes_def http_lawsD(4) [OF assms(1)] get_all_Cons)
qed

lemma miss_stages:
  assumes wf: "wf_router r" and segs: "decode_path_segments (ev_pd env) path = Inr segs"
    and names: "list_all (\<lambda>rt. list_all visible (rt_method rt)) (routes r)"
  obtains ms g out sc r2 r3 where "wf_router r2" "wf_router r3" "set ms = served_methods r segs host"
    "g = None \<longleftrightarrow> get_routes r segs host = {}" "\<And>x. g = Some x \<Longrightarrow> mr_handler x \<in> rt_handler ` get_routes r segs host"
    "distinct out" "list_all visible (join '', '' out)"
    "set out = served_methods r segs host \<union> (if get_routes r segs host \<noteq> {} then {''HEAD''} else {}) \<union> {''OPTIONS''}"
    "resolve_miss env r method path host =
    (if ms = [] then (Val (Inr (synthetic_match (not_found_handler (ev_http env)) [])), r2)
     else if method = ''HEAD'' \<and> g \<noteq> None then (Val (Inr (the g)), r2)
     else (Val (Inr (synthetic_match (if method = ''OPTIONS'' then options_handler (ev_http env) (join '', '' out)
                       else method_not_allowed_handler (ev_http env) (join '', '' out)) sc)), r3))"
proof -
  obtain ms r1 where ms: "allowed_methods (ev_pd env) r path host = (Val (Inr ms), r1)" "distinct ms"
    "set ms = served_methods r segs host" "wf_router r1" "routes r1 = routes r"
    using allowed_methods_wf [OF wf segs, of host] wf_lookup_state(2) [OF wf, of "ev_pd env" path host]
      lookup_keeps_routes(1) [of "ev_pd env" r path host]
    by (cases "allowed_methods (ev_pd env) r path host") (auto simp: served_methods_def)
  obtain g r2 where g: "resolve_http_method (ev_pd env) r1 ''GET'' path host = (Val (Inr g), r2)" "wf_router r2"
    "routes r2 = routes r1" "g = None \<longleftrightarrow> get_routes r1 segs host = {}"
    "\<And>x. g = Some x \<Longrightarrow> \<exists>rt \<in> get_routes r1 segs host. mr_handler x = rt_handler rt \<and> mr_middlewares x = rt_middlewares rt"
    by (rule implicit_head_cases [OF ms(4) segs, of host]) metis
  have eq: "get_routes r1 segs host = get_routes r segs host" by (simp add: get_routes_def ms(5))
  obtain sc r3 where sc: "scoped_middlewares (ev_pd env) r2 path host = (Val (Inr sc), r3)" "wf_router r3"
    using scoped_not_Panic [OF g(2), of "ev_pd env" path host] wf_lookup_state(3) [OF g(2), of "ev_pd env" path host] segs
    by (cases "scoped_middlewares (ev_pd env) r2 path host")
      (auto simp: scoped_middlewares_def Let_def split: outcome.splits option.splits prod.splits if_splits)
  obtain out where out: "allow_header_value ms (g \<noteq> None) = join '', '' out" "distinct out"
    "set out = set ms \<union> (if g \<noteq> None then {''HEAD''} else {}) \<union> {''OPTIONS''}"
    using allow_methods [OF ms(2)] by metis
  have "list_all visible n" if "n \<in> set ms" for n
    using that names ms(3) by (auto simp: served_methods_def list_all_iff)
  then have vis: "list_all visible (join '', '' out)"
    by (intro visible_join) (auto simp: out(3) visible_def)
  have miss: "resolve_miss env r method path host =
    (if ms = [] then (Val (Inr (synthetic_match (not_found_handler (ev_http env)) [])), r2)
     else if method = ''HEAD'' \<and> g \<noteq> None then (Val (Inr (the g)), r2)
     else (Val (Inr (synthetic_match (if method = ''OPTIONS'' then options_handler (ev_http env) (join '', '' out)
                       else method_not_allowed_handler (ev_http env) (join '', '' out)) sc)), r3))"
    unfolding resolve_miss_def and_then_def Let_def out(1) [symmetric] by (simp add: ms(1) g(1) sc(1) del: not_None_eq)
  have g': "g = None \<longleftrightarrow> get_routes r segs host = {}" using g(4) by (simp add: eq)
  show ?thesis
  proof (rule that [OF g(2) sc(2) ms(3) g' _ out(2) vis _ miss])
    show "mr_handler x \<in> rt_handler ` get_routes r segs host" if "g = Some x" for x using g(5) [OF that] by (auto simp: eq)
    show "set out = served_methods r segs host \<union> (if get_routes r segs host \<noteq> {} then {''HEAD''} else {}) \<union> {''OPTIONS''}"
      using out(3) ms(3) g' by simp
  qed
qed

text \<open>
  Claim C18: what is answered to a request that no route takes. On a path that no route serves the
  answer is \<open>404\<close>. On a path that is served for other methods, \<open>HEAD\<close> runs the handler of
  a plain route that answers \<open>GET\<close> if there is one, \<open>OPTIONS\<close> is answered with \<open>204\<close> and any other
  method with \<open>405\<close>; both list in \<open>Allow\<close>, without repetition, exactly the methods that the path
  is served for, \<open>HEAD\<close> if \<open>GET\<close> would be answered, and \<open>OPTIONS\<close>.
\<close>

theorem miss_answers:
  assumes laws: "http_laws (ev_http env)" and wf: "wf_router r"
    and segs: "decode_path_segments (ev_pd env) path = Inr segs"
    and names: "list_all (\<lambda>rt. list_all visible (rt_method rt)) (routes r)"
  shows "\<exists>m r'. resolve_miss env r method path host = (Val (Inr m), r') \<and> wf_router r' \<and>
    (if served_methods r segs host = {} then answers_with (mr_handler m) 404 (\<lambda>h. h = [])
     else if method = ''HEAD'' \<and> get_routes r segs host \<noteq> {}
     then mr_handler m \<in> rt_handler ` get_routes r segs host
     else \<exists>ms. distinct ms \<and>
       set ms = served_methods r segs host \<union> (if get_routes r segs host \<noteq> {} then {''HEAD''} else {}) \<union> {''OPTIONS''} \<and>
       answers_with (mr_handler m) (if method = ''OPTIONS'' then 204 else 405)
         (\<lambda>h. hm_get_all h ''allow'' = [join '', '' ms]))"
proof (rule miss_stages [OF wf segs names, of host "method"])
  fix ms g out sc r2 r3
  assume wfs: "wf_router r2" "wf_router r3" and ms: "set ms = served_methods r segs host"
    and g: "g = None \<longleftrightarrow> get_routes r segs host = {}" "\<And>x. g = Some x \<Longrightarrow> mr_handler x \<in> rt_handler ` get_routes r segs host"
    and out: "distinct out" "list_all visible (join '', '' out)"
      "set out = served_methods r segs host \<union> (if get_routes r segs host \<noteq> {} then {''HEAD''} else {}) \<union> {''OPTIONS''}"
    and miss: "resolve_miss env r method path host =
    (if ms = [] then (Val (Inr (synthetic_match (not_found_handler (ev_http env)) [])), r2)
     else if method = ''HEAD'' \<and> g \<noteq> None then (Val (Inr (the g)), r2)
     else (Val (Inr (synthetic_match (if method = ''OPTIONS'' then options_handler (ev_http env) (join '', '' out)
                       else method_not_allowed_handler (ev_http env) (join '', '' out)) sc)), r3))"
  note answers = not_found_answers [OF laws] allow_answers [OF laws out(2)]
  have empty: "served_methods r segs host = {} \<longleftrightarrow> ms = []" using ms by auto
  consider "ms = []" | "ms \<noteq> []" "method = ''HEAD''" "g \<noteq> None" | "ms \<noteq> []" "\<not> (method = ''HEAD'' \<and> g \<noteq> None)" by blast
  then show ?thesis
  proof cases
    case 1
    with wfs show ?thesis by (simp add: miss empty synthetic_match_def answers(1))
  next
    case 2
    then obtain x where x: "g = Some x" by blast
    have "resolve_miss env r method path host = (Val (Inr x), r2)" using miss 2 x by simp
    then show ?thesis using 2(1,2) wfs(1) g x by (auto simp: empty)
  next
    case 3
    let ?h = "if method = ''OPTIONS'' then options_handler (ev_http env) (join '', '' out)
      else method_not_allowed_handler (ev_http env) (join '', '' out)"
    have "answers_with ?h (if method = ''OPTIONS'' then 204 else 405) (\<lambda>h. hm_get_all h ''allow'' = [join '', '' out])"
      by (simp add: answers(2,3))
    moreover have "\<not> (method = ''HEAD'' \<and> get_routes r segs host \<noteq> {})" using 3(2) g(1) by simp
    ultimately show ?thesis using 3(1) wfs(2) out(1,3) unfolding miss empty
      by (intro exI [of _ "synthetic_match ?h sc"] exI [of _ r3])
        (simp only: if_False if_not_P [OF 3(1)] if_not_P [OF 3(2)] synthetic_match_def MatchedRoute.select_convs
          simp_thms prod.inject refl, blast)
  qed
qed

definition two_methods :: "nat app_router" where
  "two_methods = router_run clock_router_env Router_new
     [OpAdd ''GET'' ''/u'' (\<lambda>_ s. Some (s, Val (Response_send ''u''))) Http,
      OpAdd ''POST'' ''/u'' (\<lambda>_ s. Some (s, Val (Response_send ''new''))) Http]"

theorem miss_answers_witness:
  "\<exists>m r'. resolve_miss clock_env two_methods ''PUT'' ''/u'' None = (Val (Inr m), r') \<and> wf_router r' \<and>
    (if served_methods two_methods [''u''] None = {} then answers_with (mr_handler m) 404 (\<lambda>h. h = [])
     else if ''PUT'' = ''HEAD'' \<and> get_routes two_methods [''u''] None \<noteq> {}
     then mr_handler m \<in> rt_handler ` get_routes two_methods [''u''] None
     else \<exists>ms. distinct ms \<and>
       set ms = served_methods two_methods [''u''] None \<union>
         (if get_routes two_methods [''u''] None \<noteq> {} then {''HEAD''} else {}) \<union> {''OPTIONS''} \<and>
       answers_with (mr_handler m) (if ''PUT'' = ''OPTIONS'' then 204 else 405)
         (\<lambda>h. hm_get_all h ''allow'' = [join '', '' ms]))"
proof (rule miss_answers)
  show "http_laws (ev_http clock_env)" by (simp add: clock_env_def demo_http_laws)
  show "wf_router two_methods" unfolding two_methods_def by (rule clock_router_wf)
  show "decode_path_segments (ev_pd clock_env) ''/u'' = Inr [''u'']" by code_simp
  show "list_all (\<lambda>rt. list_all visible (rt_method rt)) (routes two_methods)" by code_simp
qed

section \<open>Trailing slashes\<close>

definition escape_backslashes :: "string \<Rightarrow> string" where
  "escape_backslashes s = concat (map (\<lambda>c. if code c = 92 then ''%5C'' else [c]) s)"

lemma escaped_path:
  assumes "s \<noteq> []" "hd s = CHR ''/''" "last s \<noteq> CHR ''/''"
  obtains u where "escape_backslashes s = CHR ''/'' # u" "list_all (\<lambda>c. code c \<noteq> 92) (escape_backslashes s)"
    "dropWhile (\<lambda>x. x = CHR ''/'') (escape_backslashes s) \<noteq> []"
proof -
  obtain u where u: "s = CHR ''/'' # u" using assms(1,2) by (cases s) auto
  have "last s \<in> set s" using assms(1) by simp
  then have "\<exists>c \<in> set (escape_backslashes s). c \<noteq> CHR ''/''"
    using assms(3) unfolding escape_backslashes_def by (cases "code (last s) = 92") force+
  then have "dropWhile (\<lambda>x. x = CHR ''/'') (escape_backslashes s) \<noteq> []" by (auto simp: dropWhile_eq_Nil_conv)
  moreover have "list_all (\<lambda>c. code c \<noteq> 92) (escape_backslashes s)"
    by (auto simp: escape_backslashes_def list_all_iff)
  moreover have "escape_backslashes s = CHR ''/'' # escape_backslashes u" by (simp add: escape_backslashes_def u)
  ultimately show thesis by (intro that)
qed

lemma redirect_location_local:
  assumes "rq_path rq = CHR ''/'' # p"
  shows "\<exists>rest. redirect_location rq = CHR ''/'' # rest \<and> (\<forall>c. rest \<noteq> [] \<and> c = hd rest \<longrightarrow> c \<noteq> CHR ''/'' \<and> code c \<noteq> 92)"
proof -
  define stem where "stem = trim_end_char (CHR ''/'') (rq_path rq)"
  define t where "t = escape_backslashes stem"
  define location where "location = (if t = [] then ''/''
    else if starts_with ''//'' t then CHR ''/'' # trim_start_char (CHR ''/'') t else t)"
  have red: "redirect_location rq = (case raw_query rq of None \<Rightarrow> location | Some q \<Rightarrow> location @ ''?'' @ q)"
    by (simp only: redirect_location_def location_def t_def stem_def escape_backslashes_def Let_def)
  have "\<exists>rest. location = CHR ''/'' # rest \<and> (rest \<noteq> [] \<longrightarrow> hd rest \<noteq> CHR ''/'' \<and> code (hd rest) \<noteq> 92)"
  proof (cases "stem = []")
    case True
    then show ?thesis by (simp add: location_def t_def escape_backslashes_def)
  next
    case False
    have "rq_path rq = stem @ rev (takeWhile (\<lambda>x. x = CHR ''/'') (rev (rq_path rq)))"
      unfolding stem_def trim_end_char.simps rev_append [symmetric] takeWhile_dropWhile_id by simp
    then have first: "hd stem = CHR ''/''" using False assms by (metis hd_append2 list.sel(1))
    have "last stem \<noteq> CHR ''/''"
      using False hd_dropWhile [of "\<lambda>x. x = CHR ''/''" "rev (rq_path rq)"]
      by (simp add: stem_def last_rev)
    then obtain u where u: "t = CHR ''/'' # u" "list_all (\<lambda>c. code c \<noteq> 92) t"
      "dropWhile (\<lambda>x. x = CHR ''/'') t \<noteq> []"
      unfolding t_def by (rule escaped_path [OF False first])
    show ?thesis
    proof (cases "starts_with ''//'' t")
      case True
      let ?d = "dropWhile (\<lambda>x. x = CHR ''/'') t"
      have "hd ?d \<in> set t" using u(3) by (metis hd_in_set set_dropWhileD)
      then have "code (hd ?d) \<noteq> 92" using u(2) by (simp add: list_all_iff)
      moreover have "location = CHR ''/'' # ?d" using True u(1) by (simp add: location_def)
      ultimately show ?thesis using hd_dropWhile [OF u(3)] by blast
    next
      case False
      then have "location = CHR ''/'' # u" using u(1) by (simp add: location_def)
      moreover have "hd u \<noteq> CHR ''/''" if "u \<noteq> []" using False u(1) that by (cases u) (auto simp: starts_with_def)
      moreover have "code (hd u) \<noteq> 92" if "u \<noteq> []" using u(1,2) that by (cases u) simp_all
      ultimately show ?thesis by blast
    qed
  qed
  then obtain rest where rest: "location = CHR ''/'' # rest"
    "rest \<noteq> [] \<longrightarrow> hd rest \<noteq> CHR ''/'' \<and> code (hd rest) \<noteq> 92" by blast
  show ?thesis
    using rest by (cases "raw_query rq"; cases rest) (simp_all add: red)
qed

lemma encode_location_head:
  "rest \<noteq> [] \<Longrightarrow> hd rest \<noteq> CHR ''/'' \<Longrightarrow> hd (encode_location rest) \<noteq> CHR ''/'' \<and> code (hd (encode_location rest)) \<noteq> 92"
  by (cases rest) (auto simp: location_char_def is_escape_def is_ascii_alphanumeric_def is_ascii_digit_def
      is_ascii_upper_def is_ascii_lower_def)

text \<open>
  Claim C19: the redirect of a path with trailing slashes stays on the host. Its \<open>Location\<close> is one
  field of visible ASCII that starts with one slash followed by neither a slash nor a
  backslash, whatever the path and the query hold, so no client reads it as the name of
  another host; the response is a valid \<open>308\<close>.
\<close>

theorem slash_redirect_local:
  assumes laws: "http_laws (ev_http env)" and path: "rq_path rq = CHR ''/'' # p"
    and h: "trailing_slash_miss env app rq = Some h" "cfg_trailing_slash (app_config app) = RedirectSlash"
  shows "\<exists>resp rest. h rq' s = Some (s, Val resp) \<and> rs_status resp = 308 \<and> build_error resp = None \<and>
    hm_get_all (rs_headers resp) ''location'' = [CHR ''/'' # rest] \<and> list_all visible rest \<and>
    (rest = [] \<or> hd rest \<noteq> CHR ''/'' \<and> code (hd rest) \<noteq> 92)"
proof -
  let ?l = "encode_location (redirect_location rq)"
  from redirect_location_local [OF path] obtain u where
    u: "redirect_location rq = CHR ''/'' # u" "u \<noteq> [] \<longrightarrow> hd u \<noteq> CHR ''/''" by blast
  have l: "?l = CHR ''/'' # encode_location u" by (simp add: u(1) location_char_def)
  have n: "header_name (ev_http env) ''location'' = Some ''location''"
    using http_lawsD(5) [OF laws, of "''location''"]
    by (simp add: is_ascii_alphanumeric_def is_ascii_lower_def is_ascii_digit_def to_ascii_lowercase_def
        to_lower_def is_ascii_upper_def)
  have vis: "list_all visible ?l" using encode_location_safe by blast
  let ?resp = "redirect_with_status (ev_http env) (redirect_location rq) 308"
  have "h rq' s = Some (s, Val ?resp)"
    using h by (auto simp: trailing_slash_miss_def split: if_splits)
  moreover have "rs_status ?resp = 308 \<and> build_error ?resp = None \<and> hm_get_all (rs_headers ?resp) ''location'' = [?l]"
    using http_lawsD(2) [OF laws vis] http_lawsD(4) [OF laws]
    by (simp add: redirect_with_status_def rs_header_def try_set_header_def n set_status_def Response_send_def
        Response_bytes_def get_all_Cons)
  moreover have "list_all visible (encode_location u)" using vis by (simp add: l)
  moreover have "encode_location u = [] \<or>
    hd (encode_location u) \<noteq> CHR ''/'' \<and> code (hd (encode_location u)) \<noteq> 92"
    using u(2) encode_location_head [of u] by (cases "u = []") simp_all
  ultimately show ?thesis by (metis l)
qed

definition slash_app :: "nat App" where
  "slash_app = app_trailing_slash RedirectSlash App_new"

definition slash_request :: Request where
  "slash_request = builder_build (builder_path ''//evil.test/%5C/?q=1'' RequestBuilder_new)"

theorem slash_redirect_local_witness:
  "\<exists>h resp rest. trailing_slash_miss clock_env slash_app slash_request = Some h \<and>
    h slash_request 0 = Some (0, Val resp) \<and> rs_status resp = 308 \<and>
    hm_get_all (rs_headers resp) ''location'' = [CHR ''/'' # rest] \<and> (rest = [] \<or> hd rest \<noteq> CHR ''/'')"
proof -
  have laws: "http_laws (ev_http clock_env)" by (simp add: clock_env_def demo_http_laws)
  have path: "rq_path slash_request = CHR ''/'' # ''/evil.test/%5C/''" by code_simp
  have redirect: "cfg_trailing_slash (app_config slash_app) = RedirectSlash"
    by (simp add: slash_app_def app_trailing_slash_def)
  obtain h where h: "trailing_slash_miss clock_env slash_app slash_request = Some h"
    unfolding trailing_slash_miss_def redirect path by (simp add: ends_with_def)
  from slash_redirect_local [OF laws path h redirect, of slash_request 0] h show ?thesis by blast
qed

end
