(* ===== verification/Ip_Address.thy ===== *)
theory Ip_Address
  imports Prelude
begin

text \<open>
  The part of \<open>std::net\<close> that the request head uses: reading an \<open>Ipv6Addr\<close> from text and printing it.
  An address is the list of its eight groups. A reader takes the text and returns what it read
  and the rest.
\<close>

section \<open>Reading\<close>

definition read_number :: "(char \<Rightarrow> bool) \<Rightarrow> (char \<Rightarrow> nat) \<Rightarrow> nat \<Rightarrow> nat \<Rightarrow> bool \<Rightarrow> nat \<Rightarrow> string \<Rightarrow> (nat \<times> string) option" where
  "read_number digit digit_value radix max_digits allow_zero_prefix max_value s =
     (let ds = takeWhile digit s; n = foldl (\<lambda>acc c. acc * radix + digit_value c) 0 ds
      in if ds = [] \<or> length ds > max_digits then None
         else if \<not> allow_zero_prefix \<and> hd ds = CHR ''0'' \<and> length ds > 1 then None
         else if n > max_value then None
         else Some (n, dropWhile digit s))"

definition read_separator :: "char \<Rightarrow> nat \<Rightarrow> (string \<Rightarrow> ('a \<times> string) option) \<Rightarrow> string \<Rightarrow> ('a \<times> string) option" where
  "read_separator sep index inner s =
     (if index = 0 then inner s
      else (case s of [] \<Rightarrow> None | c # r \<Rightarrow> if c = sep then inner r else None))"

definition read_octet :: "nat \<Rightarrow> string \<Rightarrow> (nat \<times> string) option" where
  "read_octet index = read_separator (CHR ''.'') index (read_number is_ascii_digit digit_val 10 3 False 255)"

definition read_ipv4_addr :: "string \<Rightarrow> (nat list \<times> string) option" where
  "read_ipv4_addr s =
     Option.bind (read_octet 0 s) (\<lambda>(a, s).
     Option.bind (read_octet 1 s) (\<lambda>(b, s).
     Option.bind (read_octet 2 s) (\<lambda>(c, s).
     Option.bind (read_octet 3 s) (\<lambda>(d, s). Some ([a, b, c, d], s)))))"

text \<open>
  The loop over at most \<open>limit\<close> groups, \<open>i\<close> of which are read: the groups, whether an embedded
  IPv4 address ended them, and the rest.
\<close>

function read_groups :: "nat \<Rightarrow> nat \<Rightarrow> string \<Rightarrow> nat list \<times> bool \<times> string" where
  "read_groups limit i s =
     (if limit \<le> i then ([], False, s)
      else
        (case (if i < limit - 1 then read_separator (CHR '':'') i read_ipv4_addr s else None) of
           Some ([a, b, c, d], r) \<Rightarrow> ([a * 256 + b, c * 256 + d], True, r)
         | _ \<Rightarrow>
             (case read_separator (CHR '':'') i (read_number is_ascii_hexdigit hex_val 16 4 True 65535) s of
                None \<Rightarrow> ([], False, s)
              | Some (g, r) \<Rightarrow> (case read_groups limit (i + 1) r of (gs, v4, t) \<Rightarrow> (g # gs, v4, t)))))"
  by pat_completeness auto
termination
  by (relation "measure (\<lambda>(limit, i, _). limit - i)") auto

declare read_groups.simps [simp del]

definition read_ipv6_addr :: "string \<Rightarrow> (nat list \<times> string) option" where
  "read_ipv6_addr s =
     (case read_groups 8 0 s of
        (front, v4, r) \<Rightarrow>
          if length front = 8 then Some (front, r)
          else if v4 then None
          else (case r of
                  c1 # c2 # t \<Rightarrow>
                    if c1 = CHR '':'' \<and> c2 = CHR '':'' then
                      (case read_groups (8 - (length front + 1)) 0 t of
                         (rear, _, u) \<Rightarrow> Some (front @ replicate (8 - length front - length rear) 0 @ rear, u))
                    else None
                | _ \<Rightarrow> None))"

text \<open>\<open>str::parse::<Ipv6Addr>\<close>: the whole text must be read.\<close>

definition parse_ipv6 :: "string \<Rightarrow> nat list option" where
  "parse_ipv6 s = (case read_ipv6_addr s of Some (a, []) \<Rightarrow> Some a | _ \<Rightarrow> None)"

section \<open>Printing\<close>

definition hex_lower :: "nat \<Rightarrow> char" where
  "hex_lower n = (if n < 10 then char_of (48 + n) else char_of (87 + n))"

fun show_hex :: "nat \<Rightarrow> string" where
  "show_hex n = (if n < 16 then [hex_lower n] else show_hex (n div 16) @ [hex_lower (n mod 16)])"

declare show_hex.simps [simp del]

text \<open>The longest run of zero groups: its start and length, the first of several.\<close>

fun zero_span :: "nat list \<Rightarrow> nat \<Rightarrow> nat \<times> nat \<Rightarrow> nat \<times> nat \<Rightarrow> nat \<times> nat" where
  "zero_span [] i current longest = longest"
| "zero_span (g # gs) i current longest =
     (if g = 0 then
        let c = ((if snd current = 0 then i else fst current), snd current + 1)
        in zero_span gs (i + 1) c (if snd c > snd longest then c else longest)
      else zero_span gs (i + 1) (0, 0) longest)"

definition show_ipv6 :: "nat list \<Rightarrow> string" where
  "show_ipv6 gs =
     (if take 6 gs = [0, 0, 0, 0, 0, 65535] then
        ''::ffff:'' @ join ''.'' (map show_nat [gs ! 6 div 256, gs ! 6 mod 256, gs ! 7 div 256, gs ! 7 mod 256])
      else
        (case zero_span gs 0 (0, 0) (0, 0) of
           (start, len) \<Rightarrow>
             if len > 1 then
               join '':'' (map show_hex (take start gs)) @ ''::'' @ join '':'' (map show_hex (drop (start + len) gs))
             else join '':'' (map show_hex gs)))"

lemma ipv6_examples:
  "map_option show_ipv6 (parse_ipv6 ''2001:0DB8:0000:0000:0000:0000:0000:0001'') = Some ''2001:db8::1''"
  "map_option show_ipv6 (parse_ipv6 ''::1'') = Some ''::1''"
  "map_option show_ipv6 (parse_ipv6 ''1::'') = Some ''1::''"
  "map_option show_ipv6 (parse_ipv6 ''::'') = Some ''::''"
  "map_option show_ipv6 (parse_ipv6 ''::FFFF:1.2.3.4'') = Some ''::ffff:1.2.3.4''"
  "map_option show_ipv6 (parse_ipv6 ''1:0:0:2:0:0:0:3'') = Some ''1:0:0:2::3''"
  "parse_ipv6 ''1:2:3:4:5:6:7'' = None" "parse_ipv6 ''1:2:3:4:5:6:7:8:9'' = None"
  "parse_ipv6 ''1::2::3'' = None" "parse_ipv6 '':1'' = None" "parse_ipv6 ''12345::'' = None"
  by code_simp+

end
