(* ===== verification/Request_Head.thy ===== *)
theory Request_Head
  imports App Ip_Address
begin

text \<open>
  The head of an inbound request (\<open>src/app/server.rs\<close>): its limits, its authority, and the
  detection of a WebSocket upgrade. A \<open>hyper::Request\<close> is a record of what the transport parsed.
\<close>

record HyperRequest =
  hq_version :: Version
  hq_method :: string
  hq_uri :: Uri
  hq_headers :: HeaderMap
  hq_body :: BodyStream

section \<open>Authorities\<close>

definition parse_authority_port :: "string \<Rightarrow> nat option" where
  "parse_authority_port raw =
     (if raw = [] \<or> \<not> list_all is_ascii_digit raw then None
      else if dec_val raw \<le> 65535 then Some (dec_val raw) else None)"

record ValidatedAuthority =
  va_host :: string
  va_port :: "nat option"

definition has_space :: "string \<Rightarrow> bool" where
  "has_space s \<longleftrightarrow> (case utf8_decode s of None \<Rightarrow> False | Some cs \<Rightarrow> list_ex is_whitespace cs)"

definition authority_parse :: "uri_crate \<Rightarrow> string \<Rightarrow> ValidatedAuthority option" where
  "authority_parse uris raw =
     (if raw = [] \<or> CHR ''@'' \<in> set raw \<or> CHR ''/'' \<in> set raw \<or> char_of (92 :: nat) \<in> set raw \<or>
         has_control raw \<or> has_space raw \<or> \<not> parse_authority uris raw
      then None
      else
        (case strip_prefix ''['' raw of
           Some bracketed \<Rightarrow>
             (case split_once (CHR '']'') bracketed of
                None \<Rightarrow> None
              | Some (inside, suffix) \<Rightarrow>
                  (case parse_ipv6 inside of
                     None \<Rightarrow> None
                   | Some address \<Rightarrow>
                       if suffix = []
                       then Some \<lparr>va_host = ''['' @ show_ipv6 address @ '']'', va_port = None\<rparr>
                       else (case Option.bind (strip_prefix '':'' suffix) parse_authority_port of
                               None \<Rightarrow> None
                             | Some port \<Rightarrow> Some \<lparr>va_host = ''['' @ show_ipv6 address @ '']'', va_port = Some port\<rparr>)))
         | None \<Rightarrow>
             if CHR ''['' \<in> set raw \<or> CHR '']'' \<in> set raw \<or> count_list raw (CHR '':'') > 1 then None
             else
               (case split_once (CHR '':'') raw of
                  Some (host, port) \<Rightarrow>
                    (case parse_authority_port port of
                       None \<Rightarrow> None
                     | Some p \<Rightarrow>
                         if host = [] then None else Some \<lparr>va_host = to_ascii_lowercase host, va_port = Some p\<rparr>)
                | None \<Rightarrow> Some \<lparr>va_host = to_ascii_lowercase raw, va_port = None\<rparr>)))"

definition authority_normalized :: "ValidatedAuthority \<Rightarrow> string" where
  "authority_normalized a =
     (case va_port a of Some port \<Rightarrow> va_host a @ '':'' @ show_nat port | None \<Rightarrow> va_host a)"

definition or_port_default :: "nat option \<Rightarrow> nat option \<Rightarrow> nat option" where
  "or_port_default port d = (case port of None \<Rightarrow> d | Some p \<Rightarrow> Some p)"

definition equivalent_to :: "ValidatedAuthority \<Rightarrow> ValidatedAuthority \<Rightarrow> nat option \<Rightarrow> bool" where
  "equivalent_to a b default_port \<longleftrightarrow>
     va_host a = va_host b \<and> or_port_default (va_port a) default_port = or_port_default (va_port b) default_port"

definition default_port_for_uri :: "Uri \<Rightarrow> nat option" where
  "default_port_for_uri uri =
     (case uri_scheme uri of
        None \<Rightarrow> None
      | Some scheme \<Rightarrow>
          if eq_ignore_ascii_case scheme ''http'' \<or> eq_ignore_ascii_case scheme ''ws'' then Some 80
          else if eq_ignore_ascii_case scheme ''https'' \<or> eq_ignore_ascii_case scheme ''wss'' then Some 443
          else None)"

section \<open>Limits\<close>

definition request_target_len :: "string \<Rightarrow> Uri \<Rightarrow> nat" where
  "request_target_len method uri =
     (if method = ''CONNECT'' \<and> uri_scheme uri = None
      then (case uri_authority uri of None \<Rightarrow> 0 | Some a \<Rightarrow> length a)
      else
        let path_and_query = (case uri_path_and_query uri of None \<Rightarrow> length (uri_path uri) | Some v \<Rightarrow> length v)
        in (case (uri_scheme uri, uri_authority uri) of
              (Some scheme, Some authority) \<Rightarrow>
                usize_saturating_add
                  (usize_saturating_add (usize_saturating_add (length scheme) 3) (length authority)) path_and_query
            | _ \<Rightarrow> path_and_query))"

definition request_header_text :: "string \<Rightarrow> string option" where
  "request_header_text v = (if is_str v then Some v else None)"

definition header_bytes :: "HeaderMap \<Rightarrow> nat" where
  "header_bytes h =
     foldl (\<lambda>total (name, v). usize_saturating_add (usize_saturating_add total (length name)) (length v)) 0 h"

section \<open>Validation\<close>

definition invalid_authority :: "string \<Rightarrow> HttpError" where
  "invalid_authority message = HttpError_new 400 ''invalid_authority'' message"

text \<open>The stages of \<open>validate_request_head\<close>: the limits, the \<open>Host\<close> field, and the two authorities.\<close>

definition validate_head_limits :: "ServerConfig \<Rightarrow> string \<Rightarrow> Uri \<Rightarrow> HeaderMap \<Rightarrow> HttpError + unit" where
  "validate_head_limits c method uri h =
     (if request_target_len method uri > cfg_max_request_target_bytes c
      then Inl (HttpError_new 414 ''request_target_too_large''
                  ''El objetivo de la solicitud supera el limite configurado'')
      else if (case uri_query uri of None \<Rightarrow> 0 | Some q \<Rightarrow> length q) > cfg_max_query_bytes c
      then Inl (HttpError_new 414 ''query_too_large'' ''La consulta supera el limite configurado'')
      else if length h > cfg_max_request_header_count c
      then Inl (HttpError_new 431 ''too_many_headers'' ''La solicitud contiene demasiados encabezados'')
      else if header_bytes h > cfg_max_request_header_bytes c
      then Inl (HttpError_new 431 ''request_headers_too_large''
                  ''Los encabezados de la solicitud superan el limite configurado'')
      else if list_ex (\<lambda>(_, v). request_header_text v = None) h
      then Inl (HttpError_new 400 ''invalid_header_value''
                  ''La solicitud contiene un valor de encabezado no valido'')
      else if hm_contains h ''transfer-encoding'' \<and> hm_contains h ''content-length''
      then Inl (HttpError_new 400 ''ambiguous_message_framing''
                  ''Transfer-Encoding y Content-Length no pueden combinarse'')
      else Inr ())"

definition validate_host_field ::
  "http_crate \<Rightarrow> uri_crate \<Rightarrow> HeaderMap \<Rightarrow> HttpError + ValidatedAuthority option" where
  "validate_host_field http uris h =
     (case hm_get_all h ''host'' of
        [] \<Rightarrow> Inr None
      | [v] \<Rightarrow>
          if \<not> to_str_ok http v then Inl (invalid_authority ''El encabezado Host no es valido'')
          else (case authority_parse uris v of
                  None \<Rightarrow> Inl (invalid_authority ''El encabezado Host no es valido'')
                | Some a \<Rightarrow> Inr (Some a))
      | _ \<Rightarrow> Inl (invalid_authority ''La solicitud contiene mas de un encabezado Host''))"

definition validate_uri_authority :: "uri_crate \<Rightarrow> Uri \<Rightarrow> HttpError + ValidatedAuthority option" where
  "validate_uri_authority uris uri =
     (case uri_authority uri of
        None \<Rightarrow> Inr None
      | Some a \<Rightarrow>
          (case authority_parse uris a of
             None \<Rightarrow> Inl (invalid_authority ''La autoridad del objetivo de solicitud no es valida'')
           | Some v \<Rightarrow> Inr (Some v)))"

definition validate_request_head ::
  "http_crate \<Rightarrow> uri_crate \<Rightarrow> ServerConfig \<Rightarrow> Version \<Rightarrow> string \<Rightarrow> Uri \<Rightarrow> HeaderMap \<Rightarrow> HttpError + string option" where
  "validate_request_head http uris c version method uri h =
     (case validate_head_limits c method uri h of
        Inl e \<Rightarrow> Inl e
      | Inr _ \<Rightarrow>
          (case validate_host_field http uris h of
             Inl e \<Rightarrow> Inl e
           | Inr host \<Rightarrow>
               (case validate_uri_authority uris uri of
                  Inl e \<Rightarrow> Inl e
                | Inr target \<Rightarrow>
                    if version = HTTP_11 \<and> host = None
                    then Inl (invalid_authority ''HTTP/1.1 requiere exactamente un encabezado Host'')
                    else if (case (host, target) of
                               (Some a, Some b) \<Rightarrow> \<not> equivalent_to a b (default_port_for_uri uri) | _ \<Rightarrow> False)
                    then Inl (invalid_authority ''Host y :authority no coinciden'')
                    else
                      let authority = (case host of Some a \<Rightarrow> Some a | None \<Rightarrow> target)
                      in if authority = None \<and> (version = HTTP_11 \<or> version = HTTP_2 \<or> version = HTTP_3)
                         then Inl (invalid_authority ''La solicitud no incluye Host o :authority'')
                         else Inr (map_option authority_normalized authority))))"

definition is_websocket_upgrade_request ::
  "http_crate \<Rightarrow> (string \<Rightarrow> string option) \<Rightarrow> HyperRequest \<Rightarrow> bool" where
  "is_websocket_upgrade_request http b64 rq \<longleftrightarrow>
     hq_version rq = HTTP_11 \<and> eq_ignore_ascii_case (hq_method rq) ''GET'' \<and>
     list_ex (\<lambda>v. to_str_ok http v \<and> header_value_contains_token v ''websocket'') (hm_get_all (hq_headers rq) ''upgrade'') \<and>
     list_ex (\<lambda>v. to_str_ok http v \<and> header_value_contains_token v ''upgrade'') (hm_get_all (hq_headers rq) ''connection'') \<and>
     (case hm_get (hq_headers rq) ''sec-websocket-key'' of
        None \<Rightarrow> False | Some v \<Rightarrow> to_str_ok http v \<and> is_valid_websocket_key b64 v) \<and>
     (case hm_get (hq_headers rq) ''sec-websocket-version'' of
        None \<Rightarrow> False | Some v \<Rightarrow> to_str_ok http v \<and> v = ''13'')"

section \<open>The request the framework sees\<close>

definition request_of :: "'s app_env \<Rightarrow> 's App \<Rightarrow> HyperRequest \<Rightarrow> (nat \<times> nat) option \<Rightarrow> bool \<Rightarrow> string option \<Rightarrow> Request" where
  "request_of env app rq remote over_tls authority =
     (let uri = hq_uri rq;
          fields = hq_headers rq;
          pairs = (if map_of (map_extend [] fields) ''host'' \<noteq> None then fields
                   else (case authority of None \<Rightarrow> fields | Some a \<Rightarrow> fields @ [(''host'', a)]));
          limit = cfg_max_body_size (app_config app)
      in \<lparr>rq_version = hq_version rq, rq_method = hq_method rq, rq_path = uri_path uri, raw_query = uri_query uri,
          rq_query = (case uri_query uri of None \<Rightarrow> [] | Some q \<Rightarrow> parse_query q),
          rq_headers = map_extend [] pairs,
          rq_cookies = foldl (\<lambda>cookies v. map_extend cookies (parse_cookies v)) [] (hm_get_all fields ''cookie''),
          rq_body = body_incoming (hq_body rq) limit, rq_body_limit = limit, rq_params = Map.empty,
          rq_route_pattern = None, resolved_websocket_config = None,
          rq_upgrade = is_websocket_upgrade_request (ev_http env) (ev_b64 env) rq,
          remote_addr = remote, secure_transport = over_tls, header_pairs = pairs, rq_session_id = None\<rparr>)"

end
