(* ===== verification/Server.thy ===== *)
theory Server
  imports Request_Head Http1
begin

text \<open>
  From a parsed request to the response on the wire (\<open>src/app/server.rs\<close>, \<open>into_hyper\<close> of
  \<open>src/app/response.rs\<close>): the translation of the request and the response, the verdicts of the HTTP/1
  inspector, and the detection of the protocol of a connection.
\<close>

section \<open>Responses on the wire\<close>

datatype Frame = DataFrame string | TrailersFrame HeaderMap | ErrorFrame BoxError

record HyperResponse =
  hp_status :: nat
  hp_version :: Version
  hp_headers :: HeaderMap
  hp_frames :: "Frame list"

definition stream_frames :: "(BoxError + string) list \<Rightarrow> Frame list" where
  "stream_frames chunks = map (\<lambda>c. case c of Inl e \<Rightarrow> ErrorFrame e | Inr b \<Rightarrow> DataFrame b) chunks"

definition body_frames :: "BodyKind \<Rightarrow> HeaderMap option \<Rightarrow> Frame list" where
  "body_frames body trailers =
     (case (body, trailers) of
        (BBytes b, None) \<Rightarrow> if b = [] then [] else [DataFrame b]
      | (BStream chunks, None) \<Rightarrow> stream_frames chunks
      | (BEmpty, None) \<Rightarrow> []
      | (BBytes b, Some t) \<Rightarrow> [DataFrame b, TrailersFrame t]
      | (BStream chunks, Some t) \<Rightarrow> stream_frames chunks @ [TrailersFrame t]
      | (BEmpty, Some t) \<Rightarrow> [TrailersFrame t])"

definition into_hyper :: "http_crate \<Rightarrow> (string \<Rightarrow> string option) \<Rightarrow> Response \<Rightarrow> HyperResponse outcome option" where
  "into_hyper http b64 r0 =
     (case finalize http b64 r0 of
        None \<Rightarrow> None
      | Some r \<Rightarrow>
          Some (if \<not> status_ok http (rs_status r) then Panic
                else if \<not> status_has_no_content (rs_status r) \<and> \<not> hm_contains (rs_headers r) ''content-type'' \<and>
                        \<not> header_value_ok http (content_type r) then Panic
                else Val \<lparr>hp_status = rs_status r, hp_version = HTTP_11,
                          hp_headers =
                            (if \<not> status_has_no_content (rs_status r) \<and> \<not> hm_contains (rs_headers r) ''content-type''
                             then [(''content-type'', content_type r)] else []) @ rs_headers r,
                          hp_frames = body_frames (body_kind r) (rs_trailers r)\<rparr>))"

section \<open>Handling\<close>

definition hyper_outcome ::
  "'s app_env \<Rightarrow> ('s \<times> Response outcome) option \<Rightarrow> ('s \<times> HyperResponse outcome) option" where
  "hyper_outcome env res =
     (case res of
        None \<Rightarrow> None
      | Some (s, Panic) \<Rightarrow> Some (s, Panic)
      | Some (s, Val r) \<Rightarrow>
          (case into_hyper (ev_http env) (ev_b64 env) r of None \<Rightarrow> None | Some out \<Rightarrow> Some (s, out)))"

definition handle ::
  "'s app_env \<Rightarrow> 's App \<Rightarrow> HyperRequest \<Rightarrow> (nat \<times> nat) option \<Rightarrow> bool \<Rightarrow> 's \<Rightarrow>
     ('s \<times> HyperResponse outcome) option \<times> 's app_router" where
  "handle env app rq remote over_tls s =
     (case validate_request_head (ev_http env) (ev_uris env) (app_config app) (hq_version rq) (hq_method rq)
             (hq_uri rq) (hq_headers rq) of
        Inl e \<Rightarrow>
          (case error_response env app e s of
             (s', r) \<Rightarrow> (hyper_outcome env (Some (s', Val r)), app_router app))
      | Inr authority \<Rightarrow>
          (case run_request env app (request_of env app rq remote over_tls authority) s of
             (res, router) \<Rightarrow> (hyper_outcome env res, router)))"

definition rejected_head_response ::
  "http_crate \<Rightarrow> (string \<Rightarrow> string option) \<Rightarrow> string \<Rightarrow> string \<Rightarrow> bool \<Rightarrow> HyperResponse outcome option" where
  "rejected_head_response http b64 c message is_head =
     (case finalize http b64 (from_error http (HttpError_new 400 c message)) of
        None \<Rightarrow> None
      | Some r \<Rightarrow>
          if is_head then
            (case finalize http b64 (prepare_for_head http r) of None \<Rightarrow> None | Some r' \<Rightarrow> into_hyper http b64 r')
          else into_hyper http b64 r)"

definition force_connection_close :: "Version \<Rightarrow> HyperResponse \<Rightarrow> HyperResponse" where
  "force_connection_close request_version r =
     r\<lparr>hp_headers := hm_insert (hp_headers r) ''connection'' ''close'',
       hp_version := (if request_version = HTTP_10 then HTTP_10 else hp_version r)\<rparr>"

definition handle_http1 ::
  "'s app_env \<Rightarrow> 's App \<Rightarrow> HyperRequest \<Rightarrow> HeadVerdict \<Rightarrow> nat \<times> nat \<Rightarrow> bool \<Rightarrow> 's \<Rightarrow>
     ('s \<times> HyperResponse outcome) option \<times> 's app_router" where
  "handle_http1 env app rq verdict peer over_tls s =
     (let is_head = (hq_method rq = ''HEAD'');
          reject = (\<lambda>c message.
            ((case rejected_head_response (ev_http env) (ev_b64 env) c message is_head of
                None \<Rightarrow> None | Some out \<Rightarrow> Some (s, out)), app_router app));
          (res, router) =
            (case verdict of
               Ambiguous \<Rightarrow>
                 reject ''ambiguous_message_framing'' ''Transfer-Encoding y Content-Length no pueden combinarse''
             | Unclassified \<Rightarrow>
                 reject ''unverified_message_framing'' ''La solicitud no pudo verificarse en esta conexion''
             | _ \<Rightarrow> handle env app rq (Some peer) over_tls s)
      in ((case res of
             Some (s', Val r) \<Rightarrow>
               Some (s', Val (if verdict \<noteq> Persistent \<and> hp_status r \<noteq> 101
                              then force_connection_close (hq_version rq) r else r))
           | other \<Rightarrow> other), router))"

section \<open>The protocol of a connection\<close>

datatype ExpectedProtocol = ExpectAuto | ExpectHttp1 | ExpectHttp2
datatype DetectedProtocol = DetectedHttp1 | DetectedHttp2
datatype Http2PrefaceState = PrefacePending | PrefaceComplete | NotHttp2
datatype io_error = InvalidData | UnexpectedEof | ReadFailed

definition HTTP2_PREFACE :: string where
  "HTTP2_PREFACE =
     ''PRI * HTTP/2.0'' @ [char_of (13 :: nat), char_of (10 :: nat), char_of (13 :: nat), char_of (10 :: nat)] @
     ''SM'' @ [char_of (13 :: nat), char_of (10 :: nat), char_of (13 :: nat), char_of (10 :: nat)]"

definition HTTP2_MAX_INITIAL_SETTINGS_BYTES :: nat where "HTTP2_MAX_INITIAL_SETTINGS_BYTES = 16 * 1024"
definition HTTP2_FRAME_HEADER_BYTES :: nat where "HTTP2_FRAME_HEADER_BYTES = 9"

definition MAX_PREFACE_BYTES :: nat where
  "MAX_PREFACE_BYTES = length HTTP2_PREFACE + HTTP2_FRAME_HEADER_BYTES + HTTP2_MAX_INITIAL_SETTINGS_BYTES"

definition be_value :: "string \<Rightarrow> nat" where
  "be_value bytes = foldl (\<lambda>acc b. acc * 256 + code b) 0 bytes"

definition inspect_http2_client_preface :: "string \<Rightarrow> io_error + Http2PrefaceState" where
  "inspect_http2_client_preface bytes =
     (if length bytes < length HTTP2_PREFACE
      then Inr (if starts_with bytes HTTP2_PREFACE then PrefacePending else NotHttp2)
      else if \<not> starts_with HTTP2_PREFACE bytes then Inr NotHttp2
      else
        let frame = drop (length HTTP2_PREFACE) bytes in
        if length frame < HTTP2_FRAME_HEADER_BYTES then Inr PrefacePending
        else
          let payload_length = be_value (take 3 frame);
              frame_type = code (frame ! 3);
              flags = code (frame ! 4);
              stream_id = be_value (take 4 (drop 5 frame)) mod 2 ^ 31
          in if frame_type \<noteq> 4 \<or> odd flags \<or> stream_id \<noteq> 0 \<or> payload_length mod 6 \<noteq> 0 \<or>
                payload_length > HTTP2_MAX_INITIAL_SETTINGS_BYTES
             then Inl InvalidData
             else Inr (if length bytes \<ge> length HTTP2_PREFACE + HTTP2_FRAME_HEADER_BYTES + payload_length
                       then PrefaceComplete else PrefacePending))"

text \<open>
  A transport is the list of what its reads yield: bytes, or a failure; an empty piece, or the end
  of the list, is the end of input. A read takes at most the bytes asked for of the first
  piece and leaves the others.
\<close>

type_synonym transport = "(io_error + string) list"

definition io_read :: "nat \<Rightarrow> transport \<Rightarrow> (io_error + string) \<times> transport" where
  "io_read room io =
     (case io of
        [] \<Rightarrow> (Inr [], [])
      | Inl e # rest \<Rightarrow> (Inl e, rest)
      | Inr b # rest \<Rightarrow>
          if length b \<le> room then (Inr b, rest) else (Inr (take room b), Inr (drop room b) # rest))"

definition transport_size :: "transport \<Rightarrow> nat" where
  "transport_size io = sum_list (map (\<lambda>p. case p of Inl _ \<Rightarrow> 0 | Inr b \<Rightarrow> length b) io)"

lemma io_read_size: "io_read room io = (Inr b, rest) \<Longrightarrow> transport_size io = length b + transport_size rest"
  by (auto simp: io_read_def transport_size_def split: list.splits sum.splits if_splits)

text \<open>What is detected, the bytes read on the way, and what is left of the transport.\<close>

function inspect_connection ::
  "ExpectedProtocol \<Rightarrow> string \<Rightarrow> transport \<Rightarrow> io_error + (DetectedProtocol \<times> string \<times> transport)" where
  "inspect_connection expected prefix io =
     (case inspect_http2_client_preface prefix of
        Inl e \<Rightarrow> Inl e
      | Inr PrefaceComplete \<Rightarrow>
          if expected = ExpectHttp1 then Inl InvalidData else Inr (DetectedHttp2, prefix, io)
      | Inr NotHttp2 \<Rightarrow>
          if expected = ExpectHttp2 then Inl InvalidData else Inr (DetectedHttp1, prefix, io)
      | Inr PrefacePending \<Rightarrow>
          if length prefix \<ge> MAX_PREFACE_BYTES then Inl InvalidData
          else
            (case io_read (min (MAX_PREFACE_BYTES - length prefix) 4096) io of
               (Inl e, _) \<Rightarrow> Inl e
             | (Inr chunk, rest) \<Rightarrow>
                 if chunk = [] then
                   if expected = ExpectHttp2 \<or> (prefix \<noteq> [] \<and> starts_with prefix HTTP2_PREFACE) then Inl UnexpectedEof
                   else Inr (DetectedHttp1, prefix, rest)
                 else inspect_connection expected (prefix @ chunk) rest))"
  by pat_completeness auto
termination
  by (relation "measure (\<lambda>(_, _, io). transport_size io)") (auto dest!: io_read_size [OF sym])

declare inspect_connection.simps [simp del]

text \<open>\<open>PrefixedIo\<close>: the bytes of the preflight are read again before the transport.\<close>

record PrefixedIo =
  pi_prefix :: string
  pi_position :: nat
  pi_inner :: transport

definition PrefixedIo_new :: "transport \<Rightarrow> string \<Rightarrow> PrefixedIo" where
  "PrefixedIo_new inner prefix = \<lparr>pi_prefix = prefix, pi_position = 0, pi_inner = inner\<rparr>"

definition prefixed_read :: "nat \<Rightarrow> PrefixedIo \<Rightarrow> (io_error + string) \<times> PrefixedIo" where
  "prefixed_read room io =
     (if pi_position io < length (pi_prefix io) then
        let remaining = drop (pi_position io) (pi_prefix io);
            n = min (length remaining) room
        in (Inr (take n remaining), io\<lparr>pi_position := pi_position io + n\<rparr>)
      else (case io_read room (pi_inner io) of (res, inner) \<Rightarrow> (res, io\<lparr>pi_inner := inner\<rparr>)))"

section \<open>Admission\<close>

text \<open>The semaphore that counts connections: its free permits, if there is a limit.\<close>

definition connection_admission :: "ServerConfig \<Rightarrow> nat option" where
  "connection_admission c = cfg_max_connections c"

definition try_admit_connection :: "nat option \<Rightarrow> unit + nat option" where
  "try_admit_connection free =
     (case free of None \<Rightarrow> Inr None | Some n \<Rightarrow> if n = 0 then Inl () else Inr (Some (n - 1)))"

end
