(* ===== verification/Server_Props.thy ===== *)
theory Server_Props
  imports Server App_Props
begin

text \<open>
  Properties of the server: the preflight of a connection loses nothing and reads a bounded
  prefix; a request head that is accepted is within the limits and names one host; what the
  HTTP/1 verdicts do to a connection; and two places where a promise of the code is broken.
\<close>

section \<open>The preflight\<close>

definition read_stream :: "transport \<Rightarrow> (io_error + char) list" where
  "read_stream io = concat (map (\<lambda>p. case p of Inl e \<Rightarrow> [Inl e] | Inr b \<Rightarrow> map Inr b) io)"

definition prefixed_stream :: "PrefixedIo \<Rightarrow> (io_error + char) list" where
  "prefixed_stream io = map Inr (drop (pi_position io) (pi_prefix io)) @ read_stream (pi_inner io)"

definition read_events :: "io_error + string \<Rightarrow> (io_error + char) list" where
  "read_events res = (case res of Inl e \<Rightarrow> [Inl e] | Inr b \<Rightarrow> map Inr b)"

lemma io_read_stream: "io_read room io = (res, rest) \<Longrightarrow> read_events res @ read_stream rest = read_stream io"
  by (auto simp: io_read_def read_events_def read_stream_def simp flip: map_append split: list.splits sum.splits if_splits)

lemma io_read_room: "io_read room io = (Inr b, rest) \<Longrightarrow> length b \<le> room"
  by (auto simp: io_read_def split: list.splits sum.splits if_splits)

lemma prefixed_read_stream:
  assumes "prefixed_read room io = (res, io')"
  shows "read_events res @ prefixed_stream io' = prefixed_stream io"
proof (cases "pi_position io < length (pi_prefix io)")
  case True
  let ?r = "drop (pi_position io) (pi_prefix io)"
  have "res = Inr (take (min (length ?r) room) ?r)" "io' = io\<lparr>pi_position := pi_position io + min (length ?r) room\<rparr>"
    using assms True by (auto simp: prefixed_read_def Let_def)
  moreover have "take n ?r @ drop (pi_position io + n) (pi_prefix io) = ?r" for n
    by (metis append_take_drop_id drop_drop add.commute)
  ultimately show ?thesis
    by (simp add: prefixed_stream_def read_events_def flip: map_append append_assoc)
next
  case False
  then obtain inner where "io_read room (pi_inner io) = (res, inner)" "io' = io\<lparr>pi_inner := inner\<rparr>"
    using assms by (auto simp: prefixed_read_def split: prod.splits)
  with False io_read_stream show ?thesis by (simp add: prefixed_stream_def)
qed

text \<open>A sequence of reads, and what they yielded.\<close>

fun prefixed_reads :: "nat list \<Rightarrow> PrefixedIo \<Rightarrow> (io_error + char) list \<times> PrefixedIo" where
  "prefixed_reads [] io = ([], io)"
| "prefixed_reads (room # rooms) io =
     (case prefixed_read room io of
        (res, io1) \<Rightarrow> (case prefixed_reads rooms io1 of (evs, io2) \<Rightarrow> (read_events res @ evs, io2)))"

lemma prefixed_reads_stream:
  "prefixed_reads rooms io = (evs, io') \<Longrightarrow> evs @ prefixed_stream io' = prefixed_stream io"
proof (induction rooms arbitrary: io evs)
  case (Cons room rooms)
  then obtain res io1 evs1 where "prefixed_read room io = (res, io1)" "prefixed_reads rooms io1 = (evs1, io')"
    "evs = read_events res @ evs1" by (auto split: prod.splits)
  with Cons.IH [of io1 evs1] prefixed_read_stream show ?case by fastforce
qed simp

lemma inspect_lossless:
  "inspect_connection expected prefix io = Inr (proto, p, rest) \<Longrightarrow> length prefix \<le> MAX_PREFACE_BYTES \<Longrightarrow>
     map Inr p @ read_stream rest = map Inr prefix @ read_stream io \<and> length p \<le> MAX_PREFACE_BYTES \<and>
     (proto = DetectedHttp2 \<longrightarrow> expected \<noteq> ExpectHttp1 \<and> inspect_http2_client_preface p = Inr PrefaceComplete) \<and>
     (proto = DetectedHttp1 \<longrightarrow> expected \<noteq> ExpectHttp2 \<and> (p = [] \<or> inspect_http2_client_preface p = Inr NotHttp2 \<or>
        \<not> starts_with p HTTP2_PREFACE))"
proof (induction expected prefix io rule: inspect_connection.induct)
  case (1 expected prefix io)
  let ?room = "min (MAX_PREFACE_BYTES - length prefix) 4096"
  show ?case
  proof (cases "inspect_http2_client_preface prefix")
    case (Inl e)
    with 1(2) show ?thesis by (simp add: inspect_connection.simps [of expected prefix io])
  next
    case (Inr st)
    show ?thesis
    proof (cases st)
      case PrefacePending
      obtain res rest1 where read: "io_read ?room io = (res, rest1)" by fastforce
      from Inr PrefacePending 1(2) read obtain chunk where chunk: "res = Inr chunk" "length prefix < MAX_PREFACE_BYTES"
        by (cases res) (auto simp: inspect_connection.simps [of expected prefix io] split: if_splits)
      note stream = io_read_stream [OF read] and room = io_read_room [OF read [unfolded chunk(1)]]
      show ?thesis
      proof (cases "chunk = []")
        case True
        with Inr PrefacePending 1(2,3) read chunk stream show ?thesis
          by (auto simp: inspect_connection.simps [of expected prefix io] read_events_def split: if_splits)
      next
        case False
        with Inr PrefacePending 1(2) read chunk have "inspect_connection expected (prefix @ chunk) rest1 = Inr (proto, p, rest)"
          by (simp add: inspect_connection.simps [of expected prefix io] split: if_splits)
        moreover have "length (prefix @ chunk) \<le> MAX_PREFACE_BYTES" using room chunk(2) by simp linarith
        ultimately show ?thesis
          using 1(1) [OF Inr PrefacePending _ read [symmetric] chunk(1) False] chunk stream by (simp add: read_events_def)
      qed
    qed (use Inr 1(2,3) in \<open>auto simp: inspect_connection.simps [of expected prefix io] split: if_splits\<close>)
  qed
qed

text \<open>
  The detection of the protocol of a connection is transparent and bounded. If it does
  not refuse the connection, whoever reads the connection afterwards - in reads of any
  sizes - sees exactly the bytes and failures the client's transport had; at most the 24 bytes of
  the preface, one frame header and 16 KiB were buffered; HTTP/2 is chosen only for a
  complete preface with a valid \<open>SETTINGS\<close> frame, and never against the protocol that was negotiated.
\<close>

theorem preflight_transparent:
  assumes "inspect_connection expected [] io = Inr (proto, prefix, rest)"
    and "prefixed_reads rooms (PrefixedIo_new rest prefix) = (evs, io')"
  shows "evs @ prefixed_stream io' = read_stream io \<and> length prefix \<le> 24 + 9 + 16384 \<and>
    (proto = DetectedHttp2 \<longrightarrow> expected \<noteq> ExpectHttp1 \<and> inspect_http2_client_preface prefix = Inr PrefaceComplete) \<and>
    (proto = DetectedHttp1 \<longrightarrow> expected \<noteq> ExpectHttp2)"
  using inspect_lossless [OF assms(1)] prefixed_reads_stream [OF assms(2)]
  by (simp add: prefixed_stream_def PrefixedIo_new_def MAX_PREFACE_BYTES_def HTTP2_PREFACE_def
      HTTP2_FRAME_HEADER_BYTES_def HTTP2_MAX_INITIAL_SETTINGS_BYTES_def)

definition split_get :: transport where
  "split_get = [Inr ''P'', Inr ''OST / HTTP'', Inl ReadFailed]"

theorem preflight_transparent_witness:
  "inspect_connection ExpectAuto [] split_get = Inr (DetectedHttp1, ''POST / HTTP'', [Inl ReadFailed]) \<and>
   fst (prefixed_reads [3, 100, 7] (PrefixedIo_new [Inl ReadFailed] ''POST / HTTP'')) = read_stream split_get"
proof -
  have i: "inspect_connection ExpectAuto [] split_get = Inr (DetectedHttp1, ''POST / HTTP'', [Inl ReadFailed])"
    by code_simp
  obtain evs io' where r: "prefixed_reads [3, 100, 7] (PrefixedIo_new [Inl ReadFailed] ''POST / HTTP'') = (evs, io')"
    by fastforce
  have "prefixed_stream (snd (prefixed_reads [3, 100, 7] (PrefixedIo_new [Inl ReadFailed] ''POST / HTTP''))) = []"
    by code_simp
  with preflight_transparent [OF i r] i r show ?thesis by simp
qed

section \<open>Accepted heads\<close>

definition lower_names :: "HeaderMap \<Rightarrow> bool" where
  "lower_names h \<longleftrightarrow> (\<forall>(n, _) \<in> set h. to_ascii_lowercase n = n)"

lemma lower_literals [simp]: "to_ascii_lowercase ''host'' = ''host''"
  by (simp add: to_ascii_lowercase_def to_lower_def is_ascii_upper_def)

lemma cookies_of_get_all:
  assumes "lower_names h"
  shows "cookies_of h = foldl (\<lambda>cookies v. map_extend cookies (parse_cookies v)) [] (hm_get_all h ''cookie'')"
proof -
  have "foldl (\<lambda>cookies (name, v). if eq_ignore_ascii_case name ''cookie'' then map_extend cookies (parse_cookies v) else cookies) m h =
    foldl (\<lambda>cookies v. map_extend cookies (parse_cookies v)) m (hm_get_all h ''cookie'')" for m
    using assms by (induction h arbitrary: m) (auto simp: lower_names_def get_all_Cons eq_ignore_ascii_case_def)
  then show ?thesis by (simp add: cookies_of_def)
qed

lemma headers_all_get_all:
  assumes "lower_names (header_pairs rq)" "to_ascii_lowercase n = n"
  shows "headers_all rq n = hm_get_all (header_pairs rq) n"
proof -
  have "filter (\<lambda>(k, _). eq_ignore_ascii_case k n) h = filter (\<lambda>(k, _). k = n) h" if "lower_names h" for h
    using that assms(2) by (auto simp: lower_names_def eq_ignore_ascii_case_def intro!: filter_cong)
  then show ?thesis using assms(1) by (simp add: headers_all_def hm_get_all_def)
qed

lemma map_of_extend_contains: "map_of (map_extend [] h) n \<noteq> None \<longleftrightarrow> hm_contains h n"
  by (force simp: map_of_extend hm_contains_def hm_get_all_def filter_empty_conv map_of_eq_None_iff)

text \<open>The request of an accepted head: its fields, with the authority added when there is no \<open>Host\<close>.\<close>

lemma request_of_pairs:
  "header_pairs (request_of env app rq remote tls authority) =
     (if hm_contains (hq_headers rq) ''host'' then hq_headers rq
      else (case authority of None \<Rightarrow> hq_headers rq | Some a \<Rightarrow> hm_append (hq_headers rq) ''host'' a))"
  unfolding request_of_def Let_def hm_append_def map_of_extend_contains by (simp split: option.split)

lemma request_of_views:
  assumes "lower_names (hq_headers rq)"
  shows "views_ok (request_of env app rq remote tls authority)"
proof -
  let ?r = "request_of env app rq remote tls authority"
  have low: "lower_names (header_pairs ?r)"
    using assms by (auto simp: request_of_pairs lower_names_def hm_append_def split: option.split)
  have "hm_get_all (header_pairs ?r) ''cookie'' = hm_get_all (hq_headers rq) ''cookie''"
    by (auto simp: request_of_pairs split: option.split)
  then have "cookies_of (header_pairs ?r) = rq_cookies ?r"
    unfolding cookies_of_get_all [OF low] by (simp add: request_of_def Let_def)
  moreover have "rq_headers ?r = map_extend [] (header_pairs ?r)" by (simp add: request_of_def Let_def)
  ultimately show ?thesis
    using low distinct_cookies_of [of "header_pairs ?r"]
    by (auto simp: views_ok_def lower_names_def map_of_extend distinct_extend)
qed

lemma head_limits_ok:
  assumes "validate_head_limits c m uri h = Inr ()"
  shows "request_target_len m uri \<le> cfg_max_request_target_bytes c" "length h \<le> cfg_max_request_header_count c"
    "header_bytes h \<le> cfg_max_request_header_bytes c" "list_all (\<lambda>(_, v). is_str v) h"
    "\<not> (hm_contains h ''transfer-encoding'' \<and> hm_contains h ''content-length'')"
  using assms by (auto simp: validate_head_limits_def request_header_text_def list_ex_iff list_all_iff split: if_splits)

lemma header_bytes_eq: "header_bytes h = min (sum_list (map (\<lambda>(n, v). length n + length v) h)) u64_max"
proof -
  have "foldl (\<lambda>total (name, v). usize_saturating_add (usize_saturating_add total (length name)) (length v)) (min a u64_max) h =
    min (a + sum_list (map (\<lambda>(n, v). length n + length v) h)) u64_max" for a
  proof (induction h arbitrary: a)
    case (Cons f h)
    obtain n v where f: "f = (n, v)" by (cases f)
    have "usize_saturating_add (usize_saturating_add (min a u64_max) (length n)) (length v) = min (a + length n + length v) u64_max"
      by (auto simp: usize_saturating_add_def min_def)
    with Cons [of "a + length n + length v"] show ?case by (simp add: f ac_simps)
  qed simp
  from this [of 0] show ?thesis by (simp add: header_bytes_def)
qed

lemma head_cases:
  assumes "validate_request_head http uris c v m uri h = Inr authority"
  obtains host target where "validate_head_limits c m uri h = Inr ()" "validate_host_field http uris h = Inr host"
    "validate_uri_authority uris uri = Inr target" "v = HTTP_11 \<Longrightarrow> host \<noteq> None"
    "\<And>a b. host = Some a \<Longrightarrow> target = Some b \<Longrightarrow> equivalent_to a b (default_port_for_uri uri)"
    "v \<in> {HTTP_11, HTTP_2, HTTP_3} \<Longrightarrow> host \<noteq> None \<or> target \<noteq> None"
    "authority = map_option authority_normalized (case host of Some a \<Rightarrow> Some a | None \<Rightarrow> target)"
proof -
  obtain host target where st: "validate_head_limits c m uri h = Inr ()" "validate_host_field http uris h = Inr host"
    "validate_uri_authority uris uri = Inr target"
    using assms by (auto simp: validate_request_head_def split: sum.splits)
  show thesis
    by (rule that [OF st])
      (use assms in \<open>auto simp: validate_request_head_def st Let_def split: if_splits option.splits\<close>)
qed

lemma authority_parse_clean:
  "authority_parse uris raw = Some a \<Longrightarrow>
     raw \<noteq> [] \<and> CHR ''@'' \<notin> set raw \<and> CHR ''/'' \<notin> set raw \<and> \<not> has_control raw \<and> \<not> has_space raw"
  by (auto simp: authority_parse_def split: if_splits)

lemma host_field_cases:
  assumes "validate_host_field http uris h = Inr host"
  obtains "host = None" "hm_get_all h ''host'' = []"
  | v a where "host = Some a" "hm_get_all h ''host'' = [v]" "authority_parse uris v = Some a"
proof (cases "hm_get_all h ''host''")
  case Nil
  with assms that(1) show thesis by (simp add: validate_host_field_def)
next
  case (Cons v vs)
  show thesis
  proof (cases "authority_parse uris v")
    case None
    with assms Cons show thesis by (cases vs) (simp_all add: validate_host_field_def split: if_splits)
  next
    case (Some a)
    with assms Cons have "host = Some a" "vs = []"
      by (cases vs; simp add: validate_host_field_def split: if_splits)+
    with Some Cons show thesis by (intro that(2)) simp_all
  qed
qed

lemma framing_lower: "to_ascii_lowercase ''transfer-encoding'' = ''transfer-encoding''"
  "to_ascii_lowercase ''content-length'' = ''content-length''"
  by code_simp+


definition plain_request :: HyperRequest where
  "plain_request =
     \<lparr>hq_version = HTTP_11, hq_method = ''GET'',
      hq_uri = \<lparr>uri_scheme = Some ''http'', uri_authority = Some ''a.test:80'', uri_path_and_query = Some ''/x'',
        uri_path = ''/x'', uri_query = None\<rparr>,
      hq_headers = [(''host'', ''A.test''), (''x-y'', ''z'')], hq_body = []\<rparr>"


section \<open>The verdicts of the HTTP/1 inspector\<close>

lemma into_hyper_ok:
  assumes "http_laws http"
  shows "\<exists>r out. finalize http b64 r0 = Some r \<and> into_hyper http b64 r0 = Some (Val out) \<and> hp_status out = rs_status r \<and>
    hp_headers out = rs_headers r \<and> hp_frames out = body_frames (body_kind r) (rs_trailers r)"
proof -
  obtain r r1 where "finalize http b64 r0 = Some r" "finalize_once http b64 r1 = Inr r"
    by (rule finalize_returns [OF assms])
  moreover from once_framed [OF assms this(2)] have "well_framed http r" .
  then have "status_ok http (rs_status r)" "\<not> (\<not> status_has_no_content (rs_status r) \<and> \<not> hm_contains (rs_headers r) ''content-type'')"
    using http_lawsD(4) [OF assms] by (auto simp: well_framed_def split: if_splits)
  ultimately show ?thesis by (auto simp: into_hyper_def)
qed

lemma plain_error_once:
  assumes laws: "http_laws http" and "400 \<le> status" "status \<le> 599"
  shows "\<exists>g. finalize_once http b64 (from_error http (HttpError_new status c m)) = Inr g \<and> rs_status g = status"
proof -
  let ?r = "from_error http (HttpError_new status c m)"
  have s: "status_ok http status" using assms http_lawsD(4) [OF laws] by simp
  have v: "header_value_ok http ''application/problem+json''"
    by (rule http_lawsD(2) [OF laws]) (simp add: visible_def)
  have r: "rs_status ?r = status" "rs_headers ?r = []" "rs_trailers ?r = None" "build_error ?r = None"
    "content_type ?r = ''application/problem+json''" "body_kind ?r = BBytes (problem_json http status c m)"
    using s by (simp_all add: from_error_def HttpError_new_def set_status_def Response_bytes_def)
  have n: "\<not> status_has_no_content status" using assms(2,3) by (auto simp: status_has_no_content_def is_informational_def)
  have "finalize_status http b64 ?r = None" "finalize_trailers http ?r = Inr ?r"
    using r s assms(2) by (simp_all add: finalize_status_def is_informational_def finalize_trailers_def)
  moreover have "finalize_framing http ?r status = Inr (?r\<lparr>rs_headers := []\<rparr>)"
    using r n assms(2) by (simp add: finalize_framing_def content_length_absent mismatch_def)
  moreover obtain g where "finalize_content http (?r\<lparr>rs_headers := []\<rparr>) = Inr g" "rs_status g = status"
    using r v n by (simp add: finalize_content_def Let_def)
  ultimately show ?thesis using r(1) by (simp add: finalize_once_def)
qed

lemma rejected_ok:
  assumes laws: "http_laws http" and fits: "length (problem_json http 400 c m) \<le> u64_max"
  shows "\<exists>out. rejected_head_response http b64 c m is_head = Some (Val out) \<and> hp_status out = 400 \<and>
    (is_head \<longrightarrow> hp_frames out = [])"
proof -
  let ?r = "from_error http (HttpError_new 400 c m)"
  have body: "body_kind ?r = BBytes (problem_json http 400 c m)"
    by (simp add: from_error_def HttpError_new_def set_status_def Response_bytes_def record_build_error_def)
  obtain g where g: "finalize_once http b64 ?r = Inr g" "rs_status g = 400"
    using plain_error_once [OF laws, of 400 b64 c m] by auto
  have small: "length b \<le> u64_max" if "body_kind ?r = BBytes b" for b using that fits body by simp
  have small': "length b \<le> u64_max" if "body_kind g = BBytes b" for b
    using once_body [OF g(1)] that small by auto
  have again: "finalize_once http b64 g = Inr g" by (rule once_again [OF laws g(1) small])
  obtain q where q: "finalize_once http b64 (prepare_for_head http g) = Inr q" "body_kind q = BEmpty" "rs_status q = 400"
    using head_again [OF laws again small'] g(2) by auto
  have "body_kind (prepare_for_head http g) = BEmpty"
    by (simp add: prepare_for_head_def Let_def clear_body_def)
  then have q': "finalize_once http b64 q = Inr q" by (intro once_again [OF laws q(1)]) simp
  obtain o1 where o1: "into_hyper http b64 g = Some (Val o1)" "hp_status o1 = 400"
    using into_hyper_ok [OF laws, of b64 g] finalize_once_Inr [OF again] g(2) by auto
  obtain o2 where o2: "into_hyper http b64 q = Some (Val o2)" "hp_status o2 = 400"
    "hp_frames o2 = body_frames BEmpty (rs_trailers q)"
    using into_hyper_ok [OF laws, of b64 q] finalize_once_Inr [OF q'] q(2,3) by auto
  have "rs_trailers q = None"
  proof -
    have "rs_trailers (prepare_for_head http g) = None"
      by (auto simp: prepare_for_head_def Let_def clear_body_def preserve_buffered_representation_length_def
          record_build_error_def split: BodyKind.split sum.split option.split prod.split)
    with q(1) show ?thesis
      by (elim once_cases) (metis Response.select_convs(5) Response.surjective Response.update_convs(3)
          content_ok(1) framing_ok(6,7) trailers_ok(1))
  qed
  then show ?thesis
    using o1 o2 finalize_once_Inr [OF g(1)] finalize_once_Inr [OF q(1)]
    by (cases is_head) (auto simp: rejected_head_response_def body_frames_def)
qed

lemma handle_returns:
  assumes "http_laws (ev_http env)" "small_problems (ev_http env)" "timeout_laws (ev_timeout_at env)"
    and "wf_router (app_router app)"
    and "cfg_request_timeout (app_config app) = Some t" "ev_now env s + t \<le> ev_imax env"
  shows "\<exists>s' out router. handle env app rq remote tls s = (Some (s', Val out), router) \<and> wf_router router"
proof (cases "validate_request_head (ev_http env) (ev_uris env) (app_config app) (hq_version rq) (hq_method rq)
    (hq_uri rq) (hq_headers rq)")
  case (Inl e)
  obtain s' r where "error_response env app e s = (s', r)" by fastforce
  with Inl assms(4) into_hyper_ok [OF assms(1), of "ev_b64 env" r] show ?thesis
    by (auto simp: handle_def hyper_outcome_def)
next
  case (Inr authority)
  let ?r = "request_of env app rq remote tls authority"
  obtain s' out router where run: "run_request env app ?r s = (Some (s', Val out), router)" "wf_router router"
    using answered [OF assms] by blast
  with Inr into_hyper_ok [OF assms(1), of "ev_b64 env" out] show ?thesis
    by (auto simp: handle_def hyper_outcome_def)
qed

text \<open>
  Claim C21: what the verdicts of the HTTP/1 inspector do. Every request gets a response. A request
  whose framing is ambiguous or could not be verified is answered \<open>400\<close> without running any
  application code, and without a body for \<open>HEAD\<close>; and after any request that is not known to be
  followed by another one at a known place, unless the connection was handed over by \<open>101\<close>,
  the connection is closed: \<open>Connection: close\<close> is the one value, and an HTTP/1.0 request is
  answered in HTTP/1.0.
\<close>

theorem http1_verdicts_enforced:
  assumes "http_laws (ev_http env)" "small_problems (ev_http env)" "timeout_laws (ev_timeout_at env)"
    and "wf_router (app_router app)"
    and "cfg_request_timeout (app_config app) = Some t" "ev_now env s + t \<le> ev_imax env"
  shows "\<exists>s' out router. handle_http1 env app rq verdict peer tls s = (Some (s', Val out), router) \<and> wf_router router \<and>
    (verdict \<in> {Ambiguous, Unclassified} \<longrightarrow>
       s' = s \<and> hp_status out = 400 \<and> (hq_method rq = ''HEAD'' \<longrightarrow> hp_frames out = [])) \<and>
    (verdict \<noteq> Persistent \<and> hp_status out \<noteq> 101 \<longrightarrow>
       hm_get_all (hp_headers out) ''connection'' = [''close''] \<and> (hq_version rq = HTTP_10 \<longrightarrow> hp_version out = HTTP_10))"
proof -
  let ?http = "ev_http env" and ?b64 = "ev_b64 env" and ?head = "hq_method rq = ''HEAD''"
  have fits: "length (problem_json ?http 400 ''ambiguous_message_framing''
      ''Transfer-Encoding y Content-Length no pueden combinarse'') \<le> u64_max"
    "length (problem_json ?http 400 ''unverified_message_framing''
      ''La solicitud no pudo verificarse en esta conexion'') \<le> u64_max"
    using assms(2) by (simp_all add: small_problems_def)
  obtain a where a: "rejected_head_response ?http ?b64 ''ambiguous_message_framing''
      ''Transfer-Encoding y Content-Length no pueden combinarse'' ?head = Some (Val a)" "hp_status a = 400"
      "?head \<longrightarrow> hp_frames a = []" using rejected_ok [OF assms(1) fits(1), of ?b64 ?head] by blast
  obtain u where u: "rejected_head_response ?http ?b64 ''unverified_message_framing''
      ''La solicitud no pudo verificarse en esta conexion'' ?head = Some (Val u)" "hp_status u = 400"
      "?head \<longrightarrow> hp_frames u = []" using rejected_ok [OF assms(1) fits(2), of ?b64 ?head] by blast
  obtain s' out router where h: "handle env app rq (Some peer) tls s = (Some (s', Val out), router)" "wf_router router"
    using handle_returns [OF assms] by blast
  show ?thesis
    by (cases verdict)
      (use a u h assms(4) in \<open>auto simp: handle_http1_def force_connection_close_def\<close>)
qed

theorem http1_verdicts_enforced_witness:
  "\<exists>s' out router. handle_http1 clock_env stuck_app plain_request Ambiguous (1, 2) False 7 = (Some (s', Val out), router) \<and>
     wf_router router \<and> s' = 7 \<and> hp_status out = 400 \<and> hm_get_all (hp_headers out) ''connection'' = [''close'']"
proof -
  have laws: "http_laws (ev_http clock_env)" "timeout_laws (ev_timeout_at clock_env)"
    by (simp_all add: clock_env_def demo_http_laws clock_timeout_laws)
  have small: "small_problems (ev_http clock_env)" by code_simp
  have wf: "wf_router (app_router stuck_app)"
    using clock_router_wf by (simp add: stuck_app_def app_layer_def del: router_run.simps)
  have t: "cfg_request_timeout (app_config stuck_app) = Some (secs 30)" "ev_now clock_env 7 + secs 30 \<le> ev_imax clock_env"
    by code_simp+
  from http1_verdicts_enforced [OF laws(1) small laws(2) wf t, of plain_request Ambiguous "(1, 2)" False]
  show ?thesis by fastforce
qed

section \<open>Broken promises\<close>

definition lenient_app :: "nat App" where
  "lenient_app = set_error_handler (\<lambda>_ s. (s, Val (Response_send ''ok''))) App_new"

definition bad_connect :: HyperRequest where
  "bad_connect =
     \<lparr>hq_version = HTTP_11, hq_method = ''CONNECT'',
      hq_uri = \<lparr>uri_scheme = None, uri_authority = Some ''a.test:443'', uri_path_and_query = None,
        uri_path = [], uri_query = None\<rparr>,
      hq_headers = [(''host'', ''a.test''), (''host'', ''b.test'')], hq_body = []\<rparr>"


text \<open>
  Claim C23: the builder accepts a request timeout that no request survives. Unlike the other
  deadlines, \<open>request_timeout\<close> is not checked for being representable: with a duration beyond the range
  of \<open>Instant\<close>, for instance \<open>Duration::MAX\<close>, the sum with the current time panics for every request,
  outside every guard, and no response is sent; \<open>header_read_timeout\<close> refuses the same duration.
\<close>

theorem unrepresentable_timeout_panics:
  assumes "ev_imax env < t"
  shows "\<exists>app'. app_request_timeout t app = Val app' \<and>
    (\<forall>rq s. fst (run_request env app' rq s) = Some (s, Panic)) \<and>
    app_header_read_timeout (ev_imax env) now t app = Panic"
  using assms by (simp add: app_request_timeout_def app_header_read_timeout_def run_request_def dispatch_timed_def
      instant_checked_add_def deliver_outcome_def)

theorem unrepresentable_timeout_panics_witness:
  "\<exists>app'. app_request_timeout (secs 2000) (App_new :: nat App) = Val app' \<and>
    (\<forall>rq s. fst (run_request clock_env app' rq s) = Some (s, Panic)) \<and>
    app_header_read_timeout (ev_imax clock_env) 0 (secs 2000) (App_new :: nat App) = Panic"
  by (rule unrepresentable_timeout_panics) (simp add: clock_env_def)

end
