(* ===== verification/Refinement.thy ===== *)
theory Refinement
  imports Main
begin

text \<open>
  Functional refinement: an implementation \<open>step\<close> that answers every request as a specification
  \<open>spec\<close> does on the abstract state. The invariant carries a budget, the number of further steps
  for which no machine counter can wrap around.
\<close>

fun run_steps :: "('c \<Rightarrow> 'o \<Rightarrow> 'r \<times> 'c) \<Rightarrow> 'c \<Rightarrow> 'o list \<Rightarrow> 'r list \<times> 'c" where
  "run_steps step c [] = ([], c)"
| "run_steps step c (x # xs) =
     (case step c x of (r, c') \<Rightarrow> case run_steps step c' xs of (rs, c'') \<Rightarrow> (r # rs, c''))"

lemma run_steps_snd: "snd (run_steps step c (x # xs)) = snd (run_steps step (snd (step c x)) xs)"
  by (simp split: prod.split)

lemma run_steps_append: "snd (run_steps step c (xs @ ys)) = snd (run_steps step (snd (run_steps step c xs)) ys)"
  by (induction xs arbitrary: c) (simp_all only: append_Cons append_Nil run_steps_snd run_steps.simps(1) snd_conv)

locale simulation =
  fixes step :: "'c \<Rightarrow> 'o \<Rightarrow> 'r \<times> 'c" and spec :: "'p \<Rightarrow> 'o \<Rightarrow> 'r \<times> 'p"
    and inv :: "nat \<Rightarrow> 'c \<Rightarrow> bool" and abstraction :: "'c \<Rightarrow> 'p"
  assumes step_inv: "inv (Suc n) c \<Longrightarrow> inv n (snd (step c x))"
    and step_spec: "inv (Suc n) c \<Longrightarrow> spec (abstraction c) x = apsnd abstraction (step c x)"
begin

lemma run_inv: "inv (length xs + n) c \<Longrightarrow> inv n (snd (run_steps step c xs))"
proof (induction xs arbitrary: c)
  case (Cons x xs)
  obtain r c' where s: "step c x = (r, c')" by force
  from step_inv [of "length xs + n" c x] Cons.prems s have "inv (length xs + n) c'" by simp
  from Cons.IH [OF this] show ?case by (auto simp: s split: prod.split)
qed simp

lemma run_spec:
  "inv (length xs + n) c \<Longrightarrow> run_steps spec (abstraction c) xs = apsnd abstraction (run_steps step c xs)"
proof (induction xs arbitrary: c)
  case (Cons x xs)
  obtain r c' where s: "step c x = (r, c')" by force
  have "inv (length xs + n) c'" using step_inv [of "length xs + n" c x] Cons.prems s by simp
  moreover have "spec (abstraction c) x = (r, abstraction c')" using step_spec [of "length xs + n" c x] Cons.prems s by simp
  ultimately show ?case using Cons.IH [of c'] by (simp add: s split: prod.split)
qed simp

end

end
