(* ===== verification/Ws_Broker.thy ===== *)
theory Ws_Broker
  imports Ws_Config
begin

text \<open>
  What WebSocket nodes exchange (\<open>src/app/websocket/broker.rs\<close>) and the messages themselves. Node,
  publication and connection identifiers are 64-bit numbers.
\<close>

type_synonym WsNodeId = nat
type_synonym WsPublicationId = nat

datatype WsBrokerTarget = RouteRooms string "string list" | RouteAll string | AllRoutes

datatype WsBrokerPayload = TextPayload string | BinaryPayload bytes

record WsBrokerPublication =
  pb_id :: WsPublicationId
  pb_origin :: WsNodeId
  pb_target :: WsBrokerTarget
  pb_payload :: WsBrokerPayload

datatype WsBrokerError = Unavailable | BrokerTimeout | Lagged nat | InvalidPublication string | SubscriptionClosed

datatype WsBrokerErrorCategory = CatUnavailable | CatTimeout | CatLagged | CatInvalidPublication | CatSubscriptionClosed

fun broker_category :: "WsBrokerError \<Rightarrow> WsBrokerErrorCategory" where
  "broker_category Unavailable = CatUnavailable"
| "broker_category BrokerTimeout = CatTimeout"
| "broker_category (Lagged _) = CatLagged"
| "broker_category (InvalidPublication _) = CatInvalidPublication"
| "broker_category SubscriptionClosed = CatSubscriptionClosed"

text \<open>The messages of the crate \<open>tungstenite\<close>; a raw frame is never built by the code.\<close>

datatype WebSocketMessage = Text string | Binary bytes | Ping bytes | Pong bytes | Close "(nat \<times> string) option"

datatype WsRemotePublish = NotConfigured | Published

record WsBroadcastReport =
  br_matched :: nat
  br_enqueued :: nat
  br_rejected :: nat
  br_disconnected :: nat
  br_remote :: WsRemotePublish

datatype WsBroadcastError = InvalidMessage | InvalidBroadcastRoom string | Serialization string
  | BrokerFailure WsBrokerError WsBroadcastReport

end
