(* ===== verification/Ws_Registry.thy ===== *)
theory Ws_Registry
  imports Ws_Broker "HOL-Library.List_Lexorder" "HOL-Library.Char_ord"
begin

text \<open>
  The registry of WebSocket connections of a process (\<open>src/app/websocket/runtime.rs\<close>): admission,
  rooms, counters and shutdown. Every operation holds the lock of the registry while it changes
  it, so an execution with any number of tasks is a sequence of these operations. A \<open>HashMap\<close> is
  an association list, a \<open>HashSet\<close> a list without repetitions and a \<open>BTreeSet\<close> a strictly sorted
  list. The sender \<open>'s\<close> and the abort handle \<open>'a\<close> of a connection are opaque. An operation returns
  its result, the runtime, and what it reports to the observer.
\<close>

datatype WebSocketLifecycleState = Connecting | Open | Closing

record ('s, 'a) ConnectionEntry =
  ce_route :: string
  ce_remote_addr :: "(nat \<times> nat) option"
  ce_protocol :: "string option"
  ce_opened_at :: nat
  ce_close_timeout :: nat
  ce_max_rooms_per_connection :: nat
  ce_max_room_name_bytes :: nat
  ce_rooms :: "string list"
  ce_lifecycle :: WebSocketLifecycleState
  ce_internal_sender :: "'s option"
  ce_driver_abort :: "'a option"
  ce_forced_shutdown_observed :: bool

record WebSocketCounters =
  accepted_connections :: nat
  rejected_connections :: nat
  closed_connections :: nat
  messages_received :: nat
  messages_sent :: nat
  bytes_received :: nat
  bytes_sent :: nat
  saturated_sends :: nat
  heartbeat_timeouts :: nat
  room_joins :: nat
  room_leaves :: nat
  local_broadcasts :: nat
  partial_broadcasts :: nat
  broker_publications :: nat
  broker_errors :: nat

definition WebSocketCounters_default :: WebSocketCounters where
  "WebSocketCounters_default =
     \<lparr>accepted_connections = 0, rejected_connections = 0, closed_connections = 0, messages_received = 0,
      messages_sent = 0, bytes_received = 0, bytes_sent = 0, saturated_sends = 0, heartbeat_timeouts = 0,
      room_joins = 0, room_leaves = 0, local_broadcasts = 0, partial_broadcasts = 0, broker_publications = 0,
      broker_errors = 0\<rparr>"

record ('s, 'a) Registry =
  rg_accepting :: bool
  rg_connections :: "(nat \<times> ('s, 'a) ConnectionEntry) list"
  rg_route_counts :: "(string \<times> nat) list"
  rg_ip_counts :: "(nat \<times> nat) list"
  rg_rooms :: "((string \<times> string) \<times> nat list) list"
  rg_broker_connected :: bool
  rg_seen_publications :: "(WsNodeId \<times> WsPublicationId) list"
  rg_seen_publication_order :: "(WsNodeId \<times> WsPublicationId) list"
  rg_counters :: WebSocketCounters

definition MAX_SEEN_PUBLICATIONS :: nat where
  "MAX_SEEN_PUBLICATIONS = 4096"

record ('s, 'a) Runtime =
  rt_next_id :: nat
  rt_next_publication_id :: nat
  rt_broker_started :: bool
  rt_registry :: "('s, 'a) Registry"
  rt_shutdown :: bool
  rt_max_rooms_per_connection :: nat
  rt_max_room_name_bytes :: nat
  rt_broadcast_concurrency :: nat
  rt_broker_operation_timeout :: nat
  rt_node_id :: WsNodeId

datatype AdmissionError = Shutdown | ProcessCapacity | RouteCapacity | IpCapacity

fun admission_reason :: "AdmissionError \<Rightarrow> string" where
  "admission_reason Shutdown = ''shutdown''"
| "admission_reason ProcessCapacity = ''process_capacity''"
| "admission_reason RouteCapacity = ''route_capacity''"
| "admission_reason IpCapacity = ''ip_capacity''"

datatype WebSocketObservation =
    ObsAccepted nat string
  | ObsRejected string string
  | ObsOpened nat
  | ObsMessage nat bool nat
  | ObsQueueSaturated nat bool
  | ObsHeartbeatTimeout nat
  | ObsClosed nat "nat option" bool
  | ObsHandlerFailed nat
  | ObsForcedShutdown nat
  | ObsRoomJoined nat string string
  | ObsRoomLeft nat string string
  | ObsBroadcast "string option" nat nat nat nat nat WsRemotePublish
  | ObsBrokerConnected WsNodeId
  | ObsBrokerDisconnected WsNodeId WsBrokerErrorCategory
  | ObsBrokerLagged WsNodeId nat
  | ObsBrokerInvalidPublication WsNodeId WsPublicationId

section \<open>Construction\<close>

definition local_with_hub_config :: "nat \<Rightarrow> nat \<Rightarrow> nat \<Rightarrow> nat \<Rightarrow> WsNodeId \<Rightarrow> ('s, 'a) Runtime" where
  "local_with_hub_config max_rooms max_name concurrency broker_timeout node =
     \<lparr>rt_next_id = 1, rt_next_publication_id = 1, rt_broker_started = False,
      rt_registry =
        \<lparr>rg_accepting = True, rg_connections = [], rg_route_counts = [], rg_ip_counts = [], rg_rooms = [],
         rg_broker_connected = False, rg_seen_publications = [], rg_seen_publication_order = [],
         rg_counters = WebSocketCounters_default\<rparr>,
      rt_shutdown = False, rt_max_rooms_per_connection = max_rooms, rt_max_room_name_bytes = max_name,
      rt_broadcast_concurrency = concurrency, rt_broker_operation_timeout = broker_timeout, rt_node_id = node\<rparr>"

definition runtime_local :: "WsNodeId \<Rightarrow> ('s, 'a) Runtime" where
  "runtime_local node = local_with_hub_config 32 128 64 (secs 2) node"

section \<open>Counting\<close>

definition u64_saturating_add :: "nat \<Rightarrow> nat \<Rightarrow> nat" where
  "u64_saturating_add a b = min u64_max (a + b)"

definition count_of :: "('k \<times> nat) list \<Rightarrow> 'k \<Rightarrow> nat" where
  "count_of counts k = (case map_of counts k of None \<Rightarrow> 0 | Some n \<Rightarrow> n)"

definition increment_count :: "('k \<times> nat) list \<Rightarrow> 'k \<Rightarrow> ('k \<times> nat) list" where
  "increment_count counts k = AList.update k (fetch_add (count_of counts k) 1) counts"

definition decrement_count :: "('k \<times> nat) list \<Rightarrow> 'k \<Rightarrow> ('k \<times> nat) list" where
  "decrement_count counts k =
     (case map_of counts k of
        None \<Rightarrow> counts
      | Some n \<Rightarrow> let n' = fetch_sub n 1 in if n' = 0 then AList.delete k counts else AList.update k n' counts)"

section \<open>Admission and release\<close>

definition remote_ip :: "(nat \<times> nat) option \<Rightarrow> nat option" where
  "remote_ip addr = map_option fst addr"

definition reaches :: "nat \<Rightarrow> nat option \<Rightarrow> bool" where
  "reaches n limit = (case limit of None \<Rightarrow> False | Some l \<Rightarrow> n \<ge> l)"

definition admission_rejection ::
  "('s, 'a) Registry \<Rightarrow> string \<Rightarrow> nat option \<Rightarrow> ResolvedWebSocketConfig \<Rightarrow> AdmissionError option" where
  "admission_rejection reg route ip config =
     (if \<not> rg_accepting reg then Some Shutdown
      else if reaches (length (rg_connections reg)) (wr_process_max_connections config) then Some ProcessCapacity
      else if reaches (count_of (rg_route_counts reg) route) (wr_route_max_connections config) then Some RouteCapacity
      else if (case ip of None \<Rightarrow> False | Some i \<Rightarrow> reaches (count_of (rg_ip_counts reg) i) (wr_max_connections_per_ip config))
      then Some IpCapacity
      else None)"

definition new_entry ::
  "('s, 'a) Runtime \<Rightarrow> string \<Rightarrow> (nat \<times> nat) option \<Rightarrow> string option \<Rightarrow> ResolvedWebSocketConfig \<Rightarrow> nat
     \<Rightarrow> ('s, 'a) ConnectionEntry" where
  "new_entry rt route addr protocol config now =
     \<lparr>ce_route = route, ce_remote_addr = addr, ce_protocol = protocol, ce_opened_at = now,
      ce_close_timeout = wr_close_timeout config,
      ce_max_rooms_per_connection = min (wr_max_rooms_per_connection config) (rt_max_rooms_per_connection rt),
      ce_max_room_name_bytes = min (wr_max_room_name_bytes config) (rt_max_room_name_bytes rt),
      ce_rooms = [], ce_lifecycle = Connecting, ce_internal_sender = None, ce_driver_abort = None,
      ce_forced_shutdown_observed = False\<rparr>"

definition admit ::
  "('s, 'a) Runtime \<Rightarrow> string \<Rightarrow> (nat \<times> nat) option \<Rightarrow> string option \<Rightarrow> ResolvedWebSocketConfig \<Rightarrow> nat
     \<Rightarrow> (AdmissionError + nat) \<times> ('s, 'a) Runtime \<times> WebSocketObservation list" where
  "admit rt route addr protocol config now =
     (let reg = rt_registry rt; ip = remote_ip addr; c = rg_counters reg in
      case admission_rejection reg route ip config of
        Some e \<Rightarrow>
          (Inl e,
           rt\<lparr>rt_registry := reg\<lparr>rg_counters := c\<lparr>rejected_connections := fetch_add (rejected_connections c) 1\<rparr>\<rparr>\<rparr>,
           [ObsRejected route (admission_reason e)])
      | None \<Rightarrow>
          let i = rt_next_id rt in
          (Inr i,
           rt\<lparr>rt_next_id := fetch_add i 1,
              rt_registry := reg
                \<lparr>rg_connections := AList.update i (new_entry rt route addr protocol config now) (rg_connections reg),
                 rg_route_counts := increment_count (rg_route_counts reg) route,
                 rg_ip_counts := (case ip of None \<Rightarrow> rg_ip_counts reg | Some a \<Rightarrow> increment_count (rg_ip_counts reg) a),
                 rg_counters := c\<lparr>accepted_connections := fetch_add (accepted_connections c) 1\<rparr>\<rparr>\<rparr>,
           [ObsAccepted i route]))"

section \<open>Rooms\<close>

definition btree_set :: "string list \<Rightarrow> string list" where
  "btree_set xs = sort (remdups xs)"

definition validate_room :: "string \<Rightarrow> nat \<Rightarrow> WsError + unit" where
  "validate_room room max_bytes =
     (if room = [] \<or> CHR 0x00 \<in> set room \<or> length room > max_bytes then Inl (InvalidRoom room) else Inr ())"

definition room_members :: "((string \<times> string) \<times> nat list) list \<Rightarrow> string \<times> string \<Rightarrow> nat list" where
  "room_members index key = (case map_of index key of None \<Rightarrow> [] | Some ids \<Rightarrow> ids)"

definition add_membership ::
  "string \<Rightarrow> nat \<Rightarrow> string \<Rightarrow> ((string \<times> string) \<times> nat list) list \<Rightarrow> ((string \<times> string) \<times> nat list) list" where
  "add_membership route i room index =
     AList.update (route, room) (List.insert i (room_members index (route, room))) index"

fun remove_room_memberships ::
  "((string \<times> string) \<times> nat list) list \<Rightarrow> string \<Rightarrow> nat \<Rightarrow> string list \<Rightarrow> ((string \<times> string) \<times> nat list) list" where
  "remove_room_memberships index route i [] = index"
| "remove_room_memberships index route i (room # rooms) =
     remove_room_memberships
       (case map_of index (route, room) of
          None \<Rightarrow> index
        | Some ids \<Rightarrow>
            let ids' = removeAll i ids
            in if ids' = [] then AList.delete (route, room) index else AList.update (route, room) ids' index)
       route i rooms"

definition ws_join ::
  "('s, 'a) Runtime \<Rightarrow> nat \<Rightarrow> string list \<Rightarrow> (WsError + unit) \<times> ('s, 'a) Runtime \<times> WebSocketObservation list" where
  "ws_join rt i rooms =
     (let reg = rt_registry rt; c = rg_counters reg in
      case map_of (rg_connections reg) i of
        None \<Rightarrow> (Inl (ConnectionNotFound i), rt, [])
      | Some entry \<Rightarrow>
          let requested = btree_set rooms in
          case collect_results (map (\<lambda>room. validate_room room (ce_max_room_name_bytes entry)) requested) of
            Inl e \<Rightarrow> (Inl e, rt, [])
          | Inr _ \<Rightarrow>
              let additions = filter (\<lambda>room. room \<notin> set (ce_rooms entry)) requested in
              if length (ce_rooms entry) + length additions > ce_max_rooms_per_connection entry then (Inl RoomLimit, rt, [])
              else
                let entry' = entry\<lparr>ce_rooms := fold insort_insert additions (ce_rooms entry)\<rparr> in
                (Inr (),
                 rt\<lparr>rt_registry := reg
                   \<lparr>rg_connections := AList.update i entry' (rg_connections reg),
                    rg_rooms := fold (add_membership (ce_route entry) i) additions (rg_rooms reg),
                    rg_counters := c\<lparr>room_joins := u64_saturating_add (room_joins c) (length additions)\<rparr>\<rparr>\<rparr>,
                 map (ObsRoomJoined i (ce_route entry)) additions))"

text \<open>What \<open>leave\<close>, \<open>leave_all\<close> and \<open>release\<close> share: the index forgets the memberships.\<close>

definition forget_rooms :: "nat \<Rightarrow> string \<Rightarrow> string list \<Rightarrow> ('s, 'a) Registry \<Rightarrow> ('s, 'a) Registry" where
  "forget_rooms i route removals reg =
     (let c = rg_counters reg in
      reg\<lparr>rg_rooms := remove_room_memberships (rg_rooms reg) route i removals,
          rg_counters := c\<lparr>room_leaves := u64_saturating_add (room_leaves c) (length removals)\<rparr>\<rparr>)"

definition ws_leave ::
  "('s, 'a) Runtime \<Rightarrow> nat \<Rightarrow> string list \<Rightarrow> (WsError + unit) \<times> ('s, 'a) Runtime \<times> WebSocketObservation list" where
  "ws_leave rt i rooms =
     (let reg = rt_registry rt in
      case map_of (rg_connections reg) i of
        None \<Rightarrow> (Inl (ConnectionNotFound i), rt, [])
      | Some entry \<Rightarrow>
          let removals = filter (\<lambda>room. room \<in> set (ce_rooms entry)) (btree_set rooms);
              entry' = entry\<lparr>ce_rooms := fold remove1 removals (ce_rooms entry)\<rparr> in
          (Inr (),
           rt\<lparr>rt_registry := forget_rooms i (ce_route entry) removals
                (reg\<lparr>rg_connections := AList.update i entry' (rg_connections reg)\<rparr>)\<rparr>,
           map (ObsRoomLeft i (ce_route entry)) removals))"

definition ws_leave_all ::
  "('s, 'a) Runtime \<Rightarrow> nat \<Rightarrow> (WsError + unit) \<times> ('s, 'a) Runtime \<times> WebSocketObservation list" where
  "ws_leave_all rt i =
     (let reg = rt_registry rt in
      case map_of (rg_connections reg) i of
        None \<Rightarrow> (Inl (ConnectionNotFound i), rt, [])
      | Some entry \<Rightarrow>
          (Inr (),
           rt\<lparr>rt_registry := forget_rooms i (ce_route entry) (ce_rooms entry)
                (reg\<lparr>rg_connections := AList.update i (entry\<lparr>ce_rooms := []\<rparr>) (rg_connections reg)\<rparr>)\<rparr>,
           map (ObsRoomLeft i (ce_route entry)) (ce_rooms entry)))"

definition release :: "('s, 'a) Runtime \<Rightarrow> nat \<Rightarrow> ('s, 'a) Runtime \<times> WebSocketObservation list" where
  "release rt i =
     (let reg = rt_registry rt in
      case map_of (rg_connections reg) i of
        None \<Rightarrow> (rt, [])
      | Some entry \<Rightarrow>
          let reg1 = reg\<lparr>rg_connections := AList.delete i (rg_connections reg),
                rg_route_counts := decrement_count (rg_route_counts reg) (ce_route entry),
                rg_ip_counts := (case remote_ip (ce_remote_addr entry) of None \<Rightarrow> rg_ip_counts reg
                                 | Some ip \<Rightarrow> decrement_count (rg_ip_counts reg) ip)\<rparr>;
              reg2 = forget_rooms i (ce_route entry) (ce_rooms entry) reg1;
              c = rg_counters reg2 in
          (rt\<lparr>rt_registry := reg2\<lparr>rg_counters := c\<lparr>closed_connections := fetch_add (closed_connections c) 1\<rparr>\<rparr>\<rparr>,
           map (ObsRoomLeft i (ce_route entry)) (ce_rooms entry)))"

text \<open>A permit releases its connection once, when it is dropped.\<close>

record ConnectionPermit =
  cp_id :: nat
  cp_released :: bool

definition permit_drop ::
  "ConnectionPermit \<Rightarrow> ('s, 'a) Runtime \<Rightarrow> ConnectionPermit \<times> ('s, 'a) Runtime \<times> WebSocketObservation list" where
  "permit_drop permit rt =
     (if cp_released permit then (permit, rt, []) else (permit\<lparr>cp_released := True\<rparr>, release rt (cp_id permit)))"

section \<open>Lifecycle\<close>

definition update_entry ::
  "(('s, 'a) ConnectionEntry \<Rightarrow> ('s, 'a) ConnectionEntry) \<Rightarrow> nat \<Rightarrow> ('s, 'a) Runtime \<Rightarrow> ('s, 'a) Runtime" where
  "update_entry f i rt =
     (let reg = rt_registry rt in
      case map_of (rg_connections reg) i of
        None \<Rightarrow> rt
      | Some entry \<Rightarrow> rt\<lparr>rt_registry := reg\<lparr>rg_connections := AList.update i (f entry) (rg_connections reg)\<rparr>\<rparr>)"

definition register_driver :: "('s, 'a) Runtime \<Rightarrow> nat \<Rightarrow> 's \<Rightarrow> 'a \<Rightarrow> bool \<times> ('s, 'a) Runtime" where
  "register_driver rt i sender abort =
     (map_of (rg_connections (rt_registry rt)) i \<noteq> None,
      update_entry (\<lambda>entry. entry\<lparr>ce_internal_sender := Some sender, ce_driver_abort := Some abort\<rparr>) i rt)"

definition register_upgrade_task :: "('s, 'a) Runtime \<Rightarrow> nat \<Rightarrow> 'a \<Rightarrow> bool \<times> ('s, 'a) Runtime" where
  "register_upgrade_task rt i abort =
     (case map_of (rg_connections (rt_registry rt)) i of
        None \<Rightarrow> (False, rt)
      | Some entry \<Rightarrow>
          if ce_driver_abort entry \<noteq> None then (False, rt)
          else (True, update_entry (\<lambda>entry. entry\<lparr>ce_driver_abort := Some abort\<rparr>) i rt))"

definition record_opened :: "('s, 'a) Runtime \<Rightarrow> nat \<Rightarrow> ('s, 'a) Runtime \<times> WebSocketObservation list" where
  "record_opened rt i = (update_entry (\<lambda>entry. entry\<lparr>ce_lifecycle := Open\<rparr>) i rt, [ObsOpened i])"

definition record_closing :: "('s, 'a) Runtime \<Rightarrow> nat \<Rightarrow> ('s, 'a) Runtime" where
  "record_closing rt i = update_entry (\<lambda>entry. entry\<lparr>ce_lifecycle := Closing\<rparr>) i rt"

definition begin_shutdown :: "('s, 'a) Runtime \<Rightarrow> ('s, 'a) Runtime" where
  "begin_shutdown rt =
     (let reg = rt_registry rt in
      rt\<lparr>rt_registry := reg\<lparr>rg_accepting := False,
           rg_connections := map (apsnd (\<lambda>entry. entry\<lparr>ce_lifecycle := Closing\<rparr>)) (rg_connections reg)\<rparr>,
         rt_shutdown := True\<rparr>)"

definition shutdown_grace_period :: "('s, 'a) Runtime \<Rightarrow> nat" where
  "shutdown_grace_period rt = fold (max \<circ> ce_close_timeout \<circ> snd) (rg_connections (rt_registry rt)) 0"

definition must_abort :: "('s, 'a) ConnectionEntry \<Rightarrow> bool" where
  "must_abort entry \<longleftrightarrow> ce_driver_abort entry \<noteq> None \<and> \<not> ce_forced_shutdown_observed entry"

definition abort_remaining ::
  "('s, 'a) Runtime \<Rightarrow> 'a list \<times> ('s, 'a) Runtime \<times> WebSocketObservation list" where
  "abort_remaining rt =
     (let reg = rt_registry rt; remaining = filter (must_abort \<circ> snd) (rg_connections reg) in
      (map (the \<circ> ce_driver_abort \<circ> snd) remaining,
       rt\<lparr>rt_registry := reg\<lparr>rg_connections :=
         map (apsnd (\<lambda>entry. if must_abort entry then entry\<lparr>ce_forced_shutdown_observed := True\<rparr> else entry))
           (rg_connections reg)\<rparr>\<rparr>,
       map (ObsForcedShutdown \<circ> fst) remaining))"

section \<open>Queries\<close>

record WebSocketConnectionSnapshot =
  sn_id :: nat
  sn_route :: string
  sn_remote_addr :: "(nat \<times> nat) option"
  sn_protocol :: "string option"
  sn_opened_at :: nat
  sn_rooms :: "string list"
  sn_lifecycle :: WebSocketLifecycleState

definition snapshot :: "nat \<Rightarrow> ('s, 'a) ConnectionEntry \<Rightarrow> WebSocketConnectionSnapshot" where
  "snapshot i entry =
     \<lparr>sn_id = i, sn_route = ce_route entry, sn_remote_addr = ce_remote_addr entry, sn_protocol = ce_protocol entry,
      sn_opened_at = ce_opened_at entry, sn_rooms = ce_rooms entry, sn_lifecycle = ce_lifecycle entry\<rparr>"

definition rt_connections :: "('s, 'a) Runtime \<Rightarrow> WebSocketConnectionSnapshot list" where
  "rt_connections rt = sort_key sn_id (map (\<lambda>(i, entry). snapshot i entry) (rg_connections (rt_registry rt)))"

definition rt_connection :: "('s, 'a) Runtime \<Rightarrow> nat \<Rightarrow> WebSocketConnectionSnapshot option" where
  "rt_connection rt i = map_option (snapshot i) (map_of (rg_connections (rt_registry rt)) i)"

definition rooms_of :: "('s, 'a) Runtime \<Rightarrow> nat \<Rightarrow> string list option" where
  "rooms_of rt i = map_option ce_rooms (map_of (rg_connections (rt_registry rt)) i)"

definition local_room_size :: "('s, 'a) Runtime \<Rightarrow> string \<Rightarrow> string \<Rightarrow> nat" where
  "local_room_size rt route room = length (room_members (rg_rooms (rt_registry rt)) (route, room))"

definition local_socket :: "('s, 'a) Runtime \<Rightarrow> nat \<Rightarrow> (WebSocketConnectionSnapshot \<times> 's) option" where
  "local_socket rt i =
     (case map_of (rg_connections (rt_registry rt)) i of
        None \<Rightarrow> None
      | Some entry \<Rightarrow> map_option (Pair (snapshot i entry)) (ce_internal_sender entry))"

definition active_count :: "('s, 'a) Runtime \<Rightarrow> nat" where
  "active_count rt = length (rg_connections (rt_registry rt))"

definition select_broadcast_recipients ::
  "('s, 'a) Runtime \<Rightarrow> string option \<Rightarrow> string list \<Rightarrow> bool \<Rightarrow> nat list \<Rightarrow> (nat \<times> 's option) list" where
  "select_broadcast_recipients rt route rooms all_in_scope excluded =
     (let reg = rt_registry rt;
          ids = (if all_in_scope
                 then map fst (filter (\<lambda>(_, entry). case route of None \<Rightarrow> True | Some r \<Rightarrow> ce_route entry = r)
                        (rg_connections reg))
                 else case route of
                        None \<Rightarrow> []
                      | Some r \<Rightarrow> concat (map (\<lambda>room. room_members (rg_rooms reg) (r, room)) rooms));
          kept = sort (remdups (filter (\<lambda>i. i \<notin> set excluded) ids))
      in map (\<lambda>i. (i, case map_of (rg_connections reg) i of None \<Rightarrow> None | Some entry \<Rightarrow> ce_internal_sender entry)) kept)"

record WebSocketStats =
  st_active_connections :: nat
  st_active_rooms :: nat
  st_counters :: WebSocketCounters
  st_broker_connected :: bool

definition stats :: "('s, 'a) Runtime \<Rightarrow> WebSocketStats" where
  "stats rt =
     (let reg = rt_registry rt in
      \<lparr>st_active_connections = length (rg_connections reg), st_active_rooms = length (rg_rooms reg),
       st_counters = rg_counters reg, st_broker_connected = rg_broker_connected reg\<rparr>)"

section \<open>Metrics and publications\<close>

definition update_counters :: "(WebSocketCounters \<Rightarrow> WebSocketCounters) \<Rightarrow> ('s, 'a) Runtime \<Rightarrow> ('s, 'a) Runtime" where
  "update_counters f rt = rt\<lparr>rt_registry := (rt_registry rt)\<lparr>rg_counters := f (rg_counters (rt_registry rt))\<rparr>\<rparr>"

definition record_message :: "('s, 'a) Runtime \<Rightarrow> nat \<Rightarrow> bool \<Rightarrow> nat \<Rightarrow> ('s, 'a) Runtime \<times> WebSocketObservation list" where
  "record_message rt i outbound n =
     (update_counters (\<lambda>c.
        if outbound
        then c\<lparr>messages_sent := u64_saturating_add (messages_sent c) 1, bytes_sent := u64_saturating_add (bytes_sent c) n\<rparr>
        else c\<lparr>messages_received := u64_saturating_add (messages_received c) 1,
               bytes_received := u64_saturating_add (bytes_received c) n\<rparr>) rt,
      [ObsMessage i outbound n])"

definition record_saturated_send :: "('s, 'a) Runtime \<Rightarrow> nat \<Rightarrow> bool \<Rightarrow> ('s, 'a) Runtime \<times> WebSocketObservation list" where
  "record_saturated_send rt i outbound =
     (update_counters (\<lambda>c. c\<lparr>saturated_sends := fetch_add (saturated_sends c) 1\<rparr>) rt, [ObsQueueSaturated i outbound])"

definition record_heartbeat_timeout :: "('s, 'a) Runtime \<Rightarrow> nat \<Rightarrow> ('s, 'a) Runtime \<times> WebSocketObservation list" where
  "record_heartbeat_timeout rt i =
     (update_counters (\<lambda>c. c\<lparr>heartbeat_timeouts := fetch_add (heartbeat_timeouts c) 1\<rparr>) rt, [ObsHeartbeatTimeout i])"

definition record_broadcast ::
  "('s, 'a) Runtime \<Rightarrow> string option \<Rightarrow> nat \<Rightarrow> WsBroadcastReport \<Rightarrow> ('s, 'a) Runtime \<times> WebSocketObservation list" where
  "record_broadcast rt route room_count report =
     (update_counters (\<lambda>c.
        let c1 = c\<lparr>local_broadcasts := u64_saturating_add (local_broadcasts c) 1\<rparr>
        in if br_rejected report > 0 \<or> br_disconnected report > 0
           then c1\<lparr>partial_broadcasts := u64_saturating_add (partial_broadcasts c1) 1\<rparr> else c1) rt,
      [ObsBroadcast route room_count (br_matched report) (br_enqueued report) (br_rejected report)
         (br_disconnected report) (br_remote report)])"

definition record_broker_publication :: "('s, 'a) Runtime \<Rightarrow> ('s, 'a) Runtime" where
  "record_broker_publication rt =
     update_counters (\<lambda>c. c\<lparr>broker_publications := u64_saturating_add (broker_publications c) 1\<rparr>) rt"

definition record_broker_error :: "('s, 'a) Runtime \<Rightarrow> WsBrokerError \<Rightarrow> ('s, 'a) Runtime \<times> WebSocketObservation list" where
  "record_broker_error rt e =
     (update_counters (\<lambda>c. c\<lparr>broker_errors := u64_saturating_add (broker_errors c) 1\<rparr>) rt,
      case e of Lagged skipped \<Rightarrow> [ObsBrokerLagged (rt_node_id rt) skipped] | _ \<Rightarrow> [])"

definition next_publication_id :: "('s, 'a) Runtime \<Rightarrow> WsPublicationId \<times> ('s, 'a) Runtime" where
  "next_publication_id rt =
     (rt_next_publication_id rt, rt\<lparr>rt_next_publication_id := fetch_add (rt_next_publication_id rt) 1\<rparr>)"

definition mark_publication_seen :: "('s, 'a) Runtime \<Rightarrow> WsNodeId \<Rightarrow> WsPublicationId \<Rightarrow> bool \<times> ('s, 'a) Runtime" where
  "mark_publication_seen rt origin p =
     (let reg = rt_registry rt; key = (origin, p) in
      if key \<in> set (rg_seen_publications reg) then (False, rt)
      else
        let seen = List.insert key (rg_seen_publications reg); order = rg_seen_publication_order reg @ [key]
        in (True, rt\<lparr>rt_registry :=
             (if length order > MAX_SEEN_PUBLICATIONS
              then (case order of
                      [] \<Rightarrow> reg\<lparr>rg_seen_publications := seen, rg_seen_publication_order := order\<rparr>
                    | expired # rest \<Rightarrow>
                        reg\<lparr>rg_seen_publications := removeAll expired seen, rg_seen_publication_order := rest\<rparr>)
              else reg\<lparr>rg_seen_publications := seen, rg_seen_publication_order := order\<rparr>)\<rparr>))"

definition set_broker_connected :: "('s, 'a) Runtime \<Rightarrow> ('s, 'a) Runtime \<times> WebSocketObservation list" where
  "set_broker_connected rt =
     (rt\<lparr>rt_registry := (rt_registry rt)\<lparr>rg_broker_connected := True\<rparr>\<rparr>,
      if rg_broker_connected (rt_registry rt) then [] else [ObsBrokerConnected (rt_node_id rt)])"

definition set_broker_disconnected ::
  "('s, 'a) Runtime \<Rightarrow> WsBrokerErrorCategory \<Rightarrow> ('s, 'a) Runtime \<times> WebSocketObservation list" where
  "set_broker_disconnected rt reason =
     (rt\<lparr>rt_registry := (rt_registry rt)\<lparr>rg_broker_connected := False\<rparr>\<rparr>, [ObsBrokerDisconnected (rt_node_id rt) reason])"

end
