(* ===== verification/Ws_Presence.thy ===== *)
theory Ws_Presence
  imports Ws_Registry Refinement
begin

text \<open>
  What the registry of WebSocket connections promises, without its indexes: who is connected, from
  where, on which route and in which rooms. \<open>rt_step\<close> performs one operation of the registry;
  \<open>spec_step\<close> answers the same operation by counting and collecting connections.
\<close>

section \<open>Operations\<close>

datatype ('s, 'a) RtOp =
    Admit string "(nat \<times> nat) option" "string option" ResolvedWebSocketConfig nat
  | Join nat "string list"
  | Leave nat "string list"
  | LeaveAll nat
  | Release nat
  | Opened nat
  | ClosingOf nat
  | BeginShutdown
  | RegisterDriver nat 's 'a
  | RegisterUpgrade nat 'a
  | AbortRemaining
  | Recipients "string option" "string list" bool "nat list"
  | RoomSize string string
  | RoomsOf nat
  | ActiveCount
  | MarkSeen WsNodeId WsPublicationId
  | MessageOf nat bool nat

datatype RtResult = Done | Admitted "AdmissionError + nat" | RoomsChanged "WsError + unit" | Flag bool
  | Ids "nat list" | Size nat | Names "string list option"

fun rt_step :: "('s, 'a) Runtime \<Rightarrow> ('s, 'a) RtOp \<Rightarrow> (RtResult \<times> WebSocketObservation list) \<times> ('s, 'a) Runtime" where
  "rt_step rt (Admit route addr protocol config now) =
     (case admit rt route addr protocol config now of (r, rt', obs) \<Rightarrow> ((Admitted r, obs), rt'))"
| "rt_step rt (Join i rooms) = (case ws_join rt i rooms of (r, rt', obs) \<Rightarrow> ((RoomsChanged r, obs), rt'))"
| "rt_step rt (Leave i rooms) = (case ws_leave rt i rooms of (r, rt', obs) \<Rightarrow> ((RoomsChanged r, obs), rt'))"
| "rt_step rt (LeaveAll i) = (case ws_leave_all rt i of (r, rt', obs) \<Rightarrow> ((RoomsChanged r, obs), rt'))"
| "rt_step rt (Release i) = (case release rt i of (rt', obs) \<Rightarrow> ((Done, obs), rt'))"
| "rt_step rt (Opened i) = (case record_opened rt i of (rt', obs) \<Rightarrow> ((Done, obs), rt'))"
| "rt_step rt (ClosingOf i) = ((Done, []), record_closing rt i)"
| "rt_step rt BeginShutdown = ((Done, []), begin_shutdown rt)"
| "rt_step rt (RegisterDriver i sender abort) =
     (case register_driver rt i sender abort of (b, rt') \<Rightarrow> ((Flag b, []), rt'))"
| "rt_step rt (RegisterUpgrade i abort) =
     (case register_upgrade_task rt i abort of (b, rt') \<Rightarrow> ((Flag b, []), rt'))"
| "rt_step rt AbortRemaining = ((Done, []), fst (snd (abort_remaining rt)))"
| "rt_step rt (Recipients route rooms all_in_scope excluded) =
     ((Ids (map fst (select_broadcast_recipients rt route rooms all_in_scope excluded)), []), rt)"
| "rt_step rt (RoomSize route room) = ((Size (local_room_size rt route room), []), rt)"
| "rt_step rt (RoomsOf i) = ((Names (rooms_of rt i), []), rt)"
| "rt_step rt ActiveCount = ((Size (active_count rt), []), rt)"
| "rt_step rt (MarkSeen origin p) = (case mark_publication_seen rt origin p of (b, rt') \<Rightarrow> ((Flag b, []), rt'))"
| "rt_step rt (MessageOf i outbound n) = (case record_message rt i outbound n of (rt', obs) \<Rightarrow> ((Done, obs), rt'))"

section \<open>The specification\<close>

record Member =
  mb_route :: string
  mb_ip :: "nat option"
  mb_rooms :: "string set"
  mb_max_rooms :: nat
  mb_max_name :: nat
  mb_lifecycle :: WebSocketLifecycleState
  mb_abortable :: bool

record Presence =
  pr_accepting :: bool
  pr_members :: "nat \<rightharpoonup> Member"
  pr_next :: nat
  pr_max_rooms :: nat
  pr_max_name :: nat
  pr_seen :: "(WsNodeId \<times> WsPublicationId) list"

definition tally :: "('e \<Rightarrow> 'k option) \<Rightarrow> (nat \<rightharpoonup> 'e) \<Rightarrow> 'k \<Rightarrow> nat" where
  "tally f m k = card {i. \<exists>e. m i = Some e \<and> f e = Some k}"

definition spec_rejection :: "Presence \<Rightarrow> string \<Rightarrow> nat option \<Rightarrow> ResolvedWebSocketConfig \<Rightarrow> AdmissionError option" where
  "spec_rejection p route ip config =
     (if \<not> pr_accepting p then Some Shutdown
      else if reaches (card (dom (pr_members p))) (wr_process_max_connections config) then Some ProcessCapacity
      else if reaches (tally (Some \<circ> mb_route) (pr_members p) route) (wr_route_max_connections config) then Some RouteCapacity
      else if (\<exists>i. ip = Some i \<and> reaches (tally mb_ip (pr_members p) i) (wr_max_connections_per_ip config)) then Some IpCapacity
      else None)"

definition spec_admit ::
  "Presence \<Rightarrow> string \<Rightarrow> (nat \<times> nat) option \<Rightarrow> ResolvedWebSocketConfig \<Rightarrow> (RtResult \<times> WebSocketObservation list) \<times> Presence" where
  "spec_admit p route addr config =
     (case spec_rejection p route (remote_ip addr) config of
        Some e \<Rightarrow> ((Admitted (Inl e), [ObsRejected route (admission_reason e)]), p)
      | None \<Rightarrow>
          ((Admitted (Inr (pr_next p)), [ObsAccepted (pr_next p) route]),
           p\<lparr>pr_next := pr_next p + 1,
             pr_members := (pr_members p)(pr_next p \<mapsto>
               \<lparr>mb_route = route, mb_ip = remote_ip addr, mb_rooms = {},
                mb_max_rooms = min (wr_max_rooms_per_connection config) (pr_max_rooms p),
                mb_max_name = min (wr_max_room_name_bytes config) (pr_max_name p),
                mb_lifecycle = Connecting, mb_abortable = False\<rparr>)\<rparr>))"

definition bad_room :: "nat \<Rightarrow> string \<Rightarrow> bool" where
  "bad_room max_bytes room \<longleftrightarrow> room = [] \<or> CHR 0x00 \<in> set room \<or> length room > max_bytes"

definition change_member :: "nat \<Rightarrow> (Member \<Rightarrow> Member) \<Rightarrow> Presence \<Rightarrow> Presence" where
  "change_member i f p = p\<lparr>pr_members := (pr_members p)(i := map_option f (pr_members p i))\<rparr>"

definition spec_join :: "Presence \<Rightarrow> nat \<Rightarrow> string list \<Rightarrow> (RtResult \<times> WebSocketObservation list) \<times> Presence" where
  "spec_join p i rooms =
     (case pr_members p i of
        None \<Rightarrow> ((RoomsChanged (Inl (ConnectionNotFound i)), []), p)
      | Some m \<Rightarrow>
          let bad = {room \<in> set rooms. bad_room (mb_max_name m) room} in
          if bad \<noteq> {} then ((RoomsChanged (Inl (InvalidRoom (Min bad))), []), p)
          else if card (mb_rooms m \<union> set rooms) > mb_max_rooms m then ((RoomsChanged (Inl RoomLimit), []), p)
          else ((RoomsChanged (Inr ()), map (ObsRoomJoined i (mb_route m)) (sorted_list_of_set (set rooms - mb_rooms m))),
                change_member i (\<lambda>m. m\<lparr>mb_rooms := mb_rooms m \<union> set rooms\<rparr>) p))"

definition spec_leave ::
  "Presence \<Rightarrow> nat \<Rightarrow> (string set \<Rightarrow> string set) \<Rightarrow> (RtResult \<times> WebSocketObservation list) \<times> Presence" where
  "spec_leave p i leaving =
     (case pr_members p i of
        None \<Rightarrow> ((RoomsChanged (Inl (ConnectionNotFound i)), []), p)
      | Some m \<Rightarrow>
          ((RoomsChanged (Inr ()), map (ObsRoomLeft i (mb_route m)) (sorted_list_of_set (leaving (mb_rooms m)))),
           change_member i (\<lambda>m. m\<lparr>mb_rooms := mb_rooms m - leaving (mb_rooms m)\<rparr>) p))"

definition spec_release :: "Presence \<Rightarrow> nat \<Rightarrow> (RtResult \<times> WebSocketObservation list) \<times> Presence" where
  "spec_release p i =
     ((Done, case pr_members p i of None \<Rightarrow> []
             | Some m \<Rightarrow> map (ObsRoomLeft i (mb_route m)) (sorted_list_of_set (mb_rooms m))),
      p\<lparr>pr_members := (pr_members p)(i := None)\<rparr>)"

definition audience :: "Presence \<Rightarrow> string option \<Rightarrow> string list \<Rightarrow> bool \<Rightarrow> nat list \<Rightarrow> nat set" where
  "audience p route rooms all_in_scope excluded =
     {i. \<exists>m. pr_members p i = Some m \<and> i \<notin> set excluded \<and>
        (if all_in_scope then route = None \<or> route = Some (mb_route m)
         else route = Some (mb_route m) \<and> mb_rooms m \<inter> set rooms \<noteq> {})}"

definition spec_seen :: "Presence \<Rightarrow> WsNodeId \<times> WsPublicationId \<Rightarrow> (RtResult \<times> WebSocketObservation list) \<times> Presence" where
  "spec_seen p key =
     (if key \<in> set (pr_seen p) then ((Flag False, []), p)
      else ((Flag True, []),
            p\<lparr>pr_seen := drop (length (pr_seen p) + 1 - MAX_SEEN_PUBLICATIONS) (pr_seen p @ [key])\<rparr>))"

fun spec_step :: "Presence \<Rightarrow> ('s, 'a) RtOp \<Rightarrow> (RtResult \<times> WebSocketObservation list) \<times> Presence" where
  "spec_step p (Admit route addr protocol config now) = spec_admit p route addr config"
| "spec_step p (Join i rooms) = spec_join p i rooms"
| "spec_step p (Leave i rooms) = spec_leave p i (\<lambda>old. old \<inter> set rooms)"
| "spec_step p (LeaveAll i) = spec_leave p i (\<lambda>old. old)"
| "spec_step p (Release i) = spec_release p i"
| "spec_step p (Opened i) = ((Done, [ObsOpened i]), change_member i (\<lambda>m. m\<lparr>mb_lifecycle := Open\<rparr>) p)"
| "spec_step p (ClosingOf i) = ((Done, []), change_member i (\<lambda>m. m\<lparr>mb_lifecycle := Closing\<rparr>) p)"
| "spec_step p BeginShutdown =
     ((Done, []), p\<lparr>pr_accepting := False,
        pr_members := \<lambda>i. map_option (\<lambda>m. m\<lparr>mb_lifecycle := Closing\<rparr>) (pr_members p i)\<rparr>)"
| "spec_step p (RegisterDriver i sender abort) =
     ((Flag (pr_members p i \<noteq> None), []), change_member i (\<lambda>m. m\<lparr>mb_abortable := True\<rparr>) p)"
| "spec_step p (RegisterUpgrade i abort) =
     ((Flag (\<exists>m. pr_members p i = Some m \<and> \<not> mb_abortable m), []), change_member i (\<lambda>m. m\<lparr>mb_abortable := True\<rparr>) p)"
| "spec_step p AbortRemaining = ((Done, []), p)"
| "spec_step p (Recipients route rooms all_in_scope excluded) =
     ((Ids (sorted_list_of_set (audience p route rooms all_in_scope excluded)), []), p)"
| "spec_step p (RoomSize route room) =
     ((Size (card {i. \<exists>m. pr_members p i = Some m \<and> mb_route m = route \<and> room \<in> mb_rooms m}), []), p)"
| "spec_step p (RoomsOf i) = ((Names (map_option (\<lambda>m. sorted_list_of_set (mb_rooms m)) (pr_members p i)), []), p)"
| "spec_step p ActiveCount = ((Size (card (dom (pr_members p))), []), p)"
| "spec_step p (MarkSeen origin publication) = spec_seen p (origin, publication)"
| "spec_step p (MessageOf i outbound n) = ((Done, [ObsMessage i outbound n]), p)"

definition member_of :: "('s, 'a) ConnectionEntry \<Rightarrow> Member" where
  "member_of e =
     \<lparr>mb_route = ce_route e, mb_ip = remote_ip (ce_remote_addr e), mb_rooms = set (ce_rooms e),
      mb_max_rooms = ce_max_rooms_per_connection e, mb_max_name = ce_max_room_name_bytes e,
      mb_lifecycle = ce_lifecycle e, mb_abortable = ce_driver_abort e \<noteq> None\<rparr>"

definition presence :: "('s, 'a) Runtime \<Rightarrow> Presence" where
  "presence rt =
     (let reg = rt_registry rt in
      \<lparr>pr_accepting = rg_accepting reg, pr_members = \<lambda>i. map_option member_of (map_of (rg_connections reg) i),
       pr_next = rt_next_id rt, pr_max_rooms = rt_max_rooms_per_connection rt,
       pr_max_name = rt_max_room_name_bytes rt, pr_seen = rg_seen_publication_order reg\<rparr>)"

definition no_one :: "nat \<Rightarrow> nat \<Rightarrow> Presence" where
  "no_one max_rooms max_name =
     \<lparr>pr_accepting = True, pr_members = Map.empty, pr_next = 1, pr_max_rooms = max_rooms, pr_max_name = max_name,
      pr_seen = []\<rparr>"

section \<open>The invariant of the registry\<close>

definition counts_ok :: "('e \<Rightarrow> 'k option) \<Rightarrow> (nat \<rightharpoonup> 'e) \<Rightarrow> ('k \<times> nat) list \<Rightarrow> bool" where
  "counts_ok f m counts \<longleftrightarrow>
     distinct (map fst counts) \<and> (\<forall>k. map_of counts k = (if tally f m k = 0 then None else Some (tally f m k)))"

abbreviation in_room :: "(nat \<rightharpoonup> ('s, 'a) ConnectionEntry) \<Rightarrow> string \<times> string \<Rightarrow> nat set" where
  "in_room m key \<equiv> {i. \<exists>e. m i = Some e \<and> ce_route e = fst key \<and> snd key \<in> set (ce_rooms e)}"

definition rooms_ok :: "(nat \<rightharpoonup> ('s, 'a) ConnectionEntry) \<Rightarrow> ((string \<times> string) \<times> nat list) list \<Rightarrow> bool" where
  "rooms_ok m index \<longleftrightarrow>
     distinct (map fst index) \<and>
     (\<forall>key ids. map_of index key = Some ids \<longrightarrow> ids \<noteq> [] \<and> distinct ids) \<and>
     (\<forall>key. set (room_members index key) = in_room m key)"

definition entry_ok :: "('s, 'a) ConnectionEntry \<Rightarrow> bool" where
  "entry_ok e \<longleftrightarrow>
     sorted (ce_rooms e) \<and> distinct (ce_rooms e) \<and> length (ce_rooms e) \<le> ce_max_rooms_per_connection e \<and>
     list_all (\<lambda>room. \<not> bad_room (ce_max_room_name_bytes e) room) (ce_rooms e)"

definition seen_ok :: "('s, 'a) Registry \<Rightarrow> bool" where
  "seen_ok reg \<longleftrightarrow>
     distinct (rg_seen_publication_order reg) \<and> distinct (rg_seen_publications reg) \<and>
     set (rg_seen_publications reg) = set (rg_seen_publication_order reg) \<and>
     length (rg_seen_publication_order reg) \<le> MAX_SEEN_PUBLICATIONS"

definition registry_ok :: "nat \<Rightarrow> ('s, 'a) Runtime \<Rightarrow> bool" where
  "registry_ok n rt \<longleftrightarrow>
     (let reg = rt_registry rt; m = map_of (rg_connections reg); c = rg_counters reg in
      distinct (map fst (rg_connections reg)) \<and>
      counts_ok (Some \<circ> ce_route) m (rg_route_counts reg) \<and>
      counts_ok (remote_ip \<circ> ce_remote_addr) m (rg_ip_counts reg) \<and>
      rooms_ok m (rg_rooms reg) \<and> (\<forall>i e. m i = Some e \<longrightarrow> i < rt_next_id rt \<and> entry_ok e) \<and>
      seen_ok reg \<and> rt_next_id rt + n \<le> u64_max \<and>
      rt_next_id rt = accepted_connections c + 1 \<and>
      accepted_connections c = closed_connections c + length (rg_connections reg))"

end
