(* ===== verification/Ws_Registry_Props.thy ===== *)
theory Ws_Registry_Props
  imports Ws_Presence
begin

text \<open>
  The registry of WebSocket connections implements its specification: its counts and its room
  index stay exact, so every operation answers as if it counted and searched the connections.
\<close>

section \<open>Counting connections\<close>

lemma tally_new:
  assumes "finite (dom m)" "m i = None"
  shows "tally f (m(i \<mapsto> e)) k = tally f m k + (if f e = Some k then 1 else 0)"
proof -
  let ?S = "{j. \<exists>e. m j = Some e \<and> f e = Some k}"
  have "finite ?S" by (rule finite_subset [OF _ assms(1)]) auto
  moreover have "i \<notin> ?S" using assms(2) by simp
  moreover have "{j. \<exists>e'. (m(i \<mapsto> e)) j = Some e' \<and> f e' = Some k} = (if f e = Some k then insert i ?S else ?S)"
    using assms(2) by auto
  ultimately show ?thesis by (simp add: tally_def)
qed

lemma tally_same:
  assumes "m i = Some e" "f e' = f e"
  shows "tally f (m(i \<mapsto> e')) = tally f m"
proof -
  have "{j. \<exists>x. (m(i \<mapsto> e')) j = Some x \<and> f x = Some k} = {j. \<exists>x. m j = Some x \<and> f x = Some k}" for k
    using assms by auto
  then show ?thesis by (simp add: tally_def fun_eq_iff)
qed

lemma tally_removed:
  assumes "finite (dom m)" "m i = Some e"
  shows "tally f m k = tally f (m(i := None)) k + (if f e = Some k then 1 else 0)"
proof -
  have "m = (m(i := None))(i \<mapsto> e)" using assms(2) by auto
  then show ?thesis using tally_new [of "m(i := None)" i f e k] assms(1) by simp
qed

lemma tally_image: "tally f (\<lambda>i. map_option g (m i)) = tally (f \<circ> g) m"
  by (auto simp: tally_def fun_eq_iff intro!: arg_cong [where f = card])

lemma tally_le: "tally f (map_of xs) k \<le> length xs"
proof -
  have "tally f (map_of xs) k \<le> card (fst ` set xs)"
    unfolding tally_def by (rule card_mono) (auto dest: map_of_SomeD intro: rev_image_eqI)
  also have "\<dots> \<le> length xs" by (metis card_length length_map set_map)
  finally show ?thesis .
qed

lemma count_of_exact: "counts_ok f m counts \<Longrightarrow> count_of counts k = tally f m k"
  by (simp add: counts_ok_def count_of_def)

lemma counts_ok_cong: "tally f m' = tally f m \<Longrightarrow> counts_ok f m' counts = counts_ok f m counts"
  by (simp add: counts_ok_def)

lemma increment_ok:
  assumes ok: "counts_ok f m counts" and "finite (dom m)" "m i = None" "f e = Some k" and small: "tally f m k < u64_max"
  shows "counts_ok f (m(i \<mapsto> e)) (increment_count counts k)"
proof -
  have "fetch_add (tally f m k) 1 = tally f m k + 1" using small by (simp add: fetch_add_def)
  then show ?thesis using ok
    by (simp add: counts_ok_def increment_count_def count_of_exact [OF ok] tally_new assms update_conv' distinct_update)
qed

lemma increment_skip:
  assumes "counts_ok f m counts" "finite (dom m)" "m i = None" "f e = None"
  shows "counts_ok f (m(i \<mapsto> e)) counts"
  using assms by (simp add: counts_ok_def tally_new)

lemma decrement_ok:
  assumes ok: "counts_ok f m counts" and fin: "finite (dom m)" and m: "m i = Some e" "f e = Some k"
    and small: "tally f m k \<le> u64_max"
  shows "counts_ok f (m(i := None)) (decrement_count counts k)"
proof -
  have t: "tally f m j = tally f (m(i := None)) j + (if j = k then 1 else 0)" for j
    using tally_removed [OF fin m(1), of f j] m(2) by simp
  have "map_of counts k = Some (tally f m k)" using ok t [of k] by (simp add: counts_ok_def)
  moreover have "fetch_sub (tally f m k) 1 = tally f (m(i := None)) k"
    using t [of k] small by (simp add: fetch_sub_def mod_Suc_le_divisor le_mod_geq)
  moreover have "map_of counts j = (if tally f (m(i := None)) j = 0 then None else Some (tally f (m(i := None)) j))"
    if "j \<noteq> k" for j using ok t [of j] that by (simp add: counts_ok_def)
  ultimately show ?thesis using ok
    by (auto simp: counts_ok_def decrement_count_def Let_def update_conv' delete_conv' distinct_update distinct_delete)
qed

lemma decrement_skip:
  assumes "counts_ok f m counts" "finite (dom m)" "m i = Some e" "f e = None"
  shows "counts_ok f (m(i := None)) counts"
  using assms tally_removed [OF assms(2,3), of f] by (simp add: counts_ok_def)

section \<open>The room index\<close>

definition index_ok :: "((string \<times> string) \<times> nat list) list \<Rightarrow> bool" where
  "index_ok index \<longleftrightarrow> distinct (map fst index) \<and> (\<forall>key ids. map_of index key = Some ids \<longrightarrow> ids \<noteq> [] \<and> distinct ids)"

lemma rooms_ok_iff: "rooms_ok m index \<longleftrightarrow> index_ok index \<and> (\<forall>key. set (room_members index key) = in_room m key)"
  by (simp add: rooms_ok_def index_ok_def)

lemma added_membership:
  assumes "index_ok index"
  shows "index_ok (add_membership route i room index)"
    "set (room_members (add_membership route i room index) key) =
       set (room_members index key) \<union> (if key = (route, room) then {i} else {})"
  using assms
  by (auto simp: index_ok_def add_membership_def room_members_def update_conv' distinct_update List.insert_def
      simp del: map_of_eq_Some_iff split: option.splits if_splits)

lemma added_memberships:
  assumes "index_ok index"
  shows "index_ok (fold (add_membership route i) rooms index) \<and>
    set (room_members (fold (add_membership route i) rooms index) key) =
       set (room_members index key) \<union> (if fst key = route \<and> snd key \<in> set rooms then {i} else {})"
  using assms
proof (induction rooms arbitrary: index)
  case (Cons room rooms)
  note one = added_membership [OF Cons.prems, where route = route and i = i and room = room]
  from Cons.IH [OF one(1)] show ?case by (cases key) (auto simp: one(2))
qed simp

lemma removed_membership:
  fixes index route room i
  defines "index' \<equiv> (case map_of index (route, room) of
          None \<Rightarrow> index
        | Some ids \<Rightarrow>
            let ids' = removeAll i ids
            in if ids' = [] then AList.delete (route, room) index else AList.update (route, room) ids' index)"
  assumes "index_ok index"
  shows "index_ok index'"
    "set (room_members index' key) = set (room_members index key) - (if key = (route, room) then {i} else {})"
proof -
  show "index_ok index'" using assms(2)
    by (auto simp: index'_def index_ok_def Let_def update_conv' delete_conv' distinct_update distinct_delete
        distinct_removeAll simp del: map_of_eq_Some_iff split: option.split if_splits)
  have "set ids \<subseteq> {i}" if "removeAll i ids = []" for ids :: "nat list"
    using that by (metis Diff_eq_empty_iff empty_set set_removeAll)
  then show "set (room_members index' key) = set (room_members index key) - (if key = (route, room) then {i} else {})"
    by (auto simp: index'_def room_members_def Let_def update_conv' delete_conv' split: option.split if_splits)
qed

lemma removed_memberships:
  assumes "index_ok index"
  shows "index_ok (remove_room_memberships index route i rooms) \<and>
    set (room_members (remove_room_memberships index route i rooms) key) =
       set (room_members index key) - (if fst key = route \<and> snd key \<in> set rooms then {i} else {})"
  using assms
proof (induction rooms arbitrary: index)
  case (Cons room rooms)
  note one = removed_membership [OF Cons.prems, where route = route and i = i and room = room]
  from Cons.IH [OF one(1)] show ?case
    unfolding remove_room_memberships.simps by (cases key) (auto simp: one(2))
qed simp

section \<open>Strictly sorted lists\<close>

lemma btree_set_sorted: "btree_set xs = sorted_list_of_set (set xs)"
  by (simp add: btree_set_def sorted_list_of_set_sort_remdups)

lemma filter_sorted_set: "finite A \<Longrightarrow> filter P (sorted_list_of_set A) = sorted_list_of_set {x \<in> A. P x}"
  by (rule sorted_distinct_set_unique) (auto intro: sorted_wrt_filter)

lemma sorted_rooms: "sorted xs \<Longrightarrow> distinct xs \<Longrightarrow> sorted_list_of_set (set xs) = xs"
  by (simp add: sorted_list_of_set_sort_remdups distinct_remdups_id sorted_sort_id)

lemma inserted_rooms:
  "sorted rooms \<Longrightarrow> distinct rooms \<Longrightarrow>
   sorted (fold insort_insert xs rooms) \<and> distinct (fold insort_insert xs rooms) \<and>
   set (fold insort_insert xs rooms) = set rooms \<union> set xs"
  by (induction xs arbitrary: rooms) (auto simp: sorted_insort_insert distinct_insort_insert set_insort_insert)

lemma left_rooms:
  "sorted rooms \<Longrightarrow> distinct rooms \<Longrightarrow>
   sorted (fold remove1 xs rooms) \<and> distinct (fold remove1 xs rooms) \<and> set (fold remove1 xs rooms) = set rooms - set xs"
  by (induction xs arbitrary: rooms) (auto simp: sorted_remove1)

lemma validated_rooms:
  "collect_results (map (\<lambda>room. validate_room room n) xs) =
     (case filter (bad_room n) xs of [] \<Rightarrow> Inr (map (\<lambda>_. ()) xs) | room # _ \<Rightarrow> Inl (InvalidRoom room))"
  by (induction xs) (auto simp: validate_room_def bad_room_def split: list.split sum.split)

section \<open>Keeping the invariant\<close>

lemma registry_okI:
  assumes "distinct (map fst (rg_connections (rt_registry rt)))"
    "counts_ok (Some \<circ> ce_route) (map_of (rg_connections (rt_registry rt))) (rg_route_counts (rt_registry rt))"
    "counts_ok (remote_ip \<circ> ce_remote_addr) (map_of (rg_connections (rt_registry rt))) (rg_ip_counts (rt_registry rt))"
    "rooms_ok (map_of (rg_connections (rt_registry rt))) (rg_rooms (rt_registry rt))"
    "\<And>i e. map_of (rg_connections (rt_registry rt)) i = Some e \<Longrightarrow> i < rt_next_id rt \<and> entry_ok e"
    "seen_ok (rt_registry rt)" "rt_next_id rt + n \<le> u64_max"
    "rt_next_id rt = accepted_connections (rg_counters (rt_registry rt)) + 1"
    "accepted_connections (rg_counters (rt_registry rt)) =
       closed_connections (rg_counters (rt_registry rt)) + length (rg_connections (rt_registry rt))"
  shows "registry_ok n rt"
  unfolding registry_ok_def Let_def using assms by blast

lemma registry_okD:
  assumes "registry_ok n rt"
  shows "distinct (map fst (rg_connections (rt_registry rt)))"
    "counts_ok (Some \<circ> ce_route) (map_of (rg_connections (rt_registry rt))) (rg_route_counts (rt_registry rt))"
    "counts_ok (remote_ip \<circ> ce_remote_addr) (map_of (rg_connections (rt_registry rt))) (rg_ip_counts (rt_registry rt))"
    "rooms_ok (map_of (rg_connections (rt_registry rt))) (rg_rooms (rt_registry rt))"
    "\<And>i e. map_of (rg_connections (rt_registry rt)) i = Some e \<Longrightarrow> i < rt_next_id rt \<and> entry_ok e"
    "seen_ok (rt_registry rt)" "rt_next_id rt + n \<le> u64_max"
    "rt_next_id rt = accepted_connections (rg_counters (rt_registry rt)) + 1"
    "accepted_connections (rg_counters (rt_registry rt)) =
       closed_connections (rg_counters (rt_registry rt)) + length (rg_connections (rt_registry rt))"
  using assms unfolding registry_ok_def Let_def by blast+

lemma registry_ok_Suc: "registry_ok (Suc n) rt \<Longrightarrow> registry_ok n rt"
  by (rule registry_okI) (use registry_okD [of "Suc n" rt] in simp_all)

definition keeps :: "(('s, 'a) ConnectionEntry \<Rightarrow> ('s, 'a) ConnectionEntry) \<Rightarrow> bool" where
  "keeps g \<longleftrightarrow>
     (\<forall>e. ce_route (g e) = ce_route e \<and> ce_remote_addr (g e) = ce_remote_addr e \<and> ce_rooms (g e) = ce_rooms e \<and>
          ce_max_rooms_per_connection (g e) = ce_max_rooms_per_connection e \<and>
          ce_max_room_name_bytes (g e) = ce_max_room_name_bytes e)"

lemma keep_entries:
  assumes ok: "registry_ok n rt" and keep: "\<And>i. keeps (F i)"
    and conns: "map_of conns = (\<lambda>i. map_option (F i) (map_of (rg_connections (rt_registry rt)) i))"
      "map fst conns = map fst (rg_connections (rt_registry rt))"
  shows "registry_ok n (rt\<lparr>rt_registry := (rt_registry rt)\<lparr>rg_connections := conns\<rparr>\<rparr>)"
proof -
  let ?m = "map_of (rg_connections (rt_registry rt))"
  have len: "length conns = length (rg_connections (rt_registry rt))" using conns(2) by (metis length_map)
  have t: "tally (Some \<circ> ce_route) (map_of conns) = tally (Some \<circ> ce_route) ?m"
    "tally (remote_ip \<circ> ce_remote_addr) (map_of conns) = tally (remote_ip \<circ> ce_remote_addr) ?m"
    using keep by (auto simp: tally_def conns(1) keeps_def fun_eq_iff intro!: arg_cong [where f = card])
  have r: "in_room (map_of conns) key = in_room ?m key" for key
    using keep by (auto simp: conns(1) keeps_def)
  have e: "i < rt_next_id rt \<and> entry_ok e" if i: "map_of conns i = Some e" for i e
  proof -
    obtain e0 where "?m i = Some e0" "e = F i e0" using i by (auto simp: conns(1))
    then show ?thesis using keep [of i] registry_okD(5) [OF ok] by (auto simp: keeps_def entry_ok_def)
  qed
  show ?thesis
    by (rule registry_okI) (use registry_okD [OF ok] e in
      \<open>simp_all add: conns(2) counts_ok_def t rooms_ok_def r len seen_ok_def del: map_of_eq_Some_iff\<close>)
qed

lemma update_entry_ok:
  assumes "registry_ok n rt" "keeps g"
  shows "registry_ok n (update_entry g i rt)"
proof (cases "map_of (rg_connections (rt_registry rt)) i")
  case (Some e)
  have "registry_ok n (rt\<lparr>rt_registry := (rt_registry rt)
      \<lparr>rg_connections := AList.update i (g e) (rg_connections (rt_registry rt))\<rparr>\<rparr>)"
  proof (rule keep_entries [OF assms(1)])
    show "keeps (\<lambda>e. if j = i then g e else e)" for j using assms(2) by (simp add: keeps_def)
    show "map_of (AList.update i (g e) (rg_connections (rt_registry rt))) =
      (\<lambda>j. map_option (\<lambda>e. if j = i then g e else e) (map_of (rg_connections (rt_registry rt)) j))"
      using Some by (auto simp: update_conv' fun_eq_iff map_option.identity option.map_ident)
    show "map fst (AList.update i (g e) (rg_connections (rt_registry rt))) = map fst (rg_connections (rt_registry rt))"
      using Some by (auto simp: update_keys dest: map_of_SomeD intro: rev_image_eqI)
  qed
  then show ?thesis by (simp add: update_entry_def Let_def Some)
qed (use assms in \<open>simp add: update_entry_def\<close>)

lemma update_entry_presence:
  assumes "\<And>e. member_of (g e) = h (member_of e)"
  shows "presence (update_entry g i rt) = change_member i h (presence rt)"
  using assms
  by (auto simp: presence_def update_entry_def change_member_def Let_def update_conv' fun_eq_iff split: option.split)

lemma rooms_joined:
  assumes ok: "rooms_ok m index" and e: "m i = Some e" and set_rooms: "set rooms = set (ce_rooms e) \<union> set xs"
  shows "rooms_ok (m(i \<mapsto> e\<lparr>ce_rooms := rooms\<rparr>)) (fold (add_membership (ce_route e) i) xs index)"
proof -
  have old: "index_ok index" "\<And>key. set (room_members index key) = in_room m key" using ok by (auto simp: rooms_ok_iff)
  note new = added_memberships [OF old(1), where route = "ce_route e" and i = i and rooms = xs]
  have eq: "in_room (m(i \<mapsto> e\<lparr>ce_rooms := rooms\<rparr>)) key = in_room m key \<union> (if fst key = ce_route e \<and> snd key \<in> set xs then {i} else {})" for key
  proof (rule set_eqI)
    show "j \<in> in_room (m(i \<mapsto> e\<lparr>ce_rooms := rooms\<rparr>)) key \<longleftrightarrow>
      j \<in> in_room m key \<union> (if fst key = ce_route e \<and> snd key \<in> set xs then {i} else {})" for j
      using e set_rooms by (cases "j = i") (auto simp: eq_commute [of "fst key"])
  qed
  show ?thesis unfolding rooms_ok_iff new [THEN conjunct2] old(2) eq using new [THEN conjunct1] by blast
qed

lemma rooms_left:
  assumes ok: "rooms_ok m index" and e: "m i = Some e" and set_rooms: "set rooms = set (ce_rooms e) - set xs"
  shows "rooms_ok (m(i \<mapsto> e\<lparr>ce_rooms := rooms\<rparr>)) (remove_room_memberships index (ce_route e) i xs)"
proof -
  have old: "index_ok index" "\<And>key. set (room_members index key) = in_room m key" using ok by (auto simp: rooms_ok_iff)
  note new = removed_memberships [OF old(1), where route = "ce_route e" and i = i and rooms = xs]
  have eq: "in_room (m(i \<mapsto> e\<lparr>ce_rooms := rooms\<rparr>)) key = in_room m key - (if fst key = ce_route e \<and> snd key \<in> set xs then {i} else {})" for key
  proof (rule set_eqI)
    show "j \<in> in_room (m(i \<mapsto> e\<lparr>ce_rooms := rooms\<rparr>)) key \<longleftrightarrow>
      j \<in> in_room m key - (if fst key = ce_route e \<and> snd key \<in> set xs then {i} else {})" for j
      using e set_rooms by (cases "j = i") (auto simp: eq_commute [of "fst key"])
  qed
  show ?thesis unfolding rooms_ok_iff new [THEN conjunct2] old(2) eq using new [THEN conjunct1] by blast
qed

lemma rooms_released:
  assumes ok: "rooms_ok m index" and e: "m i = Some e"
  shows "rooms_ok (m(i := None)) (remove_room_memberships index (ce_route e) i (ce_rooms e))"
proof -
  have old: "index_ok index" "\<And>key. set (room_members index key) = in_room m key" using ok by (auto simp: rooms_ok_iff)
  note new = removed_memberships [OF old(1), where route = "ce_route e" and i = i and rooms = "ce_rooms e"]
  have eq: "in_room (m(i := None)) key = in_room m key - (if fst key = ce_route e \<and> snd key \<in> set (ce_rooms e) then {i} else {})" for key
  proof (rule set_eqI)
    show "j \<in> in_room (m(i := None)) key \<longleftrightarrow>
      j \<in> in_room m key - (if fst key = ce_route e \<and> snd key \<in> set (ce_rooms e) then {i} else {})" for j
      using e by (cases "j = i") (auto simp: eq_commute [of "fst key"])
  qed
  show ?thesis unfolding rooms_ok_iff new [THEN conjunct2] old(2) eq using new [THEN conjunct1] by blast
qed

lemma change_rooms:
  assumes ok: "registry_ok n rt" and e: "map_of (rg_connections (rt_registry rt)) i = Some e"
    and rooms: "entry_ok (e\<lparr>ce_rooms := rooms\<rparr>)"
      "rooms_ok ((map_of (rg_connections (rt_registry rt)))(i \<mapsto> e\<lparr>ce_rooms := rooms\<rparr>)) index"
    and c: "accepted_connections c = accepted_connections (rg_counters (rt_registry rt))"
      "closed_connections c = closed_connections (rg_counters (rt_registry rt))"
  shows "registry_ok n (rt\<lparr>rt_registry := (rt_registry rt)
      \<lparr>rg_connections := AList.update i (e\<lparr>ce_rooms := rooms\<rparr>) (rg_connections (rt_registry rt)),
       rg_rooms := index, rg_counters := c\<rparr>\<rparr>)"
proof -
  let ?cs = "rg_connections (rt_registry rt)"
  have keys: "map fst (AList.update i (e\<lparr>ce_rooms := rooms\<rparr>) ?cs) = map fst ?cs"
    using e by (auto simp: update_keys dest: map_of_SomeD intro: rev_image_eqI)
  then have len: "length (AList.update i (e\<lparr>ce_rooms := rooms\<rparr>) ?cs) = length ?cs" by (metis length_map)
  have t: "tally (Some \<circ> ce_route) ((map_of ?cs)(i \<mapsto> e\<lparr>ce_rooms := rooms\<rparr>)) = tally (Some \<circ> ce_route) (map_of ?cs)"
    "tally (remote_ip \<circ> ce_remote_addr) ((map_of ?cs)(i \<mapsto> e\<lparr>ce_rooms := rooms\<rparr>)) =
      tally (remote_ip \<circ> ce_remote_addr) (map_of ?cs)"
    by (rule tally_same, rule e, simp)+
  show ?thesis
    by (rule registry_okI) (use registry_okD [OF ok] rooms c e in
      \<open>simp_all add: keys len update_conv' counts_ok_def seen_ok_def t split: if_splits del: map_of_eq_Some_iff\<close>)
qed

section \<open>Every step\<close>

abbreviation conns :: "('s, 'a) Runtime \<Rightarrow> (nat \<times> ('s, 'a) ConnectionEntry) list" where
  "conns rt \<equiv> rg_connections (rt_registry rt)"

lemma presence_sel:
  "pr_accepting (presence rt) = rg_accepting (rt_registry rt)"
  "pr_members (presence rt) i = map_option member_of (map_of (conns rt) i)"
  "pr_next (presence rt) = rt_next_id rt"
  "pr_max_rooms (presence rt) = rt_max_rooms_per_connection rt"
  "pr_max_name (presence rt) = rt_max_room_name_bytes rt"
  "pr_seen (presence rt) = rg_seen_publication_order (rt_registry rt)"
  by (simp_all add: presence_def Let_def)

lemma member_sel:
  "mb_route (member_of e) = ce_route e" "mb_ip (member_of e) = remote_ip (ce_remote_addr e)"
  "mb_rooms (member_of e) = set (ce_rooms e)" "mb_max_rooms (member_of e) = ce_max_rooms_per_connection e"
  "mb_max_name (member_of e) = ce_max_room_name_bytes e" "mb_abortable (member_of e) = (ce_driver_abort e \<noteq> None)"
  by (simp_all add: member_of_def)

lemma rejection_exact:
  assumes ok: "registry_ok n rt"
  shows "admission_rejection (rt_registry rt) route ip config = spec_rejection (presence rt) route ip config"
proof -
  have d: "dom (pr_members (presence rt)) = fst ` set (conns rt)"
    by (auto simp: presence_sel dom_map_of_conv_image_fst [symmetric])
  then have "card (dom (pr_members (presence rt))) = length (conns rt)"
    using registry_okD(1) [OF ok] by (metis distinct_card length_map set_map)
  moreover have "tally (Some \<circ> mb_route) (pr_members (presence rt)) = tally (Some \<circ> ce_route) (map_of (conns rt))"
    "tally mb_ip (pr_members (presence rt)) = tally (remote_ip \<circ> ce_remote_addr) (map_of (conns rt))"
    by (simp_all add: tally_def presence_sel fun_eq_iff) (auto simp: member_sel intro!: arg_cong [where f = card])
  ultimately show ?thesis
    unfolding admission_rejection_def spec_rejection_def
    by (simp add: presence_sel(1) count_of_exact [OF registry_okD(2) [OF ok]] count_of_exact [OF registry_okD(3) [OF ok]]
        split: option.split)
qed

lemma rooms_ok_new:
  assumes "rooms_ok m index" "m i = None" "ce_rooms e = []"
  shows "rooms_ok (m(i \<mapsto> e)) index"
proof -
  have eq: "in_room (m(i \<mapsto> e)) key = in_room m key" for key using assms(2,3) by auto
  then show ?thesis using assms(1) by (simp add: rooms_ok_def)
qed

lemma admitted_ok:
  assumes ok: "registry_ok (Suc n) rt" and e: "ce_rooms e = []"
    and c: "accepted_connections c = accepted_connections (rg_counters (rt_registry rt)) + 1"
      "closed_connections c = closed_connections (rg_counters (rt_registry rt))"
  shows "registry_ok n (rt\<lparr>rt_next_id := fetch_add (rt_next_id rt) 1,
    rt_registry := (rt_registry rt)
      \<lparr>rg_connections := AList.update (rt_next_id rt) e (conns rt),
       rg_route_counts := increment_count (rg_route_counts (rt_registry rt)) (ce_route e),
       rg_ip_counts := (case remote_ip (ce_remote_addr e) of None \<Rightarrow> rg_ip_counts (rt_registry rt)
                        | Some a \<Rightarrow> increment_count (rg_ip_counts (rt_registry rt)) a),
       rg_counters := c\<rparr>\<rparr>)"
proof -
  let ?i = "rt_next_id rt" and ?m = "map_of (conns rt)"
  note D = registry_okD [OF ok]
  have new: "?m ?i = None" using D(5) [of ?i] by (cases "?m ?i") auto
  have fin: "finite (dom ?m)" by (rule finite_dom_map_of)
  have next_id: "fetch_add ?i 1 = ?i + 1" using D(7) by (simp add: fetch_add_def)
  have keys: "map fst (AList.update ?i e (conns rt)) = map fst (conns rt) @ [?i]"
    using new by (simp add: update_keys map_of_eq_None_iff)
  then have len: "length (AList.update ?i e (conns rt)) = length (conns rt) + 1"
    by (metis length_append_singleton length_map Suc_eq_plus1)
  have small: "length (conns rt) < u64_max" using D(7,8,9) by linarith
  note few = le_less_trans [OF tally_le small]
  have dist: "distinct (map fst (AList.update ?i e (conns rt)))" by (rule distinct_update [OF D(1)])
  have entries: "j < ?i + 1 \<and> entry_ok x" if "(?m(?i \<mapsto> e)) j = Some x" for j x
    using that D(5) [of j x] e by (auto simp: entry_ok_def split: if_splits)
  have r: "counts_ok (Some \<circ> ce_route) (?m(?i \<mapsto> e)) (increment_count (rg_route_counts (rt_registry rt)) (ce_route e))"
    by (rule increment_ok [OF D(2) fin new]) (simp_all add: few)
  have a: "counts_ok (remote_ip \<circ> ce_remote_addr) (?m(?i \<mapsto> e))
    (case remote_ip (ce_remote_addr e) of None \<Rightarrow> rg_ip_counts (rt_registry rt)
     | Some a \<Rightarrow> increment_count (rg_ip_counts (rt_registry rt)) a)"
    using increment_skip [OF D(3) fin new, of e] increment_ok [OF D(3) fin new, of e]
    by (auto simp: few split: option.split)
  show ?thesis
  proof (rule registry_okI, goal_cases)
    case (5 i x)
    then show ?case using entries [of i x] by (simp add: update_conv' next_id [simplified] del: fun_upd_apply)
  next
    case 6
    then show ?case using D(6) by (simp add: seen_ok_def)
  qed (use dist r a rooms_ok_new [OF D(4) new e] D(7) c in \<open>simp_all add: update_conv' next_id [simplified] del: fun_upd_apply\<close>,
      use D(8,9) len in simp_all)
qed

definition step_ok :: "nat \<Rightarrow> ('s, 'a) Runtime \<Rightarrow> ('s, 'a) RtOp \<Rightarrow> bool" where
  "step_ok n rt x \<longleftrightarrow>
     registry_ok n (snd (rt_step rt x)) \<and> spec_step (presence rt) x = apsnd presence (rt_step rt x)"

lemma admit_step:
  assumes ok: "registry_ok (Suc n) rt"
  shows "step_ok n rt (Admit route addr protocol config now)"
  unfolding step_ok_def
proof (intro conjI)
  let ?i = "rt_next_id rt" and ?e = "new_entry rt route addr protocol config now" and ?c = "rg_counters (rt_registry rt)"
  note D = registry_okD [OF ok] and rej = rejection_exact [OF ok, of route "remote_ip addr" config]
  have n: "fetch_add ?i 1 = ?i + 1" "fetch_add (accepted_connections ?c) 1 = accepted_connections ?c + 1"
    using D(7,8) by (simp_all add: fetch_add_def)
  have e: "ce_route ?e = route" "ce_remote_addr ?e = addr" "ce_rooms ?e = []" by (simp_all add: new_entry_def)
  have refused: "registry_ok n (rt\<lparr>rt_registry := (rt_registry rt)\<lparr>rg_counters := ?c\<lparr>rejected_connections := k\<rparr>\<rparr>\<rparr>)" for k
    by (rule registry_okI) (use registry_okD [OF registry_ok_Suc [OF ok]] in \<open>simp_all add: seen_ok_def\<close>)
  show "registry_ok n (snd (rt_step rt (Admit route addr protocol config now)))"
    using refused admitted_ok [OF ok e(3), of "?c\<lparr>accepted_connections := fetch_add (accepted_connections ?c) 1\<rparr>"]
    by (auto simp: admit_def Let_def e n(2) [simplified] split: option.split)
  have "map_option member_of (((map_of (conns rt))(?i \<mapsto> ?e)) j) =
    ((\<lambda>j. map_option member_of (map_of (conns rt) j))(?i \<mapsto> member_of ?e)) j" for j by simp
  then show "spec_step (presence rt) (Admit route addr protocol config now) =
      apsnd presence (rt_step rt (Admit route addr protocol config now))"
    using rej
    by (cases "spec_rejection (presence rt) route (remote_ip addr) config")
      (simp_all add: admit_def spec_admit_def Let_def presence_def n(1) [simplified] update_conv' fun_eq_iff member_of_def new_entry_def)
qed

lemma presence_rooms:
  assumes "map_of (conns rt) i = Some e"
  shows "presence (rt\<lparr>rt_registry := (rt_registry rt)
      \<lparr>rg_connections := AList.update i (e\<lparr>ce_rooms := rooms\<rparr>) (conns rt), rg_rooms := index, rg_counters := c\<rparr>\<rparr>) =
    change_member i (\<lambda>m. m\<lparr>mb_rooms := set rooms\<rparr>) (presence rt)"
  using assms by (auto simp: presence_def Let_def change_member_def update_conv' member_of_def fun_eq_iff)

lemma join_step:
  assumes ok: "registry_ok (Suc n) rt"
  shows "step_ok n rt (Join i rooms)"
proof (cases "map_of (conns rt) i")
  case None
  then show ?thesis
    using registry_ok_Suc [OF ok] by (simp add: step_ok_def ws_join_def spec_join_def presence_sel)
next
  case (Some e)
  have e: "sorted (ce_rooms e)" "distinct (ce_rooms e)"
    "list_all (\<lambda>room. \<not> bad_room (ce_max_room_name_bytes e) room) (ce_rooms e)"
    using registry_okD(5) [OF ok Some] by (auto simp: entry_ok_def)
  let ?new = "set rooms - set (ce_rooms e)" and ?bad = "{room \<in> set rooms. bad_room (ce_max_room_name_bytes e) room}"
  let ?add = "filter (\<lambda>room. room \<notin> set (ce_rooms e)) (btree_set rooms)"
  let ?rooms = "fold insort_insert ?add (ce_rooms e)"
  have add: "?add = sorted_list_of_set ?new" by (simp add: btree_set_sorted filter_sorted_set set_diff_eq)
  have new: "sorted ?rooms" "distinct ?rooms" "set ?rooms = set (ce_rooms e) \<union> set rooms"
    using inserted_rooms [OF e(1,2), of ?add] by (auto simp: btree_set_def)
  have card: "card (set (ce_rooms e) \<union> set rooms) = length (ce_rooms e) + length ?add"
    using card_Un_disjoint [of "set (ce_rooms e)" ?new] e(2) by (simp add: add distinct_card)
  have bad: "filter (bad_room (ce_max_room_name_bytes e)) (btree_set rooms) = sorted_list_of_set ?bad"
    by (simp add: btree_set_sorted filter_sorted_set)
  note defs = step_ok_def ws_join_def spec_join_def presence_sel member_sel Some validated_rooms bad card
  consider "?bad \<noteq> {}" | "?bad = {}" "card (set (ce_rooms e) \<union> set rooms) > ce_max_rooms_per_connection e"
    | "?bad = {}" "card (set (ce_rooms e) \<union> set rooms) \<le> ce_max_rooms_per_connection e" by linarith
  then show ?thesis
  proof cases
    case 1
    then show ?thesis using registry_ok_Suc [OF ok] sorted_list_of_set_nonempty [of ?bad]
      by (simp add: defs Let_def del: Collect_empty_eq)
  next
    case 2
    then show ?thesis using registry_ok_Suc [OF ok] by (simp add: defs Let_def del: Collect_empty_eq)
  next
    case 3
    have "entry_ok (e\<lparr>ce_rooms := ?rooms\<rparr>)"
      using new 3 e(3) distinct_card [OF new(2)] by (auto simp: entry_ok_def list_all_iff)
    note reg = change_rooms [OF registry_ok_Suc [OF ok] Some this rooms_joined [OF registry_okD(4) [OF ok] Some]]
    let ?c = "rg_counters (rt_registry rt)"
    let ?rt = "rt\<lparr>rt_registry := (rt_registry rt)
      \<lparr>rg_connections := AList.update i (e\<lparr>ce_rooms := ?rooms\<rparr>) (conns rt),
       rg_rooms := fold (add_membership (ce_route e) i) ?add (rg_rooms (rt_registry rt)),
       rg_counters := ?c\<lparr>room_joins := u64_saturating_add (room_joins ?c) (length ?add)\<rparr>\<rparr>\<rparr>"
    have "ws_join rt i rooms = (Inr (), ?rt, map (ObsRoomJoined i (ce_route e)) ?add)"
      using 3 by (simp add: ws_join_def Some validated_rooms bad card Let_def del: Collect_empty_eq)
    moreover have "registry_ok n ?rt" by (rule reg) (unfold new(3), simp_all add: add)
    moreover have "presence ?rt = change_member i (\<lambda>m. m\<lparr>mb_rooms := mb_rooms m \<union> set rooms\<rparr>) (presence rt)"
      unfolding presence_rooms [OF Some] by (simp add: change_member_def presence_sel Some new(3) member_sel)
    ultimately show ?thesis using 3
      by (simp add: step_ok_def spec_join_def presence_sel member_sel Some add Let_def del: Collect_empty_eq)
  qed
qed

lemma leave_step:
  assumes ok: "registry_ok (Suc n) rt" and e: "map_of (conns rt) i = Some e" and sub: "set xs \<subseteq> set (ce_rooms e)"
    and rooms: "sorted rooms" "distinct rooms" "set rooms = set (ce_rooms e) - set xs"
  shows "registry_ok n (rt\<lparr>rt_registry := forget_rooms i (ce_route e) xs
      ((rt_registry rt)\<lparr>rg_connections := AList.update i (e\<lparr>ce_rooms := rooms\<rparr>) (conns rt)\<rparr>)\<rparr>)"
    "presence (rt\<lparr>rt_registry := forget_rooms i (ce_route e) xs
      ((rt_registry rt)\<lparr>rg_connections := AList.update i (e\<lparr>ce_rooms := rooms\<rparr>) (conns rt)\<rparr>)\<rparr>) =
     change_member i (\<lambda>m. m\<lparr>mb_rooms := mb_rooms m - set xs\<rparr>) (presence rt)"
proof -
  have old: "entry_ok e" using registry_okD(5) [OF ok e] by blast
  have "length rooms \<le> length (ce_rooms e)"
    using rooms(2,3) old by (metis Diff_subset List.finite_set card_mono distinct_card entry_ok_def)
  then have "entry_ok (e\<lparr>ce_rooms := rooms\<rparr>)" using rooms old by (auto simp: entry_ok_def list_all_iff)
  note reg = change_rooms [OF registry_ok_Suc [OF ok] e this rooms_left [OF registry_okD(4) [OF ok] e rooms(3)]]
  show "registry_ok n (rt\<lparr>rt_registry := forget_rooms i (ce_route e) xs
      ((rt_registry rt)\<lparr>rg_connections := AList.update i (e\<lparr>ce_rooms := rooms\<rparr>) (conns rt)\<rparr>)\<rparr>)"
    by (simp add: forget_rooms_def Let_def reg)
  show "presence (rt\<lparr>rt_registry := forget_rooms i (ce_route e) xs
      ((rt_registry rt)\<lparr>rg_connections := AList.update i (e\<lparr>ce_rooms := rooms\<rparr>) (conns rt)\<rparr>)\<rparr>) =
     change_member i (\<lambda>m. m\<lparr>mb_rooms := mb_rooms m - set xs\<rparr>) (presence rt)"
    by (simp add: forget_rooms_def Let_def presence_rooms [OF e]) (simp add: change_member_def presence_sel e rooms(3) member_sel)
qed

lemma leave_ok:
  assumes ok: "registry_ok (Suc n) rt"
  shows "step_ok n rt (Leave i rooms)"
proof (cases "map_of (conns rt) i")
  case None
  then show ?thesis using registry_ok_Suc [OF ok] by (simp add: step_ok_def ws_leave_def spec_leave_def presence_sel)
next
  case (Some e)
  let ?xs = "filter (\<lambda>room. room \<in> set (ce_rooms e)) (btree_set rooms)"
  have xs: "?xs = sorted_list_of_set (set (ce_rooms e) \<inter> set rooms)"
    by (simp add: btree_set_sorted filter_sorted_set Int_def conj_commute)
  have e: "sorted (ce_rooms e)" "distinct (ce_rooms e)" using registry_okD(5) [OF ok Some] by (auto simp: entry_ok_def)
  have "set ?xs \<subseteq> set (ce_rooms e)" by auto
  note step = leave_step [OF ok Some this, of "fold remove1 ?xs (ce_rooms e)"]
  have "set ?xs = set (ce_rooms e) \<inter> set rooms" by (simp add: xs)
  then show ?thesis using step left_rooms [OF e, of ?xs]
    by (simp add: step_ok_def ws_leave_def spec_leave_def presence_sel Some Let_def member_sel xs [symmetric])
      (simp add: xs change_member_def presence_sel Some member_sel)
qed

lemma leave_all_ok:
  assumes ok: "registry_ok (Suc n) rt"
  shows "step_ok n rt (LeaveAll i)"
proof (cases "map_of (conns rt) i")
  case None
  then show ?thesis using registry_ok_Suc [OF ok] by (simp add: step_ok_def ws_leave_all_def spec_leave_def presence_sel)
next
  case (Some e)
  have e: "sorted (ce_rooms e)" "distinct (ce_rooms e)" using registry_okD(5) [OF ok Some] by (auto simp: entry_ok_def)
  show ?thesis using leave_step [OF ok Some, of "ce_rooms e" "[]"]
    by (simp add: step_ok_def ws_leave_all_def spec_leave_def presence_sel Some Let_def member_sel sorted_rooms [OF e])
      (simp add: change_member_def presence_sel Some member_sel)
qed

lemma release_ok:
  assumes ok: "registry_ok (Suc n) rt"
  shows "step_ok n rt (Release i)"
proof (cases "map_of (conns rt) i")
  case None
  moreover have "(pr_members (presence rt))(i := None) = pr_members (presence rt)"
    using None by (auto simp: presence_sel fun_eq_iff)
  ultimately show ?thesis using registry_ok_Suc [OF ok] by (simp add: step_ok_def release_def spec_release_def presence_sel)
next
  case (Some e)
  note D = registry_okD [OF ok]
  have e: "sorted (ce_rooms e)" "distinct (ce_rooms e)" using D(5) [OF Some] by (auto simp: entry_ok_def)
  have fin: "finite (dom (map_of (conns rt)))" by (rule finite_dom_map_of)
  have small: "length (conns rt) \<le> u64_max" and closed: "fetch_add (closed_connections (rg_counters (rt_registry rt))) 1 =
    closed_connections (rg_counters (rt_registry rt)) + 1"
    using D(7,8,9) by (simp_all add: fetch_add_def)
  note few = le_trans [OF tally_le small]
  have len: "length (conns rt) = length (AList.delete i (conns rt)) + 1"
    using length_delete [OF D(1) Some] by simp
  have r: "counts_ok (Some \<circ> ce_route) ((map_of (conns rt))(i := None)) (decrement_count (rg_route_counts (rt_registry rt)) (ce_route e))"
    by (rule decrement_ok [OF D(2) fin Some]) (simp_all add: few)
  have a: "counts_ok (remote_ip \<circ> ce_remote_addr) ((map_of (conns rt))(i := None))
    (case remote_ip (ce_remote_addr e) of None \<Rightarrow> rg_ip_counts (rt_registry rt)
     | Some a \<Rightarrow> decrement_count (rg_ip_counts (rt_registry rt)) a)"
    using decrement_skip [OF D(3) fin Some] decrement_ok [OF D(3) fin Some] by (auto simp: few split: option.split)
  have "registry_ok n (fst (release rt i))"
  proof (rule registry_okI, goal_cases)
    case (5 j x)
    then show ?case using D(5) [of j x] Some by (simp add: release_def forget_rooms_def Let_def delete_conv' split: if_splits)
  next
    case 9
    then show ?case using D(9) len Some closed by (simp add: release_def forget_rooms_def Let_def)
  qed (use Some r a rooms_released [OF D(4) Some] D(1,6-8) in
    \<open>simp_all add: release_def forget_rooms_def Let_def delete_conv' distinct_delete seen_ok_def del: fun_upd_apply\<close>)
  moreover have "presence (fst (release rt i)) = (presence rt)\<lparr>pr_members := (pr_members (presence rt))(i := None)\<rparr>"
    using Some by (auto simp: release_def forget_rooms_def Let_def presence_def delete_conv' fun_eq_iff)
  ultimately show ?thesis
    by (cases "release rt i") (auto simp: step_ok_def spec_release_def presence_sel Some member_sel sorted_rooms [OF e] release_def Let_def)
qed

lemma keeps_simps:
  "keeps (\<lambda>e. e\<lparr>ce_lifecycle := l\<rparr>)" "keeps (\<lambda>e. e\<lparr>ce_internal_sender := s, ce_driver_abort := a\<rparr>)"
  "keeps (\<lambda>e. e\<lparr>ce_driver_abort := a\<rparr>)" "keeps (\<lambda>e. if must_abort e then e\<lparr>ce_forced_shutdown_observed := True\<rparr> else e)"
  by (simp_all add: keeps_def)

lemma lifecycle_ok:
  assumes ok: "registry_ok (Suc n) rt"
  shows "step_ok n rt (Opened i)" "step_ok n rt (ClosingOf i)" "step_ok n rt (RegisterDriver i sender abort)"
    "step_ok n rt (RegisterUpgrade i abort)"
proof -
  have l: "presence (update_entry (\<lambda>e. e\<lparr>ce_lifecycle := l\<rparr>) i rt) = change_member i (\<lambda>m. m\<lparr>mb_lifecycle := l\<rparr>) (presence rt)" for l
    by (rule update_entry_presence) (simp add: member_of_def)
  have d: "presence (update_entry (\<lambda>e. e\<lparr>ce_internal_sender := Some sender, ce_driver_abort := Some abort\<rparr>) i rt) =
      change_member i (\<lambda>m. m\<lparr>mb_abortable := True\<rparr>) (presence rt)"
    by (rule update_entry_presence) (simp add: member_of_def)
  have u: "presence (update_entry (\<lambda>e. e\<lparr>ce_driver_abort := Some abort\<rparr>) i rt) =
      change_member i (\<lambda>m. m\<lparr>mb_abortable := True\<rparr>) (presence rt)"
    by (rule update_entry_presence) (simp add: member_of_def)
  have same: "change_member i (\<lambda>m. m\<lparr>mb_abortable := True\<rparr>) (presence rt) = presence rt"
    if "\<And>e. map_of (conns rt) i = Some e \<Longrightarrow> ce_driver_abort e \<noteq> None"
  proof -
    have "(pr_members (presence rt))(i := map_option (\<lambda>m. m\<lparr>mb_abortable := True\<rparr>) (pr_members (presence rt) i)) = pr_members (presence rt)"
      using that by (cases "map_of (conns rt) i") (auto simp: presence_sel fun_eq_iff member_of_def)
    then show ?thesis by (simp add: change_member_def)
  qed
  note reg = update_entry_ok [OF registry_ok_Suc [OF ok]]
  show "step_ok n rt (Opened i)" "step_ok n rt (ClosingOf i)" "step_ok n rt (RegisterDriver i sender abort)"
    by (simp_all add: step_ok_def record_opened_def record_closing_def register_driver_def l d reg keeps_simps presence_sel)
  show "step_ok n rt (RegisterUpgrade i abort)"
    using same registry_ok_Suc [OF ok]
    by (cases "map_of (conns rt) i")
      (auto simp: step_ok_def register_upgrade_task_def u reg keeps_simps presence_sel member_sel)
qed

lemma shutdown_ok:
  assumes ok: "registry_ok (Suc n) rt"
  shows "step_ok n rt BeginShutdown" "step_ok n rt AbortRemaining"
proof -
  have m: "map_of (map (apsnd g) xs) = (\<lambda>i. map_option g (map_of xs i))" for g :: "'c \<Rightarrow> 'd" and xs :: "('e \<times> 'c) list"
    by (induction xs) (auto simp: fun_eq_iff)
  have keep: "registry_ok n (rt\<lparr>rt_registry := (rt_registry rt)\<lparr>rg_connections := map (apsnd g) (conns rt)\<rparr>\<rparr>)" if "keeps g" for g
    by (rule keep_entries [OF registry_ok_Suc [OF ok], where F = "\<lambda>_. g"]) (simp_all add: that m)
  have "registry_ok n (rt\<lparr>rt_registry := (rt_registry rt)\<lparr>rg_accepting := False,
      rg_connections := map (apsnd (\<lambda>e. e\<lparr>ce_lifecycle := Closing\<rparr>)) (conns rt)\<rparr>, rt_shutdown := True\<rparr>)"
    by (rule registry_okI) (use registry_okD [OF keep [OF keeps_simps(1)], of Closing] in \<open>simp_all add: seen_ok_def del: map_map\<close>)
  then show "step_ok n rt BeginShutdown"
    by (simp add: step_ok_def begin_shutdown_def Let_def presence_def m member_of_def option.map_comp comp_def)
  have "member_of (if must_abort e then e\<lparr>ce_forced_shutdown_observed := True\<rparr> else e) = member_of e" for e :: "('a, 'b) ConnectionEntry"
    by (simp add: member_of_def)
  then show "step_ok n rt AbortRemaining"
    using keep [OF keeps_simps(4)]
    by (simp add: step_ok_def abort_remaining_def Let_def presence_def m option.map_comp comp_def)
qed

lemma active_exact:
  assumes ok: "registry_ok n rt"
  shows "card (dom (pr_members (presence rt))) = length (conns rt)"
proof -
  have "dom (pr_members (presence rt)) = set (map fst (conns rt))"
    by (auto simp: presence_sel dom_map_of_conv_image_fst [symmetric])
  then show ?thesis using distinct_card [OF registry_okD(1) [OF ok]] by simp
qed

lemma recipients_exact:
  assumes ok: "registry_ok n rt"
  shows "map fst (select_broadcast_recipients rt route rooms all_in_scope excluded) =
    sorted_list_of_set (audience (presence rt) route rooms all_in_scope excluded)"
proof -
  have d: "distinct (map fst (conns rt))" by (rule registry_okD(1) [OF ok])
  have r: "set (room_members (rg_rooms (rt_registry rt)) (x, room)) =
      {i. \<exists>e. map_of (conns rt) i = Some e \<and> ce_route e = x \<and> room \<in> set (ce_rooms e)}" for x room
    using registry_okD(4) [OF ok] by (simp add: rooms_ok_def)
  let ?ids = "{i. i \<notin> set excluded \<and> (if all_in_scope
      then \<exists>e. (i, e) \<in> set (conns rt) \<and> (route = None \<or> route = Some (ce_route e))
      else \<exists>x. route = Some x \<and> (\<exists>room \<in> set rooms. i \<in> set (room_members (rg_rooms (rt_registry rt)) (x, room))))}"
  have "map fst (select_broadcast_recipients rt route rooms all_in_scope excluded) = sorted_list_of_set ?ids"
    unfolding select_broadcast_recipients_def Let_def map_map comp_def fst_conv map_ident
    by (subst sorted_list_of_set_sort_remdups [symmetric], rule arg_cong [where f = sorted_list_of_set])
      (cases route; cases all_in_scope; auto intro: rev_image_eqI)
  also have "?ids = audience (presence rt) route rooms all_in_scope excluded"
  proof (cases all_in_scope)
    case True
    then show ?thesis using d by (fastforce simp: audience_def presence_sel member_sel)
  qed (auto simp: audience_def presence_sel member_sel r)
  finally show ?thesis .
qed

lemma queries_ok:
  assumes ok: "registry_ok (Suc n) rt"
  shows "step_ok n rt (Recipients scope rooms all_in_scope excluded)" "step_ok n rt (RoomSize route room)"
    "step_ok n rt (RoomsOf i)" "step_ok n rt ActiveCount" "step_ok n rt (MessageOf i outbound k)"
proof -
  show "step_ok n rt (Recipients scope rooms all_in_scope excluded)"
    using registry_ok_Suc [OF ok] by (simp add: step_ok_def recipients_exact [OF ok])
  have "length (room_members (rg_rooms (rt_registry rt)) (route, room)) = card (in_room (map_of (conns rt)) (route, room))"
    using registry_okD(4) [OF ok] distinct_card [of "room_members (rg_rooms (rt_registry rt)) (route, room)"]
    by (auto simp: rooms_ok_def room_members_def split: option.splits)
  moreover have "in_room (map_of (conns rt)) (route, room) =
      {i. \<exists>m. pr_members (presence rt) i = Some m \<and> mb_route m = route \<and> room \<in> mb_rooms m}"
    by (auto simp: presence_sel member_sel)
  ultimately show "step_ok n rt (RoomSize route room)"
    using registry_ok_Suc [OF ok] by (simp add: step_ok_def local_room_size_def)
  show "step_ok n rt (RoomsOf i)"
    using registry_ok_Suc [OF ok] registry_okD(5) [OF ok, of i]
    by (cases "map_of (conns rt) i") (auto simp: step_ok_def rooms_of_def presence_sel member_sel entry_ok_def sorted_rooms)
  show "step_ok n rt ActiveCount"
    using registry_ok_Suc [OF ok] by (simp add: step_ok_def active_count_def active_exact [OF ok])
  have "registry_ok n (update_counters f rt)" if "\<And>c. accepted_connections (f c) = accepted_connections c"
    "\<And>c. closed_connections (f c) = closed_connections c" for f
    by (rule registry_okI) (use registry_okD [OF registry_ok_Suc [OF ok]] that in \<open>simp_all add: update_counters_def seen_ok_def\<close>)
  then show "step_ok n rt (MessageOf i outbound k)"
    by (simp add: step_ok_def record_message_def) (simp add: update_counters_def presence_def Let_def)
qed

lemma seen_step:
  assumes ok: "registry_ok (Suc n) rt"
  shows "step_ok n rt (MarkSeen origin p)"
proof (cases "(origin, p) \<in> set (rg_seen_publications (rt_registry rt))")
  case True
  then show ?thesis using registry_ok_Suc [OF ok] registry_okD(6) [OF ok]
    by (simp add: step_ok_def mark_publication_seen_def spec_seen_def presence_sel seen_ok_def)
next
  case False
  let ?reg = "rt_registry rt" and ?rt = "snd (mark_publication_seen rt origin p)"
  let ?order = "rg_seen_publication_order ?reg"
  have seen: "distinct ?order" "distinct (rg_seen_publications ?reg)" "set (rg_seen_publications ?reg) = set ?order"
    "length ?order \<le> MAX_SEEN_PUBLICATIONS" "(origin, p) \<notin> set ?order"
    using registry_okD(6) [OF ok] False by (auto simp: seen_ok_def)
  have same: "rg_connections (rt_registry ?rt) = rg_connections ?reg" "rg_route_counts (rt_registry ?rt) = rg_route_counts ?reg"
    "rg_ip_counts (rt_registry ?rt) = rg_ip_counts ?reg" "rg_rooms (rt_registry ?rt) = rg_rooms ?reg"
    "rg_counters (rt_registry ?rt) = rg_counters ?reg" "rt_next_id ?rt = rt_next_id rt"
    "rg_accepting (rt_registry ?rt) = rg_accepting ?reg" "rt_max_rooms_per_connection ?rt = rt_max_rooms_per_connection rt"
    "rt_max_room_name_bytes ?rt = rt_max_room_name_bytes rt"
    by (auto simp: mark_publication_seen_def Let_def split: list.split)
  have "seen_ok (rt_registry ?rt)"
    using seen by (cases ?order) (auto simp: seen_ok_def mark_publication_seen_def Let_def distinct_removeAll)
  then have reg: "registry_ok n ?rt"
    by (intro registry_okI) (use registry_okD [OF registry_ok_Suc [OF ok]] in \<open>simp_all add: same\<close>)
  have "rg_seen_publication_order (rt_registry ?rt) = drop (length ?order + 1 - MAX_SEEN_PUBLICATIONS) (?order @ [(origin, p)])"
    using seen(4) False by (cases "length ?order = MAX_SEEN_PUBLICATIONS"; cases ?order)
      (auto simp: mark_publication_seen_def Let_def MAX_SEEN_PUBLICATIONS_def)
  then have "presence ?rt = (presence rt)\<lparr>pr_seen := drop (length ?order + 1 - MAX_SEEN_PUBLICATIONS) (?order @ [(origin, p)])\<rparr>"
    by (simp add: presence_def Let_def same)
  moreover have "fst (mark_publication_seen rt origin p)" using False by (simp add: mark_publication_seen_def Let_def)
  ultimately show ?thesis using reg seen(5)
    by (cases "mark_publication_seen rt origin p") (simp add: step_ok_def spec_seen_def presence_sel)
qed

lemma every_step: "registry_ok (Suc n) rt \<Longrightarrow> step_ok n rt x"
  by (cases x) (simp_all add: admit_step join_step leave_ok leave_all_ok release_ok lifecycle_ok shutdown_ok queries_ok seen_step)

interpretation registry: simulation rt_step spec_step registry_ok presence
  by unfold_locales (use every_step in \<open>auto simp: step_ok_def\<close>)

lemma new_runtime_ok: "n < u64_max \<Longrightarrow> registry_ok n (local_with_hub_config max_rooms max_name concurrency timeout node)"
  by (rule registry_okI)
    (simp_all add: local_with_hub_config_def counts_ok_def tally_def rooms_ok_def room_members_def seen_ok_def
      WebSocketCounters_default_def)

lemma new_runtime_presence:
  "presence (local_with_hub_config max_rooms max_name concurrency timeout node) = no_one max_rooms max_name"
  by (simp add: presence_def local_with_hub_config_def no_one_def)

section \<open>What the registry promises\<close>

text \<open>
  Claim C24: the registry refines its specification. Started empty and driven through any sequence
  of fewer than \<open>2\<^sup>6\<^sup>4 - 1\<close> operations, with any interleaving of connections, it gives the answers and
  the observations that the specification gives by counting and collecting connections, and ends
  in a state that stands for the specification's.
\<close>

theorem registry_refines_presence:
  fixes ops :: "('s, 'a) RtOp list"
  assumes "length ops < u64_max"
  shows "run_steps spec_step (no_one max_rooms max_name) ops =
    apsnd presence (run_steps rt_step (local_with_hub_config max_rooms max_name concurrency timeout node) ops)"
proof -
  let ?rt = "local_with_hub_config max_rooms max_name concurrency timeout node :: ('s, 'a) Runtime"
  have "run_steps spec_step (presence ?rt) ops = apsnd presence (run_steps rt_step ?rt ops)"
    by (rule registry.run_spec [where n = 0]) (simp add: new_runtime_ok assms)
  then show ?thesis by (simp add: new_runtime_presence)
qed

definition chat_config :: ResolvedWebSocketConfig where
  "chat_config = (from_layers WebSocketConfig_default WebSocketConfig_default)
     \<lparr>wr_process_max_connections := Some 3, wr_route_max_connections := Some 2, wr_max_connections_per_ip := Some 2\<rparr>"

definition chat :: "(unit, unit) RtOp list" where
  "chat =
     [Admit ''/chat'' (Some (1, 80)) None chat_config 0, Admit ''/chat'' (Some (1, 81)) None chat_config 0,
      Admit ''/news'' (Some (1, 82)) None chat_config 0, Join 1 [''b'', ''a'', ''b''], Join 2 [''b''],
      Recipients (Some ''/chat'') [''a'', ''b''] False [], Leave 1 [''b''], RoomSize ''/chat'' ''b'', Release 2,
      BeginShutdown, Admit ''/chat'' None None chat_config 0, ActiveCount]"

theorem registry_refines_presence_witness:
  "map fst (fst (run_steps spec_step (no_one 32 128) chat)) =
     [Admitted (Inr 1), Admitted (Inr 2), Admitted (Inl IpCapacity), RoomsChanged (Inr ()), RoomsChanged (Inr ()),
      Ids [1, 2], RoomsChanged (Inr ()), Size 1, Done, Done, Admitted (Inl Shutdown), Size 1]"
proof -
  have "length chat < u64_max" by code_simp
  note registry_refines_presence [OF this, of 32 128 64 "secs 2" 1]
  moreover have "map fst (fst (run_steps rt_step (local_with_hub_config 32 128 64 (secs 2) 1) chat)) =
     [Admitted (Inr 1), Admitted (Inr 2), Admitted (Inl IpCapacity), RoomsChanged (Inr ()), RoomsChanged (Inr ()),
      Ids [1, 2], RoomsChanged (Inr ()), Size 1, Done, Done, Admitted (Inl Shutdown), Size 1]" by code_simp
  ultimately show ?thesis by simp
qed

text \<open>
  Claim C25: the indexes of the registry are exact after any sequence of operations. A route or an
  address is counted with the number of its connections and has no entry when there is none; a
  room lists, once each, exactly the connections on its route that are in it, and empty rooms are
  dropped; a connection is in at most as many rooms as it may be and their names are valid; every
  connection that was accepted is either still there or was closed.
\<close>

theorem registry_indexes_exact:
  assumes "length ops < u64_max"
  shows "let reg = rt_registry (snd (run_steps rt_step (local_with_hub_config max_rooms max_name concurrency timeout node) ops));
      m = map_of (rg_connections reg); on = (\<lambda>P. card {i. \<exists>e. m i = Some e \<and> P e}) in
    (\<forall>route. count_of (rg_route_counts reg) route = on (\<lambda>e. ce_route e = route) \<and>
       (map_of (rg_route_counts reg) route \<noteq> Some 0)) \<and>
    (\<forall>ip. count_of (rg_ip_counts reg) ip = on (\<lambda>e. remote_ip (ce_remote_addr e) = Some ip)) \<and>
    (\<forall>route room. local_room_size (snd (run_steps rt_step (local_with_hub_config max_rooms max_name concurrency timeout node) ops)) route room =
        on (\<lambda>e. ce_route e = route \<and> room \<in> set (ce_rooms e))) \<and>
    list_all (\<lambda>(_, ids). ids \<noteq> [] \<and> distinct ids) (rg_rooms reg) \<and>
    list_all (\<lambda>(_, e). length (ce_rooms e) \<le> ce_max_rooms_per_connection e \<and>
       list_all (\<lambda>room. validate_room room (ce_max_room_name_bytes e) = Inr ()) (ce_rooms e)) (rg_connections reg) \<and>
    accepted_connections (rg_counters reg) = closed_connections (rg_counters reg) + length (rg_connections reg)"
proof -
  let ?rt = "snd (run_steps rt_step (local_with_hub_config max_rooms max_name concurrency timeout node) ops)"
  have ok: "registry_ok 0 ?rt" by (rule registry.run_inv) (simp add: new_runtime_ok assms)
  note D = registry_okD [OF ok]
  have room: "length (room_members (rg_rooms (rt_registry ?rt)) (route, room)) =
      card {i. \<exists>e. map_of (conns ?rt) i = Some e \<and> ce_route e = route \<and> room \<in> set (ce_rooms e)}" for route room
    using D(4) distinct_card [of "room_members (rg_rooms (rt_registry ?rt)) (route, room)"]
    by (auto simp: rooms_ok_def room_members_def split: option.splits)
  have "list_all (\<lambda>(_, ids). ids \<noteq> [] \<and> distinct ids) (rg_rooms (rt_registry ?rt))"
    using D(4) by (force simp: rooms_ok_def list_all_iff)
  moreover have "entry_ok e" if "(i, e) \<in> set (conns ?rt)" for i e using D(5) [of i e] D(1) that by simp
  then have "list_all (\<lambda>(_, e). length (ce_rooms e) \<le> ce_max_rooms_per_connection e \<and>
       list_all (\<lambda>room. validate_room room (ce_max_room_name_bytes e) = Inr ()) (ce_rooms e)) (conns ?rt)"
    by (fastforce simp: list_all_iff entry_ok_def validate_room_def bad_room_def)
  ultimately show ?thesis
    using D(9) D(2) by (simp add: Let_def count_of_exact [OF D(2)] count_of_exact [OF D(3)] tally_def local_room_size_def room counts_ok_def)
qed

theorem registry_indexes_exact_witness:
  "count_of (rg_route_counts (rt_registry (snd (run_steps rt_step (local_with_hub_config 32 128 64 (secs 2) 1) chat)))) ''/chat'' = 1 \<and>
   (let m = map_of (rg_connections (rt_registry (snd (run_steps rt_step (local_with_hub_config 32 128 64 (secs 2) 1) chat))))
    in card {i. \<exists>e. m i = Some e \<and> ce_route e = ''/chat''} = 1)"
proof -
  have small: "length chat < u64_max" by code_simp
  have "count_of (rg_route_counts (rt_registry (snd (run_steps rt_step (local_with_hub_config 32 128 64 (secs 2) 1) chat)))) ''/chat'' = 1"
    by code_simp
  with registry_indexes_exact [OF small, of 32 128 64 "secs 2" 1] show ?thesis unfolding Let_def by auto
qed

section \<open>Admission\<close>

definition shrinks :: "(nat \<rightharpoonup> Member) \<Rightarrow> (nat \<rightharpoonup> Member) \<Rightarrow> bool" where
  "shrinks m m' \<longleftrightarrow> (\<forall>i e'. m' i = Some e' \<longrightarrow> (\<exists>e. m i = Some e \<and> mb_route e' = mb_route e \<and> mb_ip e' = mb_ip e))"

lemma shrinks_refl: "shrinks m m" by (simp add: shrinks_def)

lemma shrinks_trans: "shrinks m m' \<Longrightarrow> shrinks m' m'' \<Longrightarrow> shrinks m m''"
  unfolding shrinks_def by metis

lemma shrinks_change:
  "(\<And>e. mb_route (f e) = mb_route e \<and> mb_ip (f e) = mb_ip e) \<Longrightarrow> shrinks (pr_members p) (pr_members (change_member i f p))"
  by (auto simp: shrinks_def change_member_def split: if_splits)

fun is_admit :: "('s, 'a) RtOp \<Rightarrow> bool" where
  "is_admit (Admit _ _ _ _ _) = True"
| "is_admit _ = False"

lemma spec_shrinks:
  assumes "\<not> is_admit x \<or> \<not> pr_accepting p"
  shows "shrinks (pr_members p) (pr_members (snd (spec_step p x)))"
    "\<not> pr_accepting p \<Longrightarrow> \<not> pr_accepting (snd (spec_step p x))"
proof -
  show "shrinks (pr_members p) (pr_members (snd (spec_step p x)))"
    using assms
    by (cases x) (auto simp: spec_admit_def spec_rejection_def spec_join_def spec_leave_def spec_release_def spec_seen_def Let_def
        shrinks_refl shrinks_change split: option.split, auto simp: shrinks_def)
  show "\<not> pr_accepting (snd (spec_step p x))" if "\<not> pr_accepting p"
    using that
    by (cases x) (auto simp: spec_admit_def spec_rejection_def spec_join_def spec_leave_def spec_release_def spec_seen_def Let_def
        change_member_def split: option.split)
qed

lemma tally_mono:
  assumes "finite (dom m)" "\<And>i e'. m' i = Some e' \<Longrightarrow> \<exists>e. m i = Some e \<and> f e' = f e"
  shows "tally f m' k \<le> tally f m k"
  unfolding tally_def
proof (rule card_mono)
  show "finite {i. \<exists>e. m i = Some e \<and> f e = Some k}" by (rule finite_subset [OF _ assms(1)]) auto
  show "{i. \<exists>e. m' i = Some e \<and> f e = Some k} \<subseteq> {i. \<exists>e. m i = Some e \<and> f e = Some k}"
    using assms(2) by fastforce
qed

definition capped :: "nat \<Rightarrow> nat \<Rightarrow> nat \<Rightarrow> Presence \<Rightarrow> bool" where
  "capped n r q p \<longleftrightarrow>
     finite (dom (pr_members p)) \<and> card (dom (pr_members p)) \<le> n \<and>
     (\<forall>route. tally (Some \<circ> mb_route) (pr_members p) route \<le> r) \<and> (\<forall>ip. tally mb_ip (pr_members p) ip \<le> q)"

lemma capped_shrinks:
  assumes "capped n r q p" "shrinks (pr_members p) (pr_members p')"
  shows "capped n r q p'"
proof -
  have "dom (pr_members p') \<subseteq> dom (pr_members p)" using assms(2) by (auto simp: shrinks_def dom_def)
  moreover have s: "\<exists>e. pr_members p i = Some e \<and> mb_route e' = mb_route e \<and> mb_ip e' = mb_ip e"
    if "pr_members p' i = Some e'" for i e' using assms(2) that by (auto simp: shrinks_def)
  have fin: "finite (dom (pr_members p))" using assms(1) by (simp add: capped_def)
  have "tally (Some \<circ> mb_route) (pr_members p') k \<le> tally (Some \<circ> mb_route) (pr_members p) k"
    "tally mb_ip (pr_members p') j \<le> tally mb_ip (pr_members p) j" for k j
    by (rule tally_mono [OF fin]; use s in fastforce)+
  ultimately show ?thesis using assms(1) unfolding capped_def
    by (meson card_mono finite_subset le_trans)
qed

fun limited :: "nat \<Rightarrow> nat \<Rightarrow> nat \<Rightarrow> ('s, 'a) RtOp \<Rightarrow> bool" where
  "limited n r q (Admit _ _ _ config _) \<longleftrightarrow>
     wr_process_max_connections config = Some n \<and> wr_route_max_connections config = Some r \<and>
     wr_max_connections_per_ip config = Some q"
| "limited n r q _ \<longleftrightarrow> True"

lemma capped_admit:
  assumes cap: "capped n r q p" and lim: "limited n r q (Admit route addr protocol config now :: ('s, 'a) RtOp)"
    and free: "\<And>i. i \<ge> pr_next p \<Longrightarrow> pr_members p i = None"
  shows "capped n r q (snd (spec_admit p route addr config))"
proof (cases "spec_rejection p route (remote_ip addr) config")
  case None
  let ?m = "pr_members p" and ?i = "pr_next p"
  have fin: "finite (dom ?m)" and new: "?m ?i = None" using cap free by (auto simp: capped_def)
  have less: "card (dom ?m) < n" "tally (Some \<circ> mb_route) ?m route < r" "\<And>ip. remote_ip addr = Some ip \<Longrightarrow> tally mb_ip ?m ip < q"
    using None lim by (auto simp: spec_rejection_def reaches_def split: if_splits)
  have "card (dom (?m(?i \<mapsto> e))) \<le> n" for e using less(1) fin new by (simp add: card_insert_if)
  moreover have "tally (Some \<circ> mb_route) (?m(?i \<mapsto> e)) k \<le> r" if "mb_route e = route" for e k
    using tally_new [OF fin new, of "Some \<circ> mb_route" e k] less(2) cap that by (auto simp: capped_def)
  moreover have "tally mb_ip (?m(?i \<mapsto> e)) k \<le> q" if "mb_ip e = remote_ip addr" for e k
    using tally_new [OF fin new, of mb_ip e k] less(3) [of k] cap that by (auto simp: capped_def)
  ultimately show ?thesis using None fin by (simp add: spec_admit_def capped_def)
qed (use cap in \<open>simp add: spec_admit_def\<close>)

lemma program_capped:
  assumes "registry_ok (length ops) rt" "capped n r q (presence rt)" "list_all (limited n r q) ops"
  shows "capped n r q (presence (snd (run_steps rt_step rt ops)))"
  using assms
proof (induction ops arbitrary: rt)
  case (Cons x ops)
  let ?rt = "snd (rt_step rt x)"
  have step: "registry_ok (length ops) ?rt" "presence ?rt = snd (spec_step (presence rt) x)"
    using every_step [of "length ops" rt x] Cons.prems(1) by (simp_all add: step_ok_def)
  have "capped n r q (presence ?rt)"
  proof (cases "is_admit x")
    case True
    then obtain route addr protocol config now where x: "x = Admit route addr protocol config now" by (cases x) auto
    have "pr_members (presence rt) i = None" if "i \<ge> pr_next (presence rt)" for i
      using registry_okD(5) [OF Cons.prems(1), of i] that by (cases "map_of (conns rt) i") (auto simp: presence_sel)
    then show ?thesis using capped_admit [OF Cons.prems(2), of route addr protocol config now] Cons.prems(3)
      by (simp only: step(2)) (simp add: x)
  next
    case False
    then show ?thesis unfolding step(2) by (intro capped_shrinks [OF Cons.prems(2)] spec_shrinks(1)) simp
  qed
  from Cons.IH [OF step(1) this] Cons.prems(3) show ?case by (simp only: run_steps_snd) simp
qed simp

lemma run_shrinks:
  assumes "registry_ok (length ops) rt" "\<not> rg_accepting (rt_registry rt)"
  shows "shrinks (pr_members (presence rt)) (pr_members (presence (snd (run_steps rt_step rt ops))))"
  using assms
proof (induction ops arbitrary: rt)
  case (Cons x ops)
  let ?rt = "snd (rt_step rt x)"
  have step: "registry_ok (length ops) ?rt" "presence ?rt = snd (spec_step (presence rt) x)"
    using every_step [of "length ops" rt x] Cons.prems(1) by (simp_all add: step_ok_def)
  have "\<not> rg_accepting (rt_registry ?rt)"
    using spec_shrinks(2) [of x "presence rt"] Cons.prems(2) step(2) by (metis presence_sel(1))
  moreover have "shrinks (pr_members (presence rt)) (pr_members (presence ?rt))"
    unfolding step(2) by (rule spec_shrinks(1)) (simp add: presence_sel Cons.prems(2))
  ultimately show ?case unfolding run_steps_snd using Cons.IH [OF step(1)] shrinks_trans by blast
qed (simp add: shrinks_refl)

text \<open>
  Claim C26: admission keeps its limits under any interleaving. If every connection is admitted with
  the same limits, then at no time are there more connections than the process, a route or an
  address may have; and once the shutdown has begun, only connections that were there before it
  remain, whatever is requested afterwards.
\<close>

theorem admission_bounded:
  fixes ops later :: "('s, 'a) RtOp list"
  assumes start: "start = local_with_hub_config max_rooms max_name concurrency timeout node"
    and "length (ops @ later) + 1 < u64_max" "list_all (limited n r q) ops"
  shows "let m = map_of (rg_connections (rt_registry (snd (run_steps rt_step start ops))));
      m' = map_of (rg_connections (rt_registry (snd (run_steps rt_step start (ops @ BeginShutdown # later))))) in
    card (dom m) \<le> n \<and> (\<forall>route. card {i. \<exists>e. m i = Some e \<and> ce_route e = route} \<le> r) \<and>
    (\<forall>ip. card {i. \<exists>e. m i = Some e \<and> remote_ip (ce_remote_addr e) = Some ip} \<le> q) \<and> dom m' \<subseteq> dom m"
proof -
  let ?rt = "snd (run_steps rt_step start ops)" and ?rt' = "snd (run_steps rt_step start (ops @ BeginShutdown # later))"
  have ok: "registry_ok (length later + 1) ?rt"
    by (rule registry.run_inv) (use assms(2) in \<open>simp add: start new_runtime_ok\<close>)
  have "capped n r q (presence ?rt)"
  proof (rule program_capped)
    show "registry_ok (length ops) start" using assms(2) by (simp add: start new_runtime_ok)
    show "capped n r q (presence start)" by (simp add: start new_runtime_presence capped_def no_one_def tally_def)
  qed (rule assms(3))
  then have cap: "card (dom (map_of (conns ?rt))) \<le> n" "tally (Some \<circ> ce_route) (map_of (conns ?rt)) k \<le> r"
    "tally (remote_ip \<circ> ce_remote_addr) (map_of (conns ?rt)) j \<le> q" for k j
    by (auto simp: capped_def presence_def Let_def dom_map_option tally_image member_sel comp_def)
  have "shrinks (pr_members (presence (begin_shutdown ?rt))) (pr_members (presence (snd (run_steps rt_step (begin_shutdown ?rt) later))))"
    by (rule run_shrinks) (use every_step [of "length later" ?rt BeginShutdown] ok in
      \<open>simp_all add: step_ok_def begin_shutdown_def Let_def\<close>)
  moreover have "?rt' = snd (run_steps rt_step (begin_shutdown ?rt) later)"
    by (simp only: run_steps_append run_steps_snd rt_step.simps snd_conv)
  moreover have "map_of (conns (begin_shutdown ?rt)) i = None \<longleftrightarrow> map_of (conns ?rt) i = None" for i
    by (simp add: begin_shutdown_def Let_def map_of_eq_None_iff image_image)
  ultimately have "map_of (conns ?rt) i \<noteq> None" if "map_of (conns ?rt') i \<noteq> None" for i
    using that by (auto simp: shrinks_def presence_sel) (metis option.distinct(1) option.exhaust)
  then have "dom (map_of (conns ?rt')) \<subseteq> dom (map_of (conns ?rt))" by (auto simp: dom_def simp del: map_of_eq_Some_iff)
  with cap show ?thesis unfolding Let_def by (simp add: tally_def)
qed

theorem admission_bounded_witness:
  "card (dom (map_of (rg_connections (rt_registry (snd (run_steps rt_step (local_with_hub_config 32 128 64 (secs 2) 1) (take 5 chat))))))) \<le> 3"
proof -
  have small: "length (take 5 chat @ chat) + 1 < u64_max" by code_simp
  have "list_all (limited 3 2 2) (take 5 chat)" by code_simp
  from admission_bounded [OF refl small this, of 32 128 64 "secs 2" 1] show ?thesis unfolding Let_def by blast
qed

section \<open>Publications of other nodes\<close>

definition marks :: "('s, 'a) RtOp list \<Rightarrow> nat" where
  "marks ops = length (filter (\<lambda>x. case x of MarkSeen _ _ \<Rightarrow> True | _ \<Rightarrow> False) ops)"

lemma spec_keeps_seen:
  assumes "\<nexists>src k. x = MarkSeen src k"
  shows "pr_seen (snd (spec_step p x)) = pr_seen p"
  using assms by (cases x) (auto simp: spec_admit_def spec_join_def spec_leave_def spec_release_def Let_def change_member_def split: option.split)

lemma repetition: "(origin, p) \<in> set (rg_seen_publications (rt_registry rt)) \<Longrightarrow> \<not> fst (mark_publication_seen rt origin p)"
  by (simp add: mark_publication_seen_def)

lemma seen_kept:
  assumes "registry_ok (length ops) rt" "rg_seen_publication_order (rt_registry rt) = pre @ key # post"
    "length post + marks ops < MAX_SEEN_PUBLICATIONS"
  shows "key \<in> set (rg_seen_publication_order (rt_registry (snd (run_steps rt_step rt ops))))"
  using assms
proof (induction ops arbitrary: rt pre post)
  case (Cons x ops)
  let ?rt = "snd (rt_step rt x)" and ?order = "rg_seen_publication_order (rt_registry rt)"
  have step: "registry_ok (length ops) ?rt" "presence ?rt = snd (spec_step (presence rt) x)"
    using every_step [of "length ops" rt x] Cons.prems(1) by (simp_all add: step_ok_def)
  have order: "rg_seen_publication_order (rt_registry ?rt) = pr_seen (snd (spec_step (presence rt) x))"
    by (simp add: step(2) [symmetric] presence_sel)
  have "\<exists>pre' post'. rg_seen_publication_order (rt_registry ?rt) = pre' @ key # post' \<and>
      length post' + marks ops < MAX_SEEN_PUBLICATIONS"
  proof (cases "\<exists>src p. x = MarkSeen src p \<and> (src, p) \<notin> set ?order")
    case True
    then obtain src p where x: "x = MarkSeen src p" "(src, p) \<notin> set ?order" by blast
    let ?d = "length ?order + 1 - MAX_SEEN_PUBLICATIONS"
    have small: "length ?order \<le> MAX_SEEN_PUBLICATIONS" using registry_okD(6) [OF Cons.prems(1)] by (simp add: seen_ok_def)
    have "length post + 1 + marks ops < MAX_SEEN_PUBLICATIONS" using Cons.prems(3) x(1) by (simp add: marks_def)
    then have d: "?d \<le> length pre" using Cons.prems(2) by simp
    have "pr_seen (snd (spec_step (presence rt) x)) = drop ?d (?order @ [(src, p)])"
      using x(2) unfolding x(1) by (simp add: spec_seen_def presence_sel del: drop_append)
    then have "rg_seen_publication_order (rt_registry ?rt) = drop ?d pre @ key # (post @ [(src, p)])"
      unfolding order using d by (simp add: Cons.prems(2))
    moreover have "length (post @ [(src, p)]) + marks ops < MAX_SEEN_PUBLICATIONS" using Cons.prems(3) x(1) by (simp add: marks_def)
    ultimately show ?thesis by blast
  next
    case False
    then have "pr_seen (snd (spec_step (presence rt) x)) = ?order"
      using spec_keeps_seen [of x "presence rt"] by (cases "\<exists>src p. x = MarkSeen src p") (auto simp: spec_seen_def presence_sel)
    moreover have "marks ops \<le> marks (x # ops)" by (simp add: marks_def)
    ultimately show ?thesis unfolding order using Cons.prems(2,3) by (metis add_left_mono le_less_trans)
  qed
  then show ?case unfolding run_steps_snd using Cons.IH [OF step(1)] by blast
qed simp

text \<open>
  Claim C27: a publication of another node is delivered once. When it was taken as new, it is refused
  as a repetition for as long as fewer than 4096 further publications have arrived, whatever else
  happens in the registry in the meantime.
\<close>

theorem publication_delivered_once:
  fixes ops later :: "('s, 'a) RtOp list"
  assumes start: "start = local_with_hub_config max_rooms max_name concurrency timeout node"
    and "length (ops @ later) + 2 < u64_max" "marks later < MAX_SEEN_PUBLICATIONS"
    and new: "fst (mark_publication_seen (snd (run_steps rt_step start ops)) origin p)"
  shows "\<not> fst (mark_publication_seen (snd (run_steps rt_step start (ops @ MarkSeen origin p # later))) origin p)"
proof -
  let ?rt = "snd (run_steps rt_step start ops)"
  have ok: "registry_ok (length later + 1) ?rt"
    by (rule registry.run_inv) (use assms(2) in \<open>simp add: start new_runtime_ok\<close>)
  let ?rt1 = "snd (rt_step ?rt (MarkSeen origin p))" and ?order = "rg_seen_publication_order (rt_registry ?rt)"
  have step: "registry_ok (length later) ?rt1" "presence ?rt1 = snd (spec_step (presence ?rt) (MarkSeen origin p :: ('s, 'a) RtOp))"
    using every_step [of "length later" ?rt "MarkSeen origin p"] ok by (simp_all add: step_ok_def)
  have fresh: "(origin, p) \<notin> set ?order" and small: "length ?order \<le> MAX_SEEN_PUBLICATIONS"
    using new registry_okD(6) [OF ok] by (auto simp: mark_publication_seen_def seen_ok_def split: if_splits)
  have "rg_seen_publication_order (rt_registry ?rt1) = drop (length ?order + 1 - MAX_SEEN_PUBLICATIONS) ?order @ [(origin, p)]"
    using arg_cong [OF step(2), of pr_seen] fresh small by (simp add: presence_sel spec_seen_def MAX_SEEN_PUBLICATIONS_def)
  from seen_kept [OF step(1) this] assms(3)
  have "(origin, p) \<in> set (rg_seen_publication_order (rt_registry (snd (run_steps rt_step ?rt1 later))))" by simp
  moreover have "registry_ok 0 (snd (run_steps rt_step ?rt1 later))" by (rule registry.run_inv) (use step(1) in simp)
  ultimately have "(origin, p) \<in> set (rg_seen_publications (rt_registry (snd (run_steps rt_step ?rt1 later))))"
    using registry_okD(6) by (fastforce simp: seen_ok_def)
  then show ?thesis unfolding run_steps_append run_steps_snd by (rule repetition)
qed

theorem publication_delivered_once_witness:
  "\<not> fst (mark_publication_seen (snd (run_steps rt_step (local_with_hub_config 32 128 64 (secs 2) 1)
       (chat @ MarkSeen 7 1 # [MarkSeen 7 2, MarkSeen 8 1]))) 7 1)"
proof (rule publication_delivered_once [OF refl])
  show "length (chat @ [MarkSeen 7 2, MarkSeen 8 1]) + 2 < u64_max" by code_simp
  show "marks [MarkSeen 7 2 :: (unit, unit) RtOp, MarkSeen 8 1] < MAX_SEEN_PUBLICATIONS" by code_simp
  show "fst (mark_publication_seen (snd (run_steps rt_step (local_with_hub_config 32 128 64 (secs 2) 1) chat)) 7 1)" by code_simp
qed

end
