(* ===== verification/Ws_Hub.thy ===== *)
theory Ws_Hub
  imports Ws_Registry
begin

text \<open>
  Rooms, broadcasts and the exchange of broadcasts between nodes (\<open>src/app/websocket/hub.rs\<close>, and
  the receiving side in \<open>src/app/websocket/runtime.rs\<close>). The outcome of handing a message to the
  sender of a connection is a parameter \<open>enqueue\<close>; the broker is a parameter \<open>publish\<close> that answers
  \<open>None\<close> when the operation exceeds its deadline.
\<close>

definition DEFAULT_MAX_ROOMS_PER_CONNECTION :: nat where
  "DEFAULT_MAX_ROOMS_PER_CONNECTION = 32"

definition HUB_DEFAULT_MAX_ROOM_NAME_BYTES :: nat where
  "HUB_DEFAULT_MAX_ROOM_NAME_BYTES = 128"

definition DEFAULT_BROADCAST_CONCURRENCY :: nat where
  "DEFAULT_BROADCAST_CONCURRENCY = 64"

definition DEFAULT_BROKER_OPERATION_TIMEOUT :: nat where
  "DEFAULT_BROKER_OPERATION_TIMEOUT = secs 2"

definition MAX_BROKER_ROUTE_BYTES :: nat where
  "MAX_BROKER_ROUTE_BYTES = 1024"

definition MAX_BROKER_PAYLOAD_BYTES :: nat where
  "MAX_BROKER_PAYLOAD_BYTES = 16 * 1024 * 1024"

record WsHubConfig =
  hc_max_rooms_per_connection :: nat
  hc_max_room_name_bytes :: nat
  hc_broadcast_concurrency :: nat
  hc_broker_operation_timeout :: nat
  hc_has_broker :: bool
  hc_node_id :: WsNodeId

record WsHubBuilder =
  hb_max_rooms_per_connection :: nat
  hb_max_room_name_bytes :: nat
  hb_broadcast_concurrency :: nat
  hb_broker_operation_timeout :: nat
  hb_has_broker :: bool
  hb_node_id :: "WsNodeId option"

definition WsHubBuilder_default :: WsHubBuilder where
  "WsHubBuilder_default =
     \<lparr>hb_max_rooms_per_connection = DEFAULT_MAX_ROOMS_PER_CONNECTION,
      hb_max_room_name_bytes = HUB_DEFAULT_MAX_ROOM_NAME_BYTES,
      hb_broadcast_concurrency = DEFAULT_BROADCAST_CONCURRENCY,
      hb_broker_operation_timeout = DEFAULT_BROKER_OPERATION_TIMEOUT, hb_has_broker = False, hb_node_id = None\<rparr>"

text \<open>The counter of node identifiers is a static of the process and starts at one.\<close>

definition allocate_node_id :: "nat \<Rightarrow> WsNodeId \<times> nat" where
  "allocate_node_id counter = (counter, fetch_add counter 1)"

definition hub_build :: "WsHubBuilder \<Rightarrow> nat \<Rightarrow> (WsError + WsHubConfig \<times> ('s, 'a) Runtime) \<times> nat" where
  "hub_build b counter =
     (if hb_max_rooms_per_connection b = 0 \<or> hb_max_room_name_bytes b = 0 \<or> hb_broadcast_concurrency b = 0 \<or>
         hb_broker_operation_timeout b = 0
      then (Inl (InvalidConfiguration ''los limites del hub WebSocket deben ser mayores que cero''), counter)
      else
        let (node, counter') = (case hb_node_id b of Some n \<Rightarrow> (n, counter) | None \<Rightarrow> allocate_node_id counter)
        in (Inr (\<lparr>hc_max_rooms_per_connection = hb_max_rooms_per_connection b,
                  hc_max_room_name_bytes = hb_max_room_name_bytes b,
                  hc_broadcast_concurrency = hb_broadcast_concurrency b,
                  hc_broker_operation_timeout = hb_broker_operation_timeout b,
                  hc_has_broker = hb_has_broker b, hc_node_id = node\<rparr>,
                 local_with_hub_config (hb_max_rooms_per_connection b) (hb_max_room_name_bytes b)
                   (hb_broadcast_concurrency b) (hb_broker_operation_timeout b) node), counter'))"

text \<open>The configuration of a hub that is rebuilt from its runtime, which holds the broker.\<close>

definition hub_config :: "bool \<Rightarrow> ('s, 'a) Runtime \<Rightarrow> WsHubConfig" where
  "hub_config has_broker rt =
     \<lparr>hc_max_rooms_per_connection = rt_max_rooms_per_connection rt,
      hc_max_room_name_bytes = rt_max_room_name_bytes rt,
      hc_broadcast_concurrency = rt_broadcast_concurrency rt,
      hc_broker_operation_timeout = rt_broker_operation_timeout rt,
      hc_has_broker = has_broker, hc_node_id = rt_node_id rt\<rparr>"

section \<open>Targets\<close>

record WsTarget =
  wt_route :: "string option"
  wt_rooms :: "string list"
  wt_all_in_scope :: bool
  wt_excluded :: "nat list"
  wt_publish_remote :: bool

definition normalize_rooms :: "string list \<Rightarrow> string list" where
  "normalize_rooms rooms = btree_set rooms"

definition hub_all :: WsTarget where
  "hub_all = \<lparr>wt_route = None, wt_rooms = [], wt_all_in_scope = True, wt_excluded = [], wt_publish_remote = True\<rparr>"

definition route_to_many :: "string \<Rightarrow> string list \<Rightarrow> WsTarget" where
  "route_to_many route rooms =
     \<lparr>wt_route = Some route, wt_rooms = normalize_rooms rooms, wt_all_in_scope = False, wt_excluded = [],
      wt_publish_remote = True\<rparr>"

definition route_to :: "string \<Rightarrow> string \<Rightarrow> WsTarget" where
  "route_to route room = route_to_many route [room]"

definition route_all :: "string \<Rightarrow> WsTarget" where
  "route_all route =
     \<lparr>wt_route = Some route, wt_rooms = [], wt_all_in_scope = True, wt_excluded = [], wt_publish_remote = True\<rparr>"

definition except :: "WsTarget \<Rightarrow> nat \<Rightarrow> WsTarget" where
  "except target i = target\<lparr>wt_excluded := List.insert i (wt_excluded target)\<rparr>"

section \<open>Publications\<close>

fun broker_payload :: "WebSocketMessage \<Rightarrow> WsBrokerPayload option" where
  "broker_payload (Text t) = Some (TextPayload t)"
| "broker_payload (Binary b) = Some (BinaryPayload b)"
| "broker_payload _ = None"

definition broker_target :: "WsTarget \<Rightarrow> WsBrokerTarget outcome" where
  "broker_target target =
     (case wt_route target of
        Some route \<Rightarrow> if wt_all_in_scope target then Val (RouteAll route) else Val (RouteRooms route (wt_rooms target))
      | None \<Rightarrow> if wt_all_in_scope target then Val AllRoutes else Panic)"

definition validate_broker_route :: "string \<Rightarrow> WsBrokerError + unit" where
  "validate_broker_route route =
     (if route = [] \<or> CHR 0x00 \<in> set route \<or> length route > MAX_BROKER_ROUTE_BYTES
      then Inl (InvalidPublication ''la ruta del broker WebSocket no es valida'') else Inr ())"

definition validate_broker_room :: "string \<Rightarrow> nat \<Rightarrow> WsBrokerError + unit" where
  "validate_broker_room room max_bytes =
     (if room = [] \<or> CHR 0x00 \<in> set room \<or> length room > max_bytes
      then Inl (InvalidPublication ''una room del broker WebSocket no es valida'') else Inr ())"

definition validate_broker_target :: "WsHubConfig \<Rightarrow> WsBrokerTarget \<Rightarrow> WsBrokerError + unit" where
  "validate_broker_target hub target =
     (case target of
        RouteRooms route rooms \<Rightarrow>
          (case validate_broker_route route of
             Inl e \<Rightarrow> Inl e
           | Inr _ \<Rightarrow>
               if rooms = [] \<or> length rooms > hc_max_rooms_per_connection hub
               then Inl (InvalidPublication ''el destino de rooms debe incluir una cantidad valida'')
               else (case collect_results (map (\<lambda>room. validate_broker_room room (hc_max_room_name_bytes hub)) rooms) of
                       Inl e \<Rightarrow> Inl e | Inr _ \<Rightarrow> Inr ()))
      | RouteAll route \<Rightarrow> validate_broker_route route
      | AllRoutes \<Rightarrow> Inr ())"

fun payload_len :: "WsBrokerPayload \<Rightarrow> nat" where
  "payload_len (TextPayload t) = length t"
| "payload_len (BinaryPayload b) = length b"

definition validate_broker_publication :: "WsHubConfig \<Rightarrow> WsBrokerPublication \<Rightarrow> WsBrokerError + unit" where
  "validate_broker_publication hub p =
     (case validate_broker_target hub (pb_target p) of
        Inl e \<Rightarrow> Inl e
      | Inr _ \<Rightarrow>
          if payload_len (pb_payload p) > MAX_BROKER_PAYLOAD_BYTES
          then Inl (InvalidPublication ''el payload supera el limite del broker WebSocket'') else Inr ())"

section \<open>Sending\<close>

datatype LocalEnqueueOutcome = Enqueued | Rejected | Disconnected

definition empty_report :: "nat \<Rightarrow> WsBroadcastReport" where
  "empty_report matched =
     \<lparr>br_matched = matched, br_enqueued = 0, br_rejected = 0, br_disconnected = 0, br_remote = NotConfigured\<rparr>"

fun count_outcome :: "LocalEnqueueOutcome \<Rightarrow> WsBroadcastReport \<Rightarrow> WsBroadcastReport" where
  "count_outcome Enqueued r = r\<lparr>br_enqueued := br_enqueued r + 1\<rparr>"
| "count_outcome Rejected r = r\<lparr>br_rejected := br_rejected r + 1\<rparr>"
| "count_outcome Disconnected r = r\<lparr>br_disconnected := br_disconnected r + 1\<rparr>"

text \<open>The tasks that enqueue run concurrently; the report only counts their outcomes.\<close>

definition send_local ::
  "('s \<Rightarrow> WebSocketMessage \<Rightarrow> LocalEnqueueOutcome) \<Rightarrow> ('s, 'a) Runtime \<Rightarrow> WsTarget \<Rightarrow> WebSocketMessage \<Rightarrow> WsBroadcastReport" where
  "send_local enqueue rt target message =
     (let recipients = select_broadcast_recipients rt (wt_route target) (wt_rooms target) (wt_all_in_scope target) (wt_excluded target);
          outcomes = map (\<lambda>(_, sender). case sender of Some s \<Rightarrow> enqueue s message | None \<Rightarrow> Disconnected) recipients
      in fold count_outcome outcomes (empty_report (length recipients)))"

definition target_record :: "('s, 'a) Runtime \<Rightarrow> WsTarget \<Rightarrow> WsBroadcastReport \<Rightarrow> ('s, 'a) Runtime \<times> WebSocketObservation list" where
  "target_record rt target report = record_broadcast rt (wt_route target) (length (wt_rooms target)) report"

definition invalid_room :: "WsHubConfig \<Rightarrow> string \<Rightarrow> bool" where
  "invalid_room hub room \<longleftrightarrow> room = [] \<or> CHR 0x00 \<in> set room \<or> length room > hc_max_room_name_bytes hub"

definition finish_publish ::
  "(WsBrokerError + unit) option \<Rightarrow> ('s, 'a) Runtime \<Rightarrow> WsTarget \<Rightarrow> WsBroadcastReport
     \<Rightarrow> (WsBroadcastError + WsBroadcastReport) \<times> ('s, 'a) Runtime \<times> WebSocketObservation list" where
  "finish_publish published rt target report =
     (case published of
        Some (Inr _) \<Rightarrow>
          let report' = report\<lparr>br_remote := Published\<rparr> in (Inr report', target_record (record_broker_publication rt) target report')
      | Some (Inl source) \<Rightarrow>
          (case record_broker_error rt source of
             (rt1, obs1) \<Rightarrow> (case target_record rt1 target report of
                (rt2, obs2) \<Rightarrow> (Inl (BrokerFailure source report), rt2, obs1 @ obs2)))
      | None \<Rightarrow>
          (case record_broker_error rt BrokerTimeout of
             (rt1, obs1) \<Rightarrow> (case target_record rt1 target report of
                (rt2, obs2) \<Rightarrow> (Inl (BrokerFailure BrokerTimeout report), rt2, obs1 @ obs2))))"

text \<open>
  The result of a broadcast, the publication handed to the broker if any, the runtime and the
  observations; \<open>Panic\<close> is the branch that the code marks as unreachable.
\<close>

definition target_send ::
  "('s \<Rightarrow> WebSocketMessage \<Rightarrow> LocalEnqueueOutcome) \<Rightarrow> (WsBrokerPublication \<Rightarrow> (WsBrokerError + unit) option)
     \<Rightarrow> WsHubConfig \<Rightarrow> ('s, 'a) Runtime \<Rightarrow> WsTarget \<Rightarrow> WebSocketMessage
     \<Rightarrow> ((WsBroadcastError + WsBroadcastReport) \<times> WsBrokerPublication option \<times> ('s, 'a) Runtime \<times> WebSocketObservation list) outcome" where
  "target_send enqueue publish hub rt target message =
     (case broker_payload message of
        None \<Rightarrow> Val (Inl InvalidMessage, None, rt, [])
      | Some payload \<Rightarrow>
          (case find (invalid_room hub) (wt_rooms target) of
             Some room \<Rightarrow> Val (Inl (InvalidBroadcastRoom room), None, rt, [])
           | None \<Rightarrow>
               let report = send_local enqueue rt target message in
               if \<not> wt_publish_remote target \<or> \<not> hc_has_broker hub
               then (case target_record rt target report of (rt1, obs) \<Rightarrow> Val (Inr report, None, rt1, obs))
               else
                 (case next_publication_id rt of
                    (pid, rt1) \<Rightarrow>
                      (case broker_target target of
                         Panic \<Rightarrow> Panic
                       | Val bt \<Rightarrow>
                           let p = \<lparr>pb_id = pid, pb_origin = hc_node_id hub, pb_target = bt, pb_payload = payload\<rparr>
                           in (case finish_publish (publish p) rt1 target report of
                                 (res, rt2, obs) \<Rightarrow> Val (res, Some p, rt2, obs))))))"

section \<open>Receiving\<close>

fun delivery_target :: "WsBrokerTarget \<Rightarrow> WsTarget" where
  "delivery_target (RouteRooms route rooms) =
     \<lparr>wt_route = Some route, wt_rooms = normalize_rooms rooms, wt_all_in_scope = False, wt_excluded = [], wt_publish_remote = False\<rparr>"
| "delivery_target (RouteAll route) =
     \<lparr>wt_route = Some route, wt_rooms = [], wt_all_in_scope = True, wt_excluded = [], wt_publish_remote = False\<rparr>"
| "delivery_target AllRoutes =
     \<lparr>wt_route = None, wt_rooms = [], wt_all_in_scope = True, wt_excluded = [], wt_publish_remote = False\<rparr>"

fun payload_message :: "WsBrokerPayload \<Rightarrow> WebSocketMessage" where
  "payload_message (TextPayload t) = Text t"
| "payload_message (BinaryPayload b) = Binary b"

definition deliver_broker_publication ::
  "('s \<Rightarrow> WebSocketMessage \<Rightarrow> LocalEnqueueOutcome) \<Rightarrow> ('s, 'a) Runtime \<Rightarrow> WsBrokerPublication
     \<Rightarrow> WsBroadcastReport \<times> ('s, 'a) Runtime \<times> WebSocketObservation list" where
  "deliver_broker_publication enqueue rt p =
     (let target = delivery_target (pb_target p);
          report = send_local enqueue rt target (payload_message (pb_payload p))
      in (report, target_record rt target report))"

text \<open>\<open>None\<close>: the publication is not delivered.\<close>

definition handle_broker_publication ::
  "('s \<Rightarrow> WebSocketMessage \<Rightarrow> LocalEnqueueOutcome) \<Rightarrow> ('s, 'a) Runtime \<Rightarrow> WsBrokerPublication
     \<Rightarrow> WsBroadcastReport option \<times> ('s, 'a) Runtime \<times> WebSocketObservation list" where
  "handle_broker_publication enqueue rt p =
     (if pb_origin p = rt_node_id rt then (None, rt, [])
      else
        (case validate_broker_publication (hub_config True rt) p of
           Inl _ \<Rightarrow>
             (case record_broker_error rt (InvalidPublication ''publicacion remota rechazada'') of
                (rt1, obs) \<Rightarrow> (None, rt1, obs @ [ObsBrokerInvalidPublication (pb_origin p) (pb_id p)]))
         | Inr _ \<Rightarrow>
             (case mark_publication_seen rt (pb_origin p) (pb_id p) of
                (False, rt1) \<Rightarrow> (None, rt1, [])
              | (True, rt1) \<Rightarrow>
                  (case deliver_broker_publication enqueue rt1 p of (report, rt2, obs) \<Rightarrow> (Some report, rt2, obs)))))"

end
