(* ===== verification/Ws_Hub_Props.thy ===== *)
theory Ws_Hub_Props
  imports Ws_Hub Ws_Registry_Props
begin

text \<open>
  Broadcasts between nodes: what a node sends is what the other nodes deliver, and the cases in
  which they do not.
\<close>

definition target_ok :: "WsTarget \<Rightarrow> bool" where
  "target_ok t \<longleftrightarrow>
     (if wt_all_in_scope t then wt_rooms t = []
      else wt_route t \<noteq> None \<and> sorted (wt_rooms t) \<and> distinct (wt_rooms t))"

lemma targets_ok:
  "target_ok hub_all" "target_ok (route_to_many route rooms)" "target_ok (route_to route room)" "target_ok (route_all route)"
  "target_ok (except t i) = target_ok t"
  by (simp_all add: target_ok_def hub_all_def route_to_many_def route_to_def route_all_def except_def normalize_rooms_def btree_set_def)

lemma broker_target_ok: "target_ok t \<Longrightarrow> broker_target t \<noteq> Panic"
  by (auto simp: target_ok_def broker_target_def split: option.split if_splits)

lemma counted_total:
  "br_enqueued (fold count_outcome os r) + br_rejected (fold count_outcome os r) + br_disconnected (fold count_outcome os r) =
     br_enqueued r + br_rejected r + br_disconnected r + length os \<and>
   br_matched (fold count_outcome os r) = br_matched r"
proof (induction os arbitrary: r)
  case (Cons x os)
  then show ?case by (cases x) simp_all
qed simp

lemma send_local_total:
  "br_matched (send_local enqueue rt t m) =
     br_enqueued (send_local enqueue rt t m) + br_rejected (send_local enqueue rt t m) + br_disconnected (send_local enqueue rt t m)"
  using counted_total [of "map (\<lambda>(_, sender). case sender of Some s \<Rightarrow> enqueue s m | None \<Rightarrow> Disconnected)
      (select_broadcast_recipients rt (wt_route t) (wt_rooms t) (wt_all_in_scope t) (wt_excluded t))"]
  by (simp add: send_local_def Let_def empty_report_def)

definition answer_of :: "('s \<Rightarrow> WebSocketMessage \<Rightarrow> LocalEnqueueOutcome) \<Rightarrow> ('s, 'a) Runtime \<Rightarrow> WebSocketMessage \<Rightarrow> nat \<Rightarrow> LocalEnqueueOutcome" where
  "answer_of enqueue rt m i =
     (case map_of (conns rt) i of
        Some e \<Rightarrow> (case ce_internal_sender e of Some s \<Rightarrow> enqueue s m | None \<Rightarrow> Disconnected)
      | None \<Rightarrow> Disconnected)"

lemma send_local_exact:
  assumes "registry_ok n rt"
  shows "send_local enqueue rt t m =
    (let ids = sorted_list_of_set (audience (presence rt) (wt_route t) (wt_rooms t) (wt_all_in_scope t) (wt_excluded t))
     in fold count_outcome (map (answer_of enqueue rt m) ids) (empty_report (length ids)))"
proof -
  let ?r = "select_broadcast_recipients rt (wt_route t) (wt_rooms t) (wt_all_in_scope t) (wt_excluded t)"
  have "map (\<lambda>(_, sender). case sender of Some s \<Rightarrow> enqueue s m | None \<Rightarrow> Disconnected) ?r = map (answer_of enqueue rt m) (map fst ?r)"
    by (auto simp: select_broadcast_recipients_def Let_def answer_of_def split: option.split)
  then show ?thesis unfolding send_local_def Let_def recipients_exact [OF assms, symmetric] length_map by (rule arg_cong)
qed

lemma marked_same:
  "conns (snd (mark_publication_seen rt origin p)) = conns rt"
  "rg_rooms (rt_registry (snd (mark_publication_seen rt origin p))) = rg_rooms (rt_registry rt)"
  by (auto simp: mark_publication_seen_def Let_def split: list.split)

lemma send_local_marked:
  "send_local enqueue (snd (mark_publication_seen rt origin p)) t m = send_local enqueue rt t m"
  unfolding send_local_def select_broadcast_recipients_def Let_def marked_same ..

lemma payload_roundtrip: "broker_payload m = Some payload \<Longrightarrow> payload_message payload = m"
  by (cases m) auto

lemma delivery_roundtrip:
  assumes "target_ok t" "broker_target t = Val bt"
  shows "delivery_target bt = t\<lparr>wt_excluded := [], wt_publish_remote := False\<rparr>"
  using assms by (cases t)
    (auto simp: target_ok_def broker_target_def normalize_rooms_def btree_set_sorted sorted_rooms split: option.splits if_splits)

lemma sent_publication:
  assumes "target_send enqueue publish hub rt t m = Val (Inr report, Some p, rt1, obs)" "target_ok t"
  shows "pb_origin p = hc_node_id hub" "broker_target t = Val (pb_target p)" "broker_payload m = Some (pb_payload p)"
    "\<not> list_ex (invalid_room hub) (wt_rooms t)" "publish p = Some (Inr ())"
    "report = (send_local enqueue rt t m)\<lparr>br_remote := Published\<rparr>"
proof -
  obtain payload where payload: "broker_payload m = Some payload" using assms(1) by (auto simp: target_send_def split: option.splits)
  have rooms: "find (invalid_room hub) (wt_rooms t) = None"
    using assms(1) payload by (auto simp: target_send_def split: option.splits)
  obtain bt where bt: "broker_target t = Val bt" using broker_target_ok [OF assms(2)] by (cases "broker_target t") auto
  let ?p = "\<lparr>pb_id = fst (next_publication_id rt), pb_origin = hc_node_id hub, pb_target = bt, pb_payload = payload\<rparr>"
  let ?f = "finish_publish (publish ?p) (snd (next_publication_id rt)) t (send_local enqueue rt t m)"
  have on: "wt_publish_remote t \<and> hc_has_broker hub"
    using assms(1) by (auto simp: target_send_def payload rooms Let_def split: prod.splits if_splits)
  have p: "p = ?p" and f: "fst ?f = Inr report"
    using assms(1) on by (auto simp: target_send_def payload rooms bt Let_def split: prod.splits)
  from f have published: "publish ?p = Some (Inr ())" "report = (send_local enqueue rt t m)\<lparr>br_remote := Published\<rparr>"
    by (auto simp: finish_publish_def Let_def split: option.splits sum.splits prod.splits)
  show "pb_origin p = hc_node_id hub" "broker_target t = Val (pb_target p)" "broker_payload m = Some (pb_payload p)"
    "publish p = Some (Inr ())" "report = (send_local enqueue rt t m)\<lparr>br_remote := Published\<rparr>"
    using p bt payload published by simp_all
  show "\<not> list_ex (invalid_room hub) (wt_rooms t)" using rooms by (simp add: find_None_iff list_ex_iff)
qed

definition publishable :: "WsHubConfig \<Rightarrow> WsTarget \<Rightarrow> WebSocketMessage \<Rightarrow> bool" where
  "publishable hub t m \<longleftrightarrow>
     (case wt_route t of None \<Rightarrow> True | Some route \<Rightarrow> validate_broker_route route = Inr ()) \<and>
     (wt_all_in_scope t \<or> wt_rooms t \<noteq> [] \<and> length (wt_rooms t) \<le> hc_max_rooms_per_connection hub) \<and>
     (case broker_payload m of None \<Rightarrow> False | Some payload \<Rightarrow> payload_len payload \<le> MAX_BROKER_PAYLOAD_BYTES)"

lemma publication_valid:
  assumes "target_ok t" "broker_target t = Val (pb_target p)" "broker_payload m = Some (pb_payload p)"
    "publishable hub t m" "\<not> list_ex (invalid_room hub) (wt_rooms t)"
    and same: "hc_max_rooms_per_connection hub' = hc_max_rooms_per_connection hub"
      "hc_max_room_name_bytes hub' = hc_max_room_name_bytes hub"
  shows "validate_broker_publication hub' p = Inr ()"
proof -
  have rooms: "collect_results (map (\<lambda>room. validate_broker_room room (hc_max_room_name_bytes hub)) (wt_rooms t)) = Inr (map (\<lambda>_. ()) (wt_rooms t))"
    by (rule collect_results_map_Inr) (use assms(5) in \<open>auto simp: validate_broker_room_def invalid_room_def list_ex_iff\<close>)
  have "validate_broker_target hub' (pb_target p) = Inr ()"
    using assms(1,2,4) rooms
    by (cases "pb_target p")
      (auto simp: validate_broker_target_def publishable_def target_ok_def broker_target_def same split: option.splits if_splits)
  moreover have "payload_len (pb_payload p) \<le> MAX_BROKER_PAYLOAD_BYTES" using assms(3,4) by (simp add: publishable_def)
  ultimately show ?thesis by (simp add: validate_broker_publication_def)
qed

text \<open>
  Claim C28: a broadcast reaches the other nodes. When a broadcast that names a valid route and not
  more rooms than a connection may join succeeds on one node and its publication arrives on
  another node with the same limits, where it was not seen before, that node offers the very same
  message to exactly the connections of its own that the target names, once each and in the order
  of their identifiers. On both nodes the report accounts for every connection that matched.
\<close>

theorem broadcast_reaches_other_nodes:
  assumes sent: "target_send enqueue publish hub rt t m = Val (Inr report, Some p, rt1, obs)"
    and t: "target_ok t" "publishable hub t m"
    and other: "registry_ok n rt'" "rt_node_id rt' \<noteq> hc_node_id hub"
      "rt_max_rooms_per_connection rt' = hc_max_rooms_per_connection hub" "rt_max_room_name_bytes rt' = hc_max_room_name_bytes hub"
      "(pb_origin p, pb_id p) \<notin> set (rg_seen_publications (rt_registry rt'))"
  shows "let ids = sorted_list_of_set (audience (presence rt') (wt_route t) (wt_rooms t) (wt_all_in_scope t) []);
      report' = fold count_outcome (map (answer_of enqueue' rt' m) ids) (empty_report (length ids)) in
    fst (handle_broker_publication enqueue' rt' p) = Some report' \<and>
    br_matched report = br_enqueued report + br_rejected report + br_disconnected report \<and>
    br_matched report' = br_enqueued report' + br_rejected report' + br_disconnected report'"
proof -
  note S = sent_publication [OF sent t(1)]
  let ?t = "t\<lparr>wt_excluded := [], wt_publish_remote := False\<rparr>"
  have v: "validate_broker_publication (hub_config True rt') p = Inr ()"
    by (rule publication_valid [OF t(1) S(2,3) t(2) S(4)]) (simp_all add: hub_config_def other)
  have "fst (mark_publication_seen rt' (pb_origin p) (pb_id p))"
    using other(5) by (simp add: mark_publication_seen_def Let_def)
  then obtain rt2 where rt2: "mark_publication_seen rt' (pb_origin p) (pb_id p) = (True, rt2)"
    by (cases "mark_publication_seen rt' (pb_origin p) (pb_id p)") auto
  have "send_local enqueue' rt2 ?t m = send_local enqueue' rt' ?t m"
    using send_local_marked [of enqueue' rt' "pb_origin p" "pb_id p" ?t m] by (simp only: rt2 snd_conv)
  then have "fst (deliver_broker_publication enqueue' rt2 p) = send_local enqueue' rt' ?t m"
    by (simp add: deliver_broker_publication_def Let_def delivery_roundtrip [OF t(1) S(2)] payload_roundtrip [OF S(3)])
  then have "fst (handle_broker_publication enqueue' rt' p) = Some (send_local enqueue' rt' ?t m)"
    using other(2) by (cases "deliver_broker_publication enqueue' rt2 p")
      (simp add: handle_broker_publication_def v rt2 [unfolded S(1)] S(1))
  moreover note send_local_exact [OF other(1), of enqueue' ?t m] send_local_total [of enqueue' rt' ?t m]
    send_local_total [of enqueue rt t m]
  ultimately show ?thesis by (simp add: Let_def S(6))
qed

definition here :: "(nat, unit) Runtime" where
  "here = local_with_hub_config 2 128 64 (secs 2) 1"

definition crowd :: "(nat, unit) RtOp list" where
  "crowd =
     [Admit ''/chat'' None None (from_layers WebSocketConfig_default WebSocketConfig_default) 0, Join 1 [''a''],
      RegisterDriver 1 10 (),
      Admit ''/chat'' None None (from_layers WebSocketConfig_default WebSocketConfig_default) 0, Join 2 [''b''],
      Admit ''/news'' None None (from_layers WebSocketConfig_default WebSocketConfig_default) 0, Join 3 [''a'']]"

definition there :: "(nat, unit) Runtime" where
  "there = snd (run_steps rt_step (local_with_hub_config 2 128 64 (secs 2) 2) crowd)"

definition accepting_broker :: "WsBrokerPublication \<Rightarrow> (WsBrokerError + unit) option" where
  "accepting_broker p = Some (Inr ())"

definition always :: "nat \<Rightarrow> WebSocketMessage \<Rightarrow> LocalEnqueueOutcome" where
  "always s m = Enqueued"

definition hello :: WsBrokerPublication where
  "hello = \<lparr>pb_id = 1, pb_origin = 1, pb_target = RouteRooms ''/chat'' [''a'', ''b''], pb_payload = TextPayload ''hi''\<rparr>"

lemma there_ok: "registry_ok 0 there"
  unfolding there_def
  by (rule registry.run_inv) (simp add: new_runtime_ok crowd_def u64_max_def)

theorem broadcast_reaches_other_nodes_witness:
  "(\<exists>rt1 obs. target_send always accepting_broker (hub_config True here) here (route_to_many ''/chat'' [''b'', ''a'']) (Text ''hi'') =
      Val (Inr ((empty_report 0)\<lparr>br_remote := Published\<rparr>), Some hello, rt1, obs)) \<and>
   (let ids = sorted_list_of_set (audience (presence there) (Some ''/chat'') [''a'', ''b''] False []);
        report = fold count_outcome (map (answer_of always there (Text ''hi'')) ids) (empty_report (length ids)) in
    fst (handle_broker_publication always there hello) = Some report)"
proof -
  let ?t = "route_to_many ''/chat'' [''b'', ''a'']"
  let ?s = "target_send always accepting_broker (hub_config True here) here ?t (Text ''hi'')"
  have "(case ?s of Panic \<Rightarrow> False | Val (res, p, _, _) \<Rightarrow> res = Inr ((empty_report 0)\<lparr>br_remote := Published\<rparr>) \<and> p = Some hello)"
    by code_simp
  then obtain rt1 obs where sent: "?s = Val (Inr ((empty_report 0)\<lparr>br_remote := Published\<rparr>), Some hello, rt1, obs)"
    by (auto split: outcome.splits prod.splits)
  have same: "wt_route ?t = Some ''/chat''" "wt_rooms ?t = [''a'', ''b'']" "wt_all_in_scope ?t = False" by code_simp+
  have "publishable (hub_config True here) ?t (Text ''hi'')" by code_simp
  moreover have "rt_node_id there \<noteq> hc_node_id (hub_config True here)"
    "rt_max_rooms_per_connection there = hc_max_rooms_per_connection (hub_config True here)"
    "rt_max_room_name_bytes there = hc_max_room_name_bytes (hub_config True here)"
    "(pb_origin hello, pb_id hello) \<notin> set (rg_seen_publications (rt_registry there))" by code_simp+
  ultimately show ?thesis
    using sent broadcast_reaches_other_nodes [OF sent targets_ok(2) _ there_ok, of always] unfolding Let_def same by blast
qed

text \<open>
  Claim C29: a broadcast to more rooms than a connection may join is reported as published and is
  then refused by every other node with the same limits, whose connections never receive it: the
  sender checks the name of every room but not their number, which the receiver bounds by
  \<open>max_rooms_per_connection\<close>.
\<close>

theorem wide_broadcast_refused_remotely:
  assumes sent: "target_send enqueue publish hub rt (route_to_many route rooms) m = Val (Inr report, Some p, rt1, obs)"
    and wide: "card (set rooms) > rt_max_rooms_per_connection rt'" and other: "rt_node_id rt' \<noteq> hc_node_id hub"
  shows "br_remote report = Published \<and> fst (handle_broker_publication enqueue' rt' p) = None \<and>
    ObsBrokerInvalidPublication (hc_node_id hub) (pb_id p) \<in> set (snd (snd (handle_broker_publication enqueue' rt' p)))"
proof -
  let ?t = "route_to_many route rooms"
  note S = sent_publication [OF sent targets_ok(2)]
  have "length (wt_rooms ?t) = card (set rooms)"
    by (simp add: route_to_many_def normalize_rooms_def btree_set_sorted)
  moreover have "pb_target p = RouteRooms route (wt_rooms ?t)" using S(2) by (simp add: broker_target_def route_to_many_def)
  ultimately have "\<exists>e. validate_broker_publication (hub_config True rt') p = Inl e"
    using wide by (auto simp: validate_broker_publication_def validate_broker_target_def hub_config_def split: sum.split)
  then show ?thesis using S(1,6) other
    by (auto simp: handle_broker_publication_def record_broker_error_def)
qed

theorem wide_broadcast_refused_remotely_witness:
  "(case target_send always accepting_broker (hub_config True here) here (route_to_many ''/chat'' [''a'', ''b'', ''c'']) (Text ''hi'') of
      Val (Inr report, Some p, _, _) \<Rightarrow> br_remote report = Published \<and> fst (handle_broker_publication always there p) = None
    | _ \<Rightarrow> False)"
proof -
  let ?s = "target_send always accepting_broker (hub_config True here) here (route_to_many ''/chat'' [''a'', ''b'', ''c'']) (Text ''hi'')"
  have "(case ?s of Val (Inr _, Some _, _, _) \<Rightarrow> True | _ \<Rightarrow> False)" by code_simp
  then obtain report p rt1 obs where s: "?s = Val (Inr report, Some p, rt1, obs)"
    by (auto split: outcome.splits prod.splits sum.splits option.splits)
  have "card (set [''a'', ''b'', ''c'']) > rt_max_rooms_per_connection there"
    "rt_node_id there \<noteq> hc_node_id (hub_config True here)" by code_simp+
  from wide_broadcast_refused_remotely [OF s this, of always] show ?thesis by (simp add: s)
qed

end
