(* ===== verification/Window_Counter.thy ===== *)
theory Window_Counter
  imports Prelude
begin

text \<open>
  Counters over fixed windows of time, as the limit on WebSocket messages and the limit on requests
  have them. The interface is a bucket with the start of its window and a count; what follows from
  it is that no span of one interval sees more than twice the limit.
\<close>

type_synonym bucket = "(nat \<times> nat) option"

text \<open>The window an event falls into: the present one, or a new one when it is over.\<close>

definition live :: "nat \<Rightarrow> nat \<Rightarrow> bucket \<Rightarrow> nat \<times> nat" where
  "live interval t bk = (case bk of Some (b, c) \<Rightarrow> if t - b < interval then (b, c) else (t, 0) | None \<Rightarrow> (t, 0))"

fun admitted_times ::
  "('e \<Rightarrow> nat) \<Rightarrow> ('e \<Rightarrow> 's \<Rightarrow> bool) \<Rightarrow> ('e \<Rightarrow> 's \<Rightarrow> 's) \<Rightarrow> 'e list \<Rightarrow> 's \<Rightarrow> nat list" where
  "admitted_times now_of admits step [] s = []"
| "admitted_times now_of admits step (e # es) s =
     (if admits e s then [now_of e] else []) @ admitted_times now_of admits step es (step e s)"

definition within :: "nat \<Rightarrow> nat \<Rightarrow> nat list \<Rightarrow> nat" where
  "within a b ts = length (filter (\<lambda>t. a \<le> t \<and> t < b) ts)"

lemma within_simps [simp]:
  "within a b [] = 0" "within a b (t # ts) = (if a \<le> t \<and> t < b then 1 else 0) + within a b ts"
  by (simp_all add: within_def)

lemma within_none: "(\<And>t. t \<in> set ts \<Longrightarrow> b \<le> t) \<Longrightarrow> within a b ts = 0"
  by (auto simp: within_def filter_empty_conv not_less)

lemma admitted_times_set: "set (admitted_times now_of admits step es s) \<subseteq> now_of ` set es"
proof (induction es arbitrary: s)
  case (Cons e es)
  then show ?case using Cons.IH [of "step e s"] by auto
qed simp

locale window_counter =
  fixes limit interval :: nat
    and now_of :: "'e \<Rightarrow> nat"
    and counts :: "'e \<Rightarrow> 's \<Rightarrow> bool"
    and admits :: "'e \<Rightarrow> 's \<Rightarrow> bool"
    and step :: "'e \<Rightarrow> 's \<Rightarrow> 's"
    and bucket :: "'s \<Rightarrow> bucket"
    and inv :: "'s \<Rightarrow> bool"
  assumes keep: "inv s \<Longrightarrow> inv (step e s)"
    and other: "inv s \<Longrightarrow> \<not> counts e s \<Longrightarrow> \<not> admits e s \<and>
      (bucket (step e s) = bucket s \<or>
       bucket (step e s) = None \<and> (\<forall>b c. bucket s = Some (b, c) \<longrightarrow> interval \<le> now_of e - b))"
    and counted: "inv s \<Longrightarrow> counts e s \<Longrightarrow> live interval (now_of e) (bucket s) = (b, c) \<Longrightarrow>
      (admits e s \<longleftrightarrow> c < limit) \<and> (\<exists>c'. bucket (step e s) = Some (b, c') \<and> min (c + 1) limit \<le> c')"
begin

abbreviation admitted :: "'e list \<Rightarrow> 's \<Rightarrow> nat list" where
  "admitted \<equiv> admitted_times now_of admits step"

lemma beyond: "(\<And>e. e \<in> set es \<Longrightarrow> b \<le> now_of e) \<Longrightarrow> within a b (admitted es s) = 0"
  using admitted_times_set [of now_of admits step es s] by (intro within_none) auto

lemma same_window:
  assumes "0 < interval" "sorted (map now_of es)" "bucket s = Some (b, c)" "to \<le> b + interval" "inv s"
  shows "within a to (admitted es s) \<le> limit - c"
  using assms(2-5)
proof (induction es arbitrary: s c)
  case (Cons e es)
  show ?case
  proof (cases "to \<le> now_of e")
    case True
    with Cons.prems(1) have "within a to (admitted (e # es) s) = 0" by (intro beyond) auto
    then show ?thesis by simp
  next
    case False
    then have t: "now_of e - b < interval" using Cons.prems(3) assms(1) by linarith
    show ?thesis
    proof (cases "counts e s")
      case True
      have "live interval (now_of e) (bucket s) = (b, c)" using t Cons.prems(2) by (simp add: live_def)
      from counted [OF Cons.prems(4) True this] obtain c' where c': "admits e s \<longleftrightarrow> c < limit" "bucket (step e s) = Some (b, c')"
          "min (c + 1) limit \<le> c'" by blast
      have "within a to (admitted es (step e s)) \<le> limit - c'" using Cons.IH [OF _ c'(2)] Cons.prems keep by simp
      then show ?thesis using c'(1,3) by (auto split: if_splits)
    next
      case other_event: False
      have "bucket (step e s) = Some (b, c)" using other [OF Cons.prems(4) other_event] Cons.prems(2) t by auto
      then show ?thesis using Cons.IH [of "step e s" c] Cons.prems keep other [OF Cons.prems(4) other_event] by simp
    qed
  qed
qed simp

definition room :: "'s \<Rightarrow> nat" where
  "room s = (case bucket s of None \<Rightarrow> limit | Some (b, c) \<Rightarrow> 2 * limit - min c limit)"

lemma two_windows:
  assumes "0 < interval" "sorted (map now_of es)" "\<And>e. e \<in> set es \<Longrightarrow> a \<le> now_of e" "inv s"
  shows "within a (a + interval) (admitted es s) \<le> room s"
  using assms(2-4)
proof (induction es arbitrary: s)
  case (Cons e es)
  have IH: "within a (a + interval) (admitted es (step e s)) \<le> room (step e s)" using Cons.IH Cons.prems keep by simp
  show ?case
  proof (cases "counts e s")
    case True
    obtain b c where l: "live interval (now_of e) (bucket s) = (b, c)" by fastforce
    from counted [OF Cons.prems(3) True l] obtain c' where c': "admits e s \<longleftrightarrow> c < limit" "bucket (step e s) = Some (b, c')"
      "min (c + 1) limit \<le> c'" by blast
    show ?thesis
    proof (cases "bucket s = Some (b, c)")
      case True
      then show ?thesis using IH c' by (auto simp: room_def split: if_splits)
    next
      case False
      then have bc: "b = now_of e" "c = 0" using l by (auto simp: live_def split: option.splits if_splits prod.splits)
      have "within a (a + interval) (admitted es (step e s)) \<le> limit - c'"
        using same_window [OF assms(1) _ c'(2), of es "a + interval" a] Cons.prems keep bc by simp
      then have "within a (a + interval) (admitted (e # es) s) \<le> limit" using c' bc by (auto split: if_splits)
      moreover have "limit \<le> room s" by (auto simp: room_def split: option.split)
      ultimately show ?thesis by linarith
    qed
  next
    case False
    then have "room (step e s) \<le> room s" using other [OF Cons.prems(3) False] by (auto simp: room_def split: option.splits)
    then show ?thesis using IH other [OF Cons.prems(3) False] by simp
  qed
qed simp

theorem any_window:
  assumes "sorted (map now_of es)" "inv s"
  shows "within a (a + interval) (admitted es s) \<le> 2 * limit"
proof (cases "interval = 0")
  case True
  then show ?thesis by (simp add: within_def)
next
  case False
  from assms show ?thesis
  proof (induction es arbitrary: s)
    case (Cons e es)
    show ?case
    proof (cases "a \<le> now_of e")
      case True
      then have "\<And>x. x \<in> set (e # es) \<Longrightarrow> a \<le> now_of x" using Cons.prems by auto
      then have "within a (a + interval) (admitted (e # es) s) \<le> room s" using two_windows [of "e # es" a s] False Cons.prems by simp
      moreover have "room s \<le> 2 * limit" by (auto simp: room_def split: option.splits)
      ultimately show ?thesis by linarith
    next
      case early: False
      then show ?thesis using Cons keep by simp
    qed
  qed simp
qed

end

end
