(* ===== verification/Ws_Socket.thy ===== *)
theory Ws_Socket
  imports Ws_Hub
begin

text \<open>
  The application's end of a WebSocket connection (\<open>src/app/websocket/socket.rs\<close>): bounded queues
  towards the driver, back-pressure, and the messages the application reads. A queue of \<open>tokio\<close> is
  its content, the slots reserved by senders that have not yet sent, its capacity and whether the
  receiver has closed it; a slot that was reserved before the queue was closed can still be used.
  Raw frames, the variant \<open>Frame\<close> of the protocol library's messages, are not modelled.
\<close>

section \<open>Bounded queues\<close>

record 'm channel =
  ch_queue :: "'m list"
  ch_reserved :: nat
  ch_capacity :: nat
  ch_closed :: bool

datatype TrySendError = Full | Closed

definition channel_new :: "nat \<Rightarrow> 'm channel" where
  "channel_new n = \<lparr>ch_queue = [], ch_reserved = 0, ch_capacity = n, ch_closed = False\<rparr>"

definition try_reserve :: "'m channel \<Rightarrow> TrySendError + 'm channel" where
  "try_reserve ch =
     (if ch_closed ch then Inl Closed
      else if length (ch_queue ch) + ch_reserved ch \<ge> ch_capacity ch then Inl Full
      else Inr (ch\<lparr>ch_reserved := ch_reserved ch + 1\<rparr>))"

definition permit_send :: "'m \<Rightarrow> 'm channel \<Rightarrow> 'm channel" where
  "permit_send m ch = ch\<lparr>ch_queue := ch_queue ch @ [m], ch_reserved := ch_reserved ch - 1\<rparr>"

definition channel_close :: "'m channel \<Rightarrow> 'm channel" where
  "channel_close ch = ch\<lparr>ch_closed := True\<rparr>"

definition try_recv :: "'m channel \<Rightarrow> ('m \<times> 'm channel) option" where
  "try_recv ch = (case ch_queue ch of [] \<Rightarrow> None | m # ms \<Rightarrow> Some (m, ch\<lparr>ch_queue := ms\<rparr>))"

section \<open>Commands and close information\<close>

type_synonym CloseFrame = "nat \<times> string"

datatype ControlCommand = CPing bytes | CPong bytes | CClose "CloseFrame option" | CDisconnect "CloseFrame option"

datatype WebSocketCloseInitiator = Local | Peer | RuntimeInitiator | TimeoutInitiator | ProtocolErrorInitiator | HandlerInitiator

record WebSocketCloseInfo =
  ci_code :: nat
  ci_reason :: string
  ci_initiator :: WebSocketCloseInitiator
  ci_clean :: bool

definition CONTROL_CHANNEL_CAPACITY :: nat where
  "CONTROL_CHANNEL_CAPACITY = 8"

definition validate_close :: "nat \<Rightarrow> string \<Rightarrow> WsError + unit" where
  "validate_close c reason =
     (if \<not> (c \<in> {1000, 1001, 1002, 1003, 1007, 1008, 1009, 1010, 1011, 1012, 1013} \<or> 3000 \<le> c \<and> c \<le> 4999)
      then Inl (InvalidClose c ''codigo de cierre reservado o no asignado'')
      else if length reason > 123 then Inl (InvalidClose c ''la razon de cierre supera 123 bytes UTF-8'')
      else Inr ())"

section \<open>The shared half\<close>

record SocketShared =
  ss_id :: nat
  ss_outbound :: "WebSocketMessage channel"
  ss_control :: "ControlCommand channel"
  ss_backpressure_policy :: BackpressurePolicy
  ss_send_timeout :: nat
  ss_public_senders :: nat
  ss_sender_count :: nat

definition channel_pair :: "nat \<Rightarrow> ResolvedWebSocketConfig \<Rightarrow> SocketShared" where
  "channel_pair i config =
     \<lparr>ss_id = i, ss_outbound = channel_new (max (wr_outbound_capacity config) 1),
      ss_control = channel_new CONTROL_CHANNEL_CAPACITY, ss_backpressure_policy = wr_backpressure_policy config,
      ss_send_timeout = wr_send_timeout config, ss_public_senders = 1, ss_sender_count = 1\<rparr>"

definition sender_clone :: "SocketShared \<Rightarrow> SocketShared" where
  "sender_clone s =
     s\<lparr>ss_public_senders := fetch_add (ss_public_senders s) 1, ss_sender_count := fetch_add (ss_public_senders s) 1\<rparr>"

definition sender_drop :: "SocketShared \<Rightarrow> SocketShared" where
  "sender_drop s =
     s\<lparr>ss_public_senders := fetch_sub (ss_public_senders s) 1, ss_sender_count := fetch_sub (ss_public_senders s) 1\<rparr>"

definition saturated :: "TrySendError \<Rightarrow> SocketShared \<Rightarrow> ('s, 'a) Runtime \<Rightarrow> WsError \<times> ('s, 'a) Runtime" where
  "saturated e s rt =
     (case e of
        Full \<Rightarrow> (WsCapacity OutboundQueue, fst (record_saturated_send rt (ss_id s) True))
      | Closed \<Rightarrow> (WsClosed, rt))"

definition try_send_application ::
  "WebSocketMessage \<Rightarrow> SocketShared \<Rightarrow> ('s, 'a) Runtime \<Rightarrow> (WsError + unit) \<times> SocketShared \<times> ('s, 'a) Runtime" where
  "try_send_application m s rt =
     (case try_reserve (ss_outbound s) of
        Inl e \<Rightarrow> (case saturated e s rt of (err, rt') \<Rightarrow> (Inl err, s, rt'))
      | Inr ch \<Rightarrow> (Inr (), s\<lparr>ss_outbound := permit_send m ch\<rparr>, rt))"

text \<open>
  Waiting for a slot of a queue within a deadline: \<open>freed\<close> is the queue when a slot becomes free or
  the queue is closed, \<open>None\<close> when the deadline passes first.
\<close>

definition wait_send ::
  "'m \<Rightarrow> 'm channel option \<Rightarrow> nat \<Rightarrow> ('s, 'a) Runtime \<Rightarrow> (WsError + 'm channel) \<times> ('s, 'a) Runtime" where
  "wait_send m freed i rt =
     (case freed of
        None \<Rightarrow> (Inl (WsTimeout TimeoutSend), fst (record_saturated_send rt i True))
      | Some ch \<Rightarrow>
          (case try_reserve ch of
             Inr ch' \<Rightarrow> (Inr (permit_send m ch'), rt)
           | Inl _ \<Rightarrow> (Inl WsClosed, rt)))"

definition send_control ::
  "ControlCommand \<Rightarrow> ControlCommand channel option \<Rightarrow> SocketShared \<Rightarrow> ('s, 'a) Runtime
     \<Rightarrow> (WsError + unit) \<times> SocketShared \<times> ('s, 'a) Runtime" where
  "send_control c freed s rt =
     (case wait_send c freed (ss_id s) rt of
        (Inl e, rt') \<Rightarrow> (Inl e, s, rt')
      | (Inr ch, rt') \<Rightarrow> (Inr (), s\<lparr>ss_control := ch\<rparr>, rt'))"

definition slow_consumer_frame :: CloseFrame where
  "slow_consumer_frame = (1013, ''Cliente WebSocket demasiado lento'')"

definition disconnect_slow_consumer ::
  "ControlCommand channel option \<Rightarrow> SocketShared \<Rightarrow> ('s, 'a) Runtime \<Rightarrow> (WsError + unit) \<times> SocketShared \<times> ('s, 'a) Runtime" where
  "disconnect_slow_consumer freed s rt = send_control (CDisconnect (Some slow_consumer_frame)) freed s rt"

definition send_application ::
  "WebSocketMessage \<Rightarrow> WebSocketMessage channel option \<Rightarrow> ControlCommand channel option \<Rightarrow> SocketShared \<Rightarrow> ('s, 'a) Runtime
     \<Rightarrow> (WsError + unit) \<times> SocketShared \<times> ('s, 'a) Runtime" where
  "send_application m freed control s rt =
     (case ss_backpressure_policy s of
        Wait \<Rightarrow>
          (case wait_send m freed (ss_id s) rt of
             (Inl e, rt') \<Rightarrow> (Inl e, s, rt')
           | (Inr ch, rt') \<Rightarrow> (Inr (), s\<lparr>ss_outbound := ch\<rparr>, rt'))
      | Reject \<Rightarrow> try_send_application m s rt
      | Disconnect \<Rightarrow>
          (case try_send_application m s rt of
             (Inl (WsCapacity _), s', rt') \<Rightarrow>
               (case disconnect_slow_consumer control s' rt' of
                  (Inl e, s'', rt'') \<Rightarrow> (Inl e, s'', rt'')
                | (Inr _, s'', rt'') \<Rightarrow> (Inl (WsCapacity OutboundQueue), s'', rt''))
           | r \<Rightarrow> r))"

definition enqueue_outcome :: "BackpressurePolicy \<Rightarrow> WsError + unit \<Rightarrow> LocalEnqueueOutcome" where
  "enqueue_outcome policy r =
     (case r of
        Inr _ \<Rightarrow> Enqueued
      | Inl WsClosed \<Rightarrow> Disconnected
      | Inl (WsCapacity _) \<Rightarrow> if policy = Disconnect then Disconnected else Rejected
      | Inl _ \<Rightarrow> Rejected)"

definition enqueue ::
  "WebSocketMessage \<Rightarrow> WebSocketMessage channel option \<Rightarrow> ControlCommand channel option \<Rightarrow> SocketShared \<Rightarrow> ('s, 'a) Runtime
     \<Rightarrow> LocalEnqueueOutcome \<times> SocketShared \<times> ('s, 'a) Runtime" where
  "enqueue m freed control s rt =
     (case send_application m freed control s rt of
        (r, s', rt') \<Rightarrow> (enqueue_outcome (ss_backpressure_policy s) r, s', rt'))"

text \<open>The sender of the registry waits for a slot of the control queue without a deadline.\<close>

definition control_send ::
  "ControlCommand \<Rightarrow> ControlCommand channel \<Rightarrow> SocketShared \<Rightarrow> (WsError + unit) \<times> SocketShared" where
  "control_send c freed s =
     (case try_reserve freed of
        Inl _ \<Rightarrow> (Inl WsClosed, s)
      | Inr ch \<Rightarrow> (Inr (), s\<lparr>ss_control := permit_send c ch\<rparr>))"

definition internal_send ::
  "WebSocketMessage \<Rightarrow> WebSocketMessage channel option \<Rightarrow> ControlCommand channel \<Rightarrow> SocketShared \<Rightarrow> ('s, 'a) Runtime
     \<Rightarrow> (WsError + unit) \<times> SocketShared \<times> ('s, 'a) Runtime" where
  "internal_send m freed control s rt =
     (let to_control = (\<lambda>c. case control_send c control s of (r, s') \<Rightarrow> (r, s', rt)) in
      case m of
        Ping p \<Rightarrow> to_control (CPing p)
      | Pong p \<Rightarrow> to_control (CPong p)
      | Close f \<Rightarrow> to_control (CDisconnect f)
      | _ \<Rightarrow> send_application m freed (Some control) s rt)"

definition internal_disconnect ::
  "nat \<Rightarrow> string \<Rightarrow> ControlCommand channel \<Rightarrow> SocketShared \<Rightarrow> (WsError + unit) \<times> SocketShared" where
  "internal_disconnect c reason freed s = control_send (CDisconnect (Some (c, reason))) freed s"

section \<open>The sender of the application\<close>

fun control_of :: "WebSocketMessage \<Rightarrow> ControlCommand option" where
  "control_of (Ping p) = Some (CPing p)"
| "control_of (Pong p) = Some (CPong p)"
| "control_of (Close f) = Some (CClose f)"
| "control_of _ = None"

definition try_send_control ::
  "ControlCommand \<Rightarrow> SocketShared \<Rightarrow> ('s, 'a) Runtime \<Rightarrow> (WsError + unit) \<times> SocketShared \<times> ('s, 'a) Runtime" where
  "try_send_control c s rt =
     (case try_reserve (ss_control s) of
        Inl e \<Rightarrow> (case saturated e s rt of (err, rt') \<Rightarrow> (Inl err, s, rt'))
      | Inr ch \<Rightarrow> (Inr (), s\<lparr>ss_control := permit_send c ch\<rparr>, rt))"

definition try_send ::
  "WebSocketMessage \<Rightarrow> SocketShared \<Rightarrow> ('s, 'a) Runtime \<Rightarrow> (WsError + unit) \<times> SocketShared \<times> ('s, 'a) Runtime" where
  "try_send m s rt =
     (case control_of m of Some c \<Rightarrow> try_send_control c s rt | None \<Rightarrow> try_send_application m s rt)"

definition sender_send ::
  "WebSocketMessage \<Rightarrow> WebSocketMessage channel option \<Rightarrow> ControlCommand channel option \<Rightarrow> SocketShared \<Rightarrow> ('s, 'a) Runtime
     \<Rightarrow> (WsError + unit) \<times> SocketShared \<times> ('s, 'a) Runtime" where
  "sender_send m freed control s rt =
     (case control_of m of Some c \<Rightarrow> send_control c control s rt | None \<Rightarrow> send_application m freed control s rt)"

definition close_with ::
  "nat \<Rightarrow> string \<Rightarrow> ControlCommand channel option \<Rightarrow> SocketShared \<Rightarrow> ('s, 'a) Runtime
     \<Rightarrow> (WsError + unit) \<times> SocketShared \<times> ('s, 'a) Runtime" where
  "close_with c reason control s rt =
     (case validate_close c reason of
        Inl e \<Rightarrow> (Inl e, s, rt)
      | Inr _ \<Rightarrow> send_control (CClose (Some (c, reason))) control s rt)"

text \<open>A sender never addresses its own connection.\<close>

definition sender_to_many :: "SocketShared \<Rightarrow> string \<Rightarrow> string list \<Rightarrow> WsTarget" where
  "sender_to_many s route rooms = except (route_to_many route rooms) (ss_id s)"

definition sender_broadcast :: "SocketShared \<Rightarrow> string \<Rightarrow> WsTarget" where
  "sender_broadcast s route = except (route_all route) (ss_id s)"

section \<open>The receiver of the application\<close>

type_synonym Inbound = "WebSocketError + WebSocketMessage"

definition receiver_recv :: "Inbound list \<Rightarrow> (WebSocketError + WebSocketMessage option) \<times> Inbound list" where
  "receiver_recv inbound =
     (case inbound of
        [] \<Rightarrow> (Inr None, [])
      | Inr m # rest \<Rightarrow> (Inr (Some m), rest)
      | Inl e # rest \<Rightarrow> (Inl e, rest))"

text \<open>What remains to be read once the queue is closed; JSON is decoded by the parameter \<open>from_slice\<close>.\<close>

fun recv_json :: "(bytes \<Rightarrow> string + 'j) \<Rightarrow> Inbound list \<Rightarrow> (WebSocketError + 'j option) \<times> Inbound list" where
  "recv_json from_slice [] = (Inr None, [])"
| "recv_json from_slice (Inl e # rest) = (Inl e, rest)"
| "recv_json from_slice (Inr m # rest) =
     (case m of
        Text t \<Rightarrow> (case from_slice t of Inl e \<Rightarrow> (Inl (JsonError e), rest) | Inr v \<Rightarrow> (Inr (Some v), rest))
      | Binary b \<Rightarrow> (case from_slice b of Inl e \<Rightarrow> (Inl (JsonError e), rest) | Inr v \<Rightarrow> (Inr (Some v), rest))
      | Ping _ \<Rightarrow> recv_json from_slice rest
      | Pong _ \<Rightarrow> recv_json from_slice rest
      | Close _ \<Rightarrow> (Inr None, rest))"

text \<open>The values the driver publishes on the close watch, in order, up to its end.\<close>

fun wait_for_close :: "WebSocketCloseInfo option list \<Rightarrow> WebSocketCloseInfo" where
  "wait_for_close [] =
     \<lparr>ci_code = 1006, ci_reason = ''El driver WebSocket termino sin publicar el cierre'',
      ci_initiator = ProtocolErrorInitiator, ci_clean = False\<rparr>"
| "wait_for_close (Some info # _) = info"
| "wait_for_close (None # rest) = wait_for_close rest"

section \<open>Handlers\<close>

text \<open>A handler is made when it is called and then runs; either may panic.\<close>

definition normalize_handler :: "(WsError + unit) outcome outcome \<Rightarrow> WsError + unit" where
  "normalize_handler called =
     (case called of
        Panic \<Rightarrow> Inl HandlerPanic
      | Val Panic \<Rightarrow> Inl HandlerPanic
      | Val (Val output) \<Rightarrow> output)"

section \<open>Queues never overflow\<close>

definition channel_ok :: "'m channel \<Rightarrow> bool" where
  "channel_ok ch \<longleftrightarrow> length (ch_queue ch) + ch_reserved ch \<le> ch_capacity ch"

lemma channel_new_ok: "channel_ok (channel_new n)"
  by (simp add: channel_ok_def channel_new_def)

lemma try_reserve_Inr:
  "try_reserve ch = Inr ch' \<Longrightarrow> \<not> ch_closed ch \<and> ch' = ch\<lparr>ch_reserved := ch_reserved ch + 1\<rparr> \<and>
     length (ch_queue ch) + ch_reserved ch < ch_capacity ch"
  by (auto simp: try_reserve_def split: if_splits)

lemma reserved_send_ok:
  "try_reserve ch = Inr ch' \<Longrightarrow> channel_ok (permit_send m ch') \<and> ch_queue (permit_send m ch') = ch_queue ch @ [m] \<and>
     ch_reserved (permit_send m ch') = ch_reserved ch"
  by (drule try_reserve_Inr) (auto simp: channel_ok_def permit_send_def)

lemma wait_send_Inr:
  "wait_send m freed i rt = (Inr ch, rt') \<Longrightarrow>
     \<exists>c. freed = Some c \<and> \<not> ch_closed c \<and> channel_ok ch \<and> ch_queue ch = ch_queue c @ [m] \<and> rt' = rt"
  using reserved_send_ok [of _ _ m] try_reserve_Inr by (fastforce simp: wait_send_def split: option.splits sum.splits)

lemma try_send_application_cases:
  "(\<exists>ch. try_reserve (ss_outbound s) = Inr ch \<and> try_send_application m s rt = (Inr (), s\<lparr>ss_outbound := permit_send m ch\<rparr>, rt)) \<or>
   (try_reserve (ss_outbound s) = Inl Full \<and>
      try_send_application m s rt = (Inl (WsCapacity OutboundQueue), s, fst (record_saturated_send rt (ss_id s) True))) \<or>
   (try_reserve (ss_outbound s) = Inl Closed \<and> try_send_application m s rt = (Inl WsClosed, s, rt))"
  by (auto simp: try_send_application_def saturated_def try_reserve_def)

lemma wait_send_Inl: "wait_send m freed i rt = (Inl e, rt') \<Longrightarrow> e = WsClosed \<or> e = WsTimeout TimeoutSend"
  by (auto simp: wait_send_def split: option.splits sum.splits)

lemma disconnected_cases:
  assumes "disconnect_slow_consumer control s rt = (r, s', rt')"
  shows "ss_outbound s' = ss_outbound s"
    "r = Inr () \<Longrightarrow> \<exists>ch. control = Some ch \<and> ch_queue (ss_control s') = ch_queue ch @ [CDisconnect (Some slow_consumer_frame)]"
    "r = Inl e \<Longrightarrow> e = WsClosed \<or> e = WsTimeout TimeoutSend"
proof -
  obtain w rt1 where w: "wait_send (CDisconnect (Some slow_consumer_frame)) control (ss_id s) rt = (w, rt1)" by force
  note eq = assms [unfolded disconnect_slow_consumer_def send_control_def w]
  show "ss_outbound s' = ss_outbound s" using eq by (cases w) auto
  show "\<exists>ch. control = Some ch \<and> ch_queue (ss_control s') = ch_queue ch @ [CDisconnect (Some slow_consumer_frame)]" if "r = Inr ()"
  proof (cases w)
    case (Inr ch)
    obtain c where "control = Some c" "ch_queue ch = ch_queue c @ [CDisconnect (Some slow_consumer_frame)]"
      using wait_send_Inr [OF w [unfolded Inr]] by blast
    moreover have "ss_control s' = ch" using eq Inr by auto
    ultimately show ?thesis by simp
  qed (use eq that in auto)
  show "e = WsClosed \<or> e = WsTimeout TimeoutSend" if "r = Inl e"
    using wait_send_Inl [of "CDisconnect (Some slow_consumer_frame)" control "ss_id s" rt e rt1] w eq that by (cases w) auto
qed

text \<open>
  What a send does to the outgoing queue: \<open>before\<close> is the queue the message was put into, the one
  with a free slot under \<open>Wait\<close> and the present one otherwise.
\<close>

definition sent_honestly ::
  "WebSocketMessage \<Rightarrow> WebSocketMessage channel option \<Rightarrow> ControlCommand channel option \<Rightarrow> SocketShared
     \<Rightarrow> (WsError + unit) \<times> SocketShared \<times> ('s, 'a) Runtime \<Rightarrow> bool" where
  "sent_honestly m freed control s result = (case result of (r, s', rt') \<Rightarrow>
     let policy = ss_backpressure_policy s; before = (if policy = Wait then freed else Some (ss_outbound s)) in
     channel_ok (ss_outbound s') \<and>
     (if r = Inr () then (\<exists>ch. before = Some ch \<and> ch_queue (ss_outbound s') = ch_queue ch @ [m]) \<and> enqueue_outcome policy r = Enqueued
      else ss_outbound s' = ss_outbound s \<and> enqueue_outcome policy r \<noteq> Enqueued) \<and>
     (policy = Reject \<longrightarrow>
        r = (case try_reserve (ss_outbound s) of Inr _ \<Rightarrow> Inr () | Inl Full \<Rightarrow> Inl (WsCapacity OutboundQueue) | Inl Closed \<Rightarrow> Inl WsClosed)) \<and>
     (policy = Disconnect \<and> r = Inl (WsCapacity OutboundQueue) \<longrightarrow>
        enqueue_outcome policy r = Disconnected \<and> try_reserve (ss_outbound s) = Inl Full \<and>
        (\<exists>ch. control = Some ch \<and> ch_queue (ss_control s') = ch_queue ch @ [CDisconnect (Some slow_consumer_frame)])))"

lemma send_waiting:
  assumes "channel_ok (ss_outbound s)" and Wait: "ss_backpressure_policy s = Wait"
  shows "sent_honestly m freed control s (send_application m freed control s rt)"
proof -
  obtain w rt1 where w: "wait_send m freed (ss_id s) rt = (w, rt1)" by force
  show ?thesis
  proof (cases w)
    case (Inl e)
    with Wait w have "send_application m freed control s rt = (Inl e, s, rt1)" by (simp add: send_application_def)
    with wait_send_Inl [of m freed "ss_id s" rt e rt1] w Inl assms show ?thesis
      by (auto simp: sent_honestly_def enqueue_outcome_def)
  next
    case (Inr ch)
    with Wait w have "send_application m freed control s rt = (Inr (), s\<lparr>ss_outbound := ch\<rparr>, rt1)" by (simp add: send_application_def)
    moreover obtain c where "freed = Some c" "channel_ok ch" "ch_queue ch = ch_queue c @ [m]"
      using wait_send_Inr [OF w [unfolded Inr]] by blast
    ultimately show ?thesis using Wait by (simp add: sent_honestly_def enqueue_outcome_def)
  qed
qed

lemma send_disconnecting:
  assumes "channel_ok (ss_outbound s)" and Disconnect: "ss_backpressure_policy s = Disconnect"
  shows "sent_honestly m freed control s (send_application m freed control s rt)"
proof -
  consider ch where "try_reserve (ss_outbound s) = Inr ch" "try_send_application m s rt = (Inr (), s\<lparr>ss_outbound := permit_send m ch\<rparr>, rt)"
    | "try_reserve (ss_outbound s) = Inl Full"
      "try_send_application m s rt = (Inl (WsCapacity OutboundQueue), s, fst (record_saturated_send rt (ss_id s) True))"
    | "try_reserve (ss_outbound s) = Inl Closed" "try_send_application m s rt = (Inl WsClosed, s, rt)"
    using try_send_application_cases [of s m rt] by blast
  then show ?thesis
  proof cases
    case 1
    then have "send_application m freed control s rt = (Inr (), s\<lparr>ss_outbound := permit_send m ch\<rparr>, rt)"
      using Disconnect by (simp add: send_application_def)
    with 1 Disconnect reserved_send_ok [of "ss_outbound s" ch m] show ?thesis by (simp add: sent_honestly_def enqueue_outcome_def)
  next
    case 2
    obtain r s' rt' where d: "disconnect_slow_consumer control s (fst (record_saturated_send rt (ss_id s) True)) = (r, s', rt')"
      using prod_cases3 by blast
    have "send_application m freed control s rt = (case r of Inl e \<Rightarrow> Inl e | Inr _ \<Rightarrow> Inl (WsCapacity OutboundQueue), s', rt')"
      using 2 Disconnect by (cases r) (simp_all add: send_application_def d)
    with disconnected_cases [OF d] 2 assms show ?thesis by (cases r) (auto simp: sent_honestly_def enqueue_outcome_def)
  next
    case 3
    then have "send_application m freed control s rt = (Inl WsClosed, s, rt)" using Disconnect by (simp add: send_application_def)
    with 3 assms show ?thesis by (simp add: sent_honestly_def enqueue_outcome_def)
  qed
qed


definition full_socket :: SocketShared where
  "full_socket = (channel_pair 1 (from_layers WebSocketConfig_default WebSocketConfig_default))
     \<lparr>ss_backpressure_policy := Disconnect, ss_outbound := \<lparr>ch_queue = [Text ''x''], ch_reserved = 0, ch_capacity = 1, ch_closed = False\<rparr>\<rparr>"


end
