(* ===== verification/Ws_Driver.thy ===== *)
theory Ws_Driver
  imports Ws_Socket
begin

text \<open>
  The task that drives a WebSocket connection (\<open>src/app/websocket/driver.rs\<close>). One turn of its loop
  is \<open>drive_step\<close>: the two checks at the head of the loop, then the branch of the \<open>select!\<close> that the
  schedule picks among those that are ready. A turn reads the clock when it starts (\<open>now\<close>) and again
  when it begins a close or has written a ping (\<open>later\<close>). A schedule interleaves turns with the steps
  of other tasks, which reserve slots of the queues and use them, change the number of senders and
  announce the shutdown; what they do while a turn awaits comes before or after that turn. What the
  transport answers is a parameter. \<open>dr_wire\<close> holds the frames whose sending completed; the replies
  the protocol library writes by itself are not among them. Calls into the registry are logged.
\<close>

section \<open>Transport and state\<close>

datatype TungsteniteError = ConnectionClosed | MessageTooLong | IoError bool string | OtherError string

datatype SendResult = Sent | SendFailed TungsteniteError | SendTimedOut

record transport_crate =
  tr_send :: "WebSocketMessage list \<Rightarrow> WebSocketMessage \<Rightarrow> nat \<Rightarrow> SendResult"
  tr_display :: "TungsteniteError \<Rightarrow> string"

record DriverState =
  ds_close_sent :: bool
  ds_close_received :: bool
  ds_close_info :: "WebSocketCloseInfo option"
  ds_close_deadline :: "nat option"
  ds_pending_ping :: "(bytes \<times> nat) option"
  ds_last_inbound_frame :: nat
  ds_last_application_message :: nat
  ds_opened_at :: nat
  ds_next_ping_token :: nat
  ds_message_window_started :: nat
  ds_message_count :: nat

definition DriverState_new :: "nat \<Rightarrow> DriverState" where
  "DriverState_new now =
     \<lparr>ds_close_sent = False, ds_close_received = False, ds_close_info = None, ds_close_deadline = None,
      ds_pending_ping = None, ds_last_inbound_frame = now, ds_last_application_message = now, ds_opened_at = now,
      ds_next_ping_token = 1, ds_message_window_started = now, ds_message_count = 0\<rparr>"

datatype RuntimeCall = CallOpened | CallClosing | CallMessage bool nat string | CallHeartbeatTimeout | CallSaturatedSend bool
  | CallHandlerFailed | CallClosed WebSocketCloseInfo

text \<open>
  \<open>dr_early\<close> and \<open>dr_late\<close> are what other tasks handed over before and after the outgoing queue was
  closed; the driver does not read them.
\<close>

record Driver =
  dr_state :: DriverState
  dr_control :: "ControlCommand channel"
  dr_outbound :: "WebSocketMessage channel"
  dr_control_open :: bool
  dr_outbound_open :: bool
  dr_handler_completed :: bool
  dr_sender_tracking_closed :: bool
  dr_senders :: nat
  dr_senders_gone :: bool
  dr_shutdown :: bool
  dr_shutdown_gone :: bool
  dr_wire :: "WebSocketMessage list"
  dr_inbound :: "WebSocketMessage list"
  dr_calls :: "RuntimeCall list"
  dr_published :: "WebSocketCloseInfo option"
  dr_early :: "WebSocketMessage list"
  dr_late :: "WebSocketMessage list"

definition Driver_new :: "nat \<Rightarrow> SocketShared \<Rightarrow> Driver" where
  "Driver_new now s =
     \<lparr>dr_state = DriverState_new now, dr_control = ss_control s, dr_outbound = ss_outbound s, dr_control_open = True,
      dr_outbound_open = True, dr_handler_completed = False, dr_sender_tracking_closed = False,
      dr_senders = ss_sender_count s, dr_senders_gone = False, dr_shutdown = False, dr_shutdown_gone = False, dr_wire = [], dr_inbound = [],
      dr_calls = [CallOpened], dr_published = None, dr_early = [], dr_late = []\<rparr>"

definition call :: "RuntimeCall \<Rightarrow> Driver \<Rightarrow> Driver" where
  "call c d = d\<lparr>dr_calls := dr_calls d @ [c]\<rparr>"

record DriverOutcome =
  do_close_info :: WebSocketCloseInfo
  do_handler_completed :: bool

definition peer_disconnect_info :: WebSocketCloseInfo where
  "peer_disconnect_info = \<lparr>ci_code = 1006, ci_reason = [], ci_initiator = Peer, ci_clean = False\<rparr>"

definition state_outcome :: "DriverState \<Rightarrow> bool \<Rightarrow> DriverOutcome" where
  "state_outcome st completed =
     (let info = (case ds_close_info st of Some i \<Rightarrow> i | None \<Rightarrow> peer_disconnect_info)
      in \<lparr>do_close_info = info\<lparr>ci_clean := ds_close_sent st \<and> ds_close_received st\<rparr>, do_handler_completed = completed\<rparr>)"

fun timed_out :: "TungsteniteError \<Rightarrow> bool" where
  "timed_out (IoError t _) = t"
| "timed_out _ = False"

text \<open>The outcome after a transport error, and the error offered to the application.\<close>

definition protocol_outcome :: "transport_crate \<Rightarrow> TungsteniteError \<Rightarrow> DriverOutcome \<times> WebSocketError" where
  "protocol_outcome tr e =
     (\<lparr>do_close_info = \<lparr>ci_code = 1006, ci_reason = tr_display tr e,
         ci_initiator = (if timed_out e then TimeoutInitiator else ProtocolErrorInitiator), ci_clean = False\<rparr>,
       do_handler_completed = False\<rparr>,
      ProtocolError (tr_display tr e))"

datatype DriverStep = Running Driver | Finished DriverOutcome "WebSocketError option" Driver

section \<open>Writing\<close>

definition transport_write_timeout :: TungsteniteError where
  "transport_write_timeout = IoError True ''tiempo limite de escritura WebSocket agotado''"

definition send_with_timeout ::
  "transport_crate \<Rightarrow> WebSocketMessage \<Rightarrow> nat \<Rightarrow> Driver \<Rightarrow> (TungsteniteError \<times> Driver) + Driver" where
  "send_with_timeout tr m timeout d =
     (case tr_send tr (dr_wire d) m timeout of
        Sent \<Rightarrow> Inr (d\<lparr>dr_wire := dr_wire d @ [m]\<rparr>)
      | SendFailed e \<Rightarrow> Inl (e, d)
      | SendTimedOut \<Rightarrow> Inl (transport_write_timeout, d))"

fun control_message :: "ControlCommand \<Rightarrow> WebSocketMessage" where
  "control_message (CPing p) = Ping p"
| "control_message (CPong p) = Pong p"
| "control_message (CClose f) = Close f"
| "control_message (CDisconnect f) = Close f"

definition write_control ::
  "transport_crate \<Rightarrow> ControlCommand \<Rightarrow> nat \<Rightarrow> Driver \<Rightarrow> (TungsteniteError \<times> Driver) + Driver" where
  "write_control tr c timeout d = send_with_timeout tr (control_message c) timeout d"

fun message_len :: "WebSocketMessage \<Rightarrow> nat" where
  "message_len (Text t) = length t"
| "message_len (Binary b) = length b"
| "message_len (Ping p) = length p"
| "message_len (Pong p) = length p"
| "message_len (Close None) = 0"
| "message_len (Close (Some (_, reason))) = length reason"

definition application_message_type :: "WebSocketMessage \<Rightarrow> string" where
  "application_message_type m = (case m of Text _ \<Rightarrow> ''text'' | _ \<Rightarrow> ''binary'')"

fun is_data :: "WebSocketMessage \<Rightarrow> bool" where
  "is_data (Text _) = True"
| "is_data (Binary _) = True"
| "is_data _ = False"

fun send_all ::
  "transport_crate \<Rightarrow> nat \<Rightarrow> WebSocketMessage list \<Rightarrow> Driver \<Rightarrow> (TungsteniteError \<times> Driver) + Driver" where
  "send_all tr timeout [] d = Inr d"
| "send_all tr timeout (m # ms) d =
     (case send_with_timeout tr m timeout d of
        Inl e \<Rightarrow> Inl e
      | Inr d' \<Rightarrow> send_all tr timeout ms (call (CallMessage True (message_len m) (application_message_type m)) d'))"

definition take_queued_before_close :: "Driver \<Rightarrow> WebSocketMessage list \<times> Driver" where
  "take_queued_before_close d = (ch_queue (dr_outbound d), d\<lparr>dr_outbound := (dr_outbound d)\<lparr>ch_queue := []\<rparr>\<rparr>)"

definition send_queued_outbound :: "transport_crate \<Rightarrow> nat \<Rightarrow> Driver \<Rightarrow> (TungsteniteError \<times> Driver) + Driver" where
  "send_queued_outbound tr timeout d =
     (case take_queued_before_close d of (ms, d') \<Rightarrow> send_all tr timeout ms d')"

definition close_command_channels :: "Driver \<Rightarrow> Driver" where
  "close_command_channels d =
     d\<lparr>dr_control := channel_close (dr_control d), dr_outbound := channel_close (dr_outbound d),
       dr_control_open := False, dr_outbound_open := False\<rparr>"

definition close_info :: "CloseFrame option \<Rightarrow> WebSocketCloseInitiator \<Rightarrow> bool \<Rightarrow> WebSocketCloseInfo" where
  "close_info frame initiator clean =
     \<lparr>ci_code = (case frame of None \<Rightarrow> 1005 | Some (c, _) \<Rightarrow> c), ci_reason = (case frame of None \<Rightarrow> [] | Some (_, r) \<Rightarrow> r),
      ci_initiator = initiator, ci_clean = clean\<rparr>"

record driver_env =
  de_transport :: transport_crate
  de_config :: ResolvedWebSocketConfig
  de_imax :: nat

definition initiate_close ::
  "driver_env \<Rightarrow> nat \<Rightarrow> CloseFrame option \<Rightarrow> WebSocketCloseInitiator \<Rightarrow> Driver \<Rightarrow> (TungsteniteError \<times> Driver) + Driver" where
  "initiate_close env now frame initiator d =
     (if ds_close_sent (dr_state d) then Inr d
      else
        let st = (dr_state d)\<lparr>ds_close_info := Some (close_info frame initiator False), ds_close_sent := True,
                   ds_close_deadline := instant_checked_add (de_imax env) now (wr_close_timeout (de_config env))\<rparr>
        in send_with_timeout (de_transport env) (Close frame)
             (min (wr_send_timeout (de_config env)) (wr_close_timeout (de_config env)))
             ((call CallClosing d)\<lparr>dr_state := st\<rparr>))"

definition initiate_runtime_shutdown :: "driver_env \<Rightarrow> nat \<Rightarrow> Driver \<Rightarrow> (TungsteniteError \<times> Driver) + Driver" where
  "initiate_runtime_shutdown env now d =
     initiate_close env now (Some (1001, ''apagado del servidor'')) RuntimeInitiator (close_command_channels d)"

text \<open>The commands that are already queued when the handler has finished.\<close>

fun drain_commands ::
  "driver_env \<Rightarrow> nat \<Rightarrow> ControlCommand list \<Rightarrow> Driver \<Rightarrow> (TungsteniteError \<times> Driver) + Driver" where
  "drain_commands env now [] d =
     (case send_queued_outbound (de_transport env) (wr_send_timeout (de_config env)) d of
        Inl e \<Rightarrow> Inl e
      | Inr d' \<Rightarrow> initiate_close env now (Some (1000, [])) HandlerInitiator d')"
| "drain_commands env now (c # cs) d =
     (let d1 = d\<lparr>dr_control := (dr_control d)\<lparr>ch_queue := cs\<rparr>\<rparr> in
      case c of
        CClose frame \<Rightarrow>
          (case send_queued_outbound (de_transport env) (wr_send_timeout (de_config env)) d1 of
             Inl e \<Rightarrow> Inl e
           | Inr d' \<Rightarrow> initiate_close env now frame Local d')
      | CDisconnect frame \<Rightarrow> initiate_close env now frame RuntimeInitiator d1
      | _ \<Rightarrow>
          (case write_control (de_transport env) c (wr_send_timeout (de_config env)) d1 of
             Inl e \<Rightarrow> Inl e
           | Inr d' \<Rightarrow> drain_commands env now cs d'))"

definition initiate_handler_completion :: "driver_env \<Rightarrow> nat \<Rightarrow> Driver \<Rightarrow> (TungsteniteError \<times> Driver) + Driver" where
  "initiate_handler_completion env now d =
     (let d' = close_command_channels d in drain_commands env now (ch_queue (dr_control d')) d')"

section \<open>Deadlines and the rate of messages\<close>

definition after :: "driver_env \<Rightarrow> nat \<Rightarrow> nat option \<Rightarrow> nat option" where
  "after env t timeout = Option.bind timeout (instant_checked_add (de_imax env) t)"

definition ping_deadline :: "driver_env \<Rightarrow> DriverState \<Rightarrow> nat option" where
  "ping_deadline env st =
     (if ds_pending_ping st \<noteq> None then None else after env (ds_last_inbound_frame st) (wr_ping_interval (de_config env)))"

definition pong_deadline :: "driver_env \<Rightarrow> DriverState \<Rightarrow> nat option" where
  "pong_deadline env st =
     (case ds_pending_ping st of None \<Rightarrow> None | Some (_, sent_at) \<Rightarrow> after env sent_at (Some (wr_pong_timeout (de_config env))))"

definition idle_deadline :: "driver_env \<Rightarrow> DriverState \<Rightarrow> nat option" where
  "idle_deadline env st = after env (ds_last_application_message st) (wr_idle_timeout (de_config env))"

definition lifetime_deadline :: "driver_env \<Rightarrow> DriverState \<Rightarrow> nat option" where
  "lifetime_deadline env st = after env (ds_opened_at st) (wr_max_connection_lifetime (de_config env))"

definition passed :: "nat \<Rightarrow> nat option \<Rightarrow> bool" where
  "passed now deadline = (case deadline of None \<Rightarrow> False | Some t \<Rightarrow> t \<le> now)"

definition message_rate_exceeded :: "ResolvedWebSocketConfig \<Rightarrow> nat \<Rightarrow> DriverState \<Rightarrow> bool \<times> DriverState" where
  "message_rate_exceeded config now st =
     (case wr_message_rate_limit config of
        None \<Rightarrow> (False, st)
      | Some limit \<Rightarrow>
          let st1 = (if now - ds_message_window_started st \<ge> rl_interval limit
                     then st\<lparr>ds_message_window_started := now, ds_message_count := 0\<rparr> else st)
          in if ds_message_count st1 \<ge> rl_max_messages limit then (True, st1)
             else (False, st1\<lparr>ds_message_count := ds_message_count st1 + 1\<rparr>))"

fun be_bytes :: "nat \<Rightarrow> nat \<Rightarrow> bytes" where
  "be_bytes 0 n = []"
| "be_bytes (Suc k) n = be_bytes k (n div 256) @ [char_of (n mod 256)]"

section \<open>Turns of the loop\<close>

datatype InboundDelivery = Delivered | ReceiverClosed | TimedOut

text \<open>\<open>receiver_closed\<close>: the application dropped its receiver; \<open>sent\<close>: \<open>None\<close> when the queue stayed full.\<close>

definition deliver_inbound :: "bool \<Rightarrow> bool option \<Rightarrow> InboundDelivery" where
  "deliver_inbound receiver_closed sent =
     (if receiver_closed then ReceiverClosed
      else (case sent of Some True \<Rightarrow> Delivered | Some False \<Rightarrow> ReceiverClosed | None \<Rightarrow> TimedOut))"

datatype Incoming = IncomingMessage WebSocketMessage "TungsteniteError option" bool "bool option"
  | IncomingError TungsteniteError | IncomingEnd

datatype DriverEvent = ShutdownReady | ControlReady | CloseDeadline | PongDeadline | LifetimeDeadline | IdleDeadline
  | OutboundReady | IncomingReady Incoming | PingDeadline | HandlerDone "(WsError + unit) option" | SenderCount bool

definition recv_ready :: "Driver \<Rightarrow> 'm channel \<Rightarrow> bool" where
  "recv_ready d ch \<longleftrightarrow> ch_queue ch \<noteq> [] \<or> dr_senders_gone d"

fun enabled :: "driver_env \<Rightarrow> nat \<Rightarrow> Driver \<Rightarrow> DriverEvent \<Rightarrow> bool" where
  "enabled env now d ShutdownReady \<longleftrightarrow> \<not> ds_close_sent (dr_state d) \<and> (dr_shutdown d \<or> dr_shutdown_gone d)"
| "enabled env now d ControlReady \<longleftrightarrow> dr_control_open d \<and> recv_ready d (dr_control d)"
| "enabled env now d CloseDeadline \<longleftrightarrow> ds_close_sent (dr_state d) \<and> passed now (ds_close_deadline (dr_state d))"
| "enabled env now d PongDeadline \<longleftrightarrow> \<not> ds_close_sent (dr_state d) \<and> passed now (pong_deadline env (dr_state d))"
| "enabled env now d LifetimeDeadline \<longleftrightarrow> \<not> ds_close_sent (dr_state d) \<and> passed now (lifetime_deadline env (dr_state d))"
| "enabled env now d IdleDeadline \<longleftrightarrow> \<not> ds_close_sent (dr_state d) \<and> passed now (idle_deadline env (dr_state d))"
| "enabled env now d OutboundReady \<longleftrightarrow>
     dr_outbound_open d \<and> \<not> ds_close_sent (dr_state d) \<and> recv_ready d (dr_outbound d)"
| "enabled env now d (IncomingReady _) \<longleftrightarrow> True"
| "enabled env now d PingDeadline \<longleftrightarrow> \<not> ds_close_sent (dr_state d) \<and> passed now (ping_deadline env (dr_state d))"
| "enabled env now d (HandlerDone _) \<longleftrightarrow> \<not> dr_handler_completed d"
| "enabled env now d (SenderCount _) \<longleftrightarrow> dr_handler_completed d \<and> \<not> ds_close_sent (dr_state d)"

text \<open>What a turn does with a write that may have failed.\<close>

definition or_protocol :: "driver_env \<Rightarrow> (TungsteniteError \<times> Driver) + Driver \<Rightarrow> (Driver \<Rightarrow> DriverStep) \<Rightarrow> DriverStep" where
  "or_protocol env r k =
     (case r of
        Inr d \<Rightarrow> k d
      | Inl (e, d) \<Rightarrow> (case protocol_outcome (de_transport env) e of (out, err) \<Rightarrow> Finished out (Some err) d))"

definition finish :: "Driver \<Rightarrow> DriverStep" where
  "finish d = Finished (state_outcome (dr_state d) (dr_handler_completed d)) None d"

definition close_turn :: "driver_env \<Rightarrow> nat \<Rightarrow> CloseFrame option \<Rightarrow> WebSocketCloseInitiator \<Rightarrow> Driver \<Rightarrow> DriverStep" where
  "close_turn env now frame initiator d =
     or_protocol env (initiate_close env now frame initiator (close_command_channels d)) Running"

definition control_turn :: "driver_env \<Rightarrow> nat \<Rightarrow> Driver \<Rightarrow> DriverStep" where
  "control_turn env now d =
     (case try_recv (dr_control d) of
        None \<Rightarrow> Running (d\<lparr>dr_control_open := False\<rparr>)
      | Some (c, ch) \<Rightarrow>
          let d1 = d\<lparr>dr_control := ch\<rparr> in
          if ds_close_sent (dr_state d1) then Running d1
          else
            (case c of
               CClose frame \<Rightarrow>
                 or_protocol env (send_queued_outbound (de_transport env) (wr_send_timeout (de_config env)) (close_command_channels d1))
                   (\<lambda>d2. or_protocol env (initiate_close env now frame Local d2) Running)
             | CDisconnect frame \<Rightarrow> close_turn env now frame RuntimeInitiator d1
             | _ \<Rightarrow> or_protocol env (write_control (de_transport env) c (wr_send_timeout (de_config env)) d1) Running))"

definition outbound_turn :: "driver_env \<Rightarrow> Driver \<Rightarrow> DriverStep" where
  "outbound_turn env d =
     (case try_recv (dr_outbound d) of
        None \<Rightarrow> Running (d\<lparr>dr_outbound_open := False\<rparr>)
      | Some (m, ch) \<Rightarrow>
          or_protocol env (send_with_timeout (de_transport env) m (wr_send_timeout (de_config env)) (d\<lparr>dr_outbound := ch\<rparr>))
            (\<lambda>d1. Running (call (CallMessage True (message_len m) (application_message_type m)) d1)))"

definition match_pong :: "WebSocketMessage \<Rightarrow> DriverState \<Rightarrow> DriverState" where
  "match_pong m st =
     (case m of
        Pong p \<Rightarrow> (case ds_pending_ping st of
                    Some (expected, _) \<Rightarrow> if expected = p then st\<lparr>ds_pending_ping := None\<rparr> else st
                  | None \<Rightarrow> st)
      | _ \<Rightarrow> st)"

definition note_peer_close :: "WebSocketMessage \<Rightarrow> Driver \<Rightarrow> Driver" where
  "note_peer_close m d =
     (case m of
        Close frame \<Rightarrow>
          let st = dr_state d;
              info = (case ds_close_info st of None \<Rightarrow> Some (close_info frame Peer True) | Some i \<Rightarrow> Some i)
          in (call CallClosing d)\<lparr>dr_state := st\<lparr>ds_close_received := True, ds_close_info := info, ds_close_sent := True\<rparr>\<rparr>
      | _ \<Rightarrow> d)"

text \<open>The end of the branch for an incoming message: flush, close bookkeeping and delivery.\<close>

definition incoming_delivery ::
  "driver_env \<Rightarrow> nat \<Rightarrow> WebSocketMessage \<Rightarrow> TungsteniteError option \<Rightarrow> InboundDelivery \<Rightarrow> Driver \<Rightarrow> DriverStep" where
  "incoming_delivery env now m flushed delivery d =
     (let needs_flush = (case m of Ping _ \<Rightarrow> True | Close _ \<Rightarrow> True | _ \<Rightarrow> False) in
      or_protocol env (case flushed of Some e \<Rightarrow> if needs_flush then Inl (e, d) else Inr d | None \<Rightarrow> Inr d) (\<lambda>d.
        let d1 = note_peer_close m d;
            d2 = (if delivery = Delivered then d1\<lparr>dr_inbound := dr_inbound d1 @ [m]\<rparr> else d1);
            over = (\<lambda>d3. if ds_close_received (dr_state d3) then finish d3 else Running d3)
        in if delivery = TimedOut \<and> \<not> ds_close_sent (dr_state d2)
           then or_protocol env
                  (initiate_close env now (Some (1013, ''El handler WebSocket no consume mensajes a tiempo'')) RuntimeInitiator
                    (close_command_channels (call (CallSaturatedSend False) d2))) over
           else over d2))"

definition incoming_message ::
  "driver_env \<Rightarrow> nat \<Rightarrow> nat \<Rightarrow> WebSocketMessage \<Rightarrow> TungsteniteError option \<Rightarrow> InboundDelivery \<Rightarrow> Driver \<Rightarrow> DriverStep" where
  "incoming_message env now later m flushed delivery d =
     (let d1 = d\<lparr>dr_state := (dr_state d)\<lparr>ds_last_inbound_frame := now\<rparr>\<rparr>;
          (exceeded, st) = (if is_data m then message_rate_exceeded (de_config env) now (dr_state d1) else (False, dr_state d1));
          d2 = d1\<lparr>dr_state := st\<rparr>
      in if exceeded then close_turn env later (Some (1008, ''Limite de mensajes WebSocket excedido'')) RuntimeInitiator d2
         else
           let d3 = (if is_data m
                     then call (CallMessage False (message_len m) (application_message_type m)) (d2\<lparr>dr_state := (dr_state d2)\<lparr>ds_last_application_message := now\<rparr>\<rparr>)
                     else d2);
               d4 = d3\<lparr>dr_state := match_pong m (dr_state d3)\<rparr>
           in incoming_delivery env later m flushed delivery d4)"

fun incoming_turn :: "driver_env \<Rightarrow> nat \<Rightarrow> nat \<Rightarrow> Incoming \<Rightarrow> Driver \<Rightarrow> DriverStep" where
  "incoming_turn env now later (IncomingMessage m flushed receiver_closed sent) d =
     incoming_message env now later m flushed (deliver_inbound receiver_closed sent) d"
| "incoming_turn env now later (IncomingError e) d =
     (if e = ConnectionClosed \<and> ds_close_sent (dr_state d)
      then finish (d\<lparr>dr_state := (dr_state d)\<lparr>ds_close_received := True\<rparr>\<rparr>)
      else if e = MessageTooLong
      then close_turn env later (Some (1009, ''Mensaje WebSocket demasiado grande'')) ProtocolErrorInitiator d
      else or_protocol env (Inl (e, d)) Running)"
| "incoming_turn env now later IncomingEnd d = finish d"

definition ping_turn :: "driver_env \<Rightarrow> nat \<Rightarrow> Driver \<Rightarrow> DriverStep" where
  "ping_turn env sent_at d =
     (let st = dr_state d; payload = be_bytes 8 (ds_next_ping_token st);
          d1 = d\<lparr>dr_state := st\<lparr>ds_next_ping_token := fetch_add (ds_next_ping_token st) 1\<rparr>\<rparr>
      in or_protocol env (send_with_timeout (de_transport env) (Ping payload) (wr_send_timeout (de_config env)) d1)
           (\<lambda>d2. Running (d2\<lparr>dr_state := (dr_state d2)\<lparr>ds_pending_ping := Some (payload, sent_at)\<rparr>\<rparr>)))"

text \<open>\<open>None\<close>: the task of the handler ended without sending its result.\<close>

definition handler_turn :: "driver_env \<Rightarrow> nat \<Rightarrow> (WsError + unit) option \<Rightarrow> Driver \<Rightarrow> DriverStep" where
  "handler_turn env now result d =
     (let d1 = d\<lparr>dr_handler_completed := True\<rparr>; failed = (result \<noteq> Some (Inr ()));
          d2 = (if failed then call CallHandlerFailed d1 else d1)
      in if failed \<and> \<not> ds_close_sent (dr_state d2)
         then close_turn env now (Some (1011, ''El handler WebSocket fallo'')) HandlerInitiator d2
         else Running d2)"

fun branch :: "driver_env \<Rightarrow> nat \<Rightarrow> nat \<Rightarrow> DriverEvent \<Rightarrow> Driver \<Rightarrow> DriverStep" where
  "branch env now later ShutdownReady d = or_protocol env (initiate_runtime_shutdown env later d) Running"
| "branch env now later ControlReady d = control_turn env later d"
| "branch env now later CloseDeadline d = finish d"
| "branch env now later PongDeadline d =
     close_turn env later (Some (1001, ''Tiempo de espera de Pong agotado'')) TimeoutInitiator
       ((call CallHeartbeatTimeout d)\<lparr>dr_state := (dr_state d)\<lparr>ds_pending_ping := None\<rparr>\<rparr>)"
| "branch env now later LifetimeDeadline d = close_turn env later (Some (1001, ''Duracion maxima de conexion agotada'')) TimeoutInitiator d"
| "branch env now later IdleDeadline d = close_turn env later (Some (1001, ''Tiempo de inactividad agotado'')) TimeoutInitiator d"
| "branch env now later OutboundReady d = outbound_turn env d"
| "branch env now later (IncomingReady i) d = incoming_turn env now later i d"
| "branch env now later PingDeadline d = ping_turn env later d"
| "branch env now later (HandlerDone result) d = handler_turn env later result d"
| "branch env now later (SenderCount ok) d = Running (if ok then d else d\<lparr>dr_sender_tracking_closed := True\<rparr>)"

definition drive_step :: "driver_env \<Rightarrow> nat \<Rightarrow> nat \<Rightarrow> DriverEvent \<Rightarrow> Driver \<Rightarrow> DriverStep" where
  "drive_step env now later ev d =
     (if \<not> ds_close_sent (dr_state d) \<and> dr_shutdown d then or_protocol env (initiate_runtime_shutdown env later d) Running
      else if dr_handler_completed d \<and> \<not> ds_close_sent (dr_state d) \<and> (dr_sender_tracking_closed d \<or> dr_senders d = 0)
      then or_protocol env (initiate_handler_completion env later d) Running
      else if enabled env now d ev then branch env now later ev d else Running d)"

section \<open>Schedules\<close>

datatype TaskStep = ReserveOutbound | UseOutbound WebSocketMessage | ReserveControl | UseControl ControlCommand
  | SetSenders nat | SendersGone | AnnounceShutdown | ShutdownGone

fun task_step :: "TaskStep \<Rightarrow> Driver \<Rightarrow> Driver" where
  "task_step ReserveOutbound d =
     (case try_reserve (dr_outbound d) of Inr ch \<Rightarrow> d\<lparr>dr_outbound := ch\<rparr> | Inl _ \<Rightarrow> d)"
| "task_step (UseOutbound m) d =
     (if ch_reserved (dr_outbound d) > 0 \<and> is_data m
      then let d1 = d\<lparr>dr_outbound := permit_send m (dr_outbound d)\<rparr>
           in if ch_closed (dr_outbound d) then d1\<lparr>dr_late := dr_late d @ [m]\<rparr> else d1\<lparr>dr_early := dr_early d @ [m]\<rparr>
      else d)"
| "task_step ReserveControl d =
     (case try_reserve (dr_control d) of Inr ch \<Rightarrow> d\<lparr>dr_control := ch\<rparr> | Inl _ \<Rightarrow> d)"
| "task_step (UseControl c) d =
     (if ch_reserved (dr_control d) > 0 then d\<lparr>dr_control := permit_send c (dr_control d)\<rparr> else d)"
| "task_step (SetSenders n) d = d\<lparr>dr_senders := n\<rparr>"
| "task_step SendersGone d = d\<lparr>dr_senders_gone := True\<rparr>"
| "task_step AnnounceShutdown d = d\<lparr>dr_shutdown := True\<rparr>"
| "task_step ShutdownGone d = d\<lparr>dr_shutdown_gone := True\<rparr>"

datatype Input = Task TaskStep | Turn nat nat DriverEvent

fun input_step :: "driver_env \<Rightarrow> Input \<Rightarrow> DriverStep \<Rightarrow> DriverStep" where
  "input_step env x (Finished out err d) = Finished out err d"
| "input_step env (Task t) (Running d) = Running (task_step t d)"
| "input_step env (Turn now later ev) (Running d) = drive_step env now later ev d"

definition drive :: "driver_env \<Rightarrow> Input list \<Rightarrow> Driver \<Rightarrow> DriverStep" where
  "drive env inputs d = fold (input_step env) inputs (Running d)"

text \<open>
  The whole task: a connection whose registration was refused is told so and closed, otherwise the
  loop runs, and its outcome is reported to the registry and published.
\<close>

definition run_rejected :: "driver_env \<Rightarrow> Driver \<Rightarrow> DriverOutcome \<times> Driver" where
  "run_rejected env d =
     (let frame = (1001, ''El servidor se esta cerrando'');
          d' = (case write_control (de_transport env) (CDisconnect (Some frame)) (wr_send_timeout (de_config env)) d of Inl (_, x) \<Rightarrow> x | Inr x \<Rightarrow> x);
                info = close_info (Some frame) RuntimeInitiator False
      in (\<lparr>do_close_info = info, do_handler_completed = False\<rparr>, d'\<lparr>dr_published := Some info\<rparr>))"

definition driver_run :: "driver_env \<Rightarrow> bool \<Rightarrow> nat \<Rightarrow> SocketShared \<Rightarrow> Input list \<Rightarrow> (DriverOutcome \<times> Driver) option" where
  "driver_run env registered now s inputs =
     (if \<not> registered then Some (run_rejected env ((Driver_new now s)\<lparr>dr_calls := []\<rparr>))
      else (case drive env inputs (Driver_new now s) of
              Running _ \<Rightarrow> None
            | Finished out _ d \<Rightarrow> Some (out, (call (CallClosed (do_close_info out)) d)\<lparr>dr_published := Some (do_close_info out)\<rparr>)))"

end
