(* ===== verification/Ws_Driver_Props.thy ===== *)
theory Ws_Driver_Props
  imports Ws_Driver Window_Counter "HOL-Library.Sublist"
begin

text \<open>
  What the driver guarantees on every schedule: the order and number of frames, that nothing the
  application handed over is lost by an orderly close, that a close ends in bounded time, and the
  limit on the rate of incoming messages.
\<close>

section \<open>The invariant\<close>

fun is_close :: "WebSocketMessage \<Rightarrow> bool" where
  "is_close (Close _) = True"
| "is_close _ = False"

definition no_close :: "WebSocketMessage list \<Rightarrow> bool" where
  "no_close ms \<longleftrightarrow> list_all (\<lambda>m. \<not> is_close m) ms"

definition data_sent :: "Driver \<Rightarrow> WebSocketMessage list" where
  "data_sent d = filter is_data (dr_wire d)"

text \<open>A close asked for by the application, or the normal close after its handler has returned.\<close>

fun orderly :: "WebSocketCloseInfo option \<Rightarrow> bool" where
  "orderly None = False"
| "orderly (Some i) = (ci_initiator i = Local \<or> ci_initiator i = HandlerInitiator \<and> ci_code i = 1000)"

definition final_ok :: "Driver \<Rightarrow> bool" where
  "final_ok d \<longleftrightarrow> no_close (butlast (dr_wire d)) \<and> prefix (data_sent d) (dr_early d) \<and>
     (orderly (ds_close_info (dr_state d)) \<longrightarrow> data_sent d = dr_early d)"

definition before_close :: "Driver \<Rightarrow> bool" where
  "before_close d \<longleftrightarrow> \<not> ds_close_sent (dr_state d) \<and> ds_close_info (dr_state d) = None \<and>
     \<not> ds_close_received (dr_state d) \<and> no_close (dr_wire d) \<and> dr_late d = [] \<and>
     dr_early d = data_sent d @ ch_queue (dr_outbound d) \<and> list_all is_data (ch_queue (dr_outbound d))"

definition deadline_set :: "driver_env \<Rightarrow> nat \<Rightarrow> DriverState \<Rightarrow> bool" where
  "deadline_set env T st \<longleftrightarrow>
     (\<exists>t\<le>T. ds_close_deadline st = instant_checked_add (de_imax env) t (wr_close_timeout (de_config env)))"

definition closing :: "driver_env \<Rightarrow> nat \<Rightarrow> Driver \<Rightarrow> bool" where
  "closing env T d \<longleftrightarrow> ds_close_sent (dr_state d) \<and> \<not> ds_close_received (dr_state d) \<and> final_ok d \<and>
     ch_closed (dr_outbound d) \<and> deadline_set env T (dr_state d)"

definition run_ok :: "driver_env \<Rightarrow> nat \<Rightarrow> Driver \<Rightarrow> bool" where
  "run_ok env T d \<longleftrightarrow> before_close d \<and> \<not> ch_closed (dr_outbound d) \<or> closing env T d"

fun step_ok :: "driver_env \<Rightarrow> nat \<Rightarrow> DriverStep \<Rightarrow> bool" where
  "step_ok env T (Running d) = run_ok env T d"
| "step_ok env T (Finished _ _ d) = final_ok d"

fun write_ok :: "(Driver \<Rightarrow> bool) \<Rightarrow> (TungsteniteError \<times> Driver) + Driver \<Rightarrow> bool" where
  "write_ok P (Inl (_, d)) = final_ok d"
| "write_ok P (Inr d) = P d"

lemma or_protocol_ok:
  assumes "write_ok P r" and "\<And>d. P d \<Longrightarrow> step_ok env T (k d)"
  shows "step_ok env T (or_protocol env r k)"
  using assms by (cases r) (auto simp: or_protocol_def protocol_outcome_def)

lemma or_protocol_simps:
  "or_protocol env (Inr d) k = k d"
  "step_ok env T (or_protocol env (Inl (e, d)) k) = final_ok d"
  by (simp_all add: or_protocol_def protocol_outcome_def)

lemma no_close_append [simp]: "no_close (xs @ ys) \<longleftrightarrow> no_close xs \<and> no_close ys"
  by (simp add: no_close_def)

lemma no_close_simps [simp]: "no_close []" "no_close (m # ms) \<longleftrightarrow> \<not> is_close m \<and> no_close ms"
  by (simp_all add: no_close_def)

lemma data_not_close: "is_data m \<Longrightarrow> \<not> is_close m"
  by (cases m) simp_all

lemma no_close_butlast: "no_close ms \<Longrightarrow> no_close (butlast ms)"
  by (auto simp: no_close_def list_all_iff dest: in_set_butlastD)

lemma all_data_no_close: "list_all is_data ms \<Longrightarrow> no_close ms"
  by (auto simp: no_close_def list_all_iff data_not_close)

lemma before_close_final: "before_close d \<Longrightarrow> final_ok d"
  by (simp add: before_close_def final_ok_def no_close_butlast)

lemma call_simps [simp]:
  "dr_state (call c d) = dr_state d" "dr_wire (call c d) = dr_wire d" "dr_outbound (call c d) = dr_outbound d"
  "dr_control (call c d) = dr_control d" "dr_early (call c d) = dr_early d" "dr_late (call c d) = dr_late d"
  by (simp_all add: call_def)

section \<open>Writes\<close>

lemma send_with_timeout_ok:
  assumes "final_ok d" and "P (d\<lparr>dr_wire := dr_wire d @ [m]\<rparr>)"
  shows "write_ok P (send_with_timeout tr m t d)"
  using assms by (simp add: send_with_timeout_def split: SendResult.split)

lemma initiate_close_ok:
  assumes "before_close d" "ch_closed (dr_outbound d)" "t \<le> T"
    and "orderly (Some (close_info frame ini False)) \<Longrightarrow> ch_queue (dr_outbound d) = []"
  shows "write_ok (closing env T) (initiate_close env t frame ini d)"
proof -
  let ?st = "(dr_state d)\<lparr>ds_close_info := Some (close_info frame ini False), ds_close_sent := True,
    ds_close_deadline := instant_checked_add (de_imax env) t (wr_close_timeout (de_config env))\<rparr>"
  have "final_ok ((call CallClosing d)\<lparr>dr_state := ?st\<rparr>)"
    using assms by (auto simp: before_close_def final_ok_def data_sent_def no_close_butlast)
  moreover have "closing env T ((call CallClosing d)\<lparr>dr_state := ?st, dr_wire := dr_wire d @ [Close frame]\<rparr>)"
    using assms by (auto simp: before_close_def closing_def final_ok_def data_sent_def deadline_set_def)
  ultimately have "write_ok (closing env T) (send_with_timeout (de_transport env) (Close frame)
      (min (wr_send_timeout (de_config env)) (wr_close_timeout (de_config env))) ((call CallClosing d)\<lparr>dr_state := ?st\<rparr>))"
    by (intro send_with_timeout_ok) simp_all
  then show ?thesis using assms(1) by (simp add: initiate_close_def before_close_def Let_def)
qed

lemma send_all_ok:
  assumes "before_close (d\<lparr>dr_outbound := (dr_outbound d)\<lparr>ch_queue := ms\<rparr>\<rparr>)" "ch_queue (dr_outbound d) = []"
  shows "write_ok (\<lambda>d'. before_close d' \<and> ch_queue (dr_outbound d') = [] \<and> ch_closed (dr_outbound d') = ch_closed (dr_outbound d))
    (send_all tr t ms d)"
  using assms
proof (induction ms arbitrary: d)
  case Nil
  then show ?case by (simp add: before_close_def data_sent_def)
next
  case (Cons m ms)
  let ?d = "call (CallMessage True (message_len m) (application_message_type m)) (d\<lparr>dr_wire := dr_wire d @ [m]\<rparr>)"
  have "before_close (?d\<lparr>dr_outbound := (dr_outbound ?d)\<lparr>ch_queue := ms\<rparr>\<rparr>)"
    using Cons.prems by (simp add: before_close_def data_sent_def data_not_close)
  from Cons.IH [OF this] Cons.prems(2) have rest: "write_ok (\<lambda>d'. before_close d' \<and> ch_queue (dr_outbound d') = [] \<and>
      ch_closed (dr_outbound d') = ch_closed (dr_outbound d)) (send_all tr t ms ?d)" by simp
  have "final_ok d" using Cons.prems by (simp add: before_close_def final_ok_def data_sent_def no_close_butlast)
  with rest show ?case by (simp add: send_with_timeout_def split: SendResult.split)
qed

lemma send_queued_outbound_ok:
  assumes "before_close d"
  shows "write_ok (\<lambda>d'. before_close d' \<and> ch_queue (dr_outbound d') = [] \<and> ch_closed (dr_outbound d') = ch_closed (dr_outbound d))
    (send_queued_outbound tr t d)"
  using send_all_ok [where d = "d\<lparr>dr_outbound := (dr_outbound d)\<lparr>ch_queue := []\<rparr>\<rparr>" and ms = "ch_queue (dr_outbound d)"
      and tr = tr and t = t] assms
  by (simp add: send_queued_outbound_def take_queued_before_close_def before_close_def data_sent_def)

lemma write_control_ok:
  assumes "before_close d" "\<not> is_close (control_message c)"
  shows "write_ok (\<lambda>d'. before_close d' \<and> ch_closed (dr_outbound d') = ch_closed (dr_outbound d)) (write_control tr c t d)"
proof -
  have "\<not> is_data (control_message c)" by (cases c) simp_all
  with assms show ?thesis unfolding write_control_def
    by (intro send_with_timeout_ok) (simp_all add: before_close_final, simp add: before_close_def data_sent_def)
qed

lemma close_channels_ok:
  "before_close d \<Longrightarrow> before_close (close_command_channels d)" "ch_closed (dr_outbound (close_command_channels d))"
  "closing env T d \<Longrightarrow> closing env T (close_command_channels d)"
  by (simp_all add: close_command_channels_def channel_close_def before_close_def closing_def final_ok_def data_sent_def)

section \<open>Turns\<close>

lemma closing_run: "closing env T d \<Longrightarrow> run_ok env T d"
  by (simp add: run_ok_def)

lemma run_ok_final: "run_ok env T d \<Longrightarrow> final_ok d"
  by (auto simp: run_ok_def closing_def before_close_final)

lemma run_ok_open: "run_ok env T d \<Longrightarrow> \<not> ds_close_sent (dr_state d) \<Longrightarrow> before_close d \<and> \<not> ch_closed (dr_outbound d)"
  by (simp add: run_ok_def closing_def)

lemma run_ok_shut: "run_ok env T d \<Longrightarrow> ds_close_sent (dr_state d) \<Longrightarrow> closing env T d"
  by (auto simp: run_ok_def before_close_def)

lemma close_turn_ok:
  assumes "run_ok env T d" "t \<le> T" "\<not> orderly (Some (close_info frame ini False))"
  shows "step_ok env T (close_turn env t frame ini d)"
proof (cases "ds_close_sent (dr_state d)")
  case True
  then have "closing env T (close_command_channels d)" by (simp add: assms(1) run_ok_shut close_channels_ok)
  then show ?thesis by (simp add: close_turn_def initiate_close_def closing_def or_protocol_def closing_run [unfolded closing_def])
next
  case False
  then have "before_close (close_command_channels d)" using assms(1) by (simp add: run_ok_open close_channels_ok)
  then have "write_ok (closing env T) (initiate_close env t frame ini (close_command_channels d))"
    by (rule initiate_close_ok [OF _ close_channels_ok(2) assms(2)]) (use assms(3) in blast)
  then show ?thesis unfolding close_turn_def by (rule or_protocol_ok) (simp add: closing_run)
qed

lemma drain_commands_ok:
  assumes "before_close d" "ch_closed (dr_outbound d)" "t \<le> T"
  shows "write_ok (closing env T) (drain_commands env t cs d)"
  using assms
proof (induction cs arbitrary: d)
  case Nil
  then show ?case
    using send_queued_outbound_ok [of d "de_transport env" "wr_send_timeout (de_config env)"]
    by (auto split: sum.splits intro!: initiate_close_ok)
next
  case (Cons c cs)
  let ?d = "d\<lparr>dr_control := (dr_control d)\<lparr>ch_queue := cs\<rparr>\<rparr>"
  have d: "before_close ?d" "ch_closed (dr_outbound ?d)" using Cons.prems by (simp_all add: before_close_def data_sent_def)
  note ctl = write_control_ok [OF d(1), of c "de_transport env" "wr_send_timeout (de_config env)"]
  note out = send_queued_outbound_ok [OF d(1), of "de_transport env" "wr_send_timeout (de_config env)"]
  show ?case
  proof (cases c)
    case (CClose f)
    then show ?thesis using out d Cons.prems(3) by (auto split: sum.splits intro!: initiate_close_ok)
  next
    case (CDisconnect f)
    then show ?thesis using d Cons.prems(3) by (auto simp: close_info_def intro!: initiate_close_ok)
  qed (use ctl d Cons in \<open>auto split: sum.splits\<close>)
qed

lemma shutdown_turn_ok:
  assumes "run_ok env T d" "\<not> ds_close_sent (dr_state d)" "t \<le> T"
  shows "step_ok env T (or_protocol env (initiate_runtime_shutdown env t d) Running)"
  using close_turn_ok [OF assms(1,3), of "Some (1001, ''apagado del servidor'')" RuntimeInitiator]
  by (simp add: close_turn_def initiate_runtime_shutdown_def close_info_def)

lemma completion_ok:
  assumes "run_ok env T d" "\<not> ds_close_sent (dr_state d)" "t \<le> T"
  shows "step_ok env T (or_protocol env (initiate_handler_completion env t d) Running)"
proof -
  have "before_close (close_command_channels d)" using assms by (simp add: run_ok_open close_channels_ok)
  from drain_commands_ok [OF this close_channels_ok(2) assms(3)] show ?thesis
    unfolding initiate_handler_completion_def Let_def by (rule or_protocol_ok) (simp add: closing_run)
qed

lemma run_ok_state:
  assumes "run_ok env T d" "ds_close_sent st = ds_close_sent (dr_state d)" "ds_close_info st = ds_close_info (dr_state d)"
    "ds_close_received st = ds_close_received (dr_state d)" "ds_close_deadline st = ds_close_deadline (dr_state d)"
  shows "run_ok env T (d\<lparr>dr_state := st\<rparr>)"
  using assms by (auto simp: run_ok_def before_close_def closing_def final_ok_def data_sent_def deadline_set_def)

lemma run_ok_frame [simp]:
  "run_ok env T (d\<lparr>dr_control := ch\<rparr>) = run_ok env T d" "run_ok env T (d\<lparr>dr_control_open := b\<rparr>) = run_ok env T d"
  "run_ok env T (d\<lparr>dr_outbound_open := b\<rparr>) = run_ok env T d" "run_ok env T (d\<lparr>dr_handler_completed := b\<rparr>) = run_ok env T d"
  "run_ok env T (d\<lparr>dr_sender_tracking_closed := b\<rparr>) = run_ok env T d" "run_ok env T (d\<lparr>dr_inbound := ms\<rparr>) = run_ok env T d"
  "run_ok env T (d\<lparr>dr_senders := n\<rparr>) = run_ok env T d" "run_ok env T (d\<lparr>dr_senders_gone := b\<rparr>) = run_ok env T d"
  "run_ok env T (d\<lparr>dr_shutdown := b\<rparr>) = run_ok env T d" "run_ok env T (d\<lparr>dr_shutdown_gone := b\<rparr>) = run_ok env T d"
  "run_ok env T (call c d) = run_ok env T d"
  by (simp_all add: run_ok_def before_close_def closing_def final_ok_def data_sent_def call_def)

lemma control_turn_ok:
  assumes "run_ok env T d" "t \<le> T"
  shows "step_ok env T (control_turn env t d)"
proof (cases "try_recv (dr_control d)")
  case None
  then show ?thesis using assms by (simp add: control_turn_def)
next
  case (Some p)
  then obtain c ch where p: "try_recv (dr_control d) = Some (c, ch)" by (cases p) simp
  let ?d = "d\<lparr>dr_control := ch\<rparr>"
  have ok: "run_ok env T ?d" using assms(1) by simp
  show ?thesis
  proof (cases "ds_close_sent (dr_state d)")
    case True
    then show ?thesis using p ok by (simp add: control_turn_def)
  next
    case False
    then have b: "before_close ?d" "\<not> ch_closed (dr_outbound ?d)" using run_ok_open [OF ok] by simp_all
    note ctl = write_control_ok [OF b(1), of c "de_transport env" "wr_send_timeout (de_config env)"]
    have "step_ok env T (or_protocol env (write_control (de_transport env) c (wr_send_timeout (de_config env)) ?d) Running)"
      if "\<not> is_close (control_message c)"
      by (rule or_protocol_ok [OF ctl [OF that]]) (use b in \<open>simp add: run_ok_def\<close>)
    moreover have "step_ok env T (or_protocol env
        (send_queued_outbound (de_transport env) (wr_send_timeout (de_config env)) (close_command_channels ?d))
        (\<lambda>d2. or_protocol env (initiate_close env t f Local d2) Running))" for f
      by (rule or_protocol_ok [OF send_queued_outbound_ok [OF close_channels_ok(1) [OF b(1)]]],
          rule or_protocol_ok [OF initiate_close_ok [OF _ _ assms(2)]])
        (simp_all add: close_channels_ok closing_run)
    moreover have "step_ok env T (close_turn env t f RuntimeInitiator ?d)" for f
      by (rule close_turn_ok [OF ok assms(2)]) (simp add: close_info_def)
    ultimately show ?thesis using p False by (cases c) (simp_all add: control_turn_def)
  qed
qed

lemma outbound_turn_ok:
  assumes "run_ok env T d" "\<not> ds_close_sent (dr_state d)"
  shows "step_ok env T (outbound_turn env d)"
proof (cases "ch_queue (dr_outbound d)")
  case Nil
  then show ?thesis using assms by (simp add: outbound_turn_def try_recv_def)
next
  case (Cons m ms)
  let ?d = "d\<lparr>dr_outbound := (dr_outbound d)\<lparr>ch_queue := ms\<rparr>\<rparr>"
  have b: "before_close d" "\<not> ch_closed (dr_outbound d)" using run_ok_open [OF assms] by simp_all
  then have "final_ok ?d" using before_close_final [OF b(1)] by (simp add: final_ok_def data_sent_def)
  moreover have "run_ok env T (?d\<lparr>dr_wire := dr_wire ?d @ [m]\<rparr>)"
    using b Cons by (simp add: run_ok_def before_close_def data_sent_def data_not_close)
  ultimately have "write_ok (run_ok env T) (send_with_timeout (de_transport env) m (wr_send_timeout (de_config env)) ?d)"
    by (rule send_with_timeout_ok)
  from or_protocol_ok [OF this] Cons show ?thesis by (simp add: outbound_turn_def try_recv_def)
qed

lemma ping_turn_ok:
  assumes "run_ok env T d" "\<not> ds_close_sent (dr_state d)"
  shows "step_ok env T (ping_turn env t d)"
proof -
  let ?p = "be_bytes 8 (ds_next_ping_token (dr_state d))"
  let ?d = "d\<lparr>dr_state := (dr_state d)\<lparr>ds_next_ping_token := fetch_add (ds_next_ping_token (dr_state d)) 1\<rparr>\<rparr>"
  have ok: "run_ok env T ?d" by (rule run_ok_state [OF assms(1)]) simp_all
  have "run_ok env T (?d\<lparr>dr_wire := dr_wire ?d @ [Ping ?p]\<rparr>)"
    using run_ok_open [OF assms] by (simp add: run_ok_def before_close_def data_sent_def)
  then have "write_ok (run_ok env T) (send_with_timeout (de_transport env) (Ping ?p) (wr_send_timeout (de_config env)) ?d)"
    by (rule send_with_timeout_ok [OF run_ok_final [OF ok]])
  then show ?thesis unfolding ping_turn_def Let_def
    by (rule or_protocol_ok) (simp add: run_ok_state)
qed

lemma finish_ok: "final_ok d \<Longrightarrow> step_ok env T (finish d)"
  by (simp add: finish_def)

lemma note_peer_close_other: "\<not> is_close m \<Longrightarrow> note_peer_close m d = d"
  by (cases m) (simp_all add: note_peer_close_def)

lemma note_peer_close_final: "final_ok d \<Longrightarrow> final_ok (note_peer_close m d)"
  by (auto simp: note_peer_close_def final_ok_def data_sent_def close_info_def Let_def
      split: WebSocketMessage.split option.split)

lemma note_peer_close_ends:
  "is_close m \<Longrightarrow> ds_close_received (dr_state (note_peer_close m d)) \<and> ds_close_sent (dr_state (note_peer_close m d))"
  by (cases m) (simp_all add: note_peer_close_def Let_def)

lemma not_received: "run_ok env T d \<Longrightarrow> \<not> ds_close_received (dr_state d)"
  by (auto simp: run_ok_def before_close_def closing_def)

lemma final_inbound [simp]: "final_ok (d\<lparr>dr_inbound := ms\<rparr>) = final_ok d"
  by (simp add: final_ok_def data_sent_def)

definition delivered_to :: "WebSocketMessage \<Rightarrow> InboundDelivery \<Rightarrow> Driver \<Rightarrow> Driver" where
  "delivered_to m delivery d = (if delivery = Delivered then d\<lparr>dr_inbound := dr_inbound d @ [m]\<rparr> else d)"

definition slow_handler :: "CloseFrame option" where
  "slow_handler = Some (1013, ''El handler WebSocket no consume mensajes a tiempo'')"

lemma incoming_delivery_data:
  assumes "run_ok env T d" "t \<le> T" "\<not> is_close m" "flushed = None \<or> is_data m"
  shows "step_ok env T (incoming_delivery env t m flushed delivery d)"
proof -
  let ?d = "delivered_to m delivery d"
  have ok: "run_ok env T ?d" using assms(1) by (simp add: delivered_to_def)
  have nr: "\<not> ds_close_received (dr_state d)" by (rule not_received [OF assms(1)])
  have slow: "step_ok env T (or_protocol env (initiate_close env t slow_handler RuntimeInitiator
      (close_command_channels (call (CallSaturatedSend False) ?d))) (\<lambda>d3. if ds_close_received (dr_state d3) then finish d3 else Running d3))"
    if "\<not> ds_close_sent (dr_state ?d)"
  proof (rule or_protocol_ok)
    have "run_ok env T (call (CallSaturatedSend False) ?d)" using ok by simp
    then have "before_close (close_command_channels (call (CallSaturatedSend False) ?d))"
      using run_ok_open that close_channels_ok(1) by fastforce
    then show "write_ok (closing env T) (initiate_close env t slow_handler RuntimeInitiator
        (close_command_channels (call (CallSaturatedSend False) ?d)))"
      by (rule initiate_close_ok [OF _ close_channels_ok(2) assms(2)]) (simp add: close_info_def)
  qed (simp add: closing_def closing_run [unfolded closing_def])
  have "incoming_delivery env t m flushed delivery d =
      (if delivery = TimedOut \<and> \<not> ds_close_sent (dr_state ?d)
       then or_protocol env (initiate_close env t slow_handler RuntimeInitiator
         (close_command_channels (call (CallSaturatedSend False) ?d))) (\<lambda>d3. if ds_close_received (dr_state d3) then finish d3 else Running d3)
       else Running ?d)"
    using assms(3,4) nr
    by (cases m; cases flushed; cases delivery)
      (simp_all add: incoming_delivery_def or_protocol_simps(1) note_peer_close_other delivered_to_def slow_handler_def)
  then show ?thesis using slow ok by (simp only: step_ok.simps split: if_split) blast
qed

lemma incoming_delivery_ok:
  assumes "run_ok env T d" "t \<le> T"
  shows "step_ok env T (incoming_delivery env t m flushed delivery d)"
proof -
  have fin: "final_ok d" by (rule run_ok_final [OF assms(1)])
  consider (failed) e where "flushed = Some e" "(\<exists>p. m = Ping p) \<or> is_close m" | (pong) p where "m = Pong p"
    | (closed) f where "m = Close f" "flushed = None" | (other) "\<not> is_close m" "flushed = None \<or> is_data m"
    by (cases m; cases flushed) auto
  then show ?thesis
  proof cases
    case failed
    then show ?thesis using fin
      by (cases m) (simp_all add: incoming_delivery_def or_protocol_simps(2))
  next
    case pong
    then have "incoming_delivery env t m flushed delivery d = incoming_delivery env t m None delivery d"
      by (cases flushed) (simp_all add: incoming_delivery_def)
    then show ?thesis using incoming_delivery_data [OF assms, of m None] pong by simp
  next
    case closed
    then have "incoming_delivery env t m flushed delivery d = finish (delivered_to m delivery (note_peer_close m d))"
      using note_peer_close_ends [of m d]
      by (simp add: incoming_delivery_def or_protocol_simps(1) delivered_to_def Let_def)
    then show ?thesis using note_peer_close_final [OF fin, of m] by (simp add: finish_def delivered_to_def)
  next
    case other
    then show ?thesis by (rule incoming_delivery_data [OF assms])
  qed
qed

lemma message_rate_state:
  assumes "message_rate_exceeded config now st = (b, st')"
  shows "ds_close_sent st' = ds_close_sent st \<and> ds_close_info st' = ds_close_info st \<and>
    ds_close_received st' = ds_close_received st \<and> ds_close_deadline st' = ds_close_deadline st"
  using assms by (auto simp: message_rate_exceeded_def Let_def split: option.splits if_splits)

lemma match_pong_state [simp]:
  "ds_close_sent (match_pong m st) = ds_close_sent st" "ds_close_info (match_pong m st) = ds_close_info st"
  "ds_close_received (match_pong m st) = ds_close_received st" "ds_close_deadline (match_pong m st) = ds_close_deadline st"
  by (auto simp: match_pong_def split: WebSocketMessage.split option.split)

definition same_close :: "DriverState \<Rightarrow> DriverState \<Rightarrow> bool" where
  "same_close st st' \<longleftrightarrow> ds_close_sent st' = ds_close_sent st \<and> ds_close_info st' = ds_close_info st \<and>
     ds_close_received st' = ds_close_received st \<and> ds_close_deadline st' = ds_close_deadline st"

lemma incoming_message_cases:
  obtains (exceeded) st where "same_close (dr_state d) st"
      "incoming_message env now later m flushed delivery d =
         close_turn env later (Some (1008, ''Limite de mensajes WebSocket excedido'')) RuntimeInitiator (d\<lparr>dr_state := st\<rparr>)"
  | (accepted) st cs where "same_close (dr_state d) st"
      "incoming_message env now later m flushed delivery d =
         incoming_delivery env later m flushed delivery (d\<lparr>dr_calls := cs, dr_state := st\<rparr>)"
proof (cases "is_data m")
  case True
  let ?st = "(dr_state d)\<lparr>ds_last_inbound_frame := now\<rparr>"
  obtain b st where r: "message_rate_exceeded (de_config env) now ?st = (b, st)" by fastforce
  have st: "same_close (dr_state d) st" using message_rate_state [OF r] by (simp add: same_close_def)
  show ?thesis
  proof (cases b)
    case True
    with \<open>is_data m\<close> r show ?thesis by (intro exceeded [OF st]) (simp add: incoming_message_def)
  next
    case False
    let ?st' = "match_pong m (st\<lparr>ds_last_application_message := now\<rparr>)"
    have "same_close (dr_state d) ?st'" using st by (simp add: same_close_def)
    with False \<open>is_data m\<close> r show ?thesis
      by (intro accepted [of ?st' "dr_calls d @ [CallMessage False (message_len m) (application_message_type m)]"])
        (simp_all add: incoming_message_def call_def)
  qed
next
  case False
  let ?st = "match_pong m ((dr_state d)\<lparr>ds_last_inbound_frame := now\<rparr>)"
  have "same_close (dr_state d) ?st" by (simp add: same_close_def)
  with False show ?thesis by (intro accepted [of ?st "dr_calls d"]) (simp_all add: incoming_message_def)
qed

lemma run_ok_same_close: "run_ok env T d \<Longrightarrow> same_close (dr_state d) st \<Longrightarrow> run_ok env T (d\<lparr>dr_state := st\<rparr>)"
  by (rule run_ok_state) (simp_all add: same_close_def)

lemma run_ok_calls [simp]: "run_ok env T (d\<lparr>dr_calls := cs\<rparr>) = run_ok env T d"
  by (simp add: run_ok_def before_close_def closing_def final_ok_def data_sent_def)

lemma incoming_message_ok:
  assumes "run_ok env T d" "later \<le> T"
  shows "step_ok env T (incoming_message env now later m flushed delivery d)"
proof (cases rule: incoming_message_cases [of d env now later m flushed delivery])
  case (exceeded st)
  then show ?thesis using close_turn_ok [OF run_ok_same_close [OF assms(1)] assms(2)] by (simp add: close_info_def)
next
  case (accepted st cs)
  have "run_ok env T (d\<lparr>dr_calls := cs, dr_state := st\<rparr>)" using run_ok_same_close [of env T "d\<lparr>dr_calls := cs\<rparr>" st] assms(1) accepted(1) by simp
  from incoming_delivery_ok [OF this assms(2)] accepted(2) show ?thesis by simp
qed

lemma incoming_turn_ok:
  assumes "run_ok env T d" "later \<le> T"
  shows "step_ok env T (incoming_turn env now later i d)"
proof (cases i)
  case (IncomingMessage m fl rc sent)
  then show ?thesis using incoming_message_ok [OF assms] by simp
next
  case (IncomingError e)
  have "final_ok (d\<lparr>dr_state := (dr_state d)\<lparr>ds_close_received := True\<rparr>\<rparr>)"
    using run_ok_final [OF assms(1)] by (simp add: final_ok_def data_sent_def)
  then show ?thesis using IncomingError close_turn_ok [OF assms] run_ok_final [OF assms(1)]
    by (simp add: finish_ok or_protocol_simps(2) close_info_def)
next
  case IncomingEnd
  then show ?thesis by (simp add: finish_ok run_ok_final [OF assms(1)])
qed

lemma handler_turn_ok:
  assumes "run_ok env T d" "t \<le> T"
  shows "step_ok env T (handler_turn env t result d)"
proof -
  have "run_ok env T (call CallHandlerFailed (d\<lparr>dr_handler_completed := True\<rparr>))" using assms(1) by simp
  from close_turn_ok [OF this assms(2)] assms(1) show ?thesis by (simp add: handler_turn_def Let_def close_info_def)
qed

lemma branch_ok:
  assumes "run_ok env T d" "later \<le> T" "enabled env now d ev"
  shows "step_ok env T (branch env now later ev d)"
proof (cases ev)
  case PongDeadline
  have "run_ok env T ((call CallHeartbeatTimeout d)\<lparr>dr_state := (dr_state d)\<lparr>ds_pending_ping := None\<rparr>\<rparr>)"
    using assms(1) by (intro run_ok_state) simp_all
  then show ?thesis using PongDeadline close_turn_ok assms(2) by (simp add: close_info_def)
qed (use assms in \<open>simp_all add: shutdown_turn_ok control_turn_ok finish_ok run_ok_final close_turn_ok close_info_def
      outbound_turn_ok incoming_turn_ok ping_turn_ok handler_turn_ok\<close>)

lemma drive_step_ok: "run_ok env T d \<Longrightarrow> later \<le> T \<Longrightarrow> step_ok env T (drive_step env now later ev d)"
  by (simp add: drive_step_def shutdown_turn_ok completion_ok branch_ok)

lemma task_step_ok:
  assumes "run_ok env T d"
  shows "run_ok env T (task_step t d)"
proof (cases t)
  case ReserveOutbound
  then show ?thesis using assms
    by (auto simp: try_reserve_def run_ok_def before_close_def closing_def final_ok_def data_sent_def split: sum.split)
next
  case (UseOutbound m)
  then show ?thesis using assms
    by (auto simp: permit_send_def run_ok_def before_close_def closing_def final_ok_def data_sent_def Let_def)
qed (use assms in \<open>auto split: sum.split\<close>)

section \<open>Schedules\<close>

fun latest :: "Input list \<Rightarrow> nat" where
  "latest [] = 0"
| "latest (Task _ # xs) = latest xs"
| "latest (Turn _ later _ # xs) = max later (latest xs)"

fun driver_of :: "DriverStep \<Rightarrow> Driver" where
  "driver_of (Running d) = d"
| "driver_of (Finished _ _ d) = d"

lemma fold_ok: "step_ok env T x \<Longrightarrow> latest inputs \<le> T \<Longrightarrow> step_ok env T (fold (input_step env) inputs x)"
proof (induction inputs arbitrary: x)
  case (Cons i inputs)
  have "step_ok env T (input_step env i x)" using Cons.prems
    by (cases x; cases i) (simp_all add: task_step_ok drive_step_ok)
  moreover have "latest inputs \<le> T" using Cons.prems(2) by (cases i) simp_all
  ultimately show ?case using Cons.IH by simp
qed simp

lemma start_ok: "run_ok env T (Driver_new now (channel_pair i config))"
  by (simp add: run_ok_def before_close_def Driver_new_def DriverState_new_def channel_pair_def channel_new_def data_sent_def)

lemma drive_ok: "step_ok env (latest inputs) (drive env inputs (Driver_new now (channel_pair i config)))"
  unfolding drive_def by (rule fold_ok) (simp_all add: start_ok)

text \<open>Once it is closing, a turn neither moves the deadline nor reopens the connection.\<close>

fun stays :: "nat option \<Rightarrow> DriverStep \<Rightarrow> bool" where
  "stays dl (Running d) \<longleftrightarrow> ds_close_sent (dr_state d) \<and> ds_close_deadline (dr_state d) = dl"
| "stays dl (Finished _ _ d) \<longleftrightarrow> True"

lemma stays_finish [simp]: "stays dl (finish d)"
  by (simp add: finish_def)

lemma stays_protocol [simp]: "stays dl (or_protocol env (Inl e) k)"
  by (cases e) (simp add: or_protocol_def protocol_outcome_def)

lemma stays_close_turn:
  "ds_close_sent (dr_state d) \<Longrightarrow> stays (ds_close_deadline (dr_state d)) (close_turn env t f ini d)"
  by (simp add: close_turn_def initiate_close_def close_command_channels_def or_protocol_simps(1))

lemma stays_delivery:
  assumes "ds_close_sent (dr_state d)"
  shows "stays (ds_close_deadline (dr_state d)) (incoming_delivery env t m flushed delivery d)"
proof -
  let ?k = "\<lambda>d'. let d1 = note_peer_close m d'; d2 = (if delivery = Delivered then d1\<lparr>dr_inbound := dr_inbound d1 @ [m]\<rparr> else d1)
    in if ds_close_received (dr_state d2) then finish d2 else Running d2"
  have n: "ds_close_sent (dr_state (note_peer_close m d)) \<and>
      ds_close_deadline (dr_state (note_peer_close m d)) = ds_close_deadline (dr_state d)"
    using assms by (cases m) (simp_all add: note_peer_close_def Let_def)
  then have "stays (ds_close_deadline (dr_state d)) (?k d)" by (simp add: Let_def)
  then show ?thesis using n
    by (cases m; cases flushed) (simp_all add: incoming_delivery_def or_protocol_simps(1) Let_def)
qed

lemma stays_incoming:
  assumes "ds_close_sent (dr_state d)"
  shows "stays (ds_close_deadline (dr_state d)) (incoming_message env now later m flushed delivery d)"
proof (cases rule: incoming_message_cases [of d env now later m flushed delivery])
  case (exceeded st)
  then show ?thesis using assms stays_close_turn [of "d\<lparr>dr_state := st\<rparr>"] by (simp add: same_close_def)
next
  case (accepted st cs)
  then show ?thesis using assms stays_delivery [of "d\<lparr>dr_calls := cs, dr_state := st\<rparr>"] by (simp add: same_close_def)
qed

lemma stays_turn:
  assumes "ds_close_sent (dr_state d)"
  shows "stays (ds_close_deadline (dr_state d)) (drive_step env now later ev d)"
proof (cases ev)
  case (IncomingReady i)
  then show ?thesis using assms stays_incoming [OF assms] stays_close_turn [OF assms]
    by (cases i) (simp_all add: drive_step_def)
next
  case ControlReady
  then show ?thesis using assms by (auto simp: drive_step_def control_turn_def split: option.split)
next
  case (HandlerDone r)
  then show ?thesis using assms by (simp add: drive_step_def handler_turn_def Let_def)
qed (use assms in \<open>simp_all add: drive_step_def\<close>)

lemma stays_task: "dr_state (task_step t d) = dr_state d"
  by (cases t) (auto simp: Let_def split: sum.split)

lemma stays_drive:
  assumes "ds_close_sent (dr_state d)"
  shows "stays (ds_close_deadline (dr_state d)) (drive env inputs d)"
proof -
  have "stays dl x \<Longrightarrow> stays dl (fold (input_step env) inputs x)" for dl x
  proof (induction inputs arbitrary: x)
    case (Cons i inputs)
    have "stays dl (input_step env i x)" using Cons.prems stays_turn
      by (cases x; cases i) (auto simp: stays_task)
    then show ?case using Cons.IH by simp
  qed simp
  then show ?thesis unfolding drive_def using assms by simp
qed

section \<open>The rate of messages\<close>

lemma length_filter_mono: "(\<And>x. P x \<Longrightarrow> Q x) \<Longrightarrow> length (filter P xs) \<le> length (filter Q xs)"
  by (induction xs) auto

text \<open>The instants of the messages that the limit lets through, and the state it leaves.\<close>

fun rate_run :: "ResolvedWebSocketConfig \<Rightarrow> nat list \<Rightarrow> DriverState \<Rightarrow> nat list \<times> DriverState" where
  "rate_run config [] st = ([], st)"
| "rate_run config (t # ts) st =
     (case message_rate_exceeded config t st of
        (exceeded, st1) \<Rightarrow> (case rate_run config ts st1 of (acc, st2) \<Rightarrow> (if exceeded then acc else t # acc, st2)))"

lemma rate_step:
  assumes "wr_message_rate_limit config = Some limit" "message_rate_exceeded config t st = (b, st')"
  shows "ds_message_window_started st' =
      (if t - ds_message_window_started st \<ge> rl_interval limit then t else ds_message_window_started st)"
    and "b \<longleftrightarrow> (if t - ds_message_window_started st \<ge> rl_interval limit then 0 else ds_message_count st) \<ge> rl_max_messages limit"
    and "ds_message_count st' = (if t - ds_message_window_started st \<ge> rl_interval limit then 0 else ds_message_count st) + (if b then 0 else 1)"
  using assms by (auto simp: message_rate_exceeded_def Let_def split: if_splits)

definition limited :: "ResolvedWebSocketConfig \<Rightarrow> MessageRateLimit \<Rightarrow> ResolvedWebSocketConfig" where
  "limited config limit = config\<lparr>wr_message_rate_limit := Some limit\<rparr>"

interpretation messages: window_counter "rl_max_messages limit" "rl_interval limit" "\<lambda>t. t" "\<lambda>_ _. True"
  "\<lambda>t st. \<not> fst (message_rate_exceeded (limited config limit) t st)"
  "\<lambda>t st. snd (message_rate_exceeded (limited config limit) t st)"
  "\<lambda>st. Some (ds_message_window_started st, ds_message_count st)" "\<lambda>_. True" for config limit
proof (unfold_locales, goal_cases)
  case (3 st t b c)
  obtain e st' where r: "message_rate_exceeded (limited config limit) t st = (e, st')" by fastforce
  have "wr_message_rate_limit (limited config limit) = Some limit" by (simp add: limited_def)
  from rate_step [OF this r] 3(3) r show ?case by (auto simp: live_def split: if_splits)
qed simp_all

lemma rate_run_admitted:
  "fst (rate_run config ts st) = admitted_times (\<lambda>t. t) (\<lambda>t st. \<not> fst (message_rate_exceeded config t st))
     (\<lambda>t st. snd (message_rate_exceeded config t st)) ts st"
proof (induction ts arbitrary: st)
  case (Cons t ts)
  obtain e st1 where r: "message_rate_exceeded config t st = (e, st1)" by fastforce
  show ?case using Cons.IH [of st1] r by (auto split: prod.split)
qed simp

lemma rate_run_set: "set (fst (rate_run config ts st)) \<subseteq> set ts"
  using admitted_times_set [of "\<lambda>t. t"] by (fastforce simp: rate_run_admitted)

lemma rate_any_window:
  assumes "wr_message_rate_limit config = Some limit" "sorted ts"
  shows "within a (a + rl_interval limit) (fst (rate_run config ts st)) \<le> 2 * rl_max_messages limit"
proof -
  have "limited config limit = config" using assms(1) by (simp add: limited_def)
  then show ?thesis using messages.any_window [of ts a limit config st] assms(2) by (simp add: rate_run_admitted)
qed

lemma rate_run_snoc:
  "rate_run config (ts @ [t]) st =
     (case rate_run config ts st of (acc, st1) \<Rightarrow>
        (case message_rate_exceeded config t st1 of (e, st2) \<Rightarrow> (acc @ (if e then [] else [t]), st2)))"
  by (induction ts arbitrary: st) (auto split: prod.split)

lemma counted_in_window:
  assumes lim: "wr_message_rate_limit config = Some limit" and "sorted ts"
    and "\<And>t. t \<in> set ts \<Longrightarrow> ds_message_window_started st \<le> t" and "ds_message_count st = 0"
    and "rate_run config ts st = (acc, st')"
  shows "ds_message_count st' \<le> length (filter (\<lambda>s. ds_message_window_started st' \<le> s) acc) \<and>
    (ds_message_window_started st' = ds_message_window_started st \<or> ds_message_window_started st' \<in> set ts)"
  using assms(2,3,5)
proof (induction ts arbitrary: acc st' rule: rev_induct)
  case Nil
  then show ?case using assms(4) by simp
next
  case (snoc t ts)
  obtain acc1 st1 where rr: "rate_run config ts st = (acc1, st1)" by fastforce
  obtain e st2 where r: "message_rate_exceeded config t st1 = (e, st2)" by fastforce
  have out: "acc = acc1 @ (if e then [] else [t])" "st' = st2" using snoc.prems(3) rr r by (simp_all add: rate_run_snoc)
  have IH: "ds_message_count st1 \<le> length (filter (\<lambda>s. ds_message_window_started st1 \<le> s) acc1)"
      "ds_message_window_started st1 = ds_message_window_started st \<or> ds_message_window_started st1 \<in> set ts"
    using snoc.IH [OF _ _ rr] snoc.prems by (simp_all add: sorted_append)
  then have "ds_message_window_started st1 \<le> t" using snoc.prems(1,2) by (auto simp: sorted_append)
  then show ?case using IH rate_step [OF lim r] out by auto
qed

section \<open>Properties\<close>

text \<open>
  Claim C30: on every schedule and whatever the transport answers, the driver sends at most one
  \<open>Close\<close> frame and nothing after it, and the application messages it has sent are a prefix of those
  handed over before the queue was closed, in their order. When the connection closes because the
  application asked for it, or normally after its handler, they are all of those messages.
\<close>

theorem driver_frames_ordered:
  "let d = driver_of (drive env inputs (Driver_new now (channel_pair i config))) in
     no_close (butlast (dr_wire d)) \<and> prefix (data_sent d) (dr_early d) \<and>
     (orderly (ds_close_info (dr_state d)) \<longrightarrow> data_sent d = dr_early d)"
proof -
  have "final_ok (driver_of (drive env inputs (Driver_new now (channel_pair i config))))"
    using drive_ok [of env inputs now i config] run_ok_final
    by (cases "drive env inputs (Driver_new now (channel_pair i config))") auto
  then show ?thesis by (simp add: final_ok_def Let_def)
qed

definition plain_env :: driver_env where
  "plain_env = \<lparr>de_transport = \<lparr>tr_send = \<lambda>_ _ _. Sent, tr_display = \<lambda>_. []\<rparr>,
     de_config = from_layers WebSocketConfig_default WebSocketConfig_default, de_imax = 2 ^ 63 * 10 ^ 9\<rparr>"

definition farewell :: "Input list" where
  "farewell = [Task ReserveOutbound, Task (UseOutbound (Text ''bye'')), Task ReserveControl, Task (UseControl (CClose None)),
     Turn 3 5 ControlReady]"

definition farewell_driver :: DriverStep where
  "farewell_driver = drive plain_env farewell (Driver_new 0 (channel_pair 1 (de_config plain_env)))"

fun running_with :: "(Driver \<Rightarrow> bool) \<Rightarrow> DriverStep \<Rightarrow> bool" where
  "running_with P (Running d) = P d"
| "running_with P (Finished _ _ _) = False"

lemma running_withE:
  assumes "running_with P x"
  obtains d where "x = Running d" "P d"
  using assms by (cases x) simp_all

lemma farewell_run:
  "running_with (\<lambda>d. dr_wire d = [Text ''bye'', Close None] \<and> dr_early d = [Text ''bye''] \<and>
     orderly (ds_close_info (dr_state d)) \<and> ds_close_sent (dr_state d)) farewell_driver"
  by code_simp

theorem driver_frames_ordered_witness:
  "orderly (ds_close_info (dr_state (driver_of farewell_driver))) \<and>
   data_sent (driver_of farewell_driver) = dr_early (driver_of farewell_driver) \<and> dr_early (driver_of farewell_driver) = [Text ''bye'']"
proof -
  have "orderly (ds_close_info (dr_state (driver_of farewell_driver))) \<and> dr_early (driver_of farewell_driver) = [Text ''bye'']"
    by (rule running_withE [OF farewell_run]) (metis driver_of.simps(1))
  then show ?thesis
    using driver_frames_ordered [of plain_env farewell 0 1 "de_config plain_env"]
    by (simp add: farewell_driver_def Let_def)
qed

text \<open>
  Claim C31: closing ends. Once the driver has sent its \<open>Close\<close> frame it has a deadline, at most the
  close timeout after the last reading of the clock; no later turn or step of another task moves the
  deadline, and a turn that finds it passed ends the connection, as not clean.
\<close>

theorem closing_ends:
  assumes "drive env inputs (Driver_new now (channel_pair i config)) = Running d" and "ds_close_sent (dr_state d)"
    and "latest inputs + wr_close_timeout (de_config env) \<le> de_imax env"
  shows "\<exists>dl \<le> latest inputs + wr_close_timeout (de_config env).
    (\<forall>more. case drive env more d of Finished _ _ _ \<Rightarrow> True
       | Running d' \<Rightarrow> ds_close_deadline (dr_state d') = Some dl \<and>
           (\<forall>t later. dl \<le> t \<longrightarrow> drive_step env t later CloseDeadline d' =
              Finished (state_outcome (dr_state d') (dr_handler_completed d')) None d')) \<and>
    \<not> ci_clean (do_close_info (state_outcome (dr_state d) (dr_handler_completed d)))"
proof -
  have c: "closing env (latest inputs) d"
    using drive_ok [of env inputs now i config] assms(1,2) by (simp add: run_ok_shut)
  then obtain t where t: "t \<le> latest inputs"
      "ds_close_deadline (dr_state d) = instant_checked_add (de_imax env) t (wr_close_timeout (de_config env))"
    by (auto simp: closing_def deadline_set_def)
  then have dl: "ds_close_deadline (dr_state d) = Some (t + wr_close_timeout (de_config env))"
    using assms(3) by (simp add: instant_checked_add_def)
  have "case drive env more d of Finished _ _ _ \<Rightarrow> True
       | Running d' \<Rightarrow> ds_close_deadline (dr_state d') = Some (t + wr_close_timeout (de_config env)) \<and>
           (\<forall>u later. t + wr_close_timeout (de_config env) \<le> u \<longrightarrow> drive_step env u later CloseDeadline d' =
              Finished (state_outcome (dr_state d') (dr_handler_completed d')) None d')" for more
    using stays_drive [OF assms(2), of env more] dl
    by (cases "drive env more d") (simp_all add: drive_step_def passed_def finish_def)
  moreover have "\<not> ci_clean (do_close_info (state_outcome (dr_state d) (dr_handler_completed d)))"
    using c by (simp add: closing_def state_outcome_def Let_def)
  ultimately show ?thesis using t(1) by (intro exI [of _ "t + wr_close_timeout (de_config env)"]) simp
qed

theorem closing_ends_witness:
  "\<exists>dl \<le> 5 + wr_close_timeout (de_config plain_env). \<exists>d. farewell_driver = Running d \<and>
     ds_close_deadline (dr_state d) = Some dl"
proof -
  obtain d where d: "farewell_driver = Running d" "ds_close_sent (dr_state d)"
    by (rule running_withE [OF farewell_run]) blast
  have "latest farewell + wr_close_timeout (de_config plain_env) \<le> de_imax plain_env" by code_simp
  from closing_ends [OF d(1) [unfolded farewell_driver_def] d(2) this] obtain dl where
    "dl \<le> latest farewell + wr_close_timeout (de_config plain_env)"
    "case drive plain_env [] d of Finished _ _ _ \<Rightarrow> True | Running d' \<Rightarrow> ds_close_deadline (dr_state d') = Some dl" 
    by (fastforce split: DriverStep.splits)
  moreover have "latest farewell = 5" by code_simp
  ultimately have "dl \<le> 5 + wr_close_timeout (de_config plain_env)" "ds_close_deadline (dr_state d) = Some dl"
    by (simp_all add: drive_def)
  with d(1) show ?thesis by blast
qed

lemma message_rate_bounds:
  assumes "wr_message_rate_limit config = Some limit" and "sorted (ts @ [t])" and "\<And>u. u \<in> set ts \<Longrightarrow> start \<le> u"
    and "rate_run config ts (DriverState_new start) = (acc, st)"
  shows "within a (a + rl_interval limit) acc \<le> 2 * rl_max_messages limit"
    and "fst (message_rate_exceeded config t st) \<Longrightarrow> rl_max_messages limit \<le> within (t + 1 - rl_interval limit) (t + 1) acc"
proof -
  show "within a (a + rl_interval limit) acc \<le> 2 * rl_max_messages limit"
    using rate_any_window [OF assms(1), of ts a "DriverState_new start"] assms(2,4) by (simp add: sorted_append)
next
  assume rejected: "fst (message_rate_exceeded config t st)"
  obtain e st1 where r: "message_rate_exceeded config t st = (e, st1)" by fastforce
  have n: "ds_message_count st \<le> length (filter (\<lambda>s. ds_message_window_started st \<le> s) acc)"
    using counted_in_window [OF assms(1) _ _ _ assms(4)] assms(2,3) by (simp add: DriverState_new_def sorted_append)
  have "set acc \<subseteq> set ts" using rate_run_set [of config ts "DriverState_new start"] assms(4) by simp
  then have le: "\<And>s. s \<in> set acc \<Longrightarrow> s \<le> t" using assms(2) by (auto simp: sorted_append)
  show "rl_max_messages limit \<le> within (t + 1 - rl_interval limit) (t + 1) acc"
  proof (cases "rl_interval limit \<le> t - ds_message_window_started st")
    case True
    then show ?thesis using rejected r rate_step(2) [OF assms(1) r] by simp
  next
    case False
    then have "rl_max_messages limit \<le> length (filter (\<lambda>s. ds_message_window_started st \<le> s) acc)"
      using rejected r rate_step(2) [OF assms(1) r] n by simp
    also have "\<dots> = length (filter (\<lambda>s. ds_message_window_started st \<le> s \<and> s \<le> t) acc)"
      using le by (intro arg_cong [where f = length] filter_cong) auto
    also have "\<dots> \<le> within (t + 1 - rl_interval limit) (t + 1) acc"
      unfolding within_def using False by (intro length_filter_mono) auto
    finally show ?thesis .
  qed
qed

text \<open>
  Claim C32: the limit on incoming messages. In any span of one interval the driver lets through at
  most twice the limit, and it refuses a message only when it has let through at least the limit
  within the interval that ends with that message.
\<close>

theorem message_rate_bounded:
  assumes "wr_message_rate_limit config = Some limit" and "sorted (ts @ [t])" and "\<And>u. u \<in> set ts \<Longrightarrow> start \<le> u"
    and "rate_run config ts (DriverState_new start) = (acc, st)"
  shows "within a (a + rl_interval limit) acc \<le> 2 * rl_max_messages limit \<and>
    (fst (message_rate_exceeded config t st) \<longrightarrow> rl_max_messages limit \<le> within (t + 1 - rl_interval limit) (t + 1) acc)"
  using message_rate_bounds [OF assms] by blast

definition slow_config :: ResolvedWebSocketConfig where
  "slow_config = (de_config plain_env)\<lparr>wr_message_rate_limit := Some \<lparr>rl_max_messages = 2, rl_interval = 10\<rparr>\<rparr>"

theorem message_rate_bounded_witness:
  "within 8 18 (fst (rate_run slow_config [8, 9, 9, 10, 11, 12] (DriverState_new 0))) \<le> 4 \<and>
   2 \<le> within 4 14 (fst (rate_run slow_config [8, 9, 9, 10, 11, 12] (DriverState_new 0)))"
proof -
  let ?r = "rate_run slow_config [8, 9, 9, 10, 11, 12] (DriverState_new 0)"
  have lim: "wr_message_rate_limit slow_config = Some \<lparr>rl_max_messages = 2, rl_interval = 10\<rparr>" by (simp add: slow_config_def)
  have "sorted ([8, 9, 9, 10, 11, 12] @ [13 :: nat])" by simp
  note m = message_rate_bounded [OF lim this, of 0 "fst ?r" "snd ?r"]
  have "fst (message_rate_exceeded slow_config 13 (snd ?r))" by code_simp
  then show ?thesis using m [of 8] by simp
qed

end
