(* ===== verification/Sse.thy ===== *)
theory Sse
  imports Http_Types
begin

text \<open>
  Server-sent events (\<open>src/app/sse.rs\<close>): the text of an event, and the client's reading of it. The
  client is the algorithm of the HTML standard for event streams and is not code of this repository;
  it serves to say what a formatted event means.
\<close>

abbreviation LF :: char where "LF \<equiv> CHR 0x0A"
abbreviation CR :: char where "CR \<equiv> CHR 0x0D"

section \<open>Events\<close>

record SseEvent =
  se_data :: string
  se_event :: "string option"
  se_id :: "string option"
  se_retry :: "nat option"
  se_comment :: "string option"

definition SseEvent_new :: "string \<Rightarrow> SseEvent" where
  "SseEvent_new d = \<lparr>se_data = d, se_event = None, se_id = None, se_retry = None, se_comment = None\<rparr>"

definition SseEvent_comment :: "string \<Rightarrow> SseEvent" where
  "SseEvent_comment text = \<lparr>se_data = [], se_event = None, se_id = None, se_retry = None, se_comment = Some text\<rparr>"

definition sse_event :: "string \<Rightarrow> SseEvent \<Rightarrow> SseEvent" where
  "sse_event name e = e\<lparr>se_event := Some name\<rparr>"

definition sse_id :: "string \<Rightarrow> SseEvent \<Rightarrow> SseEvent" where
  "sse_id i e = e\<lparr>se_id := Some i\<rparr>"

definition sse_retry :: "nat \<Rightarrow> SseEvent \<Rightarrow> SseEvent" where
  "sse_retry n e = e\<lparr>se_retry := Some n\<rparr>"

type_synonym SseError = string

definition invalid_field :: "string \<Rightarrow> SseError" where
  "invalid_field field = ''El campo SSE '' @ field @ '' no puede contener saltos de linea''"

definition validate_single_line :: "string \<Rightarrow> string \<Rightarrow> SseError + unit" where
  "validate_single_line field v = (if CR \<in> set v \<or> LF \<in> set v then Inl (invalid_field field) else Inr ())"

text \<open>After a carriage return, a line feed belongs to the same line end.\<close>

fun skip_lf :: "string \<Rightarrow> string" where
  "skip_lf (c # cs) = (if c = LF then cs else c # cs)"
| "skip_lf [] = []"

lemma skip_lf_length [simp]: "length (skip_lf cs) \<le> length cs"
  by (cases cs) simp_all

text \<open>The text from \<open>start\<close> to the cursor is the first argument.\<close>

function append_data_lines :: "string \<Rightarrow> string \<Rightarrow> string" where
  "append_data_lines cur [] = ''data: '' @ cur @ [LF]"
| "append_data_lines cur (c # cs) =
     (if c = CR \<or> c = LF
      then ''data: '' @ cur @ [LF] @ append_data_lines [] (if c = CR then skip_lf cs else cs)
      else append_data_lines (cur @ [c]) cs)"
  by pat_completeness auto
termination
  by (relation "measure (\<lambda>(cur, cs). length cs)") (auto simp: le_imp_less_Suc)

definition field_line :: "string \<Rightarrow> string option \<Rightarrow> SseError + string" where
  "field_line field v =
     (case v of
        None \<Rightarrow> Inr []
      | Some x \<Rightarrow> (case validate_single_line field x of Inl e \<Rightarrow> Inl e | Inr _ \<Rightarrow> Inr (field @ '': '' @ x @ [LF])))"

definition try_format :: "SseEvent \<Rightarrow> SseError + string" where
  "try_format e =
     (case se_comment e of
        Some text \<Rightarrow> (case validate_single_line ''comment'' text of Inl err \<Rightarrow> Inl err | Inr _ \<Rightarrow> Inr ('': '' @ text @ [LF, LF]))
      | None \<Rightarrow>
          (case field_line ''id'' (se_id e) of
             Inl err \<Rightarrow> Inl err
           | Inr id_line \<Rightarrow>
               (case field_line ''event'' (se_event e) of
                  Inl err \<Rightarrow> Inl err
                | Inr event_line \<Rightarrow>
                    let retry_line = (case se_retry e of None \<Rightarrow> [] | Some n \<Rightarrow> ''retry: '' @ show_nat n @ [LF])
                    in Inr (id_line @ event_line @ retry_line @ append_data_lines [] (se_data e) @ [LF]))))"

section \<open>The client\<close>

function stream_lines :: "string \<Rightarrow> string \<Rightarrow> string list" where
  "stream_lines cur [] = []"
| "stream_lines cur (c # cs) =
     (if c = CR \<or> c = LF then cur # stream_lines [] (if c = CR then skip_lf cs else cs)
      else stream_lines (cur @ [c]) cs)"
  by pat_completeness auto
termination
  by (relation "measure (\<lambda>(cur, cs). length cs)") (auto simp: le_imp_less_Suc)

record SseClient =
  cl_data :: string
  cl_type :: string
  cl_last_id :: string
  cl_retry :: "nat option"
  cl_events :: "(string \<times> string \<times> string) list"

definition SseClient_new :: SseClient where
  "SseClient_new = \<lparr>cl_data = [], cl_type = [], cl_last_id = [], cl_retry = None, cl_events = []\<rparr>"

definition drop_space :: "string \<Rightarrow> string" where
  "drop_space v = (case v of c # cs \<Rightarrow> if c = CHR '' '' then cs else v | [] \<Rightarrow> [])"

definition client_field :: "string \<Rightarrow> string \<Rightarrow> SseClient \<Rightarrow> SseClient" where
  "client_field field v cl =
     (if field = ''event'' then cl\<lparr>cl_type := v\<rparr>
      else if field = ''data'' then cl\<lparr>cl_data := cl_data cl @ v @ [LF]\<rparr>
      else if field = ''id'' then (if CHR 0x00 \<in> set v then cl else cl\<lparr>cl_last_id := v\<rparr>)
      else if field = ''retry'' then (if v \<noteq> [] \<and> list_all is_ascii_digit v then cl\<lparr>cl_retry := Some (dec_val v)\<rparr> else cl)
      else cl)"

definition client_dispatch :: "SseClient \<Rightarrow> SseClient" where
  "client_dispatch cl =
     (if cl_data cl = [] then cl\<lparr>cl_type := []\<rparr>
      else cl\<lparr>cl_data := [], cl_type := [],
        cl_events := cl_events cl @ [(if cl_type cl = [] then ''message'' else cl_type cl, butlast (cl_data cl), cl_last_id cl)]\<rparr>)"

definition client_line :: "string \<Rightarrow> SseClient \<Rightarrow> SseClient" where
  "client_line line cl =
     (if line = [] then client_dispatch cl
      else if hd line = CHR '':'' then cl
      else (case split_once (CHR '':'') line of
              Some (field, v) \<Rightarrow> client_field field (drop_space v) cl
            | None \<Rightarrow> client_field line [] cl))"

definition client_read :: "string \<Rightarrow> SseClient \<Rightarrow> SseClient" where
  "client_read text cl = fold client_line (stream_lines [] text) cl"

section \<open>Lines\<close>

function data_lines :: "string \<Rightarrow> string \<Rightarrow> string list" where
  "data_lines cur [] = [cur]"
| "data_lines cur (c # cs) =
     (if c = CR \<or> c = LF then cur # data_lines [] (if c = CR then skip_lf cs else cs) else data_lines (cur @ [c]) cs)"
  by pat_completeness auto
termination
  by (relation "measure (\<lambda>(cur, cs). length cs)") (auto simp: le_imp_less_Suc)

definition one_line :: "string \<Rightarrow> bool" where
  "one_line l \<longleftrightarrow> CR \<notin> set l \<and> LF \<notin> set l"

definition unlines :: "string list \<Rightarrow> string" where
  "unlines ls = concat (map (\<lambda>l. l @ [LF]) ls)"

definition data_line :: "string \<Rightarrow> string" where
  "data_line l = ''data: '' @ l"

lemma append_data_lines_eq: "append_data_lines cur cs = unlines (map data_line (data_lines cur cs))"
  by (induction cur cs rule: data_lines.induct) (simp_all add: unlines_def data_line_def)

lemma data_lines_one_line: "one_line cur \<Longrightarrow> list_all one_line (data_lines cur cs)"
  by (induction cur cs rule: data_lines.induct) (auto simp: one_line_def)

lemma data_lines_not_Nil [simp]: "data_lines cur cs \<noteq> []"
  by (induction cur cs rule: data_lines.induct) auto

lemma stream_lines_line: "one_line l \<Longrightarrow> stream_lines cur (l @ LF # rest) = (cur @ l) # stream_lines [] rest"
  by (induction l arbitrary: cur) (auto simp: one_line_def)

lemma stream_lines_unlines:
  "list_all one_line ls \<Longrightarrow> stream_lines [] (unlines ls @ rest) = ls @ stream_lines [] rest"
  by (induction ls) (simp_all add: unlines_def stream_lines_line)

section \<open>Round trip\<close>

definition clean :: "SseClient \<Rightarrow> bool" where
  "clean cl \<longleftrightarrow> cl_data cl = [] \<and> cl_type cl = []"

text \<open>What a client should know after an event.\<close>

definition next_id :: "SseEvent \<Rightarrow> string \<Rightarrow> string" where
  "next_id e i = (case se_id e of Some x \<Rightarrow> if CHR 0x00 \<in> set x then i else x | None \<Rightarrow> i)"

definition event_type :: "SseEvent \<Rightarrow> string" where
  "event_type e = (case se_event e of Some x \<Rightarrow> if x = [] then ''message'' else x | None \<Rightarrow> ''message'')"

definition receive :: "SseEvent \<Rightarrow> SseClient \<Rightarrow> SseClient" where
  "receive e cl =
     (if se_comment e \<noteq> None then cl
      else cl\<lparr>cl_last_id := next_id e (cl_last_id cl),
        cl_retry := (case se_retry e of Some n \<Rightarrow> Some n | None \<Rightarrow> cl_retry cl),
        cl_events := cl_events cl @ [(event_type e, join [LF] (data_lines [] (se_data e)), next_id e (cl_last_id cl))]\<rparr>)"

definition event_lines :: "SseEvent \<Rightarrow> string list" where
  "event_lines e =
     (case se_comment e of
        Some text \<Rightarrow> ['': '' @ text, []]
      | None \<Rightarrow>
          (case se_id e of Some x \<Rightarrow> [''id: '' @ x] | None \<Rightarrow> []) @ (case se_event e of Some x \<Rightarrow> [''event: '' @ x] | None \<Rightarrow> [])
          @ (case se_retry e of Some n \<Rightarrow> [''retry: '' @ show_nat n] | None \<Rightarrow> [])
          @ map data_line (data_lines [] (se_data e)) @ [[]])"

lemma digits_one_line: "list_all is_ascii_digit v \<Longrightarrow> one_line v"
  by (auto simp: one_line_def list_all_iff is_ascii_digit_def)

lemma field_line_Inr: "field_line f v = Inr out \<Longrightarrow>
    out = unlines (case v of Some x \<Rightarrow> [f @ '': '' @ x] | None \<Rightarrow> []) \<and> (\<forall>x. v = Some x \<longrightarrow> one_line x)"
  by (auto simp: field_line_def validate_single_line_def unlines_def one_line_def split: option.splits if_splits)

lemma try_format_lines:
  assumes "try_format e = Inr out"
  shows "out = unlines (event_lines e)" "list_all one_line (event_lines e)"
proof -
  have d: "list_all one_line (map data_line (data_lines [] (se_data e)))"
    using data_lines_one_line [of "[]" "se_data e"] by (auto simp: list_all_iff one_line_def data_line_def)
  have r: "one_line (''retry: '' @ show_nat n)" for n
    using digits_one_line [OF show_nat_digits [of n]] by (simp add: one_line_def)
  have "out = unlines (event_lines e) \<and> list_all one_line (event_lines e)"
  proof (cases "se_comment e")
    case None
    then obtain a b where ab: "field_line ''id'' (se_id e) = Inr a" "field_line ''event'' (se_event e) = Inr b"
      using assms by (auto simp: try_format_def split: sum.splits)
    note f = field_line_Inr [OF ab(1)] field_line_Inr [OF ab(2)]
    have "out = unlines (event_lines e)"
      using assms None ab f by (cases "se_retry e"; cases "se_id e"; cases "se_event e")
        (auto simp: try_format_def event_lines_def append_data_lines_eq unlines_def)
    moreover have "list_all one_line (event_lines e)"
      using None f d r by (auto simp: event_lines_def one_line_def split: option.splits)
    ultimately show ?thesis ..
  qed (use assms in \<open>auto simp: try_format_def event_lines_def validate_single_line_def unlines_def one_line_def split: if_splits\<close>)
  then show "out = unlines (event_lines e)" "list_all one_line (event_lines e)" by blast+
qed

lemma client_line_field:
  assumes "CHR '':'' \<notin> set f" "f \<noteq> []"
  shows "client_line (f @ '': '' @ v) cl = client_field f v cl"
proof -
  have "split_once (CHR '':'') (f @ CHR '':'' # w) = Some (f, w)" for w using assms(1) by (induction f) auto
  moreover have "hd (f @ w) \<noteq> CHR '':''" for w using assms by (cases f) auto
  ultimately show ?thesis using assms(2) by (simp add: client_line_def drop_space_def)
qed

lemma client_data:
  "fold client_line (map data_line ls) cl = cl\<lparr>cl_data := cl_data cl @ unlines ls\<rparr>"
proof (induction ls arbitrary: cl)
  case (Cons l ls)
  have "client_line (data_line l) cl = cl\<lparr>cl_data := cl_data cl @ l @ [LF]\<rparr>"
    using client_line_field [of "''data''" l cl] by (simp add: client_field_def data_line_def)
  then show ?case using Cons by (simp add: unlines_def)
qed (simp add: unlines_def)

lemma butlast_unlines: "ls \<noteq> [] \<Longrightarrow> butlast (unlines ls) = join [LF] ls"
  by (induction "[LF]" ls rule: join.induct) (auto simp: unlines_def butlast_append)

lemma unlines_not_Nil: "ls \<noteq> [] \<Longrightarrow> unlines ls \<noteq> []"
  by (cases ls) (auto simp: unlines_def)

definition apply_fields :: "SseEvent \<Rightarrow> SseClient \<Rightarrow> SseClient" where
  "apply_fields e cl = cl\<lparr>cl_last_id := next_id e (cl_last_id cl), cl_type := (case se_event e of Some x \<Rightarrow> x | None \<Rightarrow> cl_type cl),
     cl_retry := (case se_retry e of Some n \<Rightarrow> Some n | None \<Rightarrow> cl_retry cl)\<rparr>"

lemma client_fields:
  "fold client_line ((case se_id e of Some x \<Rightarrow> [''id: '' @ x] | None \<Rightarrow> []) @ (case se_event e of Some x \<Rightarrow> [''event: '' @ x] | None \<Rightarrow> [])
     @ (case se_retry e of Some n \<Rightarrow> [''retry: '' @ show_nat n] | None \<Rightarrow> [])) cl = apply_fields e cl"
proof -
  note f = client_line_field [of "''id''", simplified] client_line_field [of "''event''", simplified]
    client_line_field [of "''retry''", simplified]
  show ?thesis
    by (cases "se_id e"; cases "se_event e"; cases "se_retry e")
      (simp_all add: f client_field_def apply_fields_def next_id_def show_nat_digits dec_val_show_nat)
qed

lemma client_event:
  assumes "clean cl"
  shows "fold client_line (event_lines e) cl = receive e cl"
proof (cases "se_comment e")
  case None
  let ?d = "data_lines [] (se_data e)"
  have "fold client_line (event_lines e) cl = client_line [] (fold client_line (map data_line ?d) (apply_fields e cl))"
    using None client_fields [of e cl] by (simp add: event_lines_def)
  also have "\<dots> = client_dispatch ((apply_fields e cl)\<lparr>cl_data := unlines ?d\<rparr>)"
    using assms client_data [of ?d "apply_fields e cl"] by (simp add: client_line_def clean_def apply_fields_def)
  also have "\<dots> = receive e cl"
    using assms None by (simp add: client_dispatch_def apply_fields_def receive_def clean_def event_type_def unlines_not_Nil butlast_unlines
        split: option.split)
  finally show ?thesis .
next
  case (Some c)
  then show ?thesis using assms by (simp add: event_lines_def client_line_def client_dispatch_def receive_def clean_def)
qed

lemma receive_clean: "clean cl \<Longrightarrow> clean (receive e cl)"
  by (simp add: clean_def receive_def)

text \<open>
  Claim C34: events cannot be forged or lost. A client that follows the HTML standard and reads the
  concatenated texts of any events the server accepts to format gets exactly those events in order,
  each with its type, its id and its data with every line end turned into a line feed; comments are
  invisible, and no text in an event can begin another field or event.
\<close>

theorem sse_stream_roundtrip:
  assumes "collect_results (map try_format es) = Inr texts"
  shows "client_read (concat texts) SseClient_new = fold receive es SseClient_new"
proof -
  have "clean cl \<Longrightarrow> client_read (concat texts) cl = fold receive es cl" for cl
    using assms
  proof (induction es arbitrary: texts cl)
    case Nil
    then show ?case by (simp add: client_read_def)
  next
    case (Cons e es)
    obtain t ts where t: "try_format e = Inr t" "collect_results (map try_format es) = Inr ts" "texts = t # ts"
      using Cons.prems(2) by (cases "try_format e"; cases "collect_results (map try_format es)") auto
    have "client_read (concat texts) cl = client_read (concat ts) (fold client_line (event_lines e) cl)"
      using t try_format_lines [OF t(1)] by (simp add: client_read_def stream_lines_unlines)
    then show ?case using Cons t by (simp add: client_event receive_clean)
  qed
  then show ?thesis by (simp add: clean_def SseClient_new_def)
qed

definition hostile :: SseEvent where
  "hostile = sse_id ''7'' (sse_event ''tick'' (SseEvent_new (''safe'' @ [CR] @ ''id: injected'' @ [CR, LF, LF] @ ''x'')))"

theorem sse_stream_roundtrip_witness:
  "\<exists>texts. collect_results (map try_format [SseEvent_comment ''keep'', hostile]) = Inr texts \<and>
     cl_events (client_read (concat texts) SseClient_new) = [(''tick'', ''safe'' @ [LF] @ ''id: injected'' @ [LF, LF] @ ''x'', ''7'')]"
proof -
  let ?r = "collect_results (map try_format [SseEvent_comment ''keep'', hostile])"
  have "\<not> isl ?r" by code_simp
  then obtain texts where t: "?r = Inr texts" by (cases ?r) auto
  have "cl_events (fold receive [SseEvent_comment ''keep'', hostile] SseClient_new)
      = [(''tick'', ''safe'' @ [LF] @ ''id: injected'' @ [LF, LF] @ ''x'', ''7'')]" by code_simp
  with sse_stream_roundtrip [OF t] t show ?thesis by (metis (no_types))
qed

end
