(* ===== verification/Middleware.thy ===== *)
theory Middleware
  imports Http_Request Http_Response Window_Counter
begin

text \<open>
  The built-in middleware (\<open>src/app/middleware/mod.rs\<close>): the limit on requests per client address,
  cross-origin grants and request ids. The rest of the chain is a function from the request to its
  response; clock readings and the process-wide counter of ids are arguments.
\<close>

section \<open>Rate limit\<close>

definition DEFAULT_RATE_LIMIT_CLIENTS :: nat where
  "DEFAULT_RATE_LIMIT_CLIENTS = 10000"

definition MAX_RATE_LIMIT_CLEANUP_INTERVAL :: nat where
  "MAX_RATE_LIMIT_CLEANUP_INTERVAL = 60 * 10 ^ 9"

definition u32_max :: nat where
  "u32_max = 2 ^ 32 - 1"

record RateBucket =
  rb_start :: nat
  rb_count :: nat

record RateState =
  tb_buckets :: "(nat option \<times> RateBucket) list"
  tb_overflow :: "RateBucket option"
  tb_next_cleanup :: nat

record RateLimit =
  rt_max_requests :: nat
  rt_window :: nat
  rt_max_clients :: nat

definition RateLimit_new :: "nat \<Rightarrow> nat \<Rightarrow> RateLimit outcome" where
  "RateLimit_new max_requests window =
     (if window = 0 then Panic
      else Val \<lparr>rt_max_requests = max_requests, rt_window = window, rt_max_clients = DEFAULT_RATE_LIMIT_CLIENTS\<rparr>)"

definition rate_max_clients :: "nat \<Rightarrow> RateLimit \<Rightarrow> RateLimit outcome" where
  "rate_max_clients n rl = (if n = 0 then Panic else Val (rl\<lparr>rt_max_clients := n\<rparr>))"

definition check_rate_bucket :: "nat \<Rightarrow> nat \<Rightarrow> nat \<Rightarrow> RateBucket \<Rightarrow> nat option \<times> RateBucket" where
  "check_rate_bucket now window max_requests b =
     (let b1 = (if now - rb_start b \<ge> window then \<lparr>rb_start = now, rb_count = 0\<rparr> else b);
          b2 = b1\<lparr>rb_count := min (rb_count b1 + 1) u32_max\<rparr>
      in (if rb_count b2 > max_requests then Some (window - (now - rb_start b2)) else None, b2))"

definition remove_expired_rate_buckets :: "nat \<Rightarrow> nat \<Rightarrow> RateState \<Rightarrow> RateState" where
  "remove_expired_rate_buckets now window st =
     st\<lparr>tb_buckets := filter (\<lambda>(_, b). now - rb_start b < window) (tb_buckets st),
        tb_overflow := (case tb_overflow st of Some b \<Rightarrow> if now - rb_start b \<ge> window then None else Some b | None \<Rightarrow> None)\<rparr>"

definition cleaned :: "nat \<Rightarrow> nat \<Rightarrow> nat \<Rightarrow> nat \<Rightarrow> RateState \<Rightarrow> RateState" where
  "cleaned imax now cleanup_interval window st =
     (if now \<ge> tb_next_cleanup st
      then (remove_expired_rate_buckets now window st)
             \<lparr>tb_next_cleanup := (case instant_checked_add imax now cleanup_interval of Some t \<Rightarrow> t | None \<Rightarrow> now)\<rparr>
      else st)"

definition check_rate_limit_state ::
  "nat \<Rightarrow> nat option \<Rightarrow> nat \<Rightarrow> nat \<Rightarrow> nat \<Rightarrow> nat \<Rightarrow> nat \<Rightarrow> RateState \<Rightarrow> nat option \<times> RateState" where
  "check_rate_limit_state imax key now cleanup_interval window max_clients max_requests st0 =
     (let st = cleaned imax now cleanup_interval window st0;
          fresh = \<lparr>rb_start = now, rb_count = 0\<rparr>
      in case map_of (tb_buckets st) key of
           Some b \<Rightarrow> (case check_rate_bucket now window max_requests b of
                       (r, b') \<Rightarrow> (r, st\<lparr>tb_buckets := AList.update key b' (tb_buckets st)\<rparr>))
         | None \<Rightarrow>
             if length (tb_buckets st) < max_clients
             then (case check_rate_bucket now window max_requests fresh of
                     (r, b') \<Rightarrow> (r, st\<lparr>tb_buckets := AList.update key b' (tb_buckets st)\<rparr>))
             else (case check_rate_bucket now window max_requests (case tb_overflow st of Some b \<Rightarrow> b | None \<Rightarrow> fresh) of
                     (r, b') \<Rightarrow> (r, st\<lparr>tb_overflow := Some b'\<rparr>)))"

definition retry_after_seconds :: "nat \<Rightarrow> nat" where
  "retry_after_seconds remaining =
     max (min (remaining div 10 ^ 9 + (if remaining mod 10 ^ 9 \<noteq> 0 then 1 else 0)) u64_max) 1"

definition RateState_new :: "nat \<Rightarrow> nat \<Rightarrow> RateLimit \<Rightarrow> RateState" where
  "RateState_new imax now rl =
     \<lparr>tb_buckets = [], tb_overflow = None,
      tb_next_cleanup = (case instant_checked_add imax now (min (rt_window rl) MAX_RATE_LIMIT_CLEANUP_INTERVAL) of
                           Some t \<Rightarrow> t | None \<Rightarrow> now)\<rparr>"

definition rate_check :: "nat \<Rightarrow> RateLimit \<Rightarrow> nat option \<Rightarrow> nat \<Rightarrow> RateState \<Rightarrow> nat option \<times> RateState" where
  "rate_check imax rl key now st =
     check_rate_limit_state imax key now (min (rt_window rl) MAX_RATE_LIMIT_CLEANUP_INTERVAL) (rt_window rl)
       (rt_max_clients rl) (rt_max_requests rl) st"

definition rate_limit ::
  "http_crate \<Rightarrow> nat \<Rightarrow> RateLimit \<Rightarrow> (Request \<Rightarrow> Response) \<Rightarrow> nat \<Rightarrow> Request \<Rightarrow> RateState \<Rightarrow> Response \<times> RateState" where
  "rate_limit http imax rl next_fn now rq st =
     (case rate_check imax rl (map_option fst (remote_addr rq)) now st of
        (Some remaining, st') \<Rightarrow>
          (from_error http (err_header ''retry-after'' (show_nat (retry_after_seconds remaining))
             (too_many_requests ''Too Many Requests'')), st')
      | (None, st') \<Rightarrow> (next_fn rq, st'))"

section \<open>Cross-origin grants\<close>

definition cors_simple :: "http_crate \<Rightarrow> (Request \<Rightarrow> Response) \<Rightarrow> Request \<Rightarrow> Response" where
  "cors_simple http next_fn rq =
     rs_header http ''access-control-allow-headers'' ''content-type,authorization,x-request-id''
       (rs_header http ''access-control-allow-methods'' ''GET,POST,PUT,PATCH,DELETE,OPTIONS,HEAD''
         (rs_header http ''access-control-allow-origin'' ''*'' (next_fn rq)))"

record Cors =
  any_origin :: bool
  cors_origins :: "string list"
  cors_methods :: string
  cors_headers :: "string option"
  cors_credentials :: bool
  cors_max_age_secs :: "nat option"

definition Cors_new :: Cors where
  "Cors_new = \<lparr>any_origin = False, cors_origins = [], cors_methods = ''GET, POST, PUT, PATCH, DELETE, OPTIONS, HEAD'',
     cors_headers = None, cors_credentials = False, cors_max_age_secs = None\<rparr>"

definition allow_any_origin :: "Cors \<Rightarrow> Cors" where
  "allow_any_origin c = c\<lparr>any_origin := True\<rparr>"

definition allow_origin :: "string \<Rightarrow> Cors \<Rightarrow> Cors" where
  "allow_origin origin c = c\<lparr>cors_origins := cors_origins c @ [origin]\<rparr>"

definition allow_methods :: "string list \<Rightarrow> Cors \<Rightarrow> Cors" where
  "allow_methods ms c = c\<lparr>cors_methods := join '', '' ms\<rparr>"

definition allow_headers :: "string list \<Rightarrow> Cors \<Rightarrow> Cors" where
  "allow_headers hs c = c\<lparr>cors_headers := Some (join '', '' hs)\<rparr>"

definition allow_credentials :: "bool \<Rightarrow> Cors \<Rightarrow> Cors" where
  "allow_credentials b c = c\<lparr>cors_credentials := b\<rparr>"

definition max_age_secs :: "nat \<Rightarrow> Cors \<Rightarrow> Cors" where
  "max_age_secs n c = c\<lparr>cors_max_age_secs := Some n\<rparr>"

definition grant_for :: "Cors \<Rightarrow> string \<Rightarrow> string option" where
  "grant_for c origin =
     (if any_origin c then if cors_credentials c then if origin \<noteq> ''null'' then Some origin else None else Some ''*''
      else if origin \<in> set (cors_origins c) then Some origin else None)"

definition apply_grant :: "http_crate \<Rightarrow> Cors \<Rightarrow> string \<Rightarrow> Response \<Rightarrow> Response" where
  "apply_grant http c allowed r =
     (let r1 = rs_header http ''access-control-allow-origin'' allowed r
      in if cors_credentials c then rs_header http ''access-control-allow-credentials'' ''true'' r1 else r1)"

definition varies_by_origin :: "Cors \<Rightarrow> bool" where
  "varies_by_origin c \<longleftrightarrow> \<not> any_origin c \<or> cors_credentials c"

definition requested_headers :: "Request \<Rightarrow> string option" where
  "requested_headers rq =
     (let vs = headers_all rq ''access-control-request-headers''
      in if vs = [] then rq_header rq ''access-control-request-headers'' else Some (join '', '' vs))"

definition preflight_response :: "http_crate \<Rightarrow> Cors \<Rightarrow> Request \<Rightarrow> string option \<Rightarrow> Response" where
  "preflight_response http c rq grant =
     (let r = rs_header http ''vary'' ''Origin, Access-Control-Request-Method, Access-Control-Request-Headers''
                (set_status http 204 (Response_send []))
      in case grant of
           None \<Rightarrow> r
         | Some allowed \<Rightarrow>
             let r1 = rs_header http ''access-control-allow-methods'' (cors_methods c) r;
                 r2 = (case (case cors_headers c of Some h \<Rightarrow> Some h | None \<Rightarrow> requested_headers rq) of
                         Some h \<Rightarrow> rs_header http ''access-control-allow-headers'' h r1 | None \<Rightarrow> r1);
                 r3 = (case cors_max_age_secs c of Some n \<Rightarrow> rs_header http ''access-control-max-age'' (show_nat n) r2 | None \<Rightarrow> r2)
             in apply_grant http c allowed r3)"

definition cors :: "http_crate \<Rightarrow> Cors \<Rightarrow> (Request \<Rightarrow> Response) \<Rightarrow> Request \<Rightarrow> Response" where
  "cors http c next_fn rq =
     (case singleton_header rq ''origin'' of
        Inl e \<Rightarrow> from_error http e
      | Inr None \<Rightarrow> next_fn rq
      | Inr (Some origin) \<Rightarrow>
          (case singleton_header rq ''access-control-request-method'' of
             Inl e \<Rightarrow> from_error http e
           | Inr requested \<Rightarrow>
               let grant = grant_for c origin in
               if rq_method rq = ''OPTIONS'' \<and> requested \<noteq> None then preflight_response http c rq grant
               else
                 let r = next_fn rq;
                     r1 = (if varies_by_origin c then append_header http ''vary'' ''Origin'' r else r)
                 in case grant of Some allowed \<Rightarrow> apply_grant http c allowed r1 | None \<Rightarrow> r1))"

section \<open>Request ids and deadlines\<close>

definition MAX_REQUEST_ID_BYTES :: nat where
  "MAX_REQUEST_ID_BYTES = 128"

definition valid_request_id :: "string \<Rightarrow> bool" where
  "valid_request_id v \<longleftrightarrow> v \<noteq> [] \<and> length v \<le> MAX_REQUEST_ID_BYTES \<and> list_all (\<lambda>c. 33 \<le> code c \<and> code c \<le> 126) v"

text \<open>The nanoseconds since the epoch and the value of the process-wide counter, which is advanced.\<close>

definition generate_request_id :: "nat \<Rightarrow> nat \<Rightarrow> string \<times> nat" where
  "generate_request_id nanos counter = (''req-'' @ show_nat nanos @ ''-'' @ show_nat counter, fetch_add counter 1)"

definition choose_request_id :: "nat \<Rightarrow> nat \<Rightarrow> Request \<Rightarrow> string \<times> nat" where
  "choose_request_id nanos counter rq =
     (case headers_all rq ''x-request-id'' of
        [v] \<Rightarrow> if valid_request_id v then (v, counter) else generate_request_id nanos counter
      | [] \<Rightarrow> (case rq_header rq ''x-request-id'' of
                 Some v \<Rightarrow> if valid_request_id v then (v, counter) else generate_request_id nanos counter
               | None \<Rightarrow> generate_request_id nanos counter)
      | _ \<Rightarrow> generate_request_id nanos counter)"

definition request_id ::
  "http_crate \<Rightarrow> nat \<Rightarrow> (Request \<Rightarrow> Response) \<Rightarrow> Request \<Rightarrow> nat \<Rightarrow> Response outcome \<times> nat" where
  "request_id http nanos next_fn rq counter =
     (case choose_request_id nanos counter rq of
        (i, counter') \<Rightarrow>
          (case rq_set_header http rq ''x-request-id'' i of
             Inl _ \<Rightarrow> (Panic, counter')
           | Inr rq' \<Rightarrow> (Val (rs_header http ''x-request-id'' i (next_fn rq')), counter')))"

text \<open>\<open>None\<close>: the rest of the chain did not answer within the duration.\<close>

definition timeout :: "http_crate \<Rightarrow> Response option \<Rightarrow> Response" where
  "timeout http answered =
     (case answered of Some r \<Rightarrow> r | None \<Rightarrow> from_error http (request_timeout ''Request Timeout''))"

end
