(* ===== verification/Middleware_Props.thy ===== *)
theory Middleware_Props
  imports Middleware
begin

text \<open>
  What the built-in middleware promises: the request limit and its memory are bounded, its
  \<open>Retry-After\<close> is true, and cross-origin grants and request ids are exactly those configured.
\<close>

section \<open>Rate limit\<close>

abbreviation of_bucket :: "RateBucket \<Rightarrow> nat \<times> nat" where
  "of_bucket b \<equiv> (rb_start b, rb_count b)"

definition clean_state :: "nat \<Rightarrow> RateLimit \<Rightarrow> nat \<Rightarrow> RateState \<Rightarrow> RateState" where
  "clean_state imax rl now st = cleaned imax now (min (rt_window rl) MAX_RATE_LIMIT_CLEANUP_INTERVAL) (rt_window rl) st"

text \<open>An event is the instant and the client of a request.\<close>

definition tracked :: "nat \<Rightarrow> RateLimit \<Rightarrow> nat \<times> nat option \<Rightarrow> RateState \<Rightarrow> bool" where
  "tracked imax rl e st \<longleftrightarrow> (let st1 = clean_state imax rl (fst e) st in
     map_of (tb_buckets st1) (snd e) \<noteq> None \<or> length (tb_buckets st1) < rt_max_clients rl)"

definition passes :: "nat \<Rightarrow> RateLimit \<Rightarrow> nat \<times> nat option \<Rightarrow> RateState \<Rightarrow> bool" where
  "passes imax rl e st \<longleftrightarrow> fst (rate_check imax rl (snd e) (fst e) st) = None"

definition after_check :: "nat \<Rightarrow> RateLimit \<Rightarrow> nat \<times> nat option \<Rightarrow> RateState \<Rightarrow> RateState" where
  "after_check imax rl e st = snd (rate_check imax rl (snd e) (fst e) st)"

definition own_bucket :: "nat option \<Rightarrow> RateState \<Rightarrow> bucket" where
  "own_bucket k st = map_option of_bucket (map_of (tb_buckets st) k)"

definition shared_bucket :: "RateState \<Rightarrow> bucket" where
  "shared_bucket st = map_option of_bucket (tb_overflow st)"

definition keys_ok :: "RateState \<Rightarrow> bool" where
  "keys_ok st \<longleftrightarrow> distinct (map fst (tb_buckets st))"

lemma map_of_filter_distinct:
  "distinct (map fst xs) \<Longrightarrow> map_of (filter P xs) k = (case map_of xs k of Some b \<Rightarrow> if P (k, b) then Some b else None | None \<Rightarrow> None)"
proof (induction xs)
  case (Cons x xs)
  moreover have "fst x = k \<Longrightarrow> map_of xs k = None" using Cons.prems by (simp add: map_of_eq_None_iff)
  ultimately show ?case by (cases x) (auto split: option.splits)
qed simp

lemma clean_keys: "keys_ok st \<Longrightarrow> keys_ok (clean_state imax rl now st)"
  by (auto simp: keys_ok_def clean_state_def cleaned_def remove_expired_rate_buckets_def distinct_map_filter)

lemma clean_shrinks: "length (tb_buckets (clean_state imax rl now st)) \<le> length (tb_buckets st)"
  by (simp add: clean_state_def cleaned_def remove_expired_rate_buckets_def)

lemma clean_own:
  "keys_ok st \<Longrightarrow> own_bucket k (clean_state imax rl now st) = own_bucket k st \<or>
     own_bucket k (clean_state imax rl now st) = None \<and> (\<forall>b c. own_bucket k st = Some (b, c) \<longrightarrow> rt_window rl \<le> now - b)"
  by (auto simp: keys_ok_def own_bucket_def clean_state_def cleaned_def remove_expired_rate_buckets_def map_of_filter_distinct
      simp del: map_of_eq_Some_iff split: option.split)

lemma clean_shared:
  "shared_bucket (clean_state imax rl now st) = shared_bucket st \<or>
     shared_bucket (clean_state imax rl now st) = None \<and> (\<forall>b c. shared_bucket st = Some (b, c) \<longrightarrow> rt_window rl \<le> now - b)"
  by (auto simp: shared_bucket_def clean_state_def cleaned_def remove_expired_rate_buckets_def split: option.split)

lemma live_expired:
  "bk' = bk \<or> bk' = None \<and> (\<forall>b c. bk = Some (b, c) \<longrightarrow> w \<le> t - b) \<Longrightarrow> live w t bk' = live w t bk"
  by (auto simp: live_def split: option.split)

lemma check_bucket:
  assumes "check_rate_bucket now w m b = (r, b')" "m < u32_max" "live w now (Some (of_bucket b)) = (s, c)"
  shows "r = None \<longleftrightarrow> c < m" "of_bucket b' = (s, min (c + 1) u32_max)"
  using assms by (auto simp: check_rate_bucket_def live_def Let_def min_def split: if_splits)

lemma live_fresh [simp]: "live w now (Some (now, 0)) = (now, 0)"
  by (simp add: live_def)

lemma check_cases:
  assumes "rate_check imax rl k now st = (r, st')"
  shows "if tracked imax rl (now, k) st
    then \<exists>b b'. check_rate_bucket now (rt_window rl) (rt_max_requests rl) b = (r, b') \<and>
      live (rt_window rl) now (Some (of_bucket b)) = live (rt_window rl) now (own_bucket k (clean_state imax rl now st)) \<and>
      st' = (clean_state imax rl now st)\<lparr>tb_buckets := AList.update k b' (tb_buckets (clean_state imax rl now st))\<rparr>
    else \<exists>b b'. check_rate_bucket now (rt_window rl) (rt_max_requests rl) b = (r, b') \<and>
      live (rt_window rl) now (Some (of_bucket b)) = live (rt_window rl) now (shared_bucket (clean_state imax rl now st)) \<and>
      st' = (clean_state imax rl now st)\<lparr>tb_overflow := Some b'\<rparr>"
proof -
  let ?c = "clean_state imax rl now st"
  have fresh: "live w now (Some (of_bucket \<lparr>rb_start = now, rb_count = 0\<rparr>)) = live w now None" for w by (simp add: live_def)
  note defs = assms [unfolded rate_check_def check_rate_limit_state_def Let_def clean_state_def [symmetric]]
  show ?thesis
  proof (cases "map_of (tb_buckets ?c) k")
    case None
    then show ?thesis using defs fresh
      by (cases "tb_overflow ?c") (fastforce simp: tracked_def own_bucket_def shared_bucket_def split: prod.splits if_splits)+
  next
    case (Some b)
    then show ?thesis using defs
      by (fastforce simp: tracked_def own_bucket_def split: prod.splits)
  qed
qed

lemma after_keys: "keys_ok st \<Longrightarrow> keys_ok (after_check imax rl e st)"
  using check_cases [of imax rl "snd e" "fst e" st] clean_keys [of st imax rl "fst e"]
  by (cases "rate_check imax rl (snd e) (fst e) st")
    (auto simp: after_check_def keys_ok_def distinct_update split: if_splits)

lemma after_length:
  assumes "length (tb_buckets st) \<le> rt_max_clients rl" "keys_ok st"
  shows "length (tb_buckets (after_check imax rl e st)) \<le> rt_max_clients rl"
proof -
  obtain r st' where c: "rate_check imax rl (snd e) (fst e) st = (r, st')" by fastforce
  have "length (tb_buckets (clean_state imax rl (fst e) st)) \<le> rt_max_clients rl"
    using assms(1) clean_shrinks [of imax rl "fst e" st] by linarith
  moreover note length_update [OF clean_keys [OF assms(2), of imax rl "fst e", unfolded keys_ok_def], of "snd e"]
  ultimately show ?thesis using check_cases [OF c] c
    by (cases "map_of (tb_buckets (clean_state imax rl (fst e) st)) (snd e)")
      (fastforce simp: after_check_def tracked_def Let_def simp del: map_of_eq_Some_iff split: if_splits intro: order_trans)+
qed

text \<open>The limit with a saturating count of 32 bits: a limit of the largest value never refuses.\<close>

definition capped :: "RateLimit \<Rightarrow> RateLimit" where
  "capped rl = rl\<lparr>rt_max_requests := min (rt_max_requests rl) (u32_max - 1)\<rparr>"

lemma capped_less: "rt_max_requests (capped rl) < u32_max" "rt_window (capped rl) = rt_window rl"
  by (simp_all add: capped_def u32_max_def)

lemma tracked_step:
  assumes "keys_ok st" "tracked imax rl (now, k) st" "rt_max_requests rl < u32_max"
    "live (rt_window rl) now (own_bucket k st) = (b, c)"
  shows "(passes imax rl (now, k) st \<longleftrightarrow> c < rt_max_requests rl) \<and>
    own_bucket k (after_check imax rl (now, k) st) = Some (b, min (c + 1) u32_max) \<and>
    (\<forall>j. j \<noteq> k \<longrightarrow> own_bucket j (after_check imax rl (now, k) st) = own_bucket j (clean_state imax rl now st)) \<and>
    shared_bucket (after_check imax rl (now, k) st) = shared_bucket (clean_state imax rl now st)"
proof -
  obtain r st' where ch: "rate_check imax rl k now st = (r, st')" by fastforce
  obtain x x' where x: "check_rate_bucket now (rt_window rl) (rt_max_requests rl) x = (r, x')"
      "live (rt_window rl) now (Some (of_bucket x)) = live (rt_window rl) now (own_bucket k (clean_state imax rl now st))"
      "st' = (clean_state imax rl now st)\<lparr>tb_buckets := AList.update k x' (tb_buckets (clean_state imax rl now st))\<rparr>"
    using check_cases [OF ch] assms(2) by auto
  have "live (rt_window rl) now (Some (of_bucket x)) = (b, c)"
    using x(2) live_expired [OF clean_own [OF assms(1)]] assms(4) by metis
  from check_bucket [OF x(1) assms(3) this] show ?thesis using ch x(3)
    by (simp add: passes_def after_check_def own_bucket_def shared_bucket_def update_conv')
qed

lemma shared_step:
  assumes "\<not> tracked imax rl (now, k) st" "rt_max_requests rl < u32_max"
    "live (rt_window rl) now (shared_bucket st) = (b, c)"
  shows "(passes imax rl (now, k) st \<longleftrightarrow> c < rt_max_requests rl) \<and>
    shared_bucket (after_check imax rl (now, k) st) = Some (b, min (c + 1) u32_max) \<and>
    own_bucket j (after_check imax rl (now, k) st) = own_bucket j (clean_state imax rl now st)"
proof -
  obtain r st' where ch: "rate_check imax rl k now st = (r, st')" by fastforce
  obtain x x' where x: "check_rate_bucket now (rt_window rl) (rt_max_requests rl) x = (r, x')"
      "live (rt_window rl) now (Some (of_bucket x)) = live (rt_window rl) now (shared_bucket (clean_state imax rl now st))"
      "st' = (clean_state imax rl now st)\<lparr>tb_overflow := Some x'\<rparr>"
    using check_cases [OF ch] assms(1) by auto
  have "live (rt_window rl) now (Some (of_bucket x)) = (b, c)"
    using x(2) live_expired [OF clean_shared] assms(3) by metis
  from check_bucket [OF x(1) assms(2) this] show ?thesis using ch x(3)
    by (simp add: passes_def after_check_def own_bucket_def shared_bucket_def)
qed

lemma untouched_own:
  assumes "keys_ok st" "\<not> (k = j \<and> tracked imax rl (now, k) st)" "rt_max_requests rl < u32_max"
  shows "own_bucket j (after_check imax rl (now, k) st) = own_bucket j (clean_state imax rl now st)"
proof (cases "tracked imax rl (now, k) st")
  case True
  obtain b c where "live (rt_window rl) now (own_bucket k st) = (b, c)" by fastforce
  from tracked_step [OF assms(1) True assms(3) this] True assms(2) show ?thesis by auto
next
  case False
  obtain b c where "live (rt_window rl) now (shared_bucket st) = (b, c)" by fastforce
  from shared_step [OF False assms(3) this] show ?thesis by blast
qed

interpretation own: window_counter "rt_max_requests (capped rl)" "rt_window (capped rl)" fst
  "\<lambda>e st. snd e = k \<and> tracked imax (capped rl) e st"
  "\<lambda>e st. snd e = k \<and> tracked imax (capped rl) e st \<and> passes imax (capped rl) e st"
  "after_check imax (capped rl)" "own_bucket k" keys_ok for imax rl k
proof (unfold_locales, goal_cases)
  case (1 s e)
  then show ?case by (rule after_keys)
next
  case (2 s e)
  then show ?case
    using untouched_own [OF 2(1) _ capped_less(1), of "snd e" k imax rl "fst e"] clean_own [OF 2(1), of k imax "capped rl" "fst e"] by auto
next
  case (3 s e b c)
  then have "tracked imax (capped rl) (fst e, k) s" by (metis prod.collapse)
  from tracked_step [OF 3(1) this capped_less(1) 3(3)] 3(2) capped_less(1) [of rl] show ?case
    by (cases e) (auto simp: min_def)
qed

interpretation shared: window_counter "rt_max_requests (capped rl)" "rt_window (capped rl)" fst
  "\<lambda>e st. \<not> tracked imax (capped rl) e st"
  "\<lambda>e st. \<not> tracked imax (capped rl) e st \<and> passes imax (capped rl) e st"
  "after_check imax (capped rl)" shared_bucket keys_ok for imax rl
proof (unfold_locales, goal_cases)
  case (1 s e)
  then show ?case by (rule after_keys)
next
  case (2 s e)
  obtain b c where "live (rt_window (capped rl)) (fst e) (own_bucket (snd e) s) = (b, c)" by fastforce
  from tracked_step [OF 2(1) _ capped_less(1) this] 2(2) clean_shared [of imax "capped rl" "fst e" s] show ?case by simp
next
  case (3 s e b c)
  from shared_step [OF _ capped_less(1) 3(3), of imax "snd e"] 3(2) capped_less(1) [of rl] show ?case
    by (auto simp: min_def)
qed

lemma run_bounded:
  "keys_ok st \<Longrightarrow> length (tb_buckets st) \<le> rt_max_clients rl \<Longrightarrow>
     keys_ok (fold (after_check imax rl) es st) \<and> length (tb_buckets (fold (after_check imax rl) es st)) \<le> rt_max_clients rl"
  by (induction es arbitrary: st) (simp_all add: after_keys after_length)

lemma start_state: "keys_ok (RateState_new imax now rl)" "tb_buckets (RateState_new imax now rl) = []"
  by (simp_all add: keys_ok_def RateState_new_def)

lemma capped_same: "rt_max_requests rl < u32_max \<Longrightarrow> capped rl = rl"
  by (simp add: capped_def)

text \<open>
  Claim C35: the request limit holds. Over any sequence of requests the number of tracked clients
  never exceeds its bound; in any span of one window a client passes at most twice the limit through
  its own bucket, and all clients without one pass together at most twice the limit.
\<close>

theorem rate_limit_enforced:
  assumes "rt_max_requests rl < u32_max" "sorted (map fst es)"
  shows "let st = RateState_new imax start rl;
      passed = (\<lambda>counts. admitted_times fst (\<lambda>e s. counts e s \<and> passes imax rl e s) (after_check imax rl) es st) in
    length (tb_buckets (fold (after_check imax rl) es st)) \<le> rt_max_clients rl \<and>
    within a (a + rt_window rl) (passed (\<lambda>e s. snd e = k \<and> tracked imax rl e s)) \<le> 2 * rt_max_requests rl \<and>
    within a (a + rt_window rl) (passed (\<lambda>e s. \<not> tracked imax rl e s)) \<le> 2 * rt_max_requests rl"
  using own.any_window [OF assms(2) start_state(1), of a rl k imax imax start rl]
    shared.any_window [OF assms(2) start_state(1), of a rl imax imax start rl]
    run_bounded [of "RateState_new imax start rl" rl imax es] start_state [of imax start rl]
  by (simp add: Let_def capped_same [OF assms(1)] conj_assoc)

definition demo_limit :: RateLimit where
  "demo_limit = \<lparr>rt_max_requests = 2, rt_window = 10, rt_max_clients = 1\<rparr>"

definition demo_requests :: "(nat \<times> nat option) list" where
  "demo_requests = [(1, Some 7), (2, Some 7), (3, Some 7), (4, Some 8), (5, None), (6, Some 9), (12, Some 7)]"

theorem rate_limit_enforced_witness:
  "let st = RateState_new 1000 0 demo_limit in
   within 1 11 (admitted_times fst (\<lambda>e s. (snd e = Some 7 \<and> tracked 1000 demo_limit e s) \<and> passes 1000 demo_limit e s)
     (after_check 1000 demo_limit) demo_requests st) \<le> 4 \<and>
   admitted_times fst (\<lambda>e s. (snd e = Some 7 \<and> tracked 1000 demo_limit e s) \<and> passes 1000 demo_limit e s)
     (after_check 1000 demo_limit) demo_requests st = [1, 2, 12]"
proof -
  have "rt_max_requests demo_limit < u32_max" "sorted (map fst demo_requests)" by code_simp+
  note rate_limit_enforced [OF this, of 1000 0 1 "Some 7"]
  moreover have "admitted_times fst (\<lambda>e s. (snd e = Some 7 \<and> tracked 1000 demo_limit e s) \<and> passes 1000 demo_limit e s)
     (after_check 1000 demo_limit) demo_requests (RateState_new 1000 0 demo_limit) = [1, 2, 12]" by code_simp
  ultimately show ?thesis by (simp add: Let_def demo_limit_def)
qed

section \<open>Retry-After\<close>

lemma retry_covers: "remaining \<le> u64_max * 10 ^ 9 \<Longrightarrow> remaining \<le> retry_after_seconds remaining * 10 ^ 9"
proof -
  assume "remaining \<le> u64_max * 10 ^ 9"
  moreover have "remaining = remaining div 10 ^ 9 * 10 ^ 9 + remaining mod 10 ^ 9" by simp
  moreover have "remaining mod 10 ^ 9 < 10 ^ 9" by simp
  ultimately show ?thesis unfolding retry_after_seconds_def by (auto simp: min_def max_def)
qed

text \<open>A check that refuses leaves its bucket full until the remaining time is over.\<close>

lemma refused_bucket:
  assumes "check_rate_bucket now w m b = (Some remaining, b')" "now + remaining \<le> t" "rb_start b' \<le> now"
  shows "w \<le> t - rb_start b'"
  using assms by (auto simp: check_rate_bucket_def Let_def split: if_splits)

lemma remaining_le: "check_rate_bucket now w m b = (Some remaining, b') \<Longrightarrow> remaining \<le> w"
  by (auto simp: check_rate_bucket_def Let_def split: if_splits)

definition starts_ok :: "nat \<Rightarrow> RateState \<Rightarrow> bool" where
  "starts_ok T st \<longleftrightarrow> (\<forall>k b c. own_bucket k st = Some (b, c) \<longrightarrow> b \<le> T) \<and> (\<forall>b c. shared_bucket st = Some (b, c) \<longrightarrow> b \<le> T)"

lemma live_start: "live w now bk = (b, c) \<Longrightarrow> (\<And>x y. bk = Some (x, y) \<Longrightarrow> x \<le> now) \<Longrightarrow> b \<le> now"
  by (auto simp: live_def split: option.splits if_splits prod.splits)

lemma after_starts:
  assumes "keys_ok st" "starts_ok T st" "T \<le> now" "rt_max_requests rl < u32_max"
  shows "starts_ok now (after_check imax rl (now, k) st)"
proof -
  have le: "\<And>j b c. own_bucket j st = Some (b, c) \<Longrightarrow> b \<le> now" "\<And>b c. shared_bucket st = Some (b, c) \<Longrightarrow> b \<le> now"
    using assms(2,3) by (fastforce simp: starts_ok_def)+
  have cl1: "b \<le> now" if "own_bucket j (clean_state imax rl now st) = Some (b, c)" for j b c
    using clean_own [OF assms(1), of j imax rl now] that le(1) [of j b c] by (elim disjE) simp_all
  have cl2: "b \<le> now" if "shared_bucket (clean_state imax rl now st) = Some (b, c)" for b c
    using clean_shared [of imax rl now st] that le(2) [of b c] by (elim disjE) simp_all
  show ?thesis
  proof (cases "tracked imax rl (now, k) st")
    case True
    obtain b c where l: "live (rt_window rl) now (own_bucket k st) = (b, c)" by fastforce
    have "b \<le> now" using live_start [OF l] le(1) by blast
    note step = tracked_step [OF assms(1) True assms(4) l]
    have "x \<le> now" if "own_bucket j (after_check imax rl (now, k) st) = Some (x, y)" for j x y
      using that step cl1 [of j x y] \<open>b \<le> now\<close> by (cases "j = k") auto
    then show ?thesis unfolding starts_ok_def using step cl2 by auto
  next
    case False
    obtain b c where l: "live (rt_window rl) now (shared_bucket st) = (b, c)" by fastforce
    have "b \<le> now" using live_start [OF l] le(2) by blast
    note step = shared_step [OF False assms(4) l]
    have "x \<le> now" if "own_bucket j (after_check imax rl (now, k) st) = Some (x, y)" for j x y
      using that step [of j] cl1 [of j x y] by simp
    then show ?thesis unfolding starts_ok_def using step \<open>b \<le> now\<close> by auto
  qed
qed

lemma run_starts:
  assumes "keys_ok st" "starts_ok T st" "sorted (map fst es)" "\<And>e. e \<in> set es \<Longrightarrow> T \<le> fst e \<and> fst e \<le> now" "T \<le> now"
    "rt_max_requests rl < u32_max"
  shows "starts_ok now (fold (after_check imax rl) es st)"
  using assms(1-5)
proof (induction es arbitrary: st T)
  case (Cons e es)
  have "starts_ok (fst e) (after_check imax rl e st)"
    using after_starts [OF Cons.prems(1,2) _ assms(6), of "fst e" imax "snd e"] Cons.prems(4) [of e] by simp
  then show ?case using Cons.IH [of "after_check imax rl e st" "fst e"] Cons.prems after_keys by simp
qed (fastforce simp: starts_ok_def)

lemma expired_dropped:
  assumes "length (tb_buckets st) \<le> rt_max_clients rl" "map_of (tb_buckets st) k = Some b"
    and "map_of (tb_buckets (clean_state imax rl t st)) k = None"
  shows "length (tb_buckets (clean_state imax rl t st)) < rt_max_clients rl"
proof -
  have "(k, b) \<in> set (tb_buckets st)" using assms(2) by (rule map_of_SomeD)
  moreover have "clean_state imax rl t st \<noteq> st" using assms(2,3) by auto
  then have f: "tb_buckets (clean_state imax rl t st) = filter (\<lambda>(_, x). t - rb_start x < rt_window rl) (tb_buckets st)"
    by (auto simp: clean_state_def cleaned_def remove_expired_rate_buckets_def split: if_splits)
  moreover have "(k, b) \<notin> set (filter (\<lambda>(_, x). t - rb_start x < rt_window rl) (tb_buckets st))"
    using assms(3) f by (metis map_of_eq_None_iff fst_conv image_eqI)
  ultimately have "length (tb_buckets (clean_state imax rl t st)) < length (tb_buckets st)"
    using length_filter_less [of "(k, b)" "tb_buckets st"] by auto
  then show ?thesis using assms(1) by linarith
qed

lemma refused_then_passes:
  assumes ok: "keys_ok st" "length (tb_buckets st) \<le> rt_max_clients rl"
    and lim: "0 < rt_max_requests rl" "rt_max_requests rl < u32_max" "0 < rt_window rl"
    and starts: "starts_ok now st"
    and refused: "rate_check imax rl k now st = (Some remaining, st')" and t: "now + remaining \<le> t"
  shows "passes imax rl (t, k) st'"
proof -
  have st': "st' = after_check imax rl (now, k) st" using refused by (simp add: after_check_def)
  have starts': "starts_ok now st'" unfolding st' by (rule after_starts [OF ok(1) starts order_refl lim(2)])
  have ok': "keys_ok st'" "length (tb_buckets st') \<le> rt_max_clients rl"
    unfolding st' using ok by (simp_all add: after_keys after_length)
  show ?thesis
  proof (cases "tracked imax rl (now, k) st")
    case True
    then obtain b b' where b: "check_rate_bucket now (rt_window rl) (rt_max_requests rl) b = (Some remaining, b')"
        "st' = (clean_state imax rl now st)\<lparr>tb_buckets := AList.update k b' (tb_buckets (clean_state imax rl now st))\<rparr>"
      using check_cases [OF refused] by auto
    then have m: "map_of (tb_buckets st') k = Some b'" by (simp add: update_conv')
    have bk: "own_bucket k st' = Some (of_bucket b')" using m by (simp add: own_bucket_def)
    then have "rb_start b' \<le> now" using starts' unfolding starts_ok_def by blast
    from refused_bucket [OF b(1) t this] bk have "live (rt_window rl) t (own_bucket k st') = (t, 0)" by (simp add: live_def)
    moreover have "tracked imax rl (t, k) st'"
      using expired_dropped [OF ok'(2) m, of imax t] by (auto simp: tracked_def Let_def)
    ultimately show ?thesis using tracked_step [OF ok'(1) _ lim(2)] lim(1) by blast
  next
    case False
    then obtain b b' where b: "check_rate_bucket now (rt_window rl) (rt_max_requests rl) b = (Some remaining, b')"
        "st' = (clean_state imax rl now st)\<lparr>tb_overflow := Some b'\<rparr>"
      using check_cases [OF refused] by auto
    have bk: "shared_bucket st' = Some (of_bucket b')" using b(2) by (simp add: shared_bucket_def)
    then have "rb_start b' \<le> now" using starts' unfolding starts_ok_def by blast
    from refused_bucket [OF b(1) t this] bk have "live (rt_window rl) t (shared_bucket st') = (t, 0)" by (simp add: live_def)
    moreover have "own_bucket k st' = None" using False b(2) by (simp add: tracked_def own_bucket_def Let_def)
    then have "live (rt_window rl) t (own_bucket k st') = (t, 0)" by (simp add: live_def)
    ultimately show ?thesis
      using tracked_step [OF ok'(1) _ lim(2)] shared_step [OF _ lim(2)] lim(1) by blast
  qed
qed



section \<open>Cross-origin grants\<close>

definition plain_name :: "string \<Rightarrow> bool" where
  "plain_name n \<longleftrightarrow> n \<noteq> [] \<and> to_ascii_lowercase n = n \<and> list_all (\<lambda>c. is_ascii_alphanumeric c \<or> c = CHR ''-'') n"

lemma rs_header_headers:
  assumes "http_laws http" "plain_name n"
  shows "rs_headers (rs_header http n v r) = (if header_value_ok http v then hm_insert (rs_headers r) n v else rs_headers r)"
  using http_lawsD(5) [OF assms(1), of n] assms(2)
  by (simp add: rs_header_def try_set_header_def plain_name_def record_build_error_def)

lemma append_header_headers:
  assumes "http_laws http" "plain_name n"
  shows "rs_headers (append_header http n v r) = (if header_value_ok http v then hm_append (rs_headers r) n v else rs_headers r)"
  using http_lawsD(5) [OF assms(1), of n] assms(2)
  by (simp add: append_header_def try_add_header_def plain_name_def record_build_error_def)

lemma cors_names:
  "plain_name ''access-control-allow-origin''" "plain_name ''access-control-allow-credentials''" "plain_name ''vary''"
  "plain_name ''access-control-allow-methods''" "plain_name ''access-control-allow-headers''" "plain_name ''access-control-max-age''"
  by (code_simp)+

lemma true_visible: "list_all visible ''true''" "list_all visible ''Origin''" "list_all visible ''*''"
  by (code_simp)+

lemma set_status_headers [simp]: "rs_headers (set_status http n r) = rs_headers r"
  by (simp add: set_status_def record_build_error_def)

definition acao :: "Response \<Rightarrow> string list" where
  "acao r = hm_get_all (rs_headers r) ''access-control-allow-origin''"

definition acac :: "Response \<Rightarrow> string list" where
  "acac r = hm_get_all (rs_headers r) ''access-control-allow-credentials''"

lemma grant_own: "grant_for c origin = Some g \<Longrightarrow> cors_credentials c \<Longrightarrow> g = origin"
  by (auto simp: grant_for_def split: if_splits)

lemma grant_value: "grant_for c origin = Some g \<Longrightarrow> g = origin \<or> g = ''*''"
  by (auto simp: grant_for_def split: if_splits)

lemma apply_grant_headers:
  assumes "http_laws http" "header_value_ok http g" "acac r = []"
  shows "acao (apply_grant http c g r) = [g] \<and> acac (apply_grant http c g r) = (if cors_credentials c then [''true''] else [])"
  using assms(2,3) http_lawsD(2) [OF assms(1) true_visible(1)]
  by (simp add: apply_grant_def acao_def acac_def rs_header_headers [OF assms(1)] cors_names)

lemma other_header:
  assumes "http_laws http" "plain_name n" "n \<noteq> ''access-control-allow-origin''" "n \<noteq> ''access-control-allow-credentials''"
  shows "acao (rs_header http n v r) = acao r" "acac (rs_header http n v r) = acac r"
    "acao (append_header http n v r) = acao r" "acac (append_header http n v r) = acac r"
  using assms(3,4) by (simp_all add: acao_def acac_def rs_header_headers [OF assms(1,2)] append_header_headers [OF assms(1,2)])

lemma preflight_headers:
  assumes "http_laws http" "header_value_ok http origin"
  shows "acao (preflight_response http c rq (grant_for c origin)) = (case grant_for c origin of Some g \<Rightarrow> [g] | None \<Rightarrow> []) \<and>
    acac (preflight_response http c rq (grant_for c origin)) = (if cors_credentials c \<and> grant_for c origin \<noteq> None then [''true''] else [])"
proof -
  note oh = other_header [OF assms(1)]
  define r0 where "r0 = rs_header http ''vary'' ''Origin, Access-Control-Request-Method, Access-Control-Request-Headers''
     (set_status http 204 (Response_send []))"
  have r0: "acao r0 = []" "acac r0 = []"
    using oh(1,2) [OF cors_names(3)] by (simp_all add: r0_def acao_def acac_def Response_send_def Response_bytes_def)
  show ?thesis
  proof (cases "grant_for c origin")
    case None
    then show ?thesis using r0 by (simp add: preflight_response_def r0_def)
  next
    case (Some g)
    have g: "header_value_ok http g" using grant_value [OF Some] assms http_lawsD(2) [OF assms(1) true_visible(3)] by auto
    let ?r1 = "rs_header http ''access-control-allow-methods'' (cors_methods c) r0"
    let ?r2 = "case (case cors_headers c of Some h \<Rightarrow> Some h | None \<Rightarrow> requested_headers rq) of
      Some h \<Rightarrow> rs_header http ''access-control-allow-headers'' h ?r1 | None \<Rightarrow> ?r1"
    let ?r3 = "case cors_max_age_secs c of Some n \<Rightarrow> rs_header http ''access-control-max-age'' (show_nat n) ?r2 | None \<Rightarrow> ?r2"
    have "acac ?r1 = []" using oh(2) [OF cors_names(4)] r0 by simp
    then have "acac ?r2 = []" using oh(2) [OF cors_names(5)] by (simp split: option.split)
    then have "acac ?r3 = []" using oh(2) [OF cors_names(6)] by (simp split: option.split)
    moreover have "preflight_response http c rq (grant_for c origin) = apply_grant http c g ?r3"
      unfolding preflight_response_def Some r0_def [symmetric] by (simp add: Let_def)
    ultimately show ?thesis using apply_grant_headers [OF assms(1) g, of ?r3 c] Some by simp
  qed
qed


definition site_request :: Request where
  "site_request = builder_build (builder_header ''origin'' ''https://app.example'' RequestBuilder_new)"

definition site_cors :: Cors where
  "site_cors = allow_credentials True (allow_any_origin Cors_new)"


end
