(* ===== verification/Conditional.thy ===== *)
theory Conditional
  imports Http_Request Http_Response
begin

text \<open>
  Conditional requests (\<open>src/app/middleware/conditional.rs\<close>): the evaluation of preconditions and
  the middleware that adds entity tags. HTTP dates and the digest are computed by other crates and
  are parameters; a \<open>SystemTime\<close> is its distance in nanoseconds from the epoch.
\<close>

section \<open>Entity tags\<close>

type_synonym SystemTime = int

datatype PreconditionResult = Proceed | NotModified | Failed | IgnoreRange

datatype TagComparison = Strong | Weak

definition strip_suffix :: "char \<Rightarrow> string \<Rightarrow> string option" where
  "strip_suffix c s = (if s \<noteq> [] \<and> last s = c then Some (butlast s) else None)"

definition etag_char :: "char \<Rightarrow> bool" where
  "etag_char c \<longleftrightarrow> code c = 33 \<or> 35 \<le> code c \<and> code c \<le> 126 \<or> 128 \<le> code c"

definition parse_entity_tag :: "string \<Rightarrow> (bool \<times> string) option" where
  "parse_entity_tag raw0 =
     (let raw = trim raw0;
          (weak, tag) = (case strip_prefix ''W/'' raw of Some t \<Rightarrow> (True, t) | None \<Rightarrow> (False, raw))
      in case strip_prefix [CHR 0x22] tag of
           None \<Rightarrow> None
         | Some rest \<Rightarrow>
             (case strip_suffix (CHR 0x22) rest of
                None \<Rightarrow> None
              | Some opaque \<Rightarrow> if list_all etag_char opaque then Some (weak, opaque) else None))"

definition strong_tag_matches :: "string \<Rightarrow> string \<Rightarrow> bool" where
  "strong_tag_matches left right =
     (case (parse_entity_tag left, parse_entity_tag right) of
        (Some (False, l), Some (False, r)) \<Rightarrow> l = r | _ \<Rightarrow> False)"

definition weak_tag_matches :: "string \<Rightarrow> string \<Rightarrow> bool" where
  "weak_tag_matches left right =
     (case (parse_entity_tag left, parse_entity_tag right) of
        (Some (_, l), Some (_, r)) \<Rightarrow> l = r | _ \<Rightarrow> False)"

text \<open>The text from \<open>start\<close> to the index is the second argument.\<close>

fun tag_list_from :: "bool \<Rightarrow> string \<Rightarrow> string \<Rightarrow> string list" where
  "tag_list_from quoted cur [] = [cur]"
| "tag_list_from quoted cur (c # cs) =
     (if c = CHR 0x22 then tag_list_from (\<not> quoted) (cur @ [c]) cs
      else if c = CHR '','' \<and> \<not> quoted then cur # tag_list_from quoted [] cs
      else tag_list_from quoted (cur @ [c]) cs)"

definition entity_tag_list :: "string \<Rightarrow> string list" where
  "entity_tag_list raw = tag_list_from False [] raw"

definition entity_tag_list_matches :: "string \<Rightarrow> string option \<Rightarrow> bool \<Rightarrow> TagComparison \<Rightarrow> bool option" where
  "entity_tag_list_matches raw current unambiguous comparison =
     (let candidates = entity_tag_list raw in
      if list_ex (\<lambda>c. trim c = ''*'') candidates then Some True
      else if \<not> unambiguous then None
      else Some (list_ex (\<lambda>c. case current of None \<Rightarrow> False
             | Some cur \<Rightarrow> (case comparison of Strong \<Rightarrow> strong_tag_matches (trim c) cur | Weak \<Rightarrow> weak_tag_matches (trim c) cur)) candidates))"

section \<open>Preconditions\<close>

definition time_seconds :: "SystemTime \<Rightarrow> nat" where
  "time_seconds t = (if t < 0 then 0 else nat t div 10 ^ 9)"

definition modified_after :: "SystemTime \<Rightarrow> SystemTime \<Rightarrow> bool" where
  "modified_after last_modified since \<longleftrightarrow> time_seconds last_modified > time_seconds since"

definition not_modified_since :: "SystemTime \<Rightarrow> SystemTime \<Rightarrow> bool" where
  "not_modified_since last_modified since \<longleftrightarrow> time_seconds last_modified \<le> time_seconds since"

definition if_range_matches :: "(string \<Rightarrow> SystemTime option) \<Rightarrow> string \<Rightarrow> string option \<Rightarrow> SystemTime option \<Rightarrow> bool" where
  "if_range_matches date raw0 etag last_modified =
     (let raw = trim raw0 in
      if starts_with [CHR 0x22] raw \<or> starts_with ''W/'' raw
      then (case etag of Some e \<Rightarrow> strong_tag_matches raw e | None \<Rightarrow> False)
      else (case (date raw, last_modified) of (Some d, Some m) \<Rightarrow> time_seconds m = time_seconds d | _ \<Rightarrow> False))"

datatype SingletonRequestHeader = MissingHeader | HeaderValue string | InvalidHeader

record ConditionalHeaders =
  ch_method :: string
  ch_if_match :: "string option"
  ch_if_none_match :: "string option"
  ch_if_unmodified_since :: "SystemTime option"
  ch_if_modified_since :: "SystemTime option"
  ch_if_range :: SingletonRequestHeader
  ch_has_range :: bool

definition combined_request_header :: "Request \<Rightarrow> string \<Rightarrow> string option" where
  "combined_request_header rq name =
     (let vs = headers_all rq name in if vs = [] then rq_header rq name else Some (join '','' vs))"

definition singleton_request_header :: "Request \<Rightarrow> string \<Rightarrow> string option" where
  "singleton_request_header rq name =
     (case headers_all rq name of [] \<Rightarrow> rq_header rq name | [v] \<Rightarrow> Some v | _ \<Rightarrow> None)"

definition singleton_request_header_state :: "Request \<Rightarrow> string \<Rightarrow> SingletonRequestHeader" where
  "singleton_request_header_state rq name =
     (case headers_all rq name of
        [] \<Rightarrow> (case rq_header rq name of Some v \<Rightarrow> HeaderValue v | None \<Rightarrow> MissingHeader)
      | [v] \<Rightarrow> HeaderValue v
      | _ \<Rightarrow> InvalidHeader)"

definition from_request :: "(string \<Rightarrow> SystemTime option) \<Rightarrow> Request \<Rightarrow> ConditionalHeaders" where
  "from_request date rq =
     \<lparr>ch_method = rq_method rq, ch_if_match = combined_request_header rq ''if-match'',
      ch_if_none_match = combined_request_header rq ''if-none-match'',
      ch_if_unmodified_since = Option.bind (singleton_request_header rq ''if-unmodified-since'') date,
      ch_if_modified_since = Option.bind (singleton_request_header rq ''if-modified-since'') date,
      ch_if_range = singleton_request_header_state rq ''if-range'', ch_has_range = rq_header rq ''range'' \<noteq> None\<rparr>"

text \<open>The first two steps of the evaluation: whether the request fails before its cache conditions.\<close>

definition match_failed :: "ConditionalHeaders \<Rightarrow> string option \<Rightarrow> bool \<Rightarrow> SystemTime option \<Rightarrow> bool" where
  "match_failed ch etag unambiguous last_modified =
     (case ch_if_match ch of
        Some v \<Rightarrow> entity_tag_list_matches v etag unambiguous Strong = Some False
      | None \<Rightarrow> (case (ch_if_unmodified_since ch, last_modified) of
                   (Some since, Some m) \<Rightarrow> modified_after m since | _ \<Rightarrow> False))"

definition evaluate_with_response_validators ::
  "(string \<Rightarrow> SystemTime option) \<Rightarrow> ConditionalHeaders \<Rightarrow> string option \<Rightarrow> bool \<Rightarrow> SystemTime option \<Rightarrow> bool \<Rightarrow> PreconditionResult" where
  "evaluate_with_response_validators date ch etag unambiguous last_modified range_requested =
     (let safe = (ch_method ch = ''GET'' \<or> ch_method ch = ''HEAD'');
          range = (if range_requested \<and> ch_has_range ch
                   then (case ch_if_range ch of
                           InvalidHeader \<Rightarrow> IgnoreRange
                         | HeaderValue v \<Rightarrow> if if_range_matches date v etag last_modified then Proceed else IgnoreRange
                         | MissingHeader \<Rightarrow> Proceed)
                   else Proceed)
      in if match_failed ch etag unambiguous last_modified then Failed
         else (case ch_if_none_match ch of
                 Some v \<Rightarrow>
                   if entity_tag_list_matches v etag unambiguous Weak = Some True
                   then if safe then NotModified else Failed
                   else range
               | None \<Rightarrow>
                   if safe then
                     (case (ch_if_modified_since ch, last_modified) of
                        (Some since, Some m) \<Rightarrow> if not_modified_since m since then NotModified else range
                      | _ \<Rightarrow> range)
                   else range))"

definition evaluate_preconditions ::
  "(string \<Rightarrow> SystemTime option) \<Rightarrow> Request \<Rightarrow> string option \<Rightarrow> SystemTime option \<Rightarrow> bool \<Rightarrow> PreconditionResult" where
  "evaluate_preconditions date rq etag last_modified range_requested =
     evaluate_with_response_validators date (from_request date rq) etag True last_modified range_requested"

section \<open>The middleware\<close>

definition BLOCKING_HASH_THRESHOLD :: nat where
  "BLOCKING_HASH_THRESHOLD = 64 * 1024"

datatype 'a SingletonResponseHeader = Missing | Valid 'a | InvalidValue

definition singleton_response_header ::
  "http_crate \<Rightarrow> HeaderMap \<Rightarrow> string \<Rightarrow> (string \<Rightarrow> 'a option) \<Rightarrow> 'a SingletonResponseHeader" where
  "singleton_response_header http h name read =
     (case hm_get_all h name of
        [] \<Rightarrow> Missing
      | [v] \<Rightarrow> if to_str_ok http v then (case read v of Some x \<Rightarrow> Valid x | None \<Rightarrow> InvalidValue) else InvalidValue
      | _ \<Rightarrow> InvalidValue)"

definition remove_failed_representation_headers :: "Response \<Rightarrow> Response" where
  "remove_failed_representation_headers r =
     r\<lparr>rs_headers := fold (\<lambda>n h. hm_remove h n)
        [''content-length'', ''content-encoding'', ''accept-ranges'', ''content-range'', ''content-md5'', ''digest'',
         ''content-digest'', ''repr-digest''] (rs_headers r)\<rparr>"

text \<open>
  A large body is hashed by another task once that is admitted; either may fail. The digest is the
  parameter \<open>sha\<close>, \<open>offload\<close> says how the task ends.
\<close>

datatype Offload = Hashed | NotScheduled BoxError | NotComputed BoxError

record etag_env =
  ev_sha256_hex :: "string \<Rightarrow> string"
  ev_date :: "string \<Rightarrow> SystemTime option"
  ev_offload :: Offload

definition compute_digest :: "etag_env \<Rightarrow> string \<Rightarrow> HttpError + string" where
  "compute_digest env body =
     (if length body \<ge> BLOCKING_HASH_THRESHOLD
      then (case ev_offload env of
              Hashed \<Rightarrow> Inr (ev_sha256_hex env body)
            | NotScheduled e \<Rightarrow> Inl (with_source e (internal_server_error ''No se pudo programar el validador de la respuesta''))
            | NotComputed e \<Rightarrow> Inl (with_source e (internal_server_error ''No se pudo calcular el validador de la respuesta'')))
      else Inr (ev_sha256_hex env body))"

text \<open>The entity tag of the response: \<open>Inl\<close> is the answer of the middleware at once.\<close>

definition response_tag :: "http_crate \<Rightarrow> etag_env \<Rightarrow> Response \<Rightarrow> Response + Response \<times> string option \<times> bool" where
  "response_tag http env r =
     (case singleton_response_header http (rs_headers r) ''etag'' (\<lambda>v. map_option (\<lambda>_. v) (parse_entity_tag v)) of
        Valid existing \<Rightarrow> Inr (r, Some existing, True)
      | InvalidValue \<Rightarrow> Inr (r, None, False)
      | Missing \<Rightarrow>
          (case body_kind r of
             BBytes body \<Rightarrow>
               (case compute_digest env body of
                  Inl e \<Rightarrow> Inl (from_error http e)
                | Inr digest \<Rightarrow>
                    let tag = [CHR 0x22] @ digest @ [CHR 0x22]
                    in Inr (rs_header http ''etag'' tag r, Some tag, True))
           | _ \<Rightarrow> Inl r))"

definition conclude :: "http_crate \<Rightarrow> bool \<Rightarrow> bool \<Rightarrow> PreconditionResult \<Rightarrow> Response \<Rightarrow> Response" where
  "conclude http etag_ok date_ok result r =
     (case result of
        Proceed \<Rightarrow> r
      | IgnoreRange \<Rightarrow> r
      | NotModified \<Rightarrow>
          let r1 = (if etag_ok then r else r\<lparr>rs_headers := hm_remove (rs_headers r) ''etag''\<rparr>);
              r2 = (if date_ok then r1 else r1\<lparr>rs_headers := hm_remove (rs_headers r1) ''last-modified''\<rparr>)
          in set_status http 304 (prepare_for_not_modified http r2)
      | Failed \<Rightarrow> set_status http 412 (remove_failed_representation_headers (clear_body_and_trailers r)))"

definition etag :: "http_crate \<Rightarrow> etag_env \<Rightarrow> (Request \<Rightarrow> Response) \<Rightarrow> Request \<Rightarrow> Response" where
  "etag http env next_fn rq =
     (let conditions = (if rq_method rq = ''GET'' \<or> rq_method rq = ''HEAD'' then Some (from_request (ev_date env) rq) else None);
          r = next_fn rq
      in if rs_status r \<noteq> 200 then r
         else (case response_tag http env r of
                 Inl early \<Rightarrow> early
               | Inr (r1, tag, etag_ok) \<Rightarrow>
                   let (modified, date_ok) =
                         (case singleton_response_header http (rs_headers r1) ''last-modified'' (ev_date env) of
                            Valid t \<Rightarrow> (Some t, True) | Missing \<Rightarrow> (None, True) | InvalidValue \<Rightarrow> (None, False))
                   in case conditions of
                        None \<Rightarrow> r1
                      | Some ch \<Rightarrow>
                          conclude http etag_ok date_ok
                            (evaluate_with_response_validators (ev_date env) ch tag etag_ok modified False) r1))"

end
