(* ===== verification/Conditional_Props.thy ===== *)
theory Conditional_Props
  imports Conditional Trim
begin

text \<open>
  Lists of entity tags are compared exactly, and a client that sends back the tag it was given is
  answered without the body.
\<close>

fun render_tag :: "bool \<times> string \<Rightarrow> string" where
  "render_tag (weak, opaque) = (if weak then ''W/'' else []) @ CHR 0x22 # opaque @ [CHR 0x22]"

definition tag_ok :: "bool \<times> string \<Rightarrow> bool" where
  "tag_ok t \<longleftrightarrow> list_all etag_char (snd t)"

lemma trimmed_tag: "trimmed (render_tag t)"
proof (cases t)
  case (Pair w v)
  have "ws_len_back (CHR 0x22 # r) = 0" "ws_len (CHR 0x22 # r) = 0" "ws_len (CHR ''W'' # r) = 0" for r
    by (simp_all add: ws_len_back_ascii ws_len_ascii ws1_def)
  then show ?thesis using Pair by (simp add: trimmed_def)
qed

lemma parse_render: "tag_ok t \<Longrightarrow> parse_entity_tag (render_tag t) = Some t"
  using trim_trimmed [OF trimmed_tag [of t]]
  by (cases t) (auto simp: parse_entity_tag_def tag_ok_def strip_suffix_def Let_def)

lemma matches_render:
  assumes "tag_ok s" "tag_ok t"
  shows "weak_tag_matches (render_tag s) (render_tag t) \<longleftrightarrow> snd s = snd t"
    "strong_tag_matches (render_tag s) (render_tag t) \<longleftrightarrow> \<not> fst t \<and> s = t"
  using parse_render [OF assms(1)] parse_render [OF assms(2)]
  by (cases s; cases t; auto simp: weak_tag_matches_def strong_tag_matches_def split: bool.splits)+

lemma list_opaque:
  "list_all etag_char v \<Longrightarrow> tag_list_from True cur (v @ rest) = tag_list_from True (cur @ v) rest"
  by (induction v arbitrary: cur) (auto simp: etag_char_def)

lemma list_tag: "tag_ok t \<Longrightarrow> tag_list_from False cur (render_tag t @ rest) = tag_list_from False (cur @ render_tag t) rest"
  by (cases t) (auto simp: tag_ok_def list_opaque)

lemma list_tags:
  "list_all tag_ok (t # ts) \<Longrightarrow>
     tag_list_from False cur (join '', '' (map render_tag (t # ts))) = (cur @ render_tag t) # map (\<lambda>t. '' '' @ render_tag t) ts"
proof (induction ts arbitrary: t cur)
  case Nil
  then show ?case using list_tag [of t cur "[]"] by simp
next
  case (Cons u ts)
  then show ?case using list_tag [of t cur] Cons.IH [of u "'' ''"] by simp
qed

lemma trim_candidates:
  "map trim (render_tag t # map (\<lambda>t. '' '' @ render_tag t) ts) = map render_tag (t # ts)"
  by (simp add: trim_space trim_trimmed trimmed_tag comp_def)

lemma render_not_star: "render_tag t \<noteq> ''*''"
  by (cases t) auto

lemma list_ex_map: "list_ex P (map f xs) = list_ex (\<lambda>x. P (f x)) xs"
  by (induction xs) auto

text \<open>The comparison of a list with the current tag.\<close>

lemma list_matches:
  assumes "ts \<noteq> []" "list_all tag_ok ts" "tag_ok cur"
  shows "entity_tag_list_matches (join '', '' (map render_tag ts)) (Some (render_tag cur)) True Weak = Some (snd cur \<in> snd ` set ts)"
    "entity_tag_list_matches (join '', '' (map render_tag ts)) (Some (render_tag cur)) True Strong = Some (\<not> fst cur \<and> cur \<in> set ts)"
proof -
  obtain t us where ts: "ts = t # us" using assms(1) by (cases ts) auto
  let ?cs = "entity_tag_list (join '', '' (map render_tag ts))"
  have cs: "map trim ?cs = map render_tag ts"
    using list_tags [of t us "[]"] trim_candidates [of t us] assms(2) ts by (simp add: entity_tag_list_def)
  then have ex: "list_ex (\<lambda>c. P (trim c)) ?cs \<longleftrightarrow> list_ex (\<lambda>t. P (render_tag t)) ts" for P
    using list_ex_map [of P trim ?cs] list_ex_map [of P render_tag ts] by simp
  have ok: "\<And>t. t \<in> set ts \<Longrightarrow> tag_ok t" using assms(2) by (simp add: list_all_iff)
  have "list_ex (\<lambda>t. weak_tag_matches (render_tag t) (render_tag cur)) ts \<longleftrightarrow> (\<exists>t\<in>set ts. snd t = snd cur)"
    unfolding list_ex_iff by (rule bex_cong [OF refl]) (simp only: ok assms(3) matches_render)
  moreover have "list_ex (\<lambda>t. strong_tag_matches (render_tag t) (render_tag cur)) ts \<longleftrightarrow> (\<exists>t\<in>set ts. \<not> fst cur \<and> t = cur)"
    unfolding list_ex_iff by (rule bex_cong [OF refl]) (simp only: ok assms(3) matches_render)
  ultimately have m: "list_ex (\<lambda>t. weak_tag_matches (render_tag t) (render_tag cur)) ts \<longleftrightarrow> snd cur \<in> snd ` set ts"
      "list_ex (\<lambda>t. strong_tag_matches (render_tag t) (render_tag cur)) ts \<longleftrightarrow> \<not> fst cur \<and> cur \<in> set ts"
    unfolding image_iff by metis+
  have "\<not> list_ex (\<lambda>c. trim c = ''*'') ?cs" using ex [of "\<lambda>c. c = ''*''"] render_not_star by (simp add: list_ex_iff)
  then show "entity_tag_list_matches (join '', '' (map render_tag ts)) (Some (render_tag cur)) True Weak = Some (snd cur \<in> snd ` set ts)"
    "entity_tag_list_matches (join '', '' (map render_tag ts)) (Some (render_tag cur)) True Strong = Some (\<not> fst cur \<and> cur \<in> set ts)"
    using m ex [of "\<lambda>c. weak_tag_matches c (render_tag cur)"] ex [of "\<lambda>c. strong_tag_matches c (render_tag cur)"]
    by (simp_all add: entity_tag_list_matches_def Let_def)
qed

section \<open>Revalidation\<close>

definition etags :: "Response \<Rightarrow> string list" where
  "etags r = hm_get_all (rs_headers r) ''etag''"

lemma build_error_headers [simp]: "rs_headers (record_build_error r e) = rs_headers r"
  by (simp add: record_build_error_def)

lemma content_length_etags:
  "response_content_length http h = Inr (h', n) \<Longrightarrow> hm_get_all h' ''etag'' = hm_get_all h ''etag''"
  by (auto simp: response_content_length_def split: sum.splits option.splits)

lemma validated_etags: "etags (validate_selected_representation http r) = etags r"
proof -
  let ?r1 = "case rs_trailers r of
      Some trailers \<Rightarrow> (case validate_response_trailers http (rs_headers r) trailers of Inl e \<Rightarrow> record_build_error r e | Inr _ \<Rightarrow> r)
    | None \<Rightarrow> if hm_contains (rs_headers r) ''trailer'' then record_build_error r TrailerWithoutFields else r"
  let ?r2 = "if hm_contains (rs_headers ?r1) ''transfer-encoding'' then record_build_error ?r1 ExplicitTransferEncoding else ?r1"
  have h: "rs_headers ?r2 = rs_headers r" by (auto split: option.split sum.split)
  obtain r3 n where r3: "(case response_content_length http (rs_headers ?r2) of
      Inl e \<Rightarrow> (record_build_error ?r2 e, None) | Inr (h, n) \<Rightarrow> (?r2\<lparr>rs_headers := h\<rparr>, n)) = (r3, n)" by fastforce
  have "etags r3 = etags r"
    using r3 h content_length_etags [of http "rs_headers ?r2"] by (auto simp: etags_def split: sum.splits)
  then show ?thesis unfolding validate_selected_representation_def Let_def r3
    by (auto simp: etags_def split: BodyKind.split option.split)
qed

lemma not_modified_etags: "etags (prepare_for_not_modified http r) = etags r"
  using validated_etags [of http r] by (simp add: prepare_for_not_modified_def clear_body_and_trailers_def clear_body_def etags_def)

lemma not_modified_body: "body_kind (set_status http s (prepare_for_not_modified http r)) = BEmpty"
  by (simp add: prepare_for_not_modified_def clear_body_and_trailers_def clear_body_def set_status_def record_build_error_def)

lemma new_tag:
  assumes "http_laws http" "etags r = []" "body_kind r = BBytes body" "compute_digest env body = Inr digest"
    "list_all is_ascii_hexdigit digest"
  shows "response_tag http env r =
      Inr (r\<lparr>rs_headers := hm_insert (rs_headers r) ''etag'' (render_tag (False, digest))\<rparr>, Some (render_tag (False, digest)), True)"
    "tag_ok (False, digest)"
proof -
  have "list_all visible (render_tag (False, digest))"
    using assms(5) by (auto simp: list_all_iff visible_def is_ascii_hexdigit_def is_ascii_digit_def)
  then have "header_value_ok http (render_tag (False, digest))" by (rule http_lawsD(2) [OF assms(1)])
  moreover have "header_name http ''etag'' = Some ''etag''"
    using http_lawsD(5) [OF assms(1), of "''etag''"] by (simp add: to_ascii_lowercase_def to_lower_def is_ascii_upper_def is_ascii_alphanumeric_def is_ascii_lower_def)
  ultimately show "response_tag http env r =
      Inr (r\<lparr>rs_headers := hm_insert (rs_headers r) ''etag'' (render_tag (False, digest))\<rparr>, Some (render_tag (False, digest)), True)"
    using assms by (simp add: response_tag_def singleton_response_header_def etags_def rs_header_def try_set_header_def Let_def)
  show "tag_ok (False, digest)"
    using assms(5) by (auto simp: tag_ok_def list_all_iff etag_char_def is_ascii_hexdigit_def is_ascii_digit_def)
qed

lemma set_status_ok: "http_laws http \<Longrightarrow> 100 \<le> n \<Longrightarrow> n \<le> 999 \<Longrightarrow> set_status http n r = r\<lparr>rs_status := n\<rparr>"
  by (simp add: set_status_def http_lawsD(4))

text \<open>
  Claim C38: revalidation round trip. A buffered 200 response without an entity tag gets the quoted
  digest of its body as its only tag. A \<open>GET\<close> or \<open>HEAD\<close> whose \<open>If-None-Match\<close> is any list of
  well-formed tags, commas inside them included, is answered 304 with that tag and no body exactly
  when the digest is among them, weak or strong, and with the unchanged body otherwise.
\<close>

theorem etag_revalidates:
  assumes "http_laws http" "rq_method rq = ''GET'' \<or> rq_method rq = ''HEAD''"
    and "combined_request_header rq ''if-match'' = None" "singleton_request_header rq ''if-unmodified-since'' = None"
    and "combined_request_header rq ''if-none-match'' = Some (join '', '' (map render_tag ts))" "ts \<noteq> []" "list_all tag_ok ts"
    and "rs_status (next_fn rq) = 200" "body_kind (next_fn rq) = BBytes body" "etags (next_fn rq) = []"
    and "compute_digest env body = Inr digest" "list_all is_ascii_hexdigit digest"
  shows "let r = etag http env next_fn rq in
    etags r = [render_tag (False, digest)] \<and>
    (if digest \<in> snd ` set ts then rs_status r = 304 \<and> body_kind r = BEmpty
     else rs_status r = 200 \<and> body_kind r = BBytes body)"
proof -
  let ?tag = "render_tag (False, digest)"
  let ?r1 = "(next_fn rq)\<lparr>rs_headers := hm_insert (rs_headers (next_fn rq)) ''etag'' ?tag\<rparr>"
  note tag = new_tag [OF assms(1,10,9,11,12)]
  obtain modified date_ok where m: "(case singleton_response_header http (rs_headers ?r1) ''last-modified'' (ev_date env) of
      Valid t \<Rightarrow> (Some t, True) | Missing \<Rightarrow> (None, True) | InvalidValue \<Rightarrow> (None, False)) = (modified, date_ok)" by fastforce
  have "evaluate_with_response_validators (ev_date env) (from_request (ev_date env) rq) (Some ?tag) True modified False =
      (if digest \<in> snd ` set ts then NotModified else Proceed)"
    using assms(2-5) list_matches(1) [OF assms(6,7) tag(2)]
    by (auto simp: evaluate_with_response_validators_def match_failed_def from_request_def Let_def)
  then have eq: "etag http env next_fn rq = conclude http True date_ok (if digest \<in> snd ` set ts then NotModified else Proceed) ?r1"
    using assms(2,8) tag(1) m by (auto simp: etag_def Let_def)
  have e1: "etags ?r1 = [?tag]" by (simp add: etags_def)
  show ?thesis
  proof (cases "digest \<in> snd ` set ts")
    case True
    let ?r2 = "if date_ok then ?r1 else ?r1\<lparr>rs_headers := hm_remove (rs_headers ?r1) ''last-modified''\<rparr>"
    have "etags ?r2 = [?tag]" using e1 by (simp add: etags_def)
    moreover have "etag http env next_fn rq = set_status http 304 (prepare_for_not_modified http ?r2)"
      using eq True by (simp add: conclude_def Let_def)
    ultimately show ?thesis using True not_modified_etags [of http ?r2] not_modified_body [of http 304 ?r2]
      by (simp add: Let_def etags_def set_status_ok [OF assms(1)])
  next
    case False
    then show ?thesis using eq e1 assms(8,9) by (simp add: conclude_def Let_def)
  qed
qed

definition demo_etag_env :: etag_env where
  "demo_etag_env = \<lparr>ev_sha256_hex = (\<lambda>b. ''5e'' @ show_nat (length b)), ev_date = (\<lambda>_. None), ev_offload = Hashed\<rparr>"

definition revalidation :: Request where
  "revalidation = builder_build (builder_header ''if-none-match'' (join '', '' (map render_tag [(False, ''a,b''), (True, ''5e2'')]))
     RequestBuilder_new)"

theorem etag_revalidates_witness:
  "rs_status (etag demo_http demo_etag_env (\<lambda>_. Response_send ''hi'') revalidation) = 304"
proof -
  have p: "rq_method revalidation = ''GET'' \<or> rq_method revalidation = ''HEAD''"
    "combined_request_header revalidation ''if-match'' = None" "singleton_request_header revalidation ''if-unmodified-since'' = None"
    "combined_request_header revalidation ''if-none-match'' = Some (join '', '' (map render_tag [(False, ''a,b''), (True, ''5e2'')]))"
    "list_all tag_ok [(False, ''a,b''), (True, ''5e2'')]" "rs_status (Response_send ''hi'') = 200"
    "body_kind (Response_send ''hi'') = BBytes ''hi''" "etags (Response_send ''hi'') = []"
    "compute_digest demo_etag_env ''hi'' = Inr ''5e2''" "list_all is_ascii_hexdigit ''5e2''" by code_simp+
  have "''5e2'' \<in> snd ` set [(False, ''a,b''), (True, ''5e2'')]" by simp
  with etag_revalidates [OF demo_http_laws p(1-4) _ p(5), of "\<lambda>_. Response_send ''hi''" "''hi''" demo_etag_env "''5e2''"] p(6-10)
  show ?thesis by (simp add: Let_def)
qed

end
