(* ===== verification/Spec2Isabelle.thy ===== *)
theory Spec2Isabelle
  imports Prelude Route_Pattern Trie Host_Pattern Static_Files Router Router_Invariant Router_Lookup Router_Props Http1 Http1_Props Http1_Stream
    Cookie Session_Store Session_Inv Session_Ops Session_Set Sessions Session_Props
    Trim Http_Types Http_Error Http_Body Http_Response Http_Response_Props Http_Request Http_Request_Props
    Session_Middleware Session_Middleware_Props
    Ws_Config Ws_Handshake App App_Props App_Onion Ip_Address Request_Head Server Server_Props
    Refinement Ws_Broker Ws_Registry Ws_Presence Ws_Registry_Props Ws_Hub Ws_Hub_Props
    Window_Counter Ws_Socket Ws_Driver Ws_Driver_Props
    Sse Middleware Middleware_Props Conditional Conditional_Props
begin

text \<open>
  RustRest is an HTTP framework in Rust: a router, an application that runs handlers inside
  middleware, a server in front of it, sessions, and WebSocket connections with rooms and brokers.
  This development translates the parts of it that decide something into executable definitions, one
  theory or group of theories for each source file under \<open>src/src/app/\<close>, and proves what they
  promise. Paths below are relative to that directory.

  \<^bold>\<open>Conventions.\<close> A Rust string is the list of its UTF-8 bytes as \<^typ>\<open>string\<close>. A fallible call
  returns a sum, an error on the left; a call that may panic returns an \<open>outcome\<close>. Instants and
  durations are nanoseconds, with the largest instant a parameter (\<open>imax\<close>); counters wrap or saturate
  where the code's do. A hash map is an association list and a B-tree set a sorted list. Code of other
  crates (MAC, base64, JSON, random ids, the transport, the broker) is an argument of the definitions
  that call it, and what is relied on is a hypothesis of the theorem. Asynchronous code is translated
  one atomic section at a time, and schedules of sections are lists.

  \<^bold>\<open>Shared.\<close> \<open>Prelude\<close> has bytes, strings, UTF-8, integers at their width, instants and lemmas on
  lists and maps; \<open>Trim\<close> has white space; \<open>Refinement\<close> has the locale of simulations, interpreted by
  the registry; \<open>Window_Counter\<close> that of counters over fixed windows, interpreted by the driver and
  twice by the request limit.

  \<^bold>\<open>Routing\<close> (\<open>router.rs\<close>, \<open>trie.rs\<close>). \<open>Route_Pattern\<close>, \<open>Host_Pattern\<close>, \<open>Trie\<close>, \<open>Static_Files\<close> and
  \<open>Router\<close> model patterns, hosts, the index with its iterative lookups, the sanitising of file paths
  and the registration, mounting and resolution of routes. \<open>Router_Invariant\<close>, \<open>Router_Lookup\<close> and
  \<open>Router_Props\<close> show that every program of registrations keeps the router well formed, that the
  lookup agrees with a specification over the list of routes, that generated URLs lead back to their
  route, that refused registrations are undone, and where scoped middleware differs from routing.

  \<^bold>\<open>Framing\<close> (\<open>http1.rs\<close>). \<open>Http1\<close> models the inspector that reads HTTP/1 bytes beside the protocol
  library; \<open>Http1_Props\<close> and \<open>Http1_Stream\<close> show that its verdicts do not depend on how reads cut the
  stream, that it fails closed and that its memory is bounded.

  \<^bold>\<open>Messages\<close> (\<open>body.rs\<close>, \<open>error.rs\<close>, \<open>request.rs\<close>, \<open>response.rs\<close>, \<open>cookie.rs\<close>). \<open>Http_Types\<close>,
  \<open>Http_Error\<close>, \<open>Http_Body\<close>, \<open>Http_Request\<close>, \<open>Http_Response\<close> and \<open>Cookie\<close>, with their \<open>_Props\<close>, show
  that a finalised response is well framed, that the views of the headers of a request agree, that
  collecting a body respects both limits, and that cookies cannot inject attributes.

  \<^bold>\<open>Sessions\<close> (\<open>session.rs\<close>). \<open>Session_Store\<close>, \<open>Session_Ops\<close>, \<open>Session_Set\<close>, \<open>Sessions\<close> and
  \<open>Session_Middleware\<close> model the sharded store, the handle and the middleware. \<open>Session_Inv\<close>,
  \<open>Session_Props\<close> and \<open>Session_Middleware_Props\<close> show that the store stays bounded with an exact
  expiry index, that values last as long as they should, and which session a request gets.

  \<^bold>\<open>Application and server\<close> (\<open>server.rs\<close>, \<open>handler.rs\<close>). \<open>App\<close>, \<open>App_Onion\<close>, \<open>Ip_Address\<close>,
  \<open>Request_Head\<close> and \<open>Server\<close> model configuration, the onion of middleware, unmatched requests,
  deadlines, the validation of heads and protocol detection. \<open>App_Props\<close> and \<open>Server_Props\<close> show that
  every request is answered, in which order middleware runs, and which heads are accepted.

  \<^bold>\<open>Middleware and events\<close> (\<open>middleware/mod.rs\<close>, \<open>middleware/conditional.rs\<close>, \<open>sse.rs\<close>). \<open>Middleware\<close>
  models the request limit, cross-origin grants and request ids, \<open>Conditional\<close> preconditions and
  entity tags, \<open>Sse\<close> the text of events. \<open>Middleware_Props\<close> shows that the limit and its memory are
  bounded, that \<open>Retry-After\<close> is true and that grants are those configured; \<open>Conditional_Props\<close> that
  revalidation works; \<open>Sse\<close> that a client following the HTML standard reads back the events.

  \<^bold>\<open>WebSocket\<close> (\<open>websocket.rs\<close> and \<open>websocket/\<close>). \<open>Ws_Config\<close> and \<open>Ws_Handshake\<close> model configuration
  and the upgrade; \<open>Ws_Broker\<close>, \<open>Ws_Registry\<close> and \<open>Ws_Hub\<close> the registry of connections and rooms and
  the broadcasts; \<open>Ws_Socket\<close> the queues between application and connection; \<open>Ws_Driver\<close> the task that
  drives a connection. \<open>Ws_Presence\<close> is an abstract specification of the registry, which
  \<open>Ws_Registry_Props\<close> proves to be refined by it; \<open>Ws_Hub_Props\<close> shows what a broadcast reaches on
  another node, and \<open>Ws_Driver_Props\<close> the order of frames, that closes end and the rate limit.

  \<^bold>\<open>Bounds.\<close> Loops of the code are structural recursions or have a termination proof over the input
  still to be read; no fuel bounds a result. Steps of the driver are total, and a schedule is as long
  as its list. A turn of the driver is atomic: what other tasks do while it awaits is placed before or
  after it, and the second clock reading of a turn is a separate argument.

  \<^bold>\<open>Not modelled.\<close> The accept loop, the drain at shutdown, TLS, file streaming and the tasks that
  spawn and supervise a connection are input and output around the parts above. Compression, forms,
  extractors, the OpenAPI document, the test client and the demonstration program are not translated.
  Helper definitions belong to the operation that uses them, and raw WebSocket frames are left out.
\<close>

end
